(* ===== verification/Prelude.thy ===== *)
theory Prelude
  imports Main "HOL-Library.Char_ord" "HOL-Library.List_Lexorder"
begin

text \<open>
  Shared ground of the development: the collections of simplification rules, Python's
  text type and the operations of \<^verbatim>\<open>str\<close> and \<^verbatim>\<open>bytes\<close> the modelled code calls, Python
  dictionaries as association lists, and generic lemmas on lists.

  A Python \<^verbatim>\<open>str\<close> is modelled by its UTF-8 encoding, a list of bytes of type \<^typ>\<open>string\<close>,
  which is also what \<^verbatim>\<open>.encode("utf-8")\<close> returns and what files hold. Concatenation,
  equality, \<^verbatim>\<open>startswith\<close>, \<^verbatim>\<open>in\<close>, splitting at an ASCII separator and comparison by code point
  all commute with the encoding. Case mapping and the white space that \<^verbatim>\<open>strip\<close> removes are those
  of the ASCII range; letters beyond it pass through unchanged.
\<close>

section \<open>Collections of rules\<close>

named_theorems py_simps \<open>evaluation of the Python library operations\<close>
named_theorems inv_intros \<open>preservation of component invariants\<close>

section \<open>Bytes and text\<close>

type_synonym bytes = string

definition code_of :: "char \<Rightarrow> int" where
  "code_of c = of_char c"

definition is_space :: "char \<Rightarrow> bool" where
  "is_space c \<longleftrightarrow> c \<in> {CHR '' '', CHR 0x09, CHR 0x0A, CHR 0x0B, CHR 0x0C, CHR 0x0D}"

definition is_digit :: "char \<Rightarrow> bool" where
  "is_digit c \<longleftrightarrow> 48 \<le> code_of c \<and> code_of c \<le> 57"

definition is_upper :: "char \<Rightarrow> bool" where
  "is_upper c \<longleftrightarrow> 65 \<le> code_of c \<and> code_of c \<le> 90"

definition is_lower :: "char \<Rightarrow> bool" where
  "is_lower c \<longleftrightarrow> 97 \<le> code_of c \<and> code_of c \<le> 122"

definition lower_char :: "char \<Rightarrow> char" where
  "lower_char c = (if is_upper c then char_of (code_of c + 32) else c)"

definition upper_char :: "char \<Rightarrow> char" where
  "upper_char c = (if is_lower c then char_of (code_of c - 32) else c)"

text \<open>\<^verbatim>\<open>s.lower()\<close>, \<^verbatim>\<open>s.upper()\<close>.\<close>

definition py_lower :: "string \<Rightarrow> string" where
  "py_lower s = map lower_char s"

definition py_upper :: "string \<Rightarrow> string" where
  "py_upper s = map upper_char s"

text \<open>\<^verbatim>\<open>s.lstrip()\<close>, \<^verbatim>\<open>s.rstrip()\<close>, \<^verbatim>\<open>s.strip()\<close>, and \<^verbatim>\<open>s.strip(chars)\<close>.\<close>

definition strip_if :: "(char \<Rightarrow> bool) \<Rightarrow> string \<Rightarrow> string" where
  "strip_if p s = rev (dropWhile p (rev (dropWhile p s)))"

definition py_lstrip :: "string \<Rightarrow> string" where
  "py_lstrip s = dropWhile is_space s"

definition py_strip :: "string \<Rightarrow> string" where
  "py_strip s = strip_if is_space s"

text \<open>\<^verbatim>\<open>s.startswith(p)\<close>, \<^verbatim>\<open>s.endswith(p)\<close> and \<^verbatim>\<open>p in s\<close>.\<close>

fun starts_with :: "string \<Rightarrow> string \<Rightarrow> bool" where
  "starts_with s [] = True"
| "starts_with [] (p # ps) = False"
| "starts_with (c # s) (p # ps) = (c = p \<and> starts_with s ps)"

definition ends_with :: "string \<Rightarrow> string \<Rightarrow> bool" where
  "ends_with s p = starts_with (rev s) (rev p)"

fun contains :: "string \<Rightarrow> string \<Rightarrow> bool" where
  "contains [] p = (p = [])"
| "contains (c # s) p = (starts_with (c # s) p \<or> contains s p)"

text \<open>\<^verbatim>\<open>s.split(c)\<close> for a one-byte separator: always at least one part.\<close>

fun split_on :: "'a \<Rightarrow> 'a list \<Rightarrow> 'a list list" where
  "split_on c [] = [[]]"
| "split_on c (x # xs) =
     (if x = c then [] # split_on c xs
      else (case split_on c xs of [] \<Rightarrow> [[x]] | p # ps \<Rightarrow> (x # p) # ps))"

text \<open>\<^verbatim>\<open>sep.join(parts)\<close>.\<close>

fun join_with :: "'a list \<Rightarrow> 'a list list \<Rightarrow> 'a list" where
  "join_with sep [] = []"
| "join_with sep [p] = p"
| "join_with sep (p # q # ps) = p @ sep @ join_with sep (q # ps)"

text \<open>
  Iterating over a binary file: the lines with their terminating newline; the last one
  may lack it, and an empty rest gives no line.
\<close>

fun file_lines :: "bytes \<Rightarrow> bytes list" where
  "file_lines [] = []"
| "file_lines (c # cs) =
     (if c = CHR 0x0A then [c] # file_lines cs
      else (case file_lines cs of [] \<Rightarrow> [[c]] | l # ls \<Rightarrow> (c # l) # ls))"

text \<open>\<^verbatim>\<open>bool(line.strip())\<close>: whether any byte is not white space.\<close>

definition nonblank :: "bytes \<Rightarrow> bool" where
  "nonblank l \<longleftrightarrow> py_strip l \<noteq> []"

section \<open>Decimal integers\<close>

function digits_of :: "int \<Rightarrow> string" where
  "digits_of n = (if n < 10 then [char_of (48 + n)]
                  else digits_of (n div 10) @ [char_of (48 + n mod 10)])"
  by pat_completeness auto
termination
  by (relation "measure nat") auto

declare digits_of.simps [simp del]

text \<open>\<^verbatim>\<open>str(n)\<close> for an integer.\<close>

definition str_int :: "int \<Rightarrow> string" where
  "str_int i = (if i < 0 then ''-'' @ digits_of (- i) else digits_of i)"

definition digit_val :: "char \<Rightarrow> int" where
  "digit_val c = code_of c - 48"

text \<open>\<^verbatim>\<open>int(s)\<close> for a string of decimal digits.\<close>

definition int_of_digits :: "string \<Rightarrow> int" where
  "int_of_digits s = foldl (\<lambda>n c. 10 * n + digit_val c) 0 s"

section \<open>Dictionaries\<close>

text \<open>
  A Python \<^verbatim>\<open>dict\<close> with string keys is an association list with distinct keys in insertion
  order. Assigning to a present key keeps its position.
\<close>

type_synonym 'v pydict = "(string \<times> 'v) list"

fun dict_set :: "string \<Rightarrow> 'v \<Rightarrow> 'v pydict \<Rightarrow> 'v pydict" where
  "dict_set k v [] = [(k, v)]"
| "dict_set k v ((k', v') # d) = (if k = k' then (k, v) # d else (k', v') # dict_set k v d)"

text \<open>\<^verbatim>\<open>{**d, **e}\<close>: the entries of \<open>e\<close> written over those of \<open>d\<close> one by one.\<close>

definition dict_merge :: "'v pydict \<Rightarrow> 'v pydict \<Rightarrow> 'v pydict" where
  "dict_merge d e = foldl (\<lambda>acc (k, v). dict_set k v acc) d e"

definition dict_del :: "string \<Rightarrow> 'v pydict \<Rightarrow> 'v pydict" where
  "dict_del k d = filter (\<lambda>(k', v). k' \<noteq> k) d"

definition dict_get :: "'v pydict \<Rightarrow> string \<Rightarrow> 'v option" where
  "dict_get d k = map_of d k"

definition dict_ok :: "'v pydict \<Rightarrow> bool" where
  "dict_ok d \<longleftrightarrow> distinct (map fst d)"

section \<open>Python slices\<close>

text \<open>\<^verbatim>\<open>xs[i:]\<close> with a possibly negative or out-of-range index.\<close>

definition slice_from :: "int \<Rightarrow> 'a list \<Rightarrow> 'a list" where
  "slice_from i xs =
     (let n = int (length xs) in drop (nat (if i < 0 then max 0 (n + i) else i)) xs)"

section \<open>Lemmas\<close>

lemma code_of_Char [simp]:
  "code_of (Char b0 b1 b2 b3 b4 b5 b6 b7) =
     of_bool b0 + 2 * (of_bool b1 + 2 * (of_bool b2 + 2 * (of_bool b3
       + 2 * (of_bool b4 + 2 * (of_bool b5 + 2 * (of_bool b6 + 2 * of_bool b7))))))"
  by (simp add: code_of_def)

lemma code_of_bounds [simp]: "code_of c < 256" "0 \<le> code_of c"
proof -
  have "code_of c = int (of_char c)" by (simp add: code_of_def of_nat_of_char)
  then show "code_of c < 256" "0 \<le> code_of c" by simp_all
qed

lemma code_of_div_mod:
  "0 \<le> code_of c div 16" "code_of c div 16 < 16" "0 \<le> code_of c mod 16" "code_of c mod 16 < 16"
  using code_of_bounds [of c] by (simp_all add: pos_imp_zdiv_nonneg_iff, presburger)

lemma code_of_char_of [simp]: "0 \<le> n \<Longrightarrow> n < 256 \<Longrightarrow> code_of (char_of n) = n"
  by (simp add: code_of_def)

lemma char_of_code_of [simp]: "char_of (code_of c) = c"
  by (simp add: code_of_def)

lemma code_of_inj: "code_of a = code_of b \<longleftrightarrow> a = b"
  by (metis char_of_code_of)

lemma starts_with_iff: "starts_with s p \<longleftrightarrow> (\<exists>t. s = p @ t)"
  by (induction s p rule: starts_with.induct) auto

lemma starts_with_append [simp]: "starts_with (p @ t) p"
  by (auto simp: starts_with_iff)

lemma contains_iff: "contains s p \<longleftrightarrow> (\<exists>a b. s = a @ p @ b)"
proof (induction s)
  case Nil
  then show ?case by auto
next
  case (Cons c s)
  have "(\<exists>a b. c # s = a @ p @ b) \<longleftrightarrow> (\<exists>b. c # s = p @ b) \<or> (\<exists>a b. s = a @ p @ b)"
    by (metis append_Cons append_Nil append_eq_Cons_conv)
  with Cons show ?case by (simp add: starts_with_iff)
qed

lemma nonblank_iff: "nonblank l \<longleftrightarrow> (\<exists>c \<in> set l. \<not> is_space c)"
  by (auto simp: nonblank_def py_strip_def strip_if_def dropWhile_eq_Nil_conv)
    (metis set_dropWhileD hd_dropWhile hd_in_set dropWhile_eq_Nil_conv)+

lemma nonblank_append [simp]: "nonblank (a @ b) \<longleftrightarrow> nonblank a \<or> nonblank b"
  by (auto simp: nonblank_iff)

lemma nonblank_Nil [simp]: "\<not> nonblank []"
  by (simp add: nonblank_iff)

lemma nonblank_newline [simp]: "\<not> nonblank [CHR 0x0A]"
  by (simp add: nonblank_iff is_space_def)

lemma split_on_nonempty [simp]: "split_on c s \<noteq> []"
  by (induction s) (auto split: list.splits)

lemma split_on_no_sep: "c \<notin> set s \<Longrightarrow> split_on c s = [s]"
  by (induction s) auto

lemma split_on_append_sep: "split_on c (a @ c # b) = split_on c a @ split_on c b"
  by (induction a) (auto split: list.splits)

lemma join_split [simp]: "join_with [c] (split_on c s) = s"
proof (induction s)
  case (Cons x s)
  then show ?case
    by (cases "split_on c s"; cases "tl (split_on c s)") auto
qed simp

lemma file_lines_concat [simp]: "concat (file_lines s) = s"
  by (induction s) (auto split: list.splits)

lemma file_lines_nonempty: "s \<noteq> [] \<Longrightarrow> file_lines s \<noteq> []"
  by (cases s) (auto split: list.splits)

lemma file_lines_snoc:
  assumes "CHR 0x0A \<notin> set l"
  shows "file_lines (l @ CHR 0x0A # s) = (l @ [CHR 0x0A]) # file_lines s"
  using assms by (induction l) auto

lemma file_lines_append:
  assumes "a = [] \<or> last a = CHR 0x0A"
  shows "file_lines (a @ b) = file_lines a @ file_lines b"
  using assms
proof (induction a)
  case (Cons c a)
  show ?case
  proof (cases "a = []")
    case True
    with Cons.prems show ?thesis by simp
  next
    case False
    with Cons have "file_lines (a @ b) = file_lines a @ file_lines b" by simp
    with False show ?thesis
      using file_lines_nonempty [OF False] by (auto split: list.splits)
  qed
qed simp

lemma dict_get_set [simp]: "dict_get (dict_set k v d) k' = (if k' = k then Some v else dict_get d k')"
  by (induction d) (auto simp: dict_get_def)

lemma keys_dict_set: "fst ` set (dict_set k v d) = insert k (fst ` set d)"
  by (induction d) (force split: if_splits)+

lemma dict_ok_set: "dict_ok d \<Longrightarrow> dict_ok (dict_set k v d)"
  unfolding dict_ok_def by (induction d) (auto simp: keys_dict_set)

lemma dict_ok_merge: "dict_ok d \<Longrightarrow> dict_ok (dict_merge d e)"
  unfolding dict_merge_def by (induction e arbitrary: d) (auto intro: dict_ok_set)

lemma dict_get_merge:
  "k \<notin> fst ` set e \<Longrightarrow> dict_get (dict_merge d e) k = dict_get d k"
  unfolding dict_merge_def by (induction e arbitrary: d) force+

lemma dict_get_del [simp]: "dict_get (dict_del k d) k' = (if k' = k then None else dict_get d k')"
  by (induction d) (auto simp: dict_get_def dict_del_def)

lemma dict_set_absent: "dict_get d k = None \<Longrightarrow> dict_set k v d = d @ [(k, v)]"
  by (induction d) (auto simp: dict_get_def split: if_splits)

end
