(* ===== verification/Py_Float.thy ===== *)
theory Py_Float
  imports Prelude Complex_Main
begin

text \<open>
  Python's \<^verbatim>\<open>float\<close>, an IEEE 754 binary64 number. A finite float is the rational it stands
  for; every arithmetic operation rounds its exact result to the nearest double, ties to even,
  with gradual underflow at \<open>2\<^sup>-\<^sup>1\<^sup>0\<^sup>7\<^sup>4\<close>. Overflow to infinity is written out where text is read
  (\<open>float_of\<close>), the one place where the modelled code can meet a number that large.
  \<open>repr_float\<close> is the shortest decimal that reads back as the same double.
\<close>

section \<open>Rounding\<close>

text \<open>\<^verbatim>\<open>n.bit_length()\<close>.\<close>

function nbits :: "int \<Rightarrow> int" where
  "nbits n = (if n \<le> 0 then 0 else 1 + nbits (n div 2))"
  by pat_completeness auto
termination
  by (relation "measure nat") auto

declare nbits.simps [simp del]

text \<open>The exponent \<open>e\<close> with \<open>2\<^sup>e \<le> x < 2\<^sup>e\<^sup>+\<^sup>1\<close>, for positive \<open>x\<close>.\<close>

definition flog2 :: "rat \<Rightarrow> int" where
  "flog2 x = (let (p, q) = quotient_of x;
                  e = nbits p - nbits q
              in if 2 powi e \<le> x then e else e - 1)"

definition round_even :: "rat \<Rightarrow> int" where
  "round_even x = (let f = \<lfloor>x\<rfloor>; d = x - of_int f
                   in if d < 1/2 then f else if d > 1/2 then f + 1
                      else if even f then f else f + 1)"

definition emin :: int where
  "emin = - 1074"

definition ulp_exp :: "rat \<Rightarrow> int" where
  "ulp_exp x = max (flog2 \<bar>x\<bar> - 52) emin"

definition fl :: "rat \<Rightarrow> rat" where
  "fl x = (if x = 0 then 0 else of_int (round_even (x / 2 powi (ulp_exp x))) * 2 powi (ulp_exp x))"

definition is_double :: "rat \<Rightarrow> bool" where
  "is_double x \<longleftrightarrow> fl x = x"

definition fadd :: "rat \<Rightarrow> rat \<Rightarrow> rat" where "fadd x y = fl (x + y)"
definition fsub :: "rat \<Rightarrow> rat \<Rightarrow> rat" where "fsub x y = fl (x - y)"
definition fmul :: "rat \<Rightarrow> rat \<Rightarrow> rat" where "fmul x y = fl (x * y)"
definition fdiv :: "rat \<Rightarrow> rat \<Rightarrow> rat" where "fdiv x y = fl (x / y)"

section \<open>Facts about rounding\<close>

lemma pow2_less_iff: "(2::rat) powi m < 2 powi n \<longleftrightarrow> m < n"
  using power_int_strict_increasing [of m n "2::rat"] power_int_increasing [of n m "2::rat"]
  by (auto simp: not_less [symmetric])

lemma pow2_le_iff: "(2::rat) powi m \<le> 2 powi n \<longleftrightarrow> m \<le> n"
  using pow2_less_iff [of n m] by (auto simp: not_less [symmetric])

lemma pow2_add: "(2::rat) powi (m + n) = 2 powi m * 2 powi n"
  by (simp add: power_int_add)

lemma pow2_diff: "(2::rat) powi (m - n) = 2 powi m / 2 powi n"
  by (simp add: power_int_diff)

lemma nbits_bounds:
  "0 < n \<Longrightarrow> 2 powi (nbits n - 1) \<le> (of_int n :: rat) \<and> of_int n < (2::rat) powi (nbits n)"
proof (induction n rule: nbits.induct)
  case (1 n)
  show ?case
  proof (cases "n = 1")
    case True
    then show ?thesis by (simp add: nbits.simps)
  next
    case False
    define m where "m = n div 2"
    have m: "0 < m" "2 * m \<le> n" "n < 2 * m + 2" using False "1.prems" by (auto simp: m_def)
    have n: "nbits n = 1 + nbits m" using "1.prems" by (subst nbits.simps) (simp add: m_def)
    have IH: "2 powi (nbits m - 1) \<le> (of_int m :: rat)" "(of_int m :: rat) < 2 powi (nbits m)"
      using "1.IH" "1.prems" m(1) by (auto simp: m_def)
    have nn: "0 \<le> nbits m" for m by (induction m rule: nbits.induct) (subst nbits.simps, simp)
    have "m < 2 ^ nat (nbits m)"
    proof -
      have "(of_int m :: rat) < of_int (2 ^ nat (nbits m))" using IH(2) nn [of m] by (simp add: power_int_def)
      then show ?thesis by (simp only: of_int_less_iff)
    qed
    then have "n < 2 * 2 ^ nat (nbits m)" using m(3) by linarith
    then have "(of_int n :: rat) < of_int (2 * 2 ^ nat (nbits m))" by (simp only: of_int_less_iff)
    then have "(of_int n :: rat) < 2 powi (nbits n)"
      using nn [of m] by (simp add: n pow2_add power_int_nonneg_exp)
    moreover have "(2::rat) powi (nbits n - 1) = 2 * 2 powi (nbits m - 1)"
      by (simp add: n pow2_diff)
    moreover have "2 * (of_int m :: rat) \<le> of_int n" using m(2) by (metis of_int_le_iff of_int_mult of_int_numeral)
    ultimately show ?thesis using IH(1) by linarith
  qed
qed

lemma flog2_bounds:
  assumes "0 < x"
  shows "2 powi (flog2 x) \<le> x" "x < 2 powi (flog2 x + 1)"
proof -
  obtain p q where pq: "quotient_of x = (p, q)" by (cases "quotient_of x")
  have q: "0 < q" using pq by (rule quotient_of_denom_pos)
  have x: "x = of_int p / of_int q" using pq by (rule quotient_of_div)
  have p: "0 < p" using assms x q by (simp add: zero_less_divide_iff)
  define a b where "a = nbits p" and "b = nbits q"
  have pl: "2 powi (a - 1) \<le> (of_int p :: rat)" and pu: "(of_int p :: rat) < 2 powi a"
    using nbits_bounds [OF p] by (simp_all add: a_def)
  have ql: "2 powi (b - 1) \<le> (of_int q :: rat)" and qu: "(of_int q :: rat) < 2 powi b"
    using nbits_bounds [OF q] by (simp_all add: b_def)
  have upper: "x < 2 powi (a - b + 1)"
  proof -
    have "x < 2 powi (a) / of_int q" using pu q by (simp add: x divide_strict_right_mono)
    also have "\<dots> \<le> 2 powi (a) / 2 powi (b - 1)"
      using ql q by (intro divide_left_mono) auto
    also have "\<dots> = 2 powi (a - b + 1)" by (simp add: power_int_diff power_int_add)
    finally show ?thesis .
  qed
  have lower: "2 powi (a - b - 1) \<le> x"
  proof -
    have "(2::rat) powi (a - b - 1) = 2 powi (a - 1) / 2 powi (b)"
      by (simp add: pow2_diff)
    also have "\<dots> \<le> of_int p / 2 powi (b)" using pl by (simp add: divide_right_mono)
    also have "\<dots> \<le> x" using qu q p by (auto simp: x intro!: divide_left_mono)
    finally show ?thesis .
  qed
  have e: "flog2 x = (if 2 powi (a - b) \<le> x then a - b else a - b - 1)"
    by (simp add: flog2_def pq a_def b_def Let_def)
  show "2 powi (flog2 x) \<le> x" using lower by (simp add: e)
  show "x < 2 powi (flog2 x + 1)" using upper by (auto simp: e add.commute)
qed

lemma flog2_unique:
  assumes "2 powi e \<le> x" "x < 2 powi (e + 1)"
  shows "flog2 x = e"
proof -
  have "0 < x" using assms(1) by (rule less_le_trans [rotated]) simp
  note b = flog2_bounds [OF this]
  have "(2::rat) powi e < 2 powi (flog2 x + 1)" using assms(1) b(2) by linarith
  then have "e < flog2 x + 1" by (simp add: pow2_less_iff)
  moreover have "(2::rat) powi (flog2 x) < 2 powi (e + 1)" using assms(2) b(1) by linarith
  then have "flog2 x < e + 1" by (simp add: pow2_less_iff)
  ultimately show ?thesis by simp
qed

lemma round_even_int [simp]: "round_even (of_int k) = k"
  by (simp add: round_even_def)

lemma round_even_bounds: "\<lfloor>x\<rfloor> \<le> round_even x" "round_even x \<le> \<lfloor>x\<rfloor> + 1"
  by (auto simp: round_even_def Let_def)

lemma round_even_abs_le:
  assumes "\<bar>x\<bar> \<le> of_int n" shows "\<bar>round_even x\<bar> \<le> n"
proof -
  have u: "x \<le> of_int n" and l: "of_int (- n) \<le> x" using assms by auto
  have "- n \<le> round_even x"
    using round_even_bounds(1) [of x] l by (meson le_floor_iff order_trans)
  moreover have "round_even x \<le> n"
  proof (cases "x = of_int n")
    case False
    then have "\<lfloor>x\<rfloor> < n" using u by (simp add: floor_less_iff)
    then show ?thesis using round_even_bounds(2) [of x] by linarith
  qed simp
  ultimately show ?thesis by simp
qed

lemma fl_0 [simp]: "fl 0 = 0"
  by (simp add: fl_def)

text \<open>What rounding returns: at most 53 significant bits, no bit below \<open>2\<^sup>-\<^sup>1\<^sup>0\<^sup>7\<^sup>4\<close>.\<close>

lemma fl_form: "\<exists>k e. fl x = of_int k * 2 powi e \<and> \<bar>k\<bar> \<le> 2 ^ 53 \<and> emin \<le> e"
proof (cases "x = 0")
  case True
  then show ?thesis by (intro exI [of _ 0]) (auto simp: emin_def)
next
  case False
  define e where "e = ulp_exp x"
  have "\<bar>x\<bar> < 2 powi (flog2 \<bar>x\<bar> + 1)" using False by (intro flog2_bounds) simp
  also have "\<dots> \<le> 2 powi (e + 53)"
    by (rule power_int_increasing) (auto simp: e_def ulp_exp_def)
  finally have "\<bar>x\<bar> / 2 powi e < 2 ^ 53"
    by (simp add: power_int_add divide_less_eq mult.commute)
  then have "\<bar>x / 2 powi e\<bar> \<le> of_int (2 ^ 53)" by (simp add: abs_divide)
  then have "\<bar>round_even (x / 2 powi e)\<bar> \<le> 2 ^ 53" by (rule round_even_abs_le)
  moreover have "fl x = of_int (round_even (x / 2 powi e)) * 2 powi e"
    using False by (simp add: fl_def e_def)
  moreover have "emin \<le> e" by (simp add: e_def ulp_exp_def)
  ultimately show ?thesis by blast
qed

lemma fl_exact:
  assumes "\<bar>k\<bar> \<le> 2 ^ 53" "emin \<le> e"
  shows "fl (of_int k * 2 powi e) = of_int k * 2 powi e"
proof (cases "k = 0")
  case False
  define y where "y = (of_int k * 2 powi e :: rat)"
  have y0: "y \<noteq> 0" using False by (simp add: y_def)
  have ay: "\<bar>y\<bar> = of_int \<bar>k\<bar> * 2 powi e" by (simp add: y_def abs_mult)
  define u where "u = ulp_exp y"
  have int: "\<exists>j. y / 2 powi u = of_int j"
  proof (cases "u \<le> e")
    case True
    have "y / 2 powi u = of_int k * 2 powi (e - u)" by (simp add: y_def power_int_diff)
    also have "\<dots> = of_int (k * 2 ^ nat (e - u))" using True by (simp add: power_int_def)
    finally show ?thesis ..
  next
    case False
    have "2 powi (flog2 \<bar>y\<bar>) \<le> \<bar>y\<bar>" using y0 by (intro flog2_bounds) simp
    also have "\<dots> \<le> 2 powi (53 + e)"
    proof -
      have "(of_int \<bar>k\<bar> :: rat) \<le> of_int (2 ^ 53)" using assms(1) by (simp only: of_int_le_iff)
      then show ?thesis by (simp add: ay power_int_add mult_right_mono)
    qed
    finally have "flog2 \<bar>y\<bar> \<le> 53 + e"
      by (simp add: pow2_le_iff)
    with False assms(2) have u: "u = e + 1" and fe: "flog2 \<bar>y\<bar> = 53 + e"
      by (auto simp: u_def ulp_exp_def split: if_splits)
    have "(2::rat) powi (53 + e) \<le> \<bar>y\<bar>" using flog2_bounds(1) [of "\<bar>y\<bar>"] y0 fe by simp
    then have "(2::rat) ^ 53 \<le> of_int \<bar>k\<bar>" by (simp add: ay power_int_add)
    then have "of_int (2 ^ 53) \<le> (of_int \<bar>k\<bar> :: rat)" by simp
    then have "2 ^ 53 \<le> \<bar>k\<bar>" by (simp only: of_int_le_iff)
    with assms(1) have "\<bar>k\<bar> = 2 ^ 53" by simp
    then have "k = 2 ^ 53 \<or> k = - (2 ^ 53)" by linarith
    then obtain j where "k = 2 * j" by (elim disjE) (auto intro: that [of "2 ^ 52"] that [of "- (2 ^ 52)"])
    then have "y / 2 powi u = of_int j" by (simp add: y_def u power_int_add)
    then show ?thesis ..
  qed
  then obtain j where j: "y / 2 powi u = of_int j" ..
  have "fl y = of_int (round_even (y / 2 powi u)) * 2 powi u" using y0 by (simp add: fl_def u_def)
  also have "\<dots> = (y / 2 powi u) * 2 powi u" by (simp add: j)
  also have "\<dots> = y" by simp
  finally show ?thesis by (simp add: y_def)
qed simp

lemma fl_fl [simp]: "fl (fl x) = fl x"
  using fl_form [of x] fl_exact by metis

lemma is_double_fl [simp]: "is_double (fl x)"
  by (simp add: is_double_def)

lemma is_double_form: "is_double x \<longleftrightarrow> (\<exists>k e. x = of_int k * 2 powi e \<and> \<bar>k\<bar> \<le> 2 ^ 53 \<and> emin \<le> e)"
  unfolding is_double_def using fl_form [of x] fl_exact by metis

lemma fl_of_int: "\<bar>k\<bar> \<le> 2 ^ 53 \<Longrightarrow> fl (of_int k) = of_int k"
  using fl_exact [of k 0] by (simp add: emin_def)

lemma round_even_pos: "1 \<le> x \<Longrightarrow> 0 < round_even x"
  using round_even_bounds(1) [of x] by (smt (verit) one_le_floor)

text \<open>Every double is a whole number of \<open>2\<^sup>-\<^sup>1\<^sup>0\<^sup>7\<^sup>4\<close>, so a nonzero difference never rounds to zero.\<close>

lemma double_grid: "is_double x \<Longrightarrow> \<exists>k. x = of_int k * 2 powi emin"
proof -
  assume "is_double x"
  then obtain k e where x: "x = of_int k * 2 powi e" "emin \<le> e" by (auto simp: is_double_form)
  then have "x = of_int k * (2 powi (e - emin) * 2 powi emin)"
    by (simp flip: power_int_add)
  also have "\<dots> = of_int (k * 2 ^ nat (e - emin)) * 2 powi emin"
    using x(2) by (simp add: power_int_def)
  finally show ?thesis ..
qed

lemma fl_pos_grid:
  assumes "x = of_int k * 2 powi emin" "0 < x"
  shows "0 < fl x"
proof -
  have "(0::rat) < 2 powi emin" by simp
  with assms have k: "0 < k" by (metis of_int_0_less_iff zero_less_mult_pos2)
  have "1 \<le> x / 2 powi (ulp_exp x)"
  proof (cases "ulp_exp x = emin")
    case True
    then have "x / 2 powi (ulp_exp x) = of_int k" by (simp add: assms(1))
    then show ?thesis using k by simp
  next
    case False
    then have "ulp_exp x = flog2 x - 52" using assms(2) by (auto simp: ulp_exp_def)
    then have "2 powi (ulp_exp x) \<le> (2 powi (flog2 x) :: rat)" by (intro power_int_increasing) auto
    also have "\<dots> \<le> x" using assms(2) by (rule flog2_bounds)
    finally show ?thesis by simp
  qed
  then have "0 < round_even (x / 2 powi (ulp_exp x))" by (rule round_even_pos)
  then show ?thesis using assms(2) by (simp add: fl_def)
qed

lemma round_even_nonneg: "0 \<le> x \<Longrightarrow> 0 \<le> round_even x"
  using round_even_bounds(1) [of x] by (meson order_trans zero_le_floor)

lemma round_even_nonpos: "x \<le> 0 \<Longrightarrow> round_even x \<le> 0"
proof -
  assume "x \<le> 0"
  show ?thesis
  proof (cases "x = 0")
    case False
    then have "\<lfloor>x\<rfloor> < 0" using \<open>x \<le> 0\<close> by (simp add: floor_less_iff)
    then show ?thesis using round_even_bounds(2) [of x] by linarith
  qed (simp add: round_even_def)
qed

lemma fl_nonneg: "0 \<le> x \<Longrightarrow> 0 \<le> fl x"
  by (auto simp: fl_def intro!: mult_nonneg_nonneg round_even_nonneg)

lemma fl_nonpos: "x \<le> 0 \<Longrightarrow> fl x \<le> 0"
  by (auto simp: fl_def intro!: mult_nonpos_nonneg round_even_nonpos divide_nonpos_nonneg)

lemma fsub_pos_iff:
  assumes "is_double x" "is_double y"
  shows "0 < fsub x y \<longleftrightarrow> y < x"
proof
  assume "0 < fsub x y"
  then show "y < x" using fl_nonpos [of "x - y"] by (force simp: fsub_def not_less)
next
  assume less: "y < x"
  obtain j k where "x = of_int j * 2 powi emin" "y = of_int k * 2 powi emin"
    using assms double_grid by blast
  then have "x - y = of_int (j - k) * 2 powi emin" by (simp add: algebra_simps)
  from fl_pos_grid [OF this] less show "0 < fsub x y" by (simp add: fsub_def)
qed

end
