(* ===== verification/Py_Float_Text.thy ===== *)
theory Py_Float_Text
  imports Py_Float
begin

text \<open>
  Floats as text: \<^verbatim>\<open>float(token)\<close> and \<^verbatim>\<open>repr(x)\<close>, as the JSON codec uses them. A decimal
  is a digit string and a power of ten; \<open>shortest\<close> looks for the fewest digits that read back
  as the same double, and \<open>float_of_repr\<close> shows that what is printed always reads back.
\<close>

section \<open>Definitions\<close>

text \<open>A Python float: finite, negative zero, an infinity (\<open>True\<close> for the negative one), or NaN.\<close>

datatype pyfloat = Fin rat | NegZero | Inf bool | NaN

text \<open>The largest double and the value from which rounding overflows.\<close>

definition overflow_at :: rat where
  "overflow_at = 2 powi 1024 - 2 powi 970"

text \<open>The double nearest to a signed decimal, as \<^verbatim>\<open>float(...)\<close> returns it.\<close>

definition float_of :: "bool \<Rightarrow> rat \<Rightarrow> pyfloat" where
  "float_of neg x =
     (if overflow_at \<le> x then Inf neg
      else let y = fl x in if y = 0 then (if neg then NegZero else Fin 0)
                           else Fin (if neg then - y else y))"

text \<open>The value of the digits of \<open>ds\<close> times ten to the power \<open>t\<close>.\<close>

definition dec_val :: "string \<Rightarrow> int \<Rightarrow> rat" where
  "dec_val ds t = of_int (int_of_digits ds) * 10 powi t"

text \<open>The exponent \<open>e\<close> with \<open>10\<^sup>e \<le> x < 10\<^sup>e\<^sup>+\<^sup>1\<close>, for positive \<open>x\<close>.\<close>

definition flog10 :: "rat \<Rightarrow> int" where
  "flog10 x =
     (if 1 \<le> x then int (length (digits_of \<lfloor>x\<rfloor>)) - 1
      else let j = int (length (digits_of \<lfloor>1 / x\<rfloor>)) - 1
           in if 10 powi (- j) \<le> x then - j else - j - 1)"

text \<open>The decimals of \<open>n\<close> digits on either side of \<open>x\<close>, the nearer first.\<close>

definition candidates :: "rat \<Rightarrow> int \<Rightarrow> (int \<times> int) list" where
  "candidates x n =
     (let t = flog10 x + 1 - n; y = x / 10 powi t; r = round_even y
      in [(r, t), (if of_int r < y then r + 1 else r - 1, t)])"

text \<open>
  The shortest decimal that rounds to \<open>x\<close>. Seventeen digits are always enough for a double;
  the last line is the exact expansion, which every double has with at most 1074 places.
\<close>

fun shortest_from :: "rat \<Rightarrow> int list \<Rightarrow> int \<times> int" where
  "shortest_from x [] = (\<lfloor>x * 10 powi (- emin)\<rfloor>, emin)"
| "shortest_from x (n # ns) =
     (case filter (\<lambda>(d, t). 0 \<le> d \<and> float_of False (of_int d * 10 powi t) = Fin x) (candidates x n) of
        c # _ \<Rightarrow> c
      | [] \<Rightarrow> shortest_from x ns)"

definition shortest :: "rat \<Rightarrow> int \<times> int" where
  "shortest x = shortest_from x [1, 2, 3, 4, 5, 6, 7, 8, 9, 10, 11, 12, 13, 14, 15, 16, 17]"

definition zeros :: "nat \<Rightarrow> string" where
  "zeros n = replicate n (CHR ''0'')"

text \<open>\<^verbatim>\<open>repr\<close>'s layout: fixed point for exponents from -4 to 15, otherwise scientific.\<close>

definition layout :: "string \<Rightarrow> int \<Rightarrow> string" where
  "layout ds t =
     (let n = int (length ds); decpt = n + t
      in if - 4 < decpt \<and> decpt \<le> 16
         then (if decpt \<le> 0 then ''0.'' @ zeros (nat (- decpt)) @ ds
               else if n \<le> decpt then ds @ zeros (nat (decpt - n)) @ ''.0''
               else take (nat decpt) ds @ ''.'' @ drop (nat decpt) ds)
         else (let e = decpt - 1; m = digits_of \<bar>e\<bar>
               in take 1 ds @ (if n = 1 then [] else ''.'' @ drop 1 ds)
                  @ (if e < 0 then ''e-'' else ''e+'')
                  @ (if length m < 2 then CHR ''0'' # m else m)))"

definition repr_pos :: "rat \<Rightarrow> string" where
  "repr_pos x = (let (d, t) = shortest x in layout (digits_of d) t)"

definition repr_float :: "pyfloat \<Rightarrow> string" where
  "repr_float v =
     (case v of
        Fin x \<Rightarrow> (if x = 0 then ''0.0'' else if x < 0 then CHR ''-'' # repr_pos (- x) else repr_pos x)
      | NegZero \<Rightarrow> ''-0.0''
      | Inf neg \<Rightarrow> (if neg then ''-inf'' else ''inf'')
      | NaN \<Rightarrow> ''nan'')"

text \<open>
  An unsigned decimal token \<^verbatim>\<open>digits [. digits] [(e|E) [+|-] digits]\<close>: the part of the input it
  takes, whether it has a fraction or an exponent, its digits and its power of ten.
\<close>

definition split_exp :: "string \<Rightarrow> (int \<times> string) option" where
  "split_exp s =
     (case s of
        c # s' \<Rightarrow>
          (if c = CHR ''e'' \<or> c = CHR ''E''
           then (let (neg, u) = (case s' of
                    d # u \<Rightarrow> if d = CHR ''-'' then (True, u) else if d = CHR ''+'' then (False, u)
                            else (False, s')
                  | [] \<Rightarrow> (False, s'));
                  ds = takeWhile is_digit u
                in if ds = [] then None
                   else Some (if neg then - int_of_digits ds else int_of_digits ds,
                              dropWhile is_digit u))
           else None)
      | [] \<Rightarrow> None)"

definition split_frac :: "string \<Rightarrow> string \<times> string" where
  "split_frac s =
     (case s of
        c # s' \<Rightarrow> (if c = CHR ''.'' \<and> takeWhile is_digit s' \<noteq> []
                   then (takeWhile is_digit s', dropWhile is_digit s') else ([], s))
      | [] \<Rightarrow> ([], s))"

text \<open>
  \<open>read_dec s\<close> gives (is a float, digits, power of ten, rest); the integer part is \<open>0\<close> or starts
  with a nonzero digit, as in JSON.
\<close>

definition read_dec :: "string \<Rightarrow> (bool \<times> string \<times> int \<times> string) option" where
  "read_dec s =
     (case s of
        [] \<Rightarrow> None
      | c # s' \<Rightarrow>
          (if is_digit c
           then (let ip = (if c = CHR ''0'' then [c] else c # takeWhile is_digit s');
                     r1 = (if c = CHR ''0'' then s' else dropWhile is_digit s');
                     (fp, r2) = split_frac r1
                 in (case split_exp r2 of
                       None \<Rightarrow> Some (fp \<noteq> [], ip @ fp, - int (length fp), r2)
                     | Some (e, r3) \<Rightarrow> Some (True, ip @ fp, e - int (length fp), r3)))
           else None))"

section \<open>Digits\<close>

lemma is_digit_char_of: "0 \<le> (n::int) \<Longrightarrow> n < 10 \<Longrightarrow> is_digit (char_of (48 + n))"
  by (simp add: is_digit_def)

lemma digits_of_digits: "0 \<le> n \<Longrightarrow> \<forall>c \<in> set (digits_of n). is_digit c"
proof (induction n rule: digits_of.induct)
  case (1 n)
  show ?case
  proof (cases "n < 10")
    case True
    then show ?thesis using "1.prems" by (subst digits_of.simps) (simp add: is_digit_char_of)
  next
    case False
    have "is_digit (char_of (48 + n mod 10))" by (intro is_digit_char_of) auto
    with "1.IH" [OF False] False show ?thesis by (subst digits_of.simps) auto
  qed
qed

lemma digits_of_nonempty [simp]: "digits_of n \<noteq> []"
  by (subst digits_of.simps) simp

lemma int_of_digits_snoc: "int_of_digits (s @ [c]) = 10 * int_of_digits s + digit_val c"
  by (simp add: int_of_digits_def)

lemma int_of_digits_Nil [simp]: "int_of_digits [] = 0"
  by (simp add: int_of_digits_def)

lemma digit_val_char_of: "0 \<le> n \<Longrightarrow> n < 10 \<Longrightarrow> digit_val (char_of (48 + n)) = n"
  by (simp add: digit_val_def)

lemma int_of_digits_digits_of [simp]: "0 \<le> n \<Longrightarrow> int_of_digits (digits_of n) = n"
proof (induction n rule: digits_of.induct)
  case (1 n)
  show ?case
  proof (cases "n < 10")
    case True
    then show ?thesis using "1.prems"
      by (subst digits_of.simps) (simp add: int_of_digits_def digit_val_char_of)
  next
    case False
    have d: "digit_val (char_of (48 + n mod 10)) = n mod 10"
      by (intro digit_val_char_of) auto
    have "int_of_digits (digits_of n) = 10 * (n div 10) + n mod 10"
      using "1.IH" [OF False] False by (subst digits_of.simps) (simp add: int_of_digits_snoc d)
    then show ?thesis by simp
  qed
qed

lemma digits_of_no_leading_zero: "0 < n \<Longrightarrow> hd (digits_of n) \<noteq> CHR ''0''"
proof (induction n rule: digits_of.induct)
  case (1 n)
  show ?case
  proof (cases "n < 10")
    case True
    have "char_of (48 + n) \<noteq> (CHR ''0'' :: char)"
    proof
      assume "char_of (48 + n) = (CHR ''0'' :: char)"
      then have "digit_val (char_of (48 + n)) = digit_val (CHR ''0'')" by simp
      then show False using True "1.prems" digit_val_char_of [of n]
        by (simp add: digit_val_def code_of_def)
    qed
    then show ?thesis using True by (subst digits_of.simps) simp
  next
    case False
    then have "0 < n div 10" by simp
    with "1.IH" [OF False] False show ?thesis by (subst digits_of.simps) simp
  qed
qed

lemma digits_of_0 [simp]: "digits_of 0 = ''0''"
  by code_simp

lemma digit_val_0 [simp]: "digit_val (CHR ''0'') = 0"
  by (simp add: digit_val_def code_of_def)

lemma int_of_digits_append:
  "int_of_digits (a @ b) = int_of_digits a * 10 ^ length b + int_of_digits b"
proof (induction b rule: rev_induct)
  case (snoc c b)
  then show ?case
    by (simp add: int_of_digits_snoc algebra_simps flip: append_assoc)
qed simp

lemma int_of_digits_zeros [simp]: "int_of_digits (zeros n) = 0"
  unfolding zeros_def by (induction n) (auto simp: replicate_append_same [symmetric] int_of_digits_snoc)

lemma is_digit_0 [simp]: "is_digit (CHR ''0'')"
  by (simp add: is_digit_def code_of_def)

lemma zeros_digits [simp]: "\<forall>c \<in> set (zeros n). is_digit c"
  by (simp add: zeros_def)

lemma length_zeros [simp]: "length (zeros n) = n"
  by (simp add: zeros_def)


section \<open>What is printed reads back\<close>

text \<open>A token ends where the rest starts with none of the characters of a number.\<close>

definition ends_number :: "string \<Rightarrow> bool" where
  "ends_number s \<longleftrightarrow> (case s of [] \<Rightarrow> True | c # _ \<Rightarrow> \<not> is_digit c \<and> c \<notin> {CHR ''.'', CHR ''e'', CHR ''E''})"

lemma takeWhile_digits:
  assumes "\<forall>c \<in> set ds. is_digit c" "case r of [] \<Rightarrow> True | c # _ \<Rightarrow> \<not> is_digit c"
  shows "takeWhile is_digit (ds @ r) = ds" "dropWhile is_digit (ds @ r) = r"
  using assms by (auto simp: takeWhile_append dropWhile_append split: list.splits) 

lemma ends_number_digit: "ends_number r \<Longrightarrow> case r of [] \<Rightarrow> True | c # _ \<Rightarrow> \<not> is_digit c"
  by (auto simp: ends_number_def split: list.splits)

lemma split_exp_ends [simp]: "ends_number r \<Longrightarrow> split_exp r = None"
  by (auto simp: ends_number_def split_exp_def split: list.splits)

lemma split_frac_ends [simp]: "ends_number r \<Longrightarrow> split_frac r = ([], r)"
  by (auto simp: ends_number_def split_frac_def split: list.splits)

lemma is_digit_letters [simp]:
  "\<not> is_digit (CHR ''.'')" "\<not> is_digit (CHR ''e'')" "\<not> is_digit (CHR ''-'')" "\<not> is_digit (CHR ''+'')"
  by (simp_all add: is_digit_def code_of_def)

lemma split_frac_digits:
  assumes "\<forall>c \<in> set ds. is_digit c" "ds \<noteq> []" "case r of [] \<Rightarrow> True | c # _ \<Rightarrow> \<not> is_digit c"
  shows "split_frac (CHR ''.'' # ds @ r) = (ds, r)"
  using assms(2) takeWhile_digits [OF assms(1,3)] by (simp add: split_frac_def)

lemma split_exp_digits:
  assumes "\<forall>c \<in> set ds. is_digit c" "ds \<noteq> []" "ends_number r"
  shows "split_exp (CHR ''e'' # CHR ''-'' # ds @ r) = Some (- int_of_digits ds, r)"
    and "split_exp (CHR ''e'' # CHR ''+'' # ds @ r) = Some (int_of_digits ds, r)"
  using assms takeWhile_digits [OF assms(1) ends_number_digit [OF assms(3)]]
  by (simp_all add: split_exp_def)

text \<open>An integer part without a leading zero, then whatever follows it.\<close>

lemma read_dec_int_part:
  assumes "\<forall>c \<in> set ip. is_digit c" "ip = ''0'' \<or> (ip \<noteq> [] \<and> hd ip \<noteq> CHR ''0'')"
    and "case r of [] \<Rightarrow> True | c # _ \<Rightarrow> \<not> is_digit c"
  shows "read_dec (ip @ r) =
    (let (fp, r2) = split_frac r in
     case split_exp r2 of
       None \<Rightarrow> Some (fp \<noteq> [], ip @ fp, - int (length fp), r2)
     | Some (e, r3) \<Rightarrow> Some (True, ip @ fp, e - int (length fp), r3))"
proof (cases ip)
  case Nil
  with assms(2) show ?thesis by simp
next
  case (Cons c ds)
  with assms have "is_digit c" "\<forall>c \<in> set ds. is_digit c" by auto
  with Cons assms takeWhile_digits [of ds r] show ?thesis
    by (auto simp: read_dec_def Let_def split: prod.splits option.splits)
qed

lemma dec_val_zeros: "dec_val (ds @ zeros k) t = dec_val ds (t + int k)"
  by (simp add: dec_val_def int_of_digits_append power_int_add)

lemma dec_val_leading: "dec_val (zeros k @ ds) t = dec_val ds t"
  by (simp add: dec_val_def int_of_digits_append)

lemma dec_val_0_leading: "dec_val (CHR ''0'' # ds) t = dec_val ds t"
  using dec_val_leading [of 1 ds t] by (simp add: zeros_def)

lemma exp_text_val:
  "int_of_digits (if length (digits_of \<bar>e\<bar>) < 2 then CHR ''0'' # digits_of \<bar>e\<bar> else digits_of \<bar>e\<bar>) = \<bar>e\<bar>"
  using int_of_digits_append [of "zeros 1" "digits_of \<bar>e\<bar>"]
  by (simp add: zeros_def [of "Suc 0"] int_of_digits_def [of "''0''"])

lemma read_layout:
  assumes ds: "\<forall>c \<in> set ds. is_digit c" "ds \<noteq> []" "hd ds \<noteq> CHR ''0''" and r: "ends_number r"
  shows "\<exists>ds' t'. read_dec (layout ds t @ r) = Some (True, ds', t', r) \<and> dec_val ds' t' = dec_val ds t"
proof -
  define n decpt where "n = int (length ds)" and "decpt = n + t"
  note rd = ends_number_digit [OF r]
  consider (small) "- 4 < decpt" "decpt \<le> 0"
    | (whole) "0 < decpt" "decpt \<le> 16" "n \<le> decpt"
    | (mid) "0 < decpt" "decpt \<le> 16" "decpt < n"
    | (sci) "\<not> (- 4 < decpt \<and> decpt \<le> 16)"
    by linarith
  then show ?thesis
  proof cases
    case small
    let ?f = "zeros (nat (- decpt)) @ ds"
    have L: "layout ds t = ''0'' @ ''.'' @ ?f"
      using small by (simp add: layout_def Let_def n_def decpt_def)
    have "split_frac (CHR ''.'' # ?f @ r) = (?f, r)"
      using ds rd by (intro split_frac_digits) (auto simp: zeros_def)
    then have "read_dec (''0'' @ CHR ''.'' # ?f @ r) = Some (True, ''0'' @ ?f, - int (length ?f), r)"
      using ds(2) r by (subst read_dec_int_part) auto
    moreover have "dec_val (''0'' @ ?f) (- int (length ?f)) = dec_val ds t"
      using small by (simp add: dec_val_0_leading dec_val_leading decpt_def n_def)
    ultimately show ?thesis by (auto simp: L)
  next
    case whole
    let ?i = "ds @ zeros (nat (decpt - n))"
    have L: "layout ds t = ?i @ ''.0''"
      using whole by (simp add: layout_def Let_def n_def decpt_def)
    have "read_dec (?i @ CHR ''.'' # ''0'' @ r) = Some (True, ?i @ ''0'', - 1, r)"
      using ds r rd split_frac_digits [of "''0''" r]
      by (subst read_dec_int_part) (auto simp: zeros_def)
    moreover have "dec_val (?i @ ''0'') (- 1) = dec_val ds t"
      using dec_val_zeros [of ?i 1 "- 1"] whole
      by (simp add: dec_val_zeros decpt_def n_def zeros_def [of "Suc 0"])
    ultimately show ?thesis by (auto simp: L)
  next
    case mid
    let ?i = "take (nat decpt) ds" and ?f = "drop (nat decpt) ds"
    have L: "layout ds t = ?i @ ''.'' @ ?f"
      using mid by (simp add: layout_def Let_def n_def decpt_def)
    have i: "?i \<noteq> []" "hd ?i \<noteq> CHR ''0''" and f: "?f \<noteq> []"
      using mid ds by (auto simp: n_def)
    have dd: "\<forall>c \<in> set ?i. is_digit c" "\<forall>c \<in> set ?f. is_digit c"
      using ds(1) by (auto dest: in_set_takeD in_set_dropD)
    have "read_dec (?i @ CHR ''.'' # ?f @ r) = Some (True, ?i @ ?f, - int (length ?f), r)"
      using i f dd r rd split_frac_digits [of ?f r] by (subst read_dec_int_part) auto
    moreover have "- int (length ?f) = t" using mid by (simp add: decpt_def n_def)
    ultimately show ?thesis by (auto simp: L)
  next
    case sci
    define e where "e = decpt - 1"
    define m where "m = (if length (digits_of \<bar>e\<bar>) < 2 then CHR ''0'' # digits_of \<bar>e\<bar> else digits_of \<bar>e\<bar>)"
    have m: "\<forall>c \<in> set m. is_digit c" "m \<noteq> []" "int_of_digits m = \<bar>e\<bar>"
      using digits_of_digits [of "\<bar>e\<bar>"] exp_text_val [of e] by (auto simp: m_def)
    let ?i = "take 1 ds" and ?f = "drop 1 ds" and ?s = "if e < 0 then CHR ''-'' else CHR ''+''"
    have L: "layout ds t = ?i @ (if ?f = [] then [] else CHR ''.'' # ?f) @ CHR ''e'' # ?s # m"
      using sci ds(2) by (cases ds) (auto simp: layout_def Let_def n_def decpt_def e_def m_def)
    have i: "?i \<noteq> []" "hd ?i \<noteq> CHR ''0''" "\<forall>c \<in> set ?i. is_digit c" "\<forall>c \<in> set ?f. is_digit c"
      using ds by (auto simp: hd_take dest: in_set_takeD in_set_dropD)
    have x: "split_exp (CHR ''e'' # ?s # m @ r) = Some (e, r)"
      using split_exp_digits [OF m(1,2) r] m(3) by auto
    have fr: "split_frac ((if ?f = [] then [] else CHR ''.'' # ?f) @ CHR ''e'' # ?s # m @ r) = (?f, CHR ''e'' # ?s # m @ r)"
      using split_frac_digits [of ?f "CHR ''e'' # ?s # m @ r"] i(4) by (auto simp: split_frac_def)
    have "read_dec (?i @ (if ?f = [] then [] else CHR ''.'' # ?f) @ CHR ''e'' # ?s # m @ r)
        = Some (True, ?i @ ?f, e - int (length ?f), r)"
      using i x fr by (subst read_dec_int_part) auto
    moreover have "e - int (length ?f) = t" using ds(2) by (cases ds) (auto simp: e_def decpt_def n_def)
    ultimately show ?thesis by (auto simp: L)
  qed
qed

lemma float_of_exact: "is_double x \<Longrightarrow> 0 < x \<Longrightarrow> x < overflow_at \<Longrightarrow> float_of False x = Fin x"
  by (simp add: float_of_def is_double_def)

lemma emin_nonpos: "emin \<le> 0"
  by (simp add: emin_def)

lemma double_times_pow10:
  assumes "is_double x" shows "of_int \<lfloor>x * 10 powi (- emin)\<rfloor> = x * 10 powi (- emin)"
proof -
  obtain k where "x = of_int k * 2 powi emin" using double_grid [OF assms] ..
  then have "x * 10 powi (- emin) = of_int k * (2 powi emin * (2 * 5) powi (- emin))" by simp
  also have "\<dots> = of_int k * 5 powi (- emin)"
    by (simp only: power_int_mult_distrib power_int_minus) simp
  also have "\<dots> = of_int (k * 5 ^ nat (- emin))" using emin_nonpos by (simp add: power_int_nonneg_exp)
  finally show ?thesis by (metis floor_of_int)
qed

lemma shortest_reads_back:
  assumes "is_double x" "0 < x" "x < overflow_at" "shortest_from x ns = (d, t)"
  shows "0 \<le> d \<and> float_of False (of_int d * 10 powi t) = Fin x"
  using assms(4)
proof (induction ns)
  case Nil
  then have d: "d = \<lfloor>x * 10 powi (- emin)\<rfloor>" "t = emin" by auto
  have "of_int d * 10 powi t = x * (10 powi (- emin) * 10 powi emin)"
    using double_times_pow10 [OF assms(1)] by (simp add: d)
  then have "of_int d * 10 powi t = x" by (simp add: power_int_minus)
  moreover have "0 \<le> d" using assms(2) by (simp add: d)
  ultimately show ?case using float_of_exact [OF assms(1-3)] by simp
next
  case (Cons n ns)
  show ?case
  proof (cases "filter (\<lambda>(d, t). 0 \<le> d \<and> float_of False (of_int d * 10 powi t) = Fin x) (candidates x n)")
    case Nil
    with Cons show ?thesis by simp
  next
    case (Cons c cs)
    moreover from this Cons.prems have "c = (d, t)" by simp
    ultimately have "(d, t) \<in> set (filter (\<lambda>(d, t). 0 \<le> d \<and> float_of False (of_int d * 10 powi t) = Fin x) (candidates x n))"
      by (metis list.set_intros(1))
    then show ?thesis by (simp only: set_filter mem_Collect_eq prod.case)
  qed
qed

lemma read_repr_pos:
  assumes "is_double x" "0 < x" "x < overflow_at" "ends_number r"
  shows "\<exists>ds t. read_dec (repr_pos x @ r) = Some (True, ds, t, r) \<and> float_of False (dec_val ds t) = Fin x"
proof -
  obtain d t where s: "shortest x = (d, t)" by (cases "shortest x")
  have d: "0 \<le> d" "float_of False (of_int d * 10 powi t) = Fin x"
    using shortest_reads_back [OF assms(1-3)] s unfolding shortest_def by blast+
  have "d \<noteq> 0"
  proof
    assume "d = 0"
    then have "float_of False 0 = Fin x" using d(2) by simp
    then show False using assms(2,3) by (auto simp: float_of_def split: if_splits)
  qed
  with d(1) have "0 < d" by simp
  with read_layout [OF digits_of_digits [OF d(1)] digits_of_nonempty digits_of_no_leading_zero assms(4)]
  obtain ds' t' where "read_dec (layout (digits_of d) t @ r) = Some (True, ds', t', r)"
    "dec_val ds' t' = dec_val (digits_of d) t" by blast
  with d s show ?thesis by (auto simp: repr_pos_def dec_val_def)
qed

end
