(* ===== verification/Json.thy ===== *)
theory Json
  imports Py_Float_Text
begin

text \<open>
  Python's \<^verbatim>\<open>json\<close> module as the audit trail and the tools use it: the value type, \<^verbatim>\<open>json.dumps\<close> with
  \<^verbatim>\<open>sort_keys=True, ensure_ascii=False\<close> and any separators, and \<^verbatim>\<open>json.loads\<close> on bytes. An object is a
  dictionary in insertion order. The reader is a recursive descent with fuel \<open>2 n + 2\<close> for an
  input of \<open>n\<close> bytes; \<open>parse_dumps\<close> shows that this is enough for everything \<open>dumps\<close> writes,
  and \<open>parse_fuel\<close> that more fuel never changes an answer on any input.
\<close>

section \<open>Values and the writer\<close>

datatype json =
    JNull
  | JBool bool
  | JInt int
  | JFloat pyfloat
  | JStr string
  | JList "json list"
  | JObj "(string \<times> json) list"

definition hex_digit :: "int \<Rightarrow> char" where
  "hex_digit n = (if n < 10 then char_of (48 + n) else char_of (87 + n))"

text \<open>The escapes of \<^verbatim>\<open>encode_basestring\<close>: quote, backslash and the control characters.\<close>

definition esc_char :: "char \<Rightarrow> string" where
  "esc_char c =
     (if c = CHR 0x22 then [CHR 0x5C, CHR 0x22]
      else if c = CHR 0x5C then [CHR 0x5C, CHR 0x5C]
      else if c = CHR 0x08 then [CHR 0x5C, CHR ''b'']
      else if c = CHR 0x09 then [CHR 0x5C, CHR ''t'']
      else if c = CHR 0x0A then [CHR 0x5C, CHR ''n'']
      else if c = CHR 0x0C then [CHR 0x5C, CHR ''f'']
      else if c = CHR 0x0D then [CHR 0x5C, CHR ''r'']
      else if code_of c < 32
        then [CHR 0x5C, CHR ''u'', CHR ''0'', CHR ''0'', hex_digit (code_of c div 16), hex_digit (code_of c mod 16)]
      else [c])"

definition quoted :: "string \<Rightarrow> string" where
  "quoted s = CHR 0x22 # concat (map esc_char s) @ [CHR 0x22]"

definition dump_float :: "pyfloat \<Rightarrow> string" where
  "dump_float v = (case v of NaN \<Rightarrow> ''NaN'' | Inf neg \<Rightarrow> (if neg then ''-Infinity'' else ''Infinity'')
                           | _ \<Rightarrow> repr_float v)"

text \<open>\<^verbatim>\<open>json.dumps(v, sort_keys=True, ensure_ascii=False, separators=(sep, ksep))\<close>.\<close>

function dumps :: "string \<Rightarrow> string \<Rightarrow> json \<Rightarrow> string" where
  "dumps sep ksep JNull = ''null''"
| "dumps sep ksep (JBool b) = (if b then ''true'' else ''false'')"
| "dumps sep ksep (JInt i) = str_int i"
| "dumps sep ksep (JFloat v) = dump_float v"
| "dumps sep ksep (JStr s) = quoted s"
| "dumps sep ksep (JList vs) = ''['' @ join_with sep (map (dumps sep ksep) vs) @ '']''"
| "dumps sep ksep (JObj kvs) =
     ''{'' @ join_with sep (map (\<lambda>(k, t). quoted k @ ksep @ t)
                              (sort_key fst (map (\<lambda>(k, v). (k, dumps sep ksep v)) kvs))) @ ''}''"
  by pat_completeness auto
termination
proof (relation "measure (\<lambda>(sep, ksep, v). size v)", goal_cases)
  case (2 sep ksep vs v)
  then show ?case by (simp add: size_list_estimation less_Suc_eq_le size_list_estimation')
next
  case (3 sep ksep kvs kv k v)
  then have "size v < Suc (size_list (size_prod (\<lambda>_. 0) size) kvs)"
    by (induction kvs) auto
  then show ?case by simp
qed simp

section \<open>UTF-8\<close>

text \<open>
  \<open>utf8_ok sp s\<close>: the bytes are well-formed UTF-8; \<open>sp\<close> admits encoded surrogates, as the
  \<^verbatim>\<open>surrogatepass\<close> handler of \<^verbatim>\<open>json.loads\<close> does and \<^verbatim>\<open>.encode("utf-8")\<close> does not.
\<close>

definition utf8_more :: "char \<Rightarrow> nat" where
  "utf8_more c = (let n = code_of c in
     if 194 \<le> n \<and> n \<le> 223 then 1 else if 224 \<le> n \<and> n \<le> 239 then 2
     else if 240 \<le> n \<and> n \<le> 244 then 3 else 0)"

definition utf8_second :: "bool \<Rightarrow> char \<Rightarrow> char \<Rightarrow> bool" where
  "utf8_second sp c d = (let n = code_of c; m = code_of d in
     (n = 224 \<longrightarrow> 160 \<le> m) \<and> (n = 240 \<longrightarrow> 144 \<le> m) \<and> (n = 244 \<longrightarrow> m \<le> 143)
     \<and> (n = 237 \<and> \<not> sp \<longrightarrow> m \<le> 159))"

definition utf8_cont :: "char \<Rightarrow> bool" where
  "utf8_cont c \<longleftrightarrow> 128 \<le> code_of c \<and> code_of c \<le> 191"

fun utf8_ok :: "bool \<Rightarrow> bytes \<Rightarrow> bool" where
  "utf8_ok sp [] = True"
| "utf8_ok sp (c # cs) =
     (if code_of c < 128 then utf8_ok sp cs
      else let k = utf8_more c in
        0 < k \<and> k \<le> length cs \<and> list_all utf8_cont (take k cs) \<and> utf8_second sp c (hd cs)
        \<and> utf8_ok sp (drop k cs))"

text \<open>The encoding of one code point, surrogates included.\<close>

definition utf8_encode :: "int \<Rightarrow> string" where
  "utf8_encode u =
     (if u < 128 then [char_of u]
      else if u < 2048 then [char_of (192 + u div 64), char_of (128 + u mod 64)]
      else if u < 65536 then [char_of (224 + u div 4096), char_of (128 + u div 64 mod 64), char_of (128 + u mod 64)]
      else [char_of (240 + u div 262144), char_of (128 + u div 4096 mod 64),
            char_of (128 + u div 64 mod 64), char_of (128 + u mod 64)])"

section \<open>The reader\<close>

definition hex_val :: "char \<Rightarrow> int option" where
  "hex_val c = (let n = code_of c in
     if 48 \<le> n \<and> n \<le> 57 then Some (n - 48)
     else if 97 \<le> n \<and> n \<le> 102 then Some (n - 87)
     else if 65 \<le> n \<and> n \<le> 70 then Some (n - 55) else None)"

definition hex4 :: "string \<Rightarrow> (int \<times> string) option" where
  "hex4 s = (case s of
     a # b # c # d # r \<Rightarrow>
       (case (hex_val a, hex_val b, hex_val c, hex_val d) of
          (Some w, Some x, Some y, Some z) \<Rightarrow> Some (w * 4096 + x * 256 + y * 16 + z, r)
        | _ \<Rightarrow> None)
   | _ \<Rightarrow> None)"

text \<open>After \<^verbatim>\<open>\u\<close>: one code unit, or a surrogate pair.\<close>

definition read_u :: "string \<Rightarrow> (int \<times> string) option" where
  "read_u s = (case hex4 s of
     None \<Rightarrow> None
   | Some (u, r) \<Rightarrow>
       (if 55296 \<le> u \<and> u \<le> 56319 \<and> starts_with r [CHR 0x5C, CHR ''u'']
        then (case hex4 (drop 2 r) of
                None \<Rightarrow> None
              | Some (v, r') \<Rightarrow>
                  (if 56320 \<le> v \<and> v \<le> 57343
                   then Some (65536 + (u - 55296) * 1024 + (v - 56320), r')
                   else Some (u, r)))
        else Some (u, r)))"

definition simple_escape :: "char \<Rightarrow> char option" where
  "simple_escape e =
     (if e = CHR 0x22 then Some (CHR 0x22) else if e = CHR 0x5C then Some (CHR 0x5C)
      else if e = CHR ''/'' then Some (CHR ''/'') else if e = CHR ''b'' then Some (CHR 0x08)
      else if e = CHR ''f'' then Some (CHR 0x0C) else if e = CHR ''n'' then Some (CHR 0x0A)
      else if e = CHR ''r'' then Some (CHR 0x0D) else if e = CHR ''t'' then Some (CHR 0x09) else None)"

text \<open>\<^verbatim>\<open>scanstring\<close>, strict: from just after the opening quote to just after the closing one.\<close>

lemma hex4_shorter: "hex4 s = Some (u, r) \<Longrightarrow> length r < length s"
  by (auto simp: hex4_def split: list.splits option.splits)

lemma read_u_shorter: "read_u s = Some (u, r) \<Longrightarrow> length r < length s"
  by (auto simp: read_u_def split: option.splits if_splits dest!: hex4_shorter)

function scan_string :: "string \<Rightarrow> (string \<times> string) option" where
  "scan_string [] = None"
| "scan_string (c # r) =
     (if c = CHR 0x22 then Some ([], r)
      else if c = CHR 0x5C then
        (case r of
           [] \<Rightarrow> None
         | e # r' \<Rightarrow>
             (if e = CHR ''u'' then
                (case read_u r' of
                   None \<Rightarrow> None
                 | Some (u, r'') \<Rightarrow> map_option (\<lambda>(t, rest). (utf8_encode u @ t, rest)) (scan_string r''))
              else
                (case simple_escape e of
                   None \<Rightarrow> None
                 | Some d \<Rightarrow> map_option (\<lambda>(t, rest). (d # t, rest)) (scan_string r'))))
      else if code_of c < 32 then None
      else map_option (\<lambda>(t, rest). (c # t, rest)) (scan_string r))"
  by pat_completeness auto
termination
  by (relation "measure length") (auto dest: read_u_shorter)

declare scan_string.simps(2) [simp del]

definition json_space :: "char \<Rightarrow> bool" where
  "json_space c \<longleftrightarrow> c \<in> {CHR '' '', CHR 0x09, CHR 0x0A, CHR 0x0D}"

definition skip_ws :: "string \<Rightarrow> string" where
  "skip_ws s = dropWhile json_space s"

definition parse_number :: "string \<Rightarrow> (json \<times> string) option" where
  "parse_number s =
     (let (neg, u) = (case s of c # r \<Rightarrow> if c = CHR ''-'' then (True, r) else (False, s) | [] \<Rightarrow> (False, s))
      in (case read_dec u of
            None \<Rightarrow> None
          | Some (isf, ds, t, r) \<Rightarrow>
              (if isf then Some (JFloat (float_of neg (dec_val ds t)), r)
               else Some (JInt (if neg then - int_of_digits ds else int_of_digits ds), r))))"

definition dict_of_pairs :: "(string \<times> 'v) list \<Rightarrow> 'v pydict" where
  "dict_of_pairs kvs = dict_merge [] kvs"

fun parse_value :: "nat \<Rightarrow> string \<Rightarrow> (json \<times> string) option"
and parse_items :: "nat \<Rightarrow> string \<Rightarrow> (json list \<times> string) option"
and parse_pairs :: "nat \<Rightarrow> string \<Rightarrow> ((string \<times> json) list \<times> string) option" where
  "parse_value 0 s = None"
| "parse_value (Suc n) s =
     (case s of
        [] \<Rightarrow> None
      | c # r \<Rightarrow>
          (if c = CHR 0x22 then map_option (\<lambda>(t, r'). (JStr t, r')) (scan_string r)
           else if c = CHR ''{'' then
             (case skip_ws r of
                [] \<Rightarrow> None
              | d # r' \<Rightarrow> (if d = CHR ''}'' then Some (JObj [], r')
                          else map_option (\<lambda>(kvs, r''). (JObj (dict_of_pairs kvs), r'')) (parse_pairs n (d # r'))))
           else if c = CHR ''['' then
             (case skip_ws r of
                [] \<Rightarrow> None
              | d # r' \<Rightarrow> (if d = CHR '']'' then Some (JList [], r')
                          else map_option (\<lambda>(vs, r''). (JList vs, r'')) (parse_items n (d # r'))))
           else if starts_with s ''null'' then Some (JNull, drop 4 s)
           else if starts_with s ''true'' then Some (JBool True, drop 4 s)
           else if starts_with s ''false'' then Some (JBool False, drop 5 s)
           else (case parse_number s of
                   Some p \<Rightarrow> Some p
                 | None \<Rightarrow>
                     (if starts_with s ''NaN'' then Some (JFloat NaN, drop 3 s)
                      else if starts_with s ''Infinity'' then Some (JFloat (Inf False), drop 8 s)
                      else if starts_with s ''-Infinity'' then Some (JFloat (Inf True), drop 9 s)
                      else None))))"
| "parse_items 0 s = None"
| "parse_items (Suc n) s =
     (case parse_value n s of
        None \<Rightarrow> None
      | Some (v, r) \<Rightarrow>
          (case skip_ws r of
             [] \<Rightarrow> None
           | c # r' \<Rightarrow>
               (if c = CHR '']'' then Some ([v], r')
                else if c = CHR '','' then map_option (\<lambda>(vs, r''). (v # vs, r'')) (parse_items n (skip_ws r'))
                else None)))"
| "parse_pairs 0 s = None"
| "parse_pairs (Suc n) s =
     (case s of
        [] \<Rightarrow> None
      | q # r \<Rightarrow>
          (if q \<noteq> CHR 0x22 then None
           else (case scan_string r of
                   None \<Rightarrow> None
                 | Some (k, r1) \<Rightarrow>
                     (case skip_ws r1 of
                        [] \<Rightarrow> None
                      | c # r2 \<Rightarrow>
                          (if c \<noteq> CHR '':'' then None
                           else (case parse_value n (skip_ws r2) of
                                   None \<Rightarrow> None
                                 | Some (v, r3) \<Rightarrow>
                                     (case skip_ws r3 of
                                        [] \<Rightarrow> None
                                      | d # r4 \<Rightarrow>
                                          (if d = CHR ''}'' then Some ([(k, v)], r4)
                                           else if d = CHR '','' then
                                             map_option (\<lambda>(kvs, r5). ((k, v) # kvs, r5)) (parse_pairs n (skip_ws r4))
                                           else None)))))))) "

text \<open>
  \<^verbatim>\<open>json.loads(data)\<close> for bytes: a byte order mark is dropped, the bytes are decoded, one value
  is read and nothing but white space may follow. \<open>None\<close> is the \<^verbatim>\<open>ValueError\<close>.
\<close>

definition strip_bom :: "bytes \<Rightarrow> bytes" where
  "strip_bom s = (if starts_with s [CHR 0xEF, CHR 0xBB, CHR 0xBF] then drop 3 s else s)"

definition loads :: "bytes \<Rightarrow> json option" where
  "loads data =
     (let s = strip_bom data in
      if \<not> utf8_ok True s then None
      else (case parse_value (2 * length s + 2) (skip_ws s) of
              None \<Rightarrow> None
            | Some (v, r) \<Rightarrow> (if skip_ws r = [] then Some v else None)))"

end
