(* ===== verification/Json_Roundtrip.thy ===== *)
theory Json_Roundtrip
  imports Json
begin

text \<open>
  Reading back what the JSON writer wrote. \<open>jwf\<close> describes the values Python can hold:
  finite floats are doubles, strings are sequences of code points (possibly lone surrogates), the
  keys of an object are distinct. \<open>loads_jwf\<close>: whatever the reader accepts is such a value.
  \<open>canon\<close> sorts the keys of every object, which is what a value becomes after a round trip.
\<close>

section \<open>Well-formed values and their canonical form\<close>

definition float_wf :: "pyfloat \<Rightarrow> bool" where
  "float_wf v \<longleftrightarrow> (case v of Fin x \<Rightarrow> is_double x \<and> \<bar>x\<bar> < overflow_at | _ \<Rightarrow> True)"

fun jwf :: "json \<Rightarrow> bool" where
  "jwf (JFloat v) = float_wf v"
| "jwf (JStr s) = utf8_ok True s"
| "jwf (JList vs) = list_all jwf vs"
| "jwf (JObj kvs) = (distinct (map fst kvs) \<and> list_all (\<lambda>(k, v). utf8_ok True k \<and> jwf v) kvs)"
| "jwf _ = True"

text \<open>Every string in the value is well-formed UTF-8, with (\<open>sp\<close>) or without lone surrogates.\<close>

fun strings_ok :: "bool \<Rightarrow> json \<Rightarrow> bool" where
  "strings_ok sp (JStr s) = utf8_ok sp s"
| "strings_ok sp (JList vs) = list_all (strings_ok sp) vs"
| "strings_ok sp (JObj kvs) = list_all (\<lambda>(k, v). utf8_ok sp k \<and> strings_ok sp v) kvs"
| "strings_ok sp _ = True"

fun canon :: "json \<Rightarrow> json" where
  "canon (JList vs) = JList (map canon vs)"
| "canon (JObj kvs) = JObj (sort_key fst (map (\<lambda>(k, v). (k, canon v)) kvs))"
| "canon v = v"

section \<open>UTF-8 and quoting\<close>

lemma utf8_ok_append: "utf8_ok sp a \<Longrightarrow> utf8_ok sp b \<Longrightarrow> utf8_ok sp (a @ b)"
proof (induction sp a rule: utf8_ok.induct)
  case (2 sp c cs)
  show ?case
  proof (cases "code_of c < 128")
    case False
    then have "hd (cs @ b) = hd cs" using "2.prems"(1) by (cases cs) (auto simp: Let_def)
    with 2 False show ?thesis by (auto simp: Let_def)
  qed (use 2 in simp)
qed simp

lemma utf8_ok_mono: "utf8_ok False s \<Longrightarrow> utf8_ok True s"
proof (induction "False" s rule: utf8_ok.induct)
  case (2 c cs)
  then show ?case by (auto simp: Let_def utf8_second_def)
qed simp

lemma utf8_ok_ascii: "\<forall>c \<in> set s. code_of c < 128 \<Longrightarrow> utf8_ok sp s"
  by (induction s) auto

lemma utf8_ok_join: "utf8_ok sp sep \<Longrightarrow> \<forall>p \<in> set ps. utf8_ok sp p \<Longrightarrow> utf8_ok sp (join_with sep ps)"
  by (induction sep ps rule: join_with.induct) (auto intro!: utf8_ok_append)

lemma esc_char_high:
  assumes "128 \<le> code_of c" shows "esc_char c = [c]"
proof -
  have n: "code_of d < 128 \<Longrightarrow> c \<noteq> d" for d using assms by auto
  show ?thesis using assms unfolding esc_char_def by (simp add: n)
qed

lemma concat_esc_cont: "list_all utf8_cont s \<Longrightarrow> concat (map esc_char s) = s"
  by (induction s) (auto simp: utf8_cont_def esc_char_high)

lemma hex_digit_ascii: "0 \<le> n \<Longrightarrow> n < 16 \<Longrightarrow> code_of (hex_digit n) < 128"
  by (auto simp: hex_digit_def)

lemma esc_char_ascii: "code_of c < 128 \<Longrightarrow> \<forall>d \<in> set (esc_char c). code_of d < 128"
proof -
  assume "code_of c < 128"
  moreover have "code_of (hex_digit (code_of c div 16)) < 128" "code_of (hex_digit (code_of c mod 16)) < 128"
    by (auto intro!: hex_digit_ascii code_of_div_mod)
  ultimately show ?thesis by (simp add: esc_char_def)
qed

lemma utf8_ok_escaped: "utf8_ok sp s \<Longrightarrow> utf8_ok sp (concat (map esc_char s))"
proof (induction sp s rule: utf8_ok.induct)
  case (2 sp c cs)
  show ?case
  proof (cases "code_of c < 128")
    case True
    then have "utf8_ok sp (esc_char c)" by (intro utf8_ok_ascii esc_char_ascii)
    with 2 True show ?thesis by (simp add: utf8_ok_append)
  next
    case False
    define k where "k = utf8_more c"
    have k: "0 < k" "k \<le> length cs" "list_all utf8_cont (take k cs)" "utf8_second sp c (hd cs)" "utf8_ok sp (drop k cs)"
      using "2.prems" False by (auto simp: Let_def k_def)
    have IH: "utf8_ok sp (concat (map esc_char (drop k cs)))"
      using "2.IH"(2) False k by (simp add: k_def)
    have "concat (map esc_char cs) = concat (map esc_char (take k cs @ drop k cs))" by simp
    also have "\<dots> = take k cs @ concat (map esc_char (drop k cs))"
      unfolding map_append concat_append concat_esc_cont [OF k(3)] ..
    finally have e: "concat (map esc_char (c # cs)) = c # take k cs @ concat (map esc_char (drop k cs))"
      using False by (simp add: esc_char_high)
    have "hd (take k cs @ concat (map esc_char (drop k cs))) = hd cs"
      using k(1,2) by (cases cs; cases k) auto
    then show ?thesis unfolding e using k False IH by (simp add: Let_def k_def [symmetric])
  qed
qed simp

lemma utf8_ok_quoted: "utf8_ok sp s \<Longrightarrow> utf8_ok sp (quoted s)"
proof -
  assume "utf8_ok sp s"
  then have "utf8_ok sp (concat (map esc_char s) @ [CHR 0x22])"
    by (intro utf8_ok_append utf8_ok_escaped) auto
  then show ?thesis by (simp add: quoted_def)
qed

lemma hex_val_digit: "0 \<le> n \<Longrightarrow> n < 16 \<Longrightarrow> hex_val (hex_digit n) = Some n"
  by (auto simp: hex_val_def hex_digit_def)

lemma hex4_esc:
  assumes "code_of c < 32"
  shows "hex4 (CHR ''0'' # CHR ''0'' # hex_digit (code_of c div 16) # hex_digit (code_of c mod 16) # r) = Some (code_of c, r)"
proof -
  have "hex_val (hex_digit (code_of c div 16)) = Some (code_of c div 16)"
    "hex_val (hex_digit (code_of c mod 16)) = Some (code_of c mod 16)"
    by (auto intro!: hex_val_digit code_of_div_mod)
  moreover have "hex_val (CHR ''0'') = Some 0" by (simp add: hex_val_def)
  ultimately show ?thesis by (simp add: hex4_def)
qed

lemma scan_string_esc: "scan_string (esc_char c @ r) = map_option (\<lambda>(t, rest). (c # t, rest)) (scan_string r)"
proof (cases "code_of c < 32 \<and> c \<notin> {CHR 0x08, CHR 0x09, CHR 0x0A, CHR 0x0C, CHR 0x0D}")
  case True
  then have n: "32 \<le> code_of d \<Longrightarrow> c \<noteq> d" for d by auto
  with True have e: "esc_char c = [CHR 0x5C, CHR ''u'', CHR ''0'', CHR ''0'', hex_digit (code_of c div 16), hex_digit (code_of c mod 16)]"
    unfolding esc_char_def by (simp add: n)
  have u: "read_u (CHR ''0'' # CHR ''0'' # hex_digit (code_of c div 16) # hex_digit (code_of c mod 16) # r) = Some (code_of c, r)"
    using hex4_esc [of c r] True by (simp add: read_u_def)
  have v: "utf8_encode (code_of c) = [c]" using True by (simp add: utf8_encode_def)
  show ?thesis unfolding e by (simp add: scan_string.simps(2) u v)
next
  case False
  then consider "c \<in> {CHR 0x22, CHR 0x5C, CHR 0x08, CHR 0x09, CHR 0x0A, CHR 0x0C, CHR 0x0D}"
    | "c \<notin> {CHR 0x22, CHR 0x5C, CHR 0x08, CHR 0x09, CHR 0x0A, CHR 0x0C, CHR 0x0D}" "\<not> code_of c < 32"
    by blast
  then show ?thesis
  proof cases
    case 1
    then show ?thesis
      by (elim insertE emptyE) (simp_all add: esc_char_def scan_string.simps(2) simple_escape_def)
  next
    case 2
    then show ?thesis by (simp add: esc_char_def scan_string.simps(2))
  qed
qed

lemma scan_string_quoted: "scan_string (concat (map esc_char s) @ CHR 0x22 # r) = Some (s, r)"
  by (induction s) (simp_all add: scan_string_esc scan_string.simps(2) [of "CHR 0x22"])

section \<open>Sorting the keys\<close>

lemma insort_key_map_snd:
  "insort_key fst (k, f v) (map (\<lambda>(k, v). (k, f v)) xs) = map (\<lambda>(k, v). (k, f v)) (insort_key fst (k, v) xs)"
  by (induction xs) auto

lemma sort_key_map_snd:
  "sort_key fst (map (\<lambda>(k, v). (k, f v)) xs) = map (\<lambda>(k, v). (k, f v)) (sort_key fst xs)"
  by (induction xs) (auto simp: insort_key_map_snd sort_key_def split: prod.splits)

lemma dict_merge_append: "dict_merge d (a @ b) = dict_merge (dict_merge d a) b"
  by (simp add: dict_merge_def)

lemma dict_merge_fresh:
  "distinct (map fst e) \<Longrightarrow> fst ` set e \<inter> fst ` set d = {} \<Longrightarrow> dict_merge d e = d @ e"
proof (induction e arbitrary: d)
  case (Cons kv e)
  obtain k v where kv: "kv = (k, v)" by (cases kv)
  have "dict_get d k = None" using Cons.prems(2) by (auto simp: kv dict_get_def map_of_eq_None_iff)
  then have s: "dict_set k v d = d @ [(k, v)]" by (rule dict_set_absent)
  have "dict_merge (d @ [(k, v)]) e = (d @ [(k, v)]) @ e"
    using Cons.prems by (intro Cons.IH) (auto simp: kv)
  then show ?case by (simp add: dict_merge_def kv s)
qed (simp add: dict_merge_def)

lemma dict_of_pairs_distinct: "distinct (map fst e) \<Longrightarrow> dict_of_pairs e = e"
  using dict_merge_fresh [of e "[]"] by (simp add: dict_of_pairs_def)

lemma distinct_keys_sort: "distinct (map fst kvs) \<Longrightarrow> distinct (map fst (sort_key fst kvs))"
  by (metis distinct_map distinct_sort set_sort)

section \<open>Reading back\<close>

abbreviation dumps_compact :: "json \<Rightarrow> string" where
  "dumps_compact \<equiv> dumps '','' '':''"

definition starts_value :: "string \<Rightarrow> bool" where
  "starts_value s \<longleftrightarrow> (\<exists>c t. s = c # t \<and> \<not> json_space c \<and> c \<noteq> CHR '']'' \<and> c \<noteq> CHR ''}'')"

lemma is_digit_not:
  "is_digit c \<Longrightarrow> \<not> is_digit d \<Longrightarrow> c \<noteq> d"
  by auto

lemma starts_value_digit:
  assumes "is_digit c \<or> c = CHR ''-''" shows "starts_value (c # t)"
proof -
  have n: "\<not> is_digit d \<Longrightarrow> d \<noteq> CHR ''-'' \<Longrightarrow> c \<noteq> d" for d using assms by auto
  show ?thesis by (simp add: starts_value_def json_space_def n is_digit_def)
qed

lemma skip_ws_starts_value: "starts_value s \<Longrightarrow> skip_ws (s @ r) = s @ r"
  by (auto simp: starts_value_def skip_ws_def)

lemma number_start: "i \<ge> 0 \<Longrightarrow> \<exists>c t. digits_of i = c # t \<and> is_digit c"
  using digits_of_digits [of i] by (cases "digits_of i") auto

lemma str_int_start: "\<exists>c t. str_int i = c # t \<and> (is_digit c \<or> c = CHR ''-'')"
  using number_start [of i] number_start [of "- i"] by (auto simp: str_int_def)

lemma str_int_inj: "str_int m = str_int n \<Longrightarrow> m = n"
proof -
  have "(if hd (str_int k) = CHR ''-'' then - int_of_digits (tl (str_int k)) else int_of_digits (str_int k)) = k" for k
  proof (cases "k < 0")
    case False
    obtain c t where ct: "digits_of k = c # t" using number_start [of k] False by auto
    then have "is_digit c" using digits_of_digits [of k] False by auto
    then have "c \<noteq> CHR ''-''" by (auto simp: is_digit_def code_of_def)
    then show ?thesis using False int_of_digits_digits_of [of k] by (simp add: str_int_def ct)
  qed (simp add: str_int_def)
  then show "str_int m = str_int n \<Longrightarrow> m = n" by metis
qed

lemma layout_start:
  assumes "ds \<noteq> []" "\<forall>c \<in> set ds. is_digit c"
  shows "\<exists>c t'. layout ds t = c # t' \<and> is_digit c"
  using assms by (cases ds) (auto simp: layout_def Let_def take_Cons' neq_Nil_conv split: if_splits)

lemma repr_pos_start:
  assumes "is_double x" "0 < x" "x < overflow_at"
  shows "\<exists>c t'. repr_pos x = c # t' \<and> is_digit c"
proof -
  obtain d t where s: "shortest x = (d, t)" by (cases "shortest x")
  have "0 \<le> d" using shortest_reads_back [OF assms] s unfolding shortest_def by blast
  then show ?thesis using layout_start [of "digits_of d" t] digits_of_digits [of d] by (simp add: repr_pos_def s)
qed

lemma parse_value_number:
  assumes "parse_number (c # t) = Some p" "is_digit c \<or> c = CHR ''-''"
  shows "parse_value (Suc n) (c # t) = Some p"
proof -
  have "\<not> is_digit d \<Longrightarrow> d \<noteq> CHR ''-'' \<Longrightarrow> c \<noteq> d" for d using assms(2) by auto
  then show ?thesis using assms(1) by (simp add: is_digit_def)
qed

lemma read_int:
  assumes "0 \<le> i" "ends_number r"
  shows "read_dec (digits_of i @ r) = Some (False, digits_of i, 0, r)"
proof -
  have z: "digits_of i = ''0'' \<or> (digits_of i \<noteq> [] \<and> hd (digits_of i) \<noteq> CHR ''0'')"
    using assms(1) digits_of_no_leading_zero [of i] by (cases "i = 0") auto
  show ?thesis
    using read_dec_int_part [OF digits_of_digits [OF assms(1)] z ends_number_digit [OF assms(2)]] assms(2)
    by simp
qed

lemma parse_number_int: "ends_number r \<Longrightarrow> parse_number (str_int i @ r) = Some (JInt i, r)"
proof (cases "i < 0")
  case True
  moreover assume "ends_number r"
  ultimately show ?thesis using read_int [of "- i" r] by (simp add: parse_number_def str_int_def)
next
  case False
  moreover assume "ends_number r"
  moreover obtain c t where "digits_of i = c # t" "is_digit c" using number_start [of i] False by auto
  ultimately show ?thesis
    using read_int [of i r] int_of_digits_digits_of [of i]
    by (auto simp: parse_number_def str_int_def is_digit_def)
qed

lemma parse_number_pos:
  assumes "is_double x" "0 < x" "x < overflow_at" "ends_number r"
  shows "parse_number (repr_pos x @ r) = Some (JFloat (Fin x), r)"
    and "parse_number (CHR ''-'' # repr_pos x @ r) = Some (JFloat (Fin (- x)), r)"
proof -
  obtain ds t where rd: "read_dec (repr_pos x @ r) = Some (True, ds, t, r)"
    and v: "float_of False (dec_val ds t) = Fin x"
    using read_repr_pos [OF assms] by blast
  obtain c t' where s: "repr_pos x = c # t'" "is_digit c" using repr_pos_start [OF assms(1-3)] by blast
  have "float_of True (dec_val ds t) = Fin (- x)"
    using v assms(2) by (auto simp: float_of_def Let_def split: if_splits)
  then show "parse_number (CHR ''-'' # repr_pos x @ r) = Some (JFloat (Fin (- x)), r)"
    using rd by (simp add: parse_number_def)
  show "parse_number (repr_pos x @ r) = Some (JFloat (Fin x), r)"
    using rd v s by (auto simp: parse_number_def is_digit_def)
qed

lemma overflow_at_pos: "0 < overflow_at"
  unfolding overflow_at_def diff_gt_0_iff_gt pow2_less_iff by simp

lemma parse_number_zero:
  assumes "ends_number r"
  shows "parse_number (''0.0'' @ r) = Some (JFloat (Fin 0), r)"
    and "parse_number (''-0.0'' @ r) = Some (JFloat NegZero, r)"
proof -
  have "split_frac (CHR ''.'' # ''0'' @ r) = (''0'', r)"
    by (rule split_frac_digits) (use assms ends_number_digit in auto)
  then have "read_dec (''0'' @ CHR ''.'' # ''0'' @ r) = Some (True, ''00'', - 1, r)"
    using assms by (subst read_dec_int_part) auto
  moreover have "float_of False (dec_val ''00'' (- 1)) = Fin 0" "float_of True (dec_val ''00'' (- 1)) = NegZero"
    using overflow_at_pos by (simp_all add: float_of_def dec_val_def int_of_digits_def)
  ultimately show "parse_number (''0.0'' @ r) = Some (JFloat (Fin 0), r)"
    "parse_number (''-0.0'' @ r) = Some (JFloat NegZero, r)"
    by (simp_all add: parse_number_def)
qed

lemma parse_float:
  assumes "float_wf v" "ends_number r"
  shows "parse_value (Suc n) (dump_float v @ r) = Some (JFloat v, r)"
proof (cases v)
  case (Fin x)
  consider "x = 0" | "0 < x" | "x < 0" by linarith
  then show ?thesis
  proof cases
    case 1
    then show ?thesis
      using parse_value_number [OF parse_number_zero(1) [OF assms(2), simplified append_Cons], of n]
      by (simp add: Fin dump_float_def repr_float_def)
  next
    case 2
    then have x: "is_double x" "0 < x" "x < overflow_at" using assms(1) by (auto simp: Fin float_wf_def)
    obtain c t where s: "repr_pos x = c # t" "is_digit c" using repr_pos_start [OF x] by blast
    have "parse_value (Suc n) ((c # t) @ r) = Some (JFloat (Fin x), r)"
      unfolding append_Cons
      by (rule parse_value_number) (use parse_number_pos(1) [OF x assms(2)] s in auto)
    then show ?thesis using 2 by (simp add: Fin dump_float_def repr_float_def s)
  next
    case 3
    have "is_double (- x)"
    proof -
      have "is_double x" using assms(1) by (simp add: Fin float_wf_def)
      then obtain k e where "x = of_int k * 2 powi e" "\<bar>k\<bar> \<le> 2 ^ 53" "emin \<le> e" by (auto simp: is_double_form)
      then have "- x = of_int (- k) * 2 powi e" "\<bar>- k\<bar> \<le> 2 ^ 53" "emin \<le> e" by auto
      then show ?thesis unfolding is_double_form by blast
    qed
    with 3 assms(1) have x: "is_double (- x)" "0 < - x" "- x < overflow_at" by (auto simp: Fin float_wf_def)
    have "parse_value (Suc n) (CHR ''-'' # repr_pos (- x) @ r) = Some (JFloat (Fin x), r)"
      by (rule parse_value_number) (use parse_number_pos(2) [OF x assms(2)] in auto)
    then show ?thesis using 3 by (simp add: Fin dump_float_def repr_float_def)
  qed
next
  case NegZero
  then show ?thesis
    using parse_value_number [OF parse_number_zero(2) [OF assms(2), simplified append_Cons], of n]
    by (simp add: dump_float_def repr_float_def)
next
  case (Inf neg)
  then show ?thesis by (cases neg) (simp_all add: dump_float_def parse_number_def read_dec_def is_digit_def)
next
  case NaN
  then show ?thesis by (simp add: dump_float_def parse_number_def read_dec_def is_digit_def)
qed

lemma starts_value_dumps: "jwf v \<Longrightarrow> starts_value (dumps_compact v)"
proof (cases v)
  case (JInt i)
  moreover obtain c t where "str_int i = c # t" "is_digit c \<or> c = CHR ''-''" using str_int_start [of i] by blast
  ultimately show ?thesis using starts_value_digit [of c t] by simp
next
  case (JFloat f)
  assume wf: "jwf v"
  show ?thesis
  proof (cases f)
    case (Fin x)
    consider "x = 0" | "0 < x" | "x < 0" by linarith
    then show ?thesis
    proof cases
      case 2
      then obtain c t where "repr_pos x = c # t" "is_digit c"
        using repr_pos_start [of x] wf by (auto simp: JFloat Fin float_wf_def)
      with 2 show ?thesis
        using starts_value_digit [of c t] by (simp add: JFloat Fin dump_float_def repr_float_def)
    qed (simp_all add: JFloat Fin dump_float_def repr_float_def starts_value_digit)
  qed (auto simp: JFloat dump_float_def repr_float_def starts_value_def json_space_def)
qed (auto simp: starts_value_def quoted_def json_space_def)

lemma ends_number_marks [simp]:
  "ends_number (CHR '','' # r)" "ends_number (CHR '']'' # r)" "ends_number (CHR ''}'' # r)" "ends_number []"
  by (simp_all add: ends_number_def is_digit_def)

lemma skip_ws_marks [simp]:
  "skip_ws (CHR '','' # r) = CHR '','' # r" "skip_ws (CHR '']'' # r) = CHR '']'' # r"
  "skip_ws (CHR ''}'' # r) = CHR ''}'' # r" "skip_ws (CHR '':'' # r) = CHR '':'' # r"
  "skip_ws (CHR 0x22 # r) = CHR 0x22 # r"
  by (simp_all add: skip_ws_def json_space_def)

text \<open>The round trip of one value, as an assumption on the elements of a container.\<close>

definition reads_back :: "json \<Rightarrow> bool" where
  "reads_back v \<longleftrightarrow> starts_value (dumps_compact v)
     \<and> (\<forall>n r. 2 * length (dumps_compact v) + 1 \<le> n \<longrightarrow> ends_number r
          \<longrightarrow> parse_value n (dumps_compact v @ r) = Some (canon v, r))"

lemma parse_items_dumps:
  assumes "\<forall>v \<in> set vs. reads_back v" "vs \<noteq> []"
    and "2 * length (join_with '','' (map dumps_compact vs)) + 2 \<le> n"
  shows "parse_items n (join_with '','' (map dumps_compact vs) @ CHR '']'' # r) = Some (map canon vs, r)"
  using assms
proof (induction vs arbitrary: n)
  case (Cons v vs)
  then obtain n' where n: "n = Suc n'" by (cases n) auto
  have v: "reads_back v" using Cons.prems by simp
  show ?case
  proof (cases vs)
    case Nil
    with v Cons.prems(3) show ?thesis by (simp add: n reads_back_def)
  next
    case (Cons w ws)
    let ?J = "join_with '','' (map dumps_compact (w # ws))"
    have "parse_items n' (?J @ CHR '']'' # r) = Some (map canon (w # ws), r)"
      using Cons.IH [of n'] Cons.prems by (simp add: n \<open>vs = w # ws\<close>)
    moreover have "starts_value ?J"
      using Cons.prems(1) by (cases ws) (auto simp: \<open>vs = w # ws\<close> reads_back_def starts_value_def)
    then have "skip_ws (?J @ CHR '']'' # r) = ?J @ CHR '']'' # r" by (rule skip_ws_starts_value)
    moreover have "parse_value n' (dumps_compact v @ CHR '','' # ?J @ CHR '']'' # r) = Some (canon v, CHR '','' # ?J @ CHR '']'' # r)"
      using v Cons.prems(3) by (auto simp: n reads_back_def \<open>vs = w # ws\<close>)
    ultimately show ?thesis by (simp add: n \<open>vs = w # ws\<close>)
  qed
qed simp

definition pair_text :: "string \<times> json \<Rightarrow> string" where
  "pair_text kv = quoted (fst kv) @ '':'' @ dumps_compact (snd kv)"

lemma parse_pairs_dumps:
  assumes "\<forall>kv \<in> set kvs. reads_back (snd kv)" "kvs \<noteq> []"
    and "2 * length (join_with '','' (map pair_text kvs)) + 2 \<le> n"
  shows "parse_pairs n (join_with '','' (map pair_text kvs) @ CHR ''}'' # r) = Some (map (\<lambda>(k, v). (k, canon v)) kvs, r)"
  using assms
proof (induction kvs arbitrary: n)
  case (Cons kv kvs)
  obtain k v where kv: "kv = (k, v)" by (cases kv)
  obtain n' where n: "n = Suc n'" using Cons.prems(3) by (cases n) auto
  have v: "reads_back v" using Cons.prems by (simp add: kv)
  have sk: "skip_ws (dumps_compact v @ u) = dumps_compact v @ u" for u
    using v by (intro skip_ws_starts_value) (simp add: reads_back_def)
  have pv: "parse_value n' (dumps_compact v @ u) = Some (canon v, u)" if "ends_number u" for u
    using v Cons.prems(3) that by (cases kvs) (auto simp: n kv reads_back_def pair_text_def quoted_def)
  show ?case
  proof (cases kvs)
    case Nil
    then show ?thesis by (simp add: n kv pair_text_def quoted_def scan_string_quoted sk pv)
  next
    case (Cons w ws)
    let ?J = "join_with '','' (map pair_text (w # ws))"
    have "parse_pairs n' (?J @ CHR ''}'' # r) = Some (map (\<lambda>(k, v). (k, canon v)) (w # ws), r)"
      using Cons.IH [of n'] Cons.prems by (simp add: n \<open>kvs = w # ws\<close>)
    moreover have "starts_value ?J"
      by (cases ws) (auto simp: pair_text_def quoted_def starts_value_def json_space_def)
    then have "skip_ws (?J @ CHR ''}'' # r) = ?J @ CHR ''}'' # r" by (rule skip_ws_starts_value)
    ultimately show ?thesis
      by (simp add: n kv \<open>kvs = w # ws\<close> pair_text_def [of "(k, v)"] quoted_def scan_string_quoted sk pv)
  qed
qed simp

lemma dumps_obj: "dumps_compact (JObj kvs) = ''{'' @ join_with '','' (map pair_text (sort_key fst kvs)) @ ''}''"
proof -
  have "map (\<lambda>(k, t). quoted k @ '':'' @ t) (map (\<lambda>(k, v). (k, dumps_compact v)) xs) = map pair_text xs" for xs
    by (auto simp: pair_text_def)
  then show ?thesis by (simp only: dumps.simps sort_key_map_snd)
qed

lemma reads_back_json: "jwf v \<Longrightarrow> reads_back v"
proof (induction v)
  case (JInt i)
  have "parse_value n (str_int i @ r) = Some (JInt i, r)" if "1 \<le> n" "ends_number r" for n r
  proof -
    obtain c t where s: "str_int i = c # t" "is_digit c \<or> c = CHR ''-''" using str_int_start by blast
    have "parse_value (Suc (n - 1)) (c # t @ r) = Some (JInt i, r)"
      by (rule parse_value_number) (use parse_number_int [OF that(2), of i] s in auto)
    with that s show ?thesis by simp
  qed
  then show ?case using starts_value_dumps [OF JInt] by (simp add: reads_back_def)
next
  case (JFloat f)
  have "parse_value n (dump_float f @ r) = Some (JFloat f, r)" if "1 \<le> n" "ends_number r" for n r
    using parse_float [of f r "n - 1"] JFloat that by simp
  then show ?case using starts_value_dumps [OF JFloat] by (simp add: reads_back_def)
next
  case (JStr s)
  have "parse_value n (quoted s @ r) = Some (JStr s, r)" if "1 \<le> n" for n r
    using that by (cases n) (simp_all add: quoted_def scan_string_quoted)
  then show ?case using starts_value_dumps [OF JStr] by (simp add: reads_back_def)
next
  case (JList vs)
  then have el: "\<forall>v \<in> set vs. reads_back v" by (simp add: list_all_iff)
  have "parse_value n (dumps_compact (JList vs) @ r) = Some (canon (JList vs), r)"
    if n: "2 * length (dumps_compact (JList vs)) + 1 \<le> n" for n r
  proof -
    obtain m where m: "n = Suc m" using n by (cases n) auto
    show ?thesis
    proof (cases "vs = []")
      case False
      let ?J = "join_with '','' (map dumps_compact vs)"
      have "parse_items m (?J @ CHR '']'' # r) = Some (map canon vs, r)"
        using n by (intro parse_items_dumps el False) (simp add: m)
      moreover have "starts_value ?J"
        using el False by (cases vs rule: remdups_adj.cases) (auto simp: reads_back_def starts_value_def)
      then obtain c t where "?J = c # t" "\<not> json_space c" "c \<noteq> CHR '']''" by (auto simp: starts_value_def)
      ultimately show ?thesis by (simp add: m skip_ws_def)
    qed (simp add: m)
  qed
  then show ?case using starts_value_dumps [OF JList.prems] by (simp add: reads_back_def)
next
  case (JObj kvs)
  let ?S = "sort_key fst kvs"
  have el: "\<forall>kv \<in> set ?S. reads_back (snd kv)" using JObj by (auto simp: list_all_iff)
  have ds: "distinct (map fst (map (\<lambda>(k, v). (k, canon v)) ?S))"
    using JObj.prems distinct_keys_sort [of kvs] by (simp add: comp_def case_prod_unfold)
  have "parse_value n (dumps_compact (JObj kvs) @ r) = Some (canon (JObj kvs), r)"
    if n: "2 * length (dumps_compact (JObj kvs)) + 1 \<le> n" for n r
  proof -
    obtain m where m: "n = Suc m" using n by (cases n) auto
    show ?thesis
    proof (cases "kvs = []")
      case False
      then have ne: "?S \<noteq> []" by (metis length_0_conv length_sort)
      let ?J = "join_with '','' (map pair_text ?S)"
      have "parse_pairs m (?J @ CHR ''}'' # r) = Some (map (\<lambda>(k, v). (k, canon v)) ?S, r)"
        using n by (intro parse_pairs_dumps el ne) (simp add: m dumps_obj del: dumps.simps)
      moreover obtain t where "?J = CHR 0x22 # t"
        using ne by (cases ?S rule: remdups_adj.cases) (auto simp: pair_text_def quoted_def)
      ultimately show ?thesis
        by (simp add: m dumps_obj dict_of_pairs_distinct [OF ds] sort_key_map_snd del: dumps.simps)
    qed (simp add: m skip_ws_def json_space_def)
  qed
  then show ?case using starts_value_dumps [OF JObj.prems] by (simp add: reads_back_def del: dumps.simps)
next
  case JNull
  have "parse_value n (''null'' @ r) = Some (JNull, r)" if "1 \<le> n" for n r
    using that by (cases n) simp_all
  then show ?case using starts_value_dumps [OF JNull] by (simp add: reads_back_def)
next
  case (JBool b)
  have "parse_value n ((if b then ''true'' else ''false'') @ r) = Some (JBool b, r)" if "1 \<le> n" for n r
    using that by (cases n; cases b) simp_all
  then show ?case using starts_value_dumps [OF JBool] by (simp add: reads_back_def)
qed

section \<open>The written text\<close>

definition plain :: "char \<Rightarrow> bool" where
  "plain c \<longleftrightarrow> 32 \<le> code_of c \<and> code_of c < 128"

lemma digit_plain: "is_digit c \<Longrightarrow> plain c"
  by (simp add: is_digit_def plain_def)

lemma digits_plain: "0 \<le> i \<Longrightarrow> \<forall>c \<in> set (digits_of i). plain c"
  using digits_of_digits [of i] digit_plain by blast

lemma str_int_plain: "\<forall>c \<in> set (str_int i). plain c"
  using digits_plain [of i] digits_plain [of "- i"] by (auto simp: str_int_def plain_def)

lemma layout_set:
  "set (layout ds t) \<subseteq> set ds \<union> set ''0.e+-'' \<union> set (digits_of \<bar>int (length ds) + t - 1\<bar>)"
  by (auto simp: layout_def Let_def zeros_def dest: in_set_takeD in_set_dropD split: if_splits)

lemma layout_plain:
  assumes "\<forall>c \<in> set ds. plain c" shows "\<forall>c \<in> set (layout ds t). plain c"
proof -
  have "\<forall>c \<in> set (digits_of \<bar>int (length ds) + t - 1\<bar>). plain c" by (rule digits_plain) simp
  moreover have "\<forall>c \<in> set ''0.e+-''. plain c" by (simp add: plain_def)
  ultimately show ?thesis using layout_set [of ds t] assms by (blast dest: subsetD)
qed

lemma dump_float_plain:
  assumes "float_wf v" shows "\<forall>c \<in> set (dump_float v). plain c"
proof -
  have p: "\<forall>c \<in> set (repr_pos x). plain c" if "is_double x" "0 < x" "x < overflow_at" for x
  proof -
    obtain d t where s: "shortest x = (d, t)" by (cases "shortest x")
    have "0 \<le> d" using shortest_reads_back [OF that] s unfolding shortest_def by blast
    then show ?thesis using layout_plain [OF digits_plain] by (simp add: repr_pos_def s)
  qed
  have m: "is_double (- x)" if "is_double x" for x
    using that unfolding is_double_form by (metis abs_minus_cancel mult_minus_left of_int_minus)
  show ?thesis
  proof (cases v)
    case (Fin x)
    with assms p [of x] p [of "- x"] m [of x] show ?thesis
      by (auto simp: dump_float_def repr_float_def float_wf_def plain_def)
  qed (auto simp: dump_float_def repr_float_def plain_def)
qed

lemma esc_char_no_control: "\<forall>d \<in> set (esc_char c). 32 \<le> code_of d"
proof -
  have "32 \<le> code_of (hex_digit n)" if "0 \<le> n" "n < 16" for n using that by (simp add: hex_digit_def)
  then show ?thesis using code_of_div_mod [of c] by (simp add: esc_char_def)
qed

lemma join_with_set: "c \<in> set (join_with sep ps) \<Longrightarrow> c \<in> set sep \<or> (\<exists>p \<in> set ps. c \<in> set p)"
  by (induction sep ps rule: join_with.induct) auto

text \<open>The writer's output has no control character, in particular no newline, and is UTF-8.\<close>

lemma dumps_no_control: "jwf v \<Longrightarrow> c \<in> set (dumps_compact v) \<Longrightarrow> 32 \<le> code_of c"
proof (induction v arbitrary: c)
  case (JInt i)
  then show ?case using str_int_plain [of i] by (simp add: plain_def)
next
  case (JFloat f)
  then show ?case using dump_float_plain [of f] by (simp add: plain_def)
next
  case (JStr s)
  then show ?case using esc_char_no_control by (auto simp: quoted_def)
next
  case (JList vs)
  then show ?case by (auto simp: list_all_iff dest!: join_with_set)
next
  case (JObj kvs)
  from JObj.prems(2) consider "c \<in> {CHR ''{'', CHR ''}'', CHR '',''}"
    | kv where "kv \<in> set kvs" "c \<in> set (pair_text kv)"
    by (auto simp only: dumps_obj set_append set_map set_sort Un_iff image_iff list.set dest!: join_with_set) auto
  then show ?case
  proof cases
    case 2
    then show ?thesis
      using JObj esc_char_no_control by (auto simp: pair_text_def quoted_def list_all_iff)
  qed auto
qed (auto split: if_splits)

lemma dumps_strings_ok: "jwf v \<Longrightarrow> strings_ok sp v \<Longrightarrow> utf8_ok sp (dumps_compact v)"
proof (induction v)
  case (JInt i)
  then show ?case using str_int_plain [of i] by (auto simp: plain_def intro!: utf8_ok_ascii)
next
  case (JFloat f)
  then show ?case using dump_float_plain [of f] by (auto simp: plain_def intro!: utf8_ok_ascii)
next
  case (JStr s)
  then show ?case by (simp add: utf8_ok_quoted)
next
  case (JList vs)
  then have "utf8_ok sp (join_with '','' (map dumps_compact vs))"
    by (intro utf8_ok_join) (auto simp: list_all_iff)
  then show ?case by (auto intro!: utf8_ok_append)
next
  case (JObj kvs)
  have "utf8_ok sp (pair_text kv)" if "kv \<in> set kvs" for kv
  proof -
    obtain k v where kv: "kv = (k, v)" by (cases kv)
    then have "jwf v" "strings_ok sp v" "utf8_ok sp k" using JObj.prems that by (auto simp: list_all_iff)
    moreover have "utf8_ok sp (dumps_compact v)" using JObj.IH [of kv v] calculation that by (auto simp: kv)
    ultimately show ?thesis by (auto simp: kv pair_text_def intro!: utf8_ok_append utf8_ok_quoted)
  qed
  then have "utf8_ok sp (join_with '','' (map pair_text (sort_key fst kvs)))"
    by (intro utf8_ok_join) auto
  then have "utf8_ok sp (''{'' @ join_with '','' (map pair_text (sort_key fst kvs)) @ ''}'')"
    by (intro utf8_ok_append) auto
  then show ?case by (simp only: dumps_obj)
qed auto

lemma jwf_strings_ok: "jwf v \<Longrightarrow> strings_ok True v"
  by (induction v) (auto simp: list_all_iff)

lemma dumps_utf8: "jwf v \<Longrightarrow> utf8_ok True (dumps_compact v)"
  using dumps_strings_ok jwf_strings_ok by blast

lemma loads_dumps:
  assumes "jwf v" "\<forall>c \<in> set w. json_space c"
  shows "loads (dumps_compact v @ w) = Some (canon v)"
proof -
  let ?s = "dumps_compact v"
  have sv: "starts_value ?s" and rb: "reads_back v"
    using assms(1) starts_value_dumps reads_back_json by auto
  have w: "ends_number w" "skip_ws w = []" "utf8_ok True w"
  proof -
    have "json_space c \<Longrightarrow> \<not> is_digit c \<and> c \<notin> {CHR ''.'', CHR ''e'', CHR ''E''} \<and> code_of c < 128" for c
      unfolding json_space_def by (elim insertE emptyE) (simp_all add: is_digit_def)
    with assms(2) show "ends_number w" "skip_ws w = []" "utf8_ok True w"
      by (auto simp: ends_number_def skip_ws_def dropWhile_eq_Nil_conv split: list.splits intro!: utf8_ok_ascii)
  qed
  have u: "utf8_ok True (?s @ w)" using dumps_utf8 [OF assms(1)] w(3) by (rule utf8_ok_append)
  have b: "strip_bom (?s @ w) = ?s @ w"
  proof (cases v)
    case (JStr s)
    then show ?thesis by (simp add: strip_bom_def quoted_def)
  next
    case (JInt i)
    then show ?thesis using str_int_start [of i] by (auto simp: strip_bom_def is_digit_def)
  next
    case (JFloat f)
    have "\<forall>c \<in> set ?s. plain c" using assms(1) dump_float_plain by (simp add: JFloat)
    then show ?thesis using sv by (cases ?s) (auto simp: strip_bom_def plain_def starts_value_def)
  qed (auto simp: strip_bom_def)
  have "parse_value (2 * length (?s @ w) + 2) (?s @ w) = Some (canon v, w)"
    using rb w(1) unfolding reads_back_def by (simp del: parse_value.simps)
  then show ?thesis using u b w(2) skip_ws_starts_value [OF sv, of w] by (simp add: loads_def Let_def del: parse_value.simps)
qed

section \<open>Canonical values\<close>

lemma dumps_canon: "dumps_compact (canon v) = dumps_compact v"
proof (induction v)
  case (JList vs)
  then show ?case by (simp add: comp_def cong: map_cong)
next
  case (JObj kvs)
  have "map pair_text (map (\<lambda>(k, v). (k, canon v)) xs) = map pair_text xs" if "set xs \<subseteq> set kvs" for xs
    using JObj that by (auto simp: pair_text_def)
  moreover have "sort_key fst (sort_key fst kvs) = sort_key fst kvs" by (rule sort_key_id_if_sorted) simp
  ultimately show ?case by (simp only: canon.simps dumps_obj sort_key_map_snd set_sort subset_refl)
qed auto

lemma canon_idem [simp]: "canon (canon v) = canon v"
proof (induction v)
  case (JObj kvs)
  have "map (\<lambda>(k, v). (k, canon v)) (map (\<lambda>(k, v). (k, canon v)) xs) = map (\<lambda>(k, v). (k, canon v)) xs"
    if "set xs \<subseteq> set kvs" for xs using JObj that by auto
  moreover have "sort_key fst (sort_key fst kvs) = sort_key fst kvs" by (rule sort_key_id_if_sorted) simp
  ultimately show ?case by (simp only: canon.simps sort_key_map_snd set_sort subset_refl)
qed (auto simp: map_idI)

lemma map_of_canon: "distinct (map fst kvs) \<Longrightarrow>
  map_of (sort_key fst (map (\<lambda>(k, v). (k, canon v)) kvs)) k = map_option canon (map_of kvs k)"
proof -
  assume d: "distinct (map fst kvs)"
  have "map_of (sort_key fst (map (\<lambda>(k, v). (k, canon v)) kvs)) = map_of (map (\<lambda>(k, v). (k, canon v)) kvs)"
    by (rule map_of_inject_set [THEN iffD2])
      (use d distinct_keys_sort [of "map (\<lambda>(k, v). (k, canon v)) kvs"] in \<open>auto simp: comp_def case_prod_unfold\<close>)
  then show ?thesis by (simp add: map_of_map)
qed

section \<open>Enough fuel\<close>

lemma scan_string_shorter: "scan_string s = Some (t, r) \<Longrightarrow> length r < length s"
proof (induction s arbitrary: t r rule: length_induct)
  case (1 s)
  have IH: "length r < length s'" if "scan_string s' = Some (t, r)" "length s' < length s" for s' t r
    using 1 that by blast
  show ?case
  proof (cases s)
    case (Cons c s')
    from "1.prems" show ?thesis unfolding Cons
      by (subst (asm) scan_string.simps)
        (auto simp: Cons split: if_splits list.splits option.splits dest!: IH read_u_shorter)
  qed (use "1.prems" in simp)
qed

lemma length_skip_ws: "length (skip_ws s) \<le> length s"
  by (simp add: skip_ws_def length_dropWhile_le)

lemma skip_ws_Cons: "skip_ws s = c # t \<Longrightarrow> length t < length s"
  using length_skip_ws [of s] by simp

lemma split_frac_shorter: "length (snd (split_frac s)) \<le> length s"
  using length_dropWhile_le [of is_digit] by (auto simp: split_frac_def le_SucI split: list.splits)

lemma split_exp_shorter: "split_exp s = Some (e, r) \<Longrightarrow> length r \<le> length s"
  by (auto simp: split_exp_def Let_def split: list.splits if_splits prod.splits
      intro: le_trans [OF length_dropWhile_le] le_SucI)

lemma read_dec_shorter: "read_dec s = Some (f, ds, t, r) \<Longrightarrow> length r < length s"
proof -
  assume rd: "read_dec s = Some (f, ds, t, r)"
  then obtain c s' where s: "s = c # s'" by (cases s) (auto simp: read_dec_def)
  define r1 where "r1 = (if c = CHR ''0'' then s' else dropWhile is_digit s')"
  have "length r1 \<le> length s'" by (simp add: r1_def length_dropWhile_le)
  moreover obtain fp r2 where sf: "split_frac r1 = (fp, r2)" by (cases "split_frac r1")
  moreover have "length r2 \<le> length r1" using split_frac_shorter [of r1] sf by simp
  moreover have "length r \<le> length r2"
    using rd sf by (auto simp: read_dec_def s r1_def [symmetric] Let_def split: if_splits option.splits
        dest!: split_exp_shorter)
  ultimately show ?thesis by (simp add: s)
qed

lemma parse_number_shorter: "parse_number s = Some (v, r) \<Longrightarrow> length r < length s"
  by (auto simp: parse_number_def split: list.splits if_splits option.splits dest!: read_dec_shorter)

lemma parse_shorter_all:
  "(\<forall>s v r. parse_value n s = Some (v, r) \<longrightarrow> length r < length s)
   \<and> (\<forall>s vs r. parse_items n s = Some (vs, r) \<longrightarrow> length r < length s)
   \<and> (\<forall>s kvs r. parse_pairs n s = Some (kvs, r) \<longrightarrow> length r < length s)"
proof (induction n)
  case (Suc n)
  then have V: "\<And>s v r. parse_value n s = Some (v, r) \<Longrightarrow> length r < length s"
    and I: "\<And>s vs r. parse_items n s = Some (vs, r) \<Longrightarrow> length r < length s"
    and P: "\<And>s kvs r. parse_pairs n s = Some (kvs, r) \<Longrightarrow> length r < length s"
    by blast+
  have I': "length r < length s" if "parse_items n (skip_ws s) = Some (vs, r)" for s vs r
    using I [OF that] length_skip_ws [of s] by simp
  have P': "length r < length s" if "parse_pairs n (skip_ws s) = Some (kvs, r)" for s kvs r
    using P [OF that] length_skip_ws [of s] by simp
  have V': "length r < length s" if "parse_value n (skip_ws s) = Some (v, r)" for s v r
    using V [OF that] length_skip_ws [of s] by simp
  have "length r < length s" if "parse_value (Suc n) s = Some (v, r)" for s v r
    using that by (cases s)
      (auto simp: starts_with_iff split: if_splits list.splits option.splits
        dest!: scan_string_shorter skip_ws_Cons parse_number_shorter I P)
  moreover have "length r < length s" if "parse_items (Suc n) s = Some (vs, r)" for s vs r
    using that by (auto split: if_splits list.splits option.splits dest!: skip_ws_Cons V I')
  moreover have "length r < length s" if "parse_pairs (Suc n) s = Some (kvs, r)" for s kvs r
    using that by (auto split: if_splits list.splits option.splits dest!: skip_ws_Cons scan_string_shorter V' P')
  ultimately show ?case by blast
qed simp

lemmas parse_shorter = parse_shorter_all [THEN conjunct1, rule_format]
  parse_shorter_all [THEN conjunct2, THEN conjunct1, rule_format]
  parse_shorter_all [THEN conjunct2, THEN conjunct2, rule_format]

lemma parse_fuel_all:
  "(\<forall>s. 2 * length s + 1 \<le> n \<longrightarrow> parse_value (Suc n) s = parse_value n s)
   \<and> (\<forall>s. 2 * length s + 2 \<le> n \<longrightarrow> parse_items (Suc n) s = parse_items n s)
   \<and> (\<forall>s. 2 * length s + 2 \<le> n \<longrightarrow> parse_pairs (Suc n) s = parse_pairs n s)"
proof (induction n)
  case (Suc n)
  then have V: "\<And>s. 2 * length s + 1 \<le> n \<Longrightarrow> parse_value (Suc n) s = parse_value n s"
    and I: "\<And>s. 2 * length s + 2 \<le> n \<Longrightarrow> parse_items (Suc n) s = parse_items n s"
    and P: "\<And>s. 2 * length s + 2 \<le> n \<Longrightarrow> parse_pairs (Suc n) s = parse_pairs n s"
    by blast+
  have "parse_value (Suc (Suc n)) s = parse_value (Suc n) s" if s: "2 * length s + 1 \<le> Suc n" for s
  proof (cases s)
    case (Cons c r)
    have "parse_pairs (Suc n) (d # t) = parse_pairs n (d # t)" "parse_items (Suc n) (d # t) = parse_items n (d # t)"
      if "skip_ws r = d # t" for d t
      using s length_skip_ws [of r] that by (auto intro!: P I simp del: parse_pairs.simps parse_items.simps simp: Cons)
    then show ?thesis
      by (simp only: Cons parse_value.simps(2) [of "Suc n" "c # r"] parse_value.simps(2) [of n "c # r"]) (auto split: list.splits simp del: parse_pairs.simps parse_items.simps)
  qed simp
  moreover have "parse_items (Suc (Suc n)) s = parse_items (Suc n) s" if s: "2 * length s + 2 \<le> Suc n" for s
  proof -
    have "parse_value (Suc n) s = parse_value n s" using s by (intro V) simp
    moreover have "parse_items (Suc n) (skip_ws t) = parse_items n (skip_ws t)"
      if "parse_value n s = Some (v, r)" "skip_ws r = c # t" for v r c t
      using s parse_shorter(1) [OF that(1)] skip_ws_Cons [OF that(2)] length_skip_ws [of t]
      by (intro I) simp
    ultimately show ?thesis
      by (simp only: parse_items.simps(2) [of "Suc n" s] parse_items.simps(2) [of n s]) (auto split: list.splits option.splits simp del: parse_items.simps parse_value.simps)
  qed
  moreover have "parse_pairs (Suc (Suc n)) s = parse_pairs (Suc n) s" if s: "2 * length s + 2 \<le> Suc n" for s
  proof (cases s)
    case (Cons q r)
    have v: "parse_value (Suc n) (skip_ws r2) = parse_value n (skip_ws r2)"
      if "scan_string r = Some (k, r1)" "skip_ws r1 = c # r2" for k r1 c r2
      using s scan_string_shorter [OF that(1)] skip_ws_Cons [OF that(2)] length_skip_ws [of r2]
      by (intro V) (simp add: Cons)
    have p: "parse_pairs (Suc n) (skip_ws r4) = parse_pairs n (skip_ws r4)"
      if "scan_string r = Some (k, r1)" "skip_ws r1 = c # r2" "parse_value n (skip_ws r2) = Some (w, r3)" "skip_ws r3 = d # r4"
      for k r1 c r2 w r3 d r4
      using s scan_string_shorter [OF that(1)] skip_ws_Cons [OF that(2)] parse_shorter(1) [OF that(3)]
        length_skip_ws [of r2] skip_ws_Cons [OF that(4)] length_skip_ws [of r4]
      by (intro P) (simp add: Cons)
    show ?thesis
      by (simp only: Cons parse_pairs.simps(2) [of "Suc n" "q # r"] parse_pairs.simps(2) [of n "q # r"])
        (auto split: list.splits option.splits simp: v p simp del: parse_pairs.simps parse_value.simps)
  qed simp
  ultimately show ?case by blast
qed simp

text \<open>Any fuel from \<open>2 n + 1\<close> up gives the same answer, so \<open>loads\<close> never stops for want of it.\<close>

lemma parse_fuel:
  assumes "2 * length s + 1 \<le> n" "n \<le> m"
  shows "parse_value m s = parse_value n s"
  using assms(2)
proof (induction m rule: dec_induct)
  case (step k)
  then show ?case using parse_fuel_all [of k] assms(1) by auto
qed simp

section \<open>What the reader accepts is well formed\<close>

lemma fl_below_overflow:
  assumes "0 < x" "x < overflow_at" shows "fl x < overflow_at"
proof -
  define e where "e = ulp_exp x"
  have "(2::rat) powi (flog2 x) < 2 powi 1024"
    using flog2_bounds(1) [OF assms(1)] assms(2) unfolding overflow_at_def
    by (meson diff_less_eq less_add_same_cancel1 order.strict_trans1 order.strict_trans zero_less_power_int zero_less_numeral)
  then have "flog2 x < 1024" unfolding pow2_less_iff .
  then have e: "e \<le> 971" using assms(1) emin_nonpos by (simp add: e_def ulp_exp_def)
  have f: "fl x = of_int (round_even (x / 2 powi e)) * 2 powi e" using assms(1) by (simp add: fl_def e_def)
  have big: "(2::rat) powi 53 * 2 powi 970 < overflow_at"
  proof -
    have "(2::rat) powi 53 * 2 powi 970 = 2 powi 1023" unfolding pow2_add [symmetric] by simp
    moreover have "(2::rat) powi 1024 = 2 powi 1023 + 2 powi 1023" using pow2_add [of 1023 1] by simp
    moreover have "(2::rat) powi 970 < 2 powi 1023" unfolding pow2_less_iff by simp
    ultimately show ?thesis unfolding overflow_at_def by linarith
  qed
  show ?thesis
  proof (cases "e = 971")
    case False
    have "\<bar>round_even (x / 2 powi e)\<bar> \<le> 2 ^ 53"
    proof (rule round_even_abs_le)
      have "x < 2 powi (flog2 x + 1)" by (rule flog2_bounds) (rule assms(1))
      also have "\<dots> \<le> 2 powi (53 + e)" unfolding pow2_le_iff using assms(1) by (simp add: e_def ulp_exp_def)
      finally have "x / 2 powi e < 2 powi 53" unfolding pow2_add by (simp add: divide_less_eq)
      then show "\<bar>x / 2 powi e\<bar> \<le> of_int (2 ^ 53)" using assms(1) by simp
    qed
    then have "round_even (x / 2 powi e) \<le> 2 ^ 53" by linarith
    then have "of_int (round_even (x / 2 powi e)) \<le> (of_int (2 ^ 53) :: rat)" by (simp only: of_int_le_iff)
    then have "fl x \<le> 2 powi 53 * 2 powi e" unfolding f by (intro mult_right_mono) auto
    also have "\<dots> \<le> 2 powi 53 * 2 powi 970"
    proof (rule mult_left_mono)
      show "(2::rat) powi e \<le> 2 powi 970" unfolding pow2_le_iff using e False by simp
    qed simp
    finally show ?thesis using big by simp
  next
    case True
    have "x / 2 powi 971 < overflow_at / 2 powi 971" using assms(2) by (simp add: divide_strict_right_mono)
    also have "overflow_at / 2 powi 971 = 2 powi 53 - 1/2"
    proof -
      have "(2::rat) powi 1024 / 2 powi 971 = 2 powi 53" unfolding pow2_diff [symmetric] by simp
      moreover have "(2::rat) powi 970 / 2 powi 971 = 2 powi (- 1)" unfolding pow2_diff [symmetric] by simp
      ultimately show ?thesis unfolding overflow_at_def diff_divide_distrib by (simp add: power_int_minus)
    qed
    finally have q: "x / 2 powi 971 < 2 powi 53 - 1/2" .
    define y where "y = x / 2 powi 971"
    have y: "y < 2 ^ 53 - 1/2" using q by (simp add: y_def)
    then have "\<lfloor>y\<rfloor> \<le> 2 ^ 53 - 1" by (simp add: floor_le_iff)
    moreover have "y - of_int \<lfloor>y\<rfloor> < 1/2" if "\<lfloor>y\<rfloor> = 2 ^ 53 - 1" using that y by simp
    ultimately have "round_even y \<le> 2 ^ 53 - 1"
    proof (cases "\<lfloor>y\<rfloor> = 2 ^ 53 - 1")
      case True
      then have "y - of_int \<lfloor>y\<rfloor> < 1/2" using y by simp
      then show ?thesis using True unfolding round_even_def Let_def by simp
    next
      case False
      assume "\<lfloor>y\<rfloor> \<le> 2 ^ 53 - 1"
      with False round_even_bounds(2) [of y] show ?thesis by linarith
    qed
    then have "of_int (round_even y) \<le> (of_int (2 ^ 53 - 1) :: rat)" by (simp only: of_int_le_iff)
    then have "fl x \<le> (2 powi 53 - 1) * 2 powi 971" unfolding f True y_def [symmetric] by (intro mult_right_mono) auto
    also have "\<dots> = 2 powi (53 + 971) - 2 powi 971" unfolding pow2_add by (simp only: left_diff_distrib mult_1)
    also have "\<dots> < overflow_at"
    proof -
      have "(2::rat) powi 970 < 2 powi 971" unfolding pow2_less_iff by simp
      moreover have "(53::int) + 971 = 1024" by simp
      ultimately show ?thesis unfolding overflow_at_def by (simp only: diff_strict_left_mono)
    qed
    finally show ?thesis .
  qed
qed

lemma float_of_wf: "0 \<le> x \<Longrightarrow> float_wf (float_of neg x)"
proof (cases "x = 0")
  case False
  moreover assume "0 \<le> x"
  ultimately have "0 < x" by simp
  moreover have "is_double (- fl x)"
    using is_double_fl [of x] unfolding is_double_form by (metis abs_minus_cancel mult_minus_left of_int_minus)
  ultimately show ?thesis
    using fl_nonneg [of x] fl_below_overflow [of x] by (auto simp: float_of_def float_wf_def Let_def)
qed (auto simp: float_of_def float_wf_def is_double_def overflow_at_pos)

lemma int_of_digits_nonneg: "\<forall>c \<in> set ds. is_digit c \<Longrightarrow> 0 \<le> int_of_digits ds"
  by (induction ds rule: rev_induct) (auto simp: int_of_digits_snoc digit_val_def is_digit_def)

lemma read_dec_digits: "read_dec s = Some (f, ds, t, r) \<Longrightarrow> \<forall>c \<in> set ds. is_digit c"
  by (auto simp: read_dec_def split_frac_def Let_def split: list.splits if_splits option.splits prod.splits
      dest: set_takeWhileD)

lemma parse_number_jwf: "parse_number s = Some (v, r) \<Longrightarrow> jwf v"
  by (auto simp: parse_number_def split: list.splits if_splits option.splits dest!: read_dec_digits
      intro!: float_of_wf mult_nonneg_nonneg int_of_digits_nonneg simp: dec_val_def)

lemma utf8_dropWhile:
  assumes "\<And>c. P c \<Longrightarrow> code_of c < 128" "utf8_ok sp s" shows "utf8_ok sp (dropWhile P s)"
  using assms(2)
proof (induction s)
  case (Cons c s)
  then show ?case using assms(1) [of c] by auto
qed simp

lemma json_space_ascii: "json_space c \<Longrightarrow> code_of c < 128"
  unfolding json_space_def by (elim insertE emptyE) simp_all

lemma is_digit_ascii: "is_digit c \<Longrightarrow> code_of c < 128"
  by (simp add: is_digit_def)

lemma utf8_skip_ws: "utf8_ok sp s \<Longrightarrow> utf8_ok sp (skip_ws s)"
  unfolding skip_ws_def by (rule utf8_dropWhile [OF json_space_ascii])

lemma utf8_split_frac: "utf8_ok sp s \<Longrightarrow> utf8_ok sp (snd (split_frac s))"
  by (auto simp: split_frac_def split: list.splits intro: utf8_dropWhile [OF is_digit_ascii])

lemma utf8_split_exp: "utf8_ok sp s \<Longrightarrow> split_exp s = Some (e, r) \<Longrightarrow> utf8_ok sp r"
  by (auto simp: split_exp_def Let_def split: list.splits if_splits prod.splits dest: is_digit_ascii
      intro: utf8_dropWhile [OF is_digit_ascii])

lemma utf8_read_dec: "utf8_ok sp s \<Longrightarrow> read_dec s = Some (f, ds, t, r) \<Longrightarrow> utf8_ok sp r"
proof -
  assume ok: "utf8_ok sp s" and rd: "read_dec s = Some (f, ds, t, r)"
  then obtain c s' where s: "s = c # s'" "is_digit c" by (cases s) (auto simp: read_dec_def split: if_splits)
  define r1 where "r1 = (if c = CHR ''0'' then s' else dropWhile is_digit s')"
  have "utf8_ok sp r1" using ok s by (auto simp: r1_def is_digit_ascii intro: utf8_dropWhile [OF is_digit_ascii])
  then have "utf8_ok sp (snd (split_frac r1))" by (rule utf8_split_frac)
  then show ?thesis using rd s
    by (auto simp: read_dec_def r1_def [symmetric] Let_def split: if_splits option.splits prod.splits intro: utf8_split_exp)
qed

lemma utf8_parse_number: "utf8_ok sp s \<Longrightarrow> parse_number s = Some (v, r) \<Longrightarrow> utf8_ok sp r"
proof -
  assume ok: "utf8_ok sp s" and p: "parse_number s = Some (v, r)"
  define u where "u = (case s of c # r \<Rightarrow> if c = CHR ''-'' then r else s | [] \<Rightarrow> s)"
  have u: "utf8_ok sp u" using ok by (cases s) (auto simp: u_def)
  have "\<exists>f ds t. read_dec u = Some (f, ds, t, r)"
    using p by (cases s) (auto simp: parse_number_def u_def split: if_splits option.splits prod.splits)
  with u show ?thesis using utf8_read_dec by blast
qed

lemma utf8_one: "code_of c < 128 \<Longrightarrow> utf8_ok sp [c]"
  by simp

lemma utf8_cont_char: "0 \<le> n \<Longrightarrow> n < 64 \<Longrightarrow> utf8_cont (char_of (128 + n)) \<and> code_of (char_of (128 + n)) = 128 + n"
  by (simp add: utf8_cont_def)

lemma utf8_encode_ok:
  assumes "0 \<le> u" "u < 1114112" shows "utf8_ok True (utf8_encode u)"
proof -
  have m: "0 \<le> n mod 64" "n mod 64 < 64" for n :: int by auto
  note cc = utf8_cont_char [OF m]
  consider "u < 128" | "128 \<le> u" "u < 2048" | "2048 \<le> u" "u < 65536" | "65536 \<le> u" by linarith
  then show ?thesis
  proof cases
    case 1
    then show ?thesis using assms by (simp add: utf8_encode_def)
  next
    case 2
    then have d: "2 \<le> u div 64" "u div 64 \<le> 31" by presburger+
    define a where "a = u div 64"
    have "code_of (char_of (192 + a)) = 192 + a" using d by (simp add: a_def)
    then show ?thesis using 2 cc [of u] d [folded a_def]
      by (simp add: utf8_encode_def utf8_more_def utf8_second_def a_def [symmetric])
  next
    case 3
    define a b where "a = u div 4096" and "b = u div 64 mod 64"
    have d: "0 \<le> a" "a \<le> 15" "a = 0 \<Longrightarrow> 32 \<le> b"
    proof -
      show "0 \<le> a" "a \<le> 15" using 3 by (simp_all add: a_def)
      assume "a = 0"
      then have "u < 4096" using 3 by (simp add: a_def)
      then have "b = u div 64" using 3 by (simp add: b_def)
      then show "32 \<le> b" using 3 by simp
    qed
    have "code_of (char_of (224 + a)) = 224 + a" using d by simp
    then show ?thesis using 3 cc [of u] cc [of "u div 64", folded b_def] d
      by (simp add: utf8_encode_def utf8_more_def utf8_second_def a_def [symmetric] b_def [symmetric] numeral_2_eq_2)
  next
    case 4
    define a b where "a = u div 262144" and "b = u div 4096 mod 64"
    have d: "0 \<le> a" "a \<le> 4" "a = 0 \<Longrightarrow> 16 \<le> b" "a = 4 \<Longrightarrow> b \<le> 15"
    proof -
      show "0 \<le> a" "a \<le> 4" using 4 assms by (simp_all add: a_def)
      show "16 \<le> b" if "a = 0"
      proof -
        have "u < 262144" using 4 that by (simp add: a_def)
        then have "b = u div 4096" using 4 by (simp add: b_def)
        then show ?thesis using 4 by simp
      qed
      show "b \<le> 15" if "a = 4"
      proof -
        have "u div 4096 div 64 = 4" using that by (simp add: a_def div_mult2_eq [symmetric] zdiv_zmult2_eq [symmetric])
        moreover have "u div 4096 \<le> 271" using assms by simp
        ultimately show ?thesis unfolding b_def by (simp add: minus_div_mult_eq_mod [symmetric])
      qed
    qed
    have "code_of (char_of (240 + a)) = 240 + a" using d by simp
    then show ?thesis using 4 cc [of u] cc [of "u div 64"] cc [of "u div 4096", folded b_def] d
      by (simp add: utf8_encode_def utf8_more_def utf8_second_def a_def [symmetric] b_def [symmetric] numeral_3_eq_3)
  qed
qed

lemma hex_val_bounds: "hex_val c = Some v \<Longrightarrow> 0 \<le> v \<and> v < 16 \<and> code_of c < 128"
  by (auto simp: hex_val_def Let_def split: if_splits)

lemma hex4_props: "hex4 s = Some (u, r) \<Longrightarrow> 0 \<le> u \<and> u < 65536 \<and> (utf8_ok sp s \<longrightarrow> utf8_ok sp r)"
  by (auto simp: hex4_def split: list.splits option.splits dest!: hex_val_bounds)

lemma read_u_props:
  assumes "read_u s = Some (u, r)" "utf8_ok sp s"
  shows "0 \<le> u \<and> u < 1114112 \<and> utf8_ok sp r"
proof -
  obtain v r1 where h: "hex4 s = Some (v, r1)" using assms(1) by (auto simp: read_u_def split: option.splits)
  note p = hex4_props [OF h, of sp]
  show ?thesis
  proof (cases "55296 \<le> v \<and> v \<le> 56319 \<and> starts_with r1 [CHR 0x5C, CHR ''u'']")
    case False
    then show ?thesis using assms h p by (auto simp: read_u_def)
  next
    case True
    then obtain r2 where r1: "r1 = CHR 0x5C # CHR ''u'' # r2" by (auto simp: starts_with_iff)
    then have ok: "utf8_ok sp r2" using p assms(2) by simp
    show ?thesis using assms h p True ok
      by (auto simp: read_u_def r1 split: option.splits if_splits dest: hex4_props [of r2 _ _ sp])
  qed
qed

lemma simple_escape_ascii: "simple_escape e = Some d \<Longrightarrow> code_of e < 128 \<and> code_of d < 128"
  by (simp add: simple_escape_def split: if_splits) auto

lemma scan_string_cont:
  "list_all utf8_cont a \<Longrightarrow> scan_string (a @ r) = map_option (\<lambda>(t, rest). (a @ t, rest)) (scan_string r)"
proof (induction a)
  case Nil
  then show ?case by (simp add: option.map_ident case_prod_unfold)
next
  case (Cons c a)
  have n: "code_of d < 128 \<Longrightarrow> c \<noteq> d" for d using Cons.prems by (auto simp: utf8_cont_def)
  have "scan_string (c # a @ r) = map_option (\<lambda>(t, rest). (c # t, rest)) (scan_string (a @ r))"
    using Cons.prems by (simp add: scan_string.simps(2) n utf8_cont_def)
  then show ?case using Cons by (simp add: option.map_comp comp_def case_prod_unfold)
qed

lemma scan_string_utf8: "utf8_ok True s \<Longrightarrow> scan_string s = Some (t, r) \<Longrightarrow> utf8_ok True t \<and> utf8_ok True r"
proof (induction s arbitrary: t r rule: length_induct)
  case (1 s)
  have IH: "utf8_ok True t \<and> utf8_ok True r" if "utf8_ok True s'" "scan_string s' = Some (t, r)" "length s' < length s" for s' t r
    using 1 that by blast
  obtain c s' where s: "s = c # s'" using "1.prems" by (cases s) auto
  show ?case
  proof (cases "code_of c < 128")
    case False
    define k where "k = utf8_more c"
    have k: "0 < k" "k \<le> length s'" "list_all utf8_cont (take k s')" "utf8_second True c (hd s')" "utf8_ok True (drop k s')"
      using "1.prems" False by (auto simp: s Let_def k_def)
    have n: "code_of d < 128 \<Longrightarrow> c \<noteq> d" for d using False by auto
    have "scan_string s = map_option (\<lambda>(t, rest). (c # t, rest)) (scan_string (take k s' @ drop k s'))"
      using False by (simp add: s scan_string.simps(2) [of c] n)
    also have "\<dots> = map_option (\<lambda>(t, rest). (c # take k s' @ t, rest)) (scan_string (drop k s'))"
      unfolding scan_string_cont [OF k(3)] by (simp add: option.map_comp comp_def case_prod_unfold)
    finally have "map_option (\<lambda>(t, rest). (c # take k s' @ t, rest)) (scan_string (drop k s')) = Some (t, r)"
      using "1.prems"(2) by simp
    then obtain t' where t': "scan_string (drop k s') = Some (t', r)" "t = c # take k s' @ t'"
      by (cases "scan_string (drop k s')") (auto split: prod.splits)
    have ok: "utf8_ok True t'" "utf8_ok True r" using IH [OF k(5) t'(1)] by (auto simp: s)
    have "hd (take k s' @ t') = hd s'" using k(1,2) by (cases s'; cases k) auto
    then have "utf8_ok True t" using k False ok(1) by (simp add: t'(2) Let_def k_def [symmetric])
    with ok(2) show ?thesis by blast
  next
    case True
    then have ok: "utf8_ok True s'" using "1.prems" by (simp add: s)
    consider "c = CHR 0x22" | "c = CHR 0x5C" | "c \<noteq> CHR 0x22" "c \<noteq> CHR 0x5C" by blast
    then show ?thesis
    proof cases
      case 2
      then obtain e r1 where s': "s' = e # r1" using "1.prems"(2) by (cases s') (auto simp: s scan_string.simps(2))
      show ?thesis
      proof (cases "e = CHR ''u''")
        case True
        then obtain u r2 t' where u: "read_u r1 = Some (u, r2)" "scan_string r2 = Some (t', r)" "t = utf8_encode u @ t'"
          using "1.prems"(2) 2 by (auto simp: s s' scan_string.simps(2) split: option.splits)
        have r2: "0 \<le> u" "u < 1114112" "utf8_ok True r2" using read_u_props [OF u(1), of True] ok True by (auto simp: s')
        have "length r2 < length s" using read_u_shorter [OF u(1)] by (simp add: s s')
        then have "utf8_ok True t' \<and> utf8_ok True r" by (rule IH [OF r2(3) u(2)])
        with u(3) utf8_encode_ok [OF r2(1,2)] show ?thesis by (auto intro: utf8_ok_append)
      next
        case False
        then obtain d t' where d: "simple_escape e = Some d" "scan_string r1 = Some (t', r)" "t = d # t'"
          using "1.prems"(2) 2 by (auto simp: s s' scan_string.simps(2) split: option.splits)
        have "utf8_ok True r1" "length r1 < length s" using ok simple_escape_ascii [OF d(1)] by (simp_all add: s s')
        then have "utf8_ok True t' \<and> utf8_ok True r" using IH d(2) by blast
        with d simple_escape_ascii [OF d(1)] show ?thesis by simp
      qed
    next
      case 3
      then obtain t' where "scan_string s' = Some (t', r)" "t = c # t'"
        using "1.prems"(2) by (auto simp: s scan_string.simps(2) split: if_splits)
      moreover have "length s' < length s" by (simp add: s)
      ultimately show ?thesis using IH [OF ok] True by auto
    qed (use "1.prems"(2) ok in \<open>auto simp: s scan_string.simps(2)\<close>)
  qed
qed

definition jpair :: "string \<times> json \<Rightarrow> bool" where
  "jpair kv \<longleftrightarrow> utf8_ok True (fst kv) \<and> jwf (snd kv)"

lemma jwf_obj: "jwf (JObj kvs) \<longleftrightarrow> dict_ok kvs \<and> list_all jpair kvs"
  by (auto simp: dict_ok_def jpair_def list_all_iff)

lemma list_all_dict_set: "list_all P d \<Longrightarrow> P (k, v) \<Longrightarrow> list_all P (dict_set k v d)"
  by (induction d) auto

lemma list_all_dict_merge: "list_all P d \<Longrightarrow> list_all P e \<Longrightarrow> list_all P (dict_merge d e)"
  unfolding dict_merge_def by (induction e arbitrary: d) (auto intro: list_all_dict_set)

lemma list_all_dict_del: "list_all P d \<Longrightarrow> list_all P (dict_del k d)"
  by (auto simp: dict_del_def list_all_iff)

lemma dict_ok_del: "dict_ok d \<Longrightarrow> dict_ok (dict_del k d)"
  by (auto simp: dict_ok_def dict_del_def distinct_map inj_on_def)

lemma jwf_dict_of_pairs: "list_all jpair kvs \<Longrightarrow> jwf (JObj (dict_of_pairs kvs))"
  unfolding jwf_obj dict_of_pairs_def
  by (intro conjI dict_ok_merge list_all_dict_merge) (simp_all add: dict_ok_def)

lemma utf8_skip_Cons: "utf8_ok True s \<Longrightarrow> skip_ws s = c # t \<Longrightarrow> utf8_ok True (c # t)"
  using utf8_skip_ws [of True s] by simp

lemma utf8_tl: "utf8_ok sp (c # s) \<Longrightarrow> code_of c < 128 \<Longrightarrow> utf8_ok sp s"
  by simp

lemma utf8_drop_prefix:
  assumes "utf8_ok sp s" "starts_with s p" "\<forall>c \<in> set p. code_of c < 128" shows "utf8_ok sp (drop (length p) s)"
proof -
  obtain t where "s = p @ t" using assms(2) by (auto simp: starts_with_iff)
  moreover have "utf8_ok sp (p @ t) \<Longrightarrow> utf8_ok sp t" using assms(3) by (induction p) auto
  ultimately show ?thesis using assms(1) by simp
qed

lemma parse_value_start:
  "parse_value (Suc n) (CHR 0x22 # r) = map_option (\<lambda>(t, r'). (JStr t, r')) (scan_string r)"
  "skip_ws r = d # t \<Longrightarrow> parse_value (Suc n) (CHR ''{'' # r) =
     (if d = CHR ''}'' then Some (JObj [], t)
      else map_option (\<lambda>(kvs, r''). (JObj (dict_of_pairs kvs), r'')) (parse_pairs n (d # t)))"
  "skip_ws r = d # t \<Longrightarrow> parse_value (Suc n) (CHR ''['' # r) =
     (if d = CHR '']'' then Some (JList [], t)
      else map_option (\<lambda>(vs, r''). (JList vs, r'')) (parse_items n (d # t)))"
  "skip_ws r = [] \<Longrightarrow> parse_value (Suc n) (CHR ''{'' # r) = None"
  "skip_ws r = [] \<Longrightarrow> parse_value (Suc n) (CHR ''['' # r) = None"
  by simp_all

lemma parse_value_other:
  assumes "s = c # t" "c \<noteq> CHR 0x22" "c \<noteq> CHR ''{''" "c \<noteq> CHR ''[''"
  shows "parse_value (Suc n) s =
     (if starts_with s ''null'' then Some (JNull, drop 4 s)
      else if starts_with s ''true'' then Some (JBool True, drop 4 s)
      else if starts_with s ''false'' then Some (JBool False, drop 5 s)
      else (case parse_number s of
              Some p \<Rightarrow> Some p
            | None \<Rightarrow>
                (if starts_with s ''NaN'' then Some (JFloat NaN, drop 3 s)
                 else if starts_with s ''Infinity'' then Some (JFloat (Inf False), drop 8 s)
                 else if starts_with s ''-Infinity'' then Some (JFloat (Inf True), drop 9 s)
                 else None)))"
  unfolding assms(1) parse_value.simps list.case by (simp only: assms(2-4) if_False)

lemma parse_jwf_all:
  "(\<forall>s v r. utf8_ok True s \<longrightarrow> parse_value n s = Some (v, r) \<longrightarrow> jwf v \<and> utf8_ok True r)
   \<and> (\<forall>s vs r. utf8_ok True s \<longrightarrow> parse_items n s = Some (vs, r) \<longrightarrow> list_all jwf vs \<and> utf8_ok True r)
   \<and> (\<forall>s kvs r. utf8_ok True s \<longrightarrow> parse_pairs n s = Some (kvs, r) \<longrightarrow> list_all jpair kvs \<and> utf8_ok True r)"
proof (induction n)
  case (Suc n)
  then have V: "\<And>s v r. utf8_ok True s \<Longrightarrow> parse_value n s = Some (v, r) \<Longrightarrow> jwf v \<and> utf8_ok True r"
    and I: "\<And>s vs r. utf8_ok True s \<Longrightarrow> parse_items n s = Some (vs, r) \<Longrightarrow> list_all jwf vs \<and> utf8_ok True r"
    and P: "\<And>s kvs r. utf8_ok True s \<Longrightarrow> parse_pairs n s = Some (kvs, r) \<Longrightarrow> list_all jpair kvs \<and> utf8_ok True r"
    by blast+
  have "jwf v \<and> utf8_ok True r" if ok: "utf8_ok True s" and p: "parse_value (Suc n) s = Some (v, r)" for s v r
  proof (cases s)
    case (Cons c t)
    have word: "utf8_ok True (drop k s)" if "starts_with s w" "\<forall>c \<in> set w. code_of c < 128" "length w = k" for w k
      using utf8_drop_prefix [OF ok that(1,2)] that(3) by simp
    consider "c = CHR 0x22" | "c = CHR ''{''" | "c = CHR ''[''" | "c \<notin> {CHR 0x22, CHR ''{'', CHR ''[''}" by auto
    then show ?thesis
    proof cases
      case 1
      then obtain u where u: "scan_string t = Some (u, r)" "v = JStr u" using p by (auto simp: Cons parse_value_start simp del: parse_value.simps)
      have "utf8_ok True t" using ok 1 by (simp add: Cons)
      from scan_string_utf8 [OF this u(1)] u(2) show ?thesis by simp
    next
      case 2
      have t: "utf8_ok True t" using ok 2 by (simp add: Cons)
      obtain d t' where d: "skip_ws t = d # t'" using p 2
        by (cases "skip_ws t") (simp_all add: Cons parse_value_start del: parse_value.simps)
      note ok' = utf8_skip_Cons [OF t d]
      show ?thesis
      proof (cases "d = CHR ''}''")
        case True
        then show ?thesis using p 2 ok' by (simp add: Cons parse_value_start(2,3) [OF d] del: parse_value.simps) auto
      next
        case False
        then obtain kvs where "parse_pairs n (d # t') = Some (kvs, r)" "v = JObj (dict_of_pairs kvs)"
          using p 2 by (auto simp: Cons parse_value_start(2,3) [OF d] simp del: parse_value.simps)
        then show ?thesis using P [OF ok'] jwf_dict_of_pairs by blast
      qed
    next
      case 3
      have t: "utf8_ok True t" using ok 3 by (simp add: Cons)
      obtain d t' where d: "skip_ws t = d # t'" using p 3
        by (cases "skip_ws t") (simp_all add: Cons parse_value_start del: parse_value.simps)
      note ok' = utf8_skip_Cons [OF t d]
      show ?thesis
      proof (cases "d = CHR '']''")
        case True
        then show ?thesis using p 3 ok' by (simp add: Cons parse_value_start(2,3) [OF d] del: parse_value.simps) auto
      next
        case False
        then obtain vs where "parse_items n (d # t') = Some (vs, r)" "v = JList vs"
          using p 3 by (auto simp: Cons parse_value_start(2,3) [OF d] simp del: parse_value.simps)
        then show ?thesis using I [OF ok'] by simp
      qed
    next
      case 4
      then have eq: "c \<noteq> CHR 0x22" "c \<noteq> CHR ''{''" "c \<noteq> CHR ''[''" by auto
      show ?thesis
      proof (cases "parse_number s")
        case None
        then show ?thesis using p word [of "''null''" 4] word [of "''true''" 4] word [of "''false''" 5]
            word [of "''NaN''" 3] word [of "''Infinity''" 8] word [of "''-Infinity''" 9]
          unfolding parse_value_other [OF Cons eq] by (auto simp: float_wf_def split: if_splits)
      next
        case (Some q)
        then show ?thesis using p word [of "''null''" 4] word [of "''true''" 4] word [of "''false''" 5]
            parse_number_jwf [of s v r] utf8_parse_number [OF ok, of v r]
          unfolding parse_value_other [OF Cons eq] by (auto split: if_splits)
      qed
    qed
  qed (use p in simp)
  moreover have "list_all jwf vs \<and> utf8_ok True r"
    if ok: "utf8_ok True s" and p: "parse_items (Suc n) s = Some (vs, r)" for s vs r
  proof -
    obtain v r1 c r2 where v: "parse_value n s = Some (v, r1)" "skip_ws r1 = c # r2"
      using p by (auto split: option.splits list.splits)
    note w = V [OF ok v(1)]
    note ok' = utf8_skip_Cons [OF conjunct2 [OF w] v(2)]
    show ?thesis
    proof (cases "c = CHR '']''")
      case True
      then show ?thesis using p v w ok' by auto
    next
      case False
      then obtain vs' where c: "c = CHR '',''" and vs: "parse_items n (skip_ws r2) = Some (vs', r)" "vs = v # vs'"
        using p v by (auto split: if_splits)
      have "utf8_ok True (skip_ws r2)" using ok' c utf8_skip_ws by simp
      from I [OF this vs(1)] vs(2) w show ?thesis by simp
    qed
  qed
  moreover have "list_all jpair kvs \<and> utf8_ok True r"
    if ok: "utf8_ok True s" and p: "parse_pairs (Suc n) s = Some (kvs, r)" for s kvs r
  proof -
    obtain r0 where s: "s = CHR 0x22 # r0" using p by (auto split: list.splits if_splits)
    obtain k r1 r2 where k: "scan_string r0 = Some (k, r1)" "skip_ws r1 = CHR '':'' # r2"
      using p by (auto simp: s split: list.splits if_splits option.splits)
    obtain v r3 d r4 where v: "parse_value n (skip_ws r2) = Some (v, r3)" "skip_ws r3 = d # r4"
      using p by (auto simp: s k split: list.splits if_splits option.splits)
    have "utf8_ok True r0" using ok by (simp add: s)
    note w1 = scan_string_utf8 [OF this k(1)]
    have "utf8_ok True (skip_ws r2)" using utf8_skip_Cons [OF conjunct2 [OF w1] k(2)] by (simp add: utf8_skip_ws)
    note w = V [OF this v(1)]
    note ok' = utf8_skip_Cons [OF conjunct2 [OF w] v(2)]
    show ?thesis
    proof (cases "d = CHR ''}''")
      case True
      then show ?thesis using p v w ok' w1 by (auto simp: s k jpair_def)
    next
      case False
      then obtain kvs' where c: "d = CHR '',''" and kvs: "parse_pairs n (skip_ws r4) = Some (kvs', r)" "kvs = (k, v) # kvs'"
        using p v by (auto simp: s k split: if_splits)
      have "utf8_ok True (skip_ws r4)" using ok' c utf8_skip_ws by simp
      from P [OF this kvs(1)] kvs(2) w w1 show ?thesis by (simp add: jpair_def)
    qed
  qed
  ultimately show ?case by blast
qed simp

lemma loads_jwf: "loads data = Some v \<Longrightarrow> jwf v"
proof -
  assume v: "loads data = Some v"
  then have ok: "utf8_ok True (strip_bom data)" by (auto simp: loads_def Let_def split: if_splits)
  then obtain n r where "parse_value n (skip_ws (strip_bom data)) = Some (v, r)"
    using v by (auto simp: loads_def Let_def simp del: parse_value.simps split: if_splits option.splits)
  then show "jwf v" using parse_jwf_all [THEN conjunct1] utf8_skip_ws [OF ok] by blast
qed

end
