(* ===== verification/Py_Text.thy ===== *)
theory Py_Text
  imports Json_Roundtrip
begin

text \<open>
  More of Python's text operations: code points of a UTF-8 text, \<^verbatim>\<open>len\<close>, slices, \<^verbatim>\<open>split\<close>,
  \<^verbatim>\<open>splitlines\<close>, \<^verbatim>\<open>partition\<close>, \<^verbatim>\<open>replace\<close>, the number formats of f-strings, truth and iteration of JSON
  values, and the typographic characters the program writes.
\<close>

section \<open>Code points\<close>

text \<open>A text as the list of the encodings of its code points.\<close>

function utf8_chars :: "string \<Rightarrow> string list" where
  "utf8_chars [] = []"
| "utf8_chars (c # s) = (c # takeWhile utf8_cont s) # utf8_chars (dropWhile utf8_cont s)"
  by pat_completeness auto
termination by (relation "measure length") (auto simp: length_dropWhile_le le_imp_less_Suc)

definition py_len :: "string \<Rightarrow> nat" where
  "py_len s = length (utf8_chars s)"

text \<open>\<^verbatim>\<open>s[:n]\<close> and \<^verbatim>\<open>s[n:]\<close> for a natural number \<open>n\<close>.\<close>

definition py_take :: "nat \<Rightarrow> string \<Rightarrow> string" where
  "py_take n s = concat (take n (utf8_chars s))"

definition py_drop :: "nat \<Rightarrow> string \<Rightarrow> string" where
  "py_drop n s = concat (drop n (utf8_chars s))"

lemma concat_utf8_chars [simp]: "concat (utf8_chars s) = s"
proof (induction s rule: utf8_chars.induct)
  case (2 c s)
  then show ?case by simp
qed simp

lemma py_take_drop [simp]: "py_take n s @ py_drop n s = s"
  by (metis py_take_def py_drop_def concat_append append_take_drop_id concat_utf8_chars)

text \<open>
  Python's string literals. A literal of the source is transcribed with \<open>~\<close> for the backslash: \<open>~n\<close> is a
  line break, \<open>~uXXXX\<close> a character beyond ASCII, \<open>~~\<close> the tilde itself.
\<close>

function lit :: "string \<Rightarrow> string" where
  "lit s =
     (case s of
        [] \<Rightarrow> []
      | c # r \<Rightarrow>
          (if c \<noteq> CHR ''~'' then c # lit r
           else case r of
             [] \<Rightarrow> [c]
           | d # r' \<Rightarrow>
               (if d = CHR ''n'' then CHR 0x0A # lit r'
                else if d = CHR ''u'' then
                  (case hex4 r' of Some (u, r'') \<Rightarrow> utf8_encode u @ lit r'' | None \<Rightarrow> lit r')
                else d # lit r')))"
  by pat_completeness auto
termination by (relation "measure length") (auto dest: hex4_shorter)

declare lit.simps [simp del]

text \<open>A line break, and a blank line.\<close>

definition nl :: string where "nl = [CHR 0x0A]"
definition nl2 :: string where "nl2 = [CHR 0x0A, CHR 0x0A]"

section \<open>Splitting and joining\<close>

text \<open>\<^verbatim>\<open>s.split()\<close>: the maximal runs of characters that are not white space.\<close>

function words_of :: "string \<Rightarrow> string list" where
  "words_of s =
     (let t = dropWhile is_space s in
      if t = [] then []
      else takeWhile (\<lambda>c. \<not> is_space c) t # words_of (dropWhile (\<lambda>c. \<not> is_space c) t))"
  by pat_completeness auto
termination
proof (relation "measure length")
  fix s t :: string
  assume t: "t = dropWhile is_space s" "t \<noteq> []"
  then have "\<not> is_space (hd t)" by (metis hd_dropWhile)
  then have "length (dropWhile (\<lambda>c. \<not> is_space c) t) < length t"
    using t(2) by (cases t) (auto simp: length_dropWhile_le le_imp_less_Suc)
  also have "length t \<le> length s" by (simp add: t(1) length_dropWhile_le)
  finally show "(dropWhile (\<lambda>c. \<not> is_space c) t, s) \<in> measure length" by simp
qed simp

declare words_of.simps [simp del]

text \<open>\<^verbatim>\<open>s.splitlines()\<close> for the line ends a text of the program can have: \<^verbatim>\<open>\n\<close>, \<^verbatim>\<open>\r\<close>, \<^verbatim>\<open>\r\n\<close> and the ASCII separators.\<close>

definition line_end :: "char \<Rightarrow> bool" where
  "line_end c \<longleftrightarrow> c \<in> {CHR 0x0A, CHR 0x0B, CHR 0x0C, CHR 0x0D, CHR 0x1C, CHR 0x1D, CHR 0x1E}"

function split_lines :: "string \<Rightarrow> string list" where
  "split_lines s =
     (if s = [] then []
      else takeWhile (\<lambda>c. \<not> line_end c) s #
        (case dropWhile (\<lambda>c. \<not> line_end c) s of
           [] \<Rightarrow> []
         | c # r \<Rightarrow> split_lines (if c = CHR 0x0D \<and> starts_with r [CHR 0x0A] then tl r else r)))"
  by pat_completeness auto
termination
proof (relation "measure length")
  fix s c r assume "dropWhile (\<lambda>c. \<not> line_end c) s = c # r"
  then have "length (c # r) \<le> length s" by (metis length_dropWhile_le)
  then show "((if c = CHR 0x0D \<and> starts_with r [CHR 0x0A] then tl r else r), s) \<in> measure length" by auto
qed simp

declare split_lines.simps [simp del]

text \<open>\<^verbatim>\<open>s.partition(p)\<close>: before, whether found, after.\<close>

fun partition_at :: "string \<Rightarrow> string \<Rightarrow> string \<times> bool \<times> string" where
  "partition_at p [] = ([], p = [], [])"
| "partition_at p (c # s) =
     (if starts_with (c # s) p then ([], True, drop (length p) (c # s))
      else let (a, f, b) = partition_at p s in (c # a, f, b))"

text \<open>\<^verbatim>\<open>s.split(sep)\<close> for a separator of several characters.\<close>

lemma partition_found_shorter:
  "partition_at p s = (u, True, v) \<Longrightarrow> p \<noteq> [] \<Longrightarrow> length v < length s"
proof (induction s arbitrary: u v)
  case (Cons c s)
  then show ?case by (cases p) (fastforce split: if_splits prod.splits)+
qed simp

function split_text :: "string \<Rightarrow> string \<Rightarrow> string list" where
  "split_text p s =
     (if p = [] then [s]
      else case partition_at p s of (u, found, v) \<Rightarrow> if found then u # split_text p v else [s])"
  by pat_completeness auto
termination by (relation "measure (\<lambda>(p, s). length s)") (auto dest!: sym [where t = "partition_at _ _"] intro: partition_found_shorter)

declare split_text.simps [simp del]

text \<open>\<^verbatim>\<open>s.isdigit()\<close> on ASCII.\<close>

definition py_isdigit :: "string \<Rightarrow> bool" where
  "py_isdigit s \<longleftrightarrow> s \<noteq> [] \<and> list_all is_digit s"

text \<open>\<^verbatim>\<open>s.replace(old, new)\<close> for a nonempty \<open>old\<close>.\<close>

function replace_all :: "string \<Rightarrow> string \<Rightarrow> string \<Rightarrow> string" where
  "replace_all old new s =
     (if s = [] \<or> old = [] then s
      else if starts_with s old then new @ replace_all old new (drop (length old) s)
      else hd s # replace_all old new (tl s))"
  by pat_completeness auto
termination by (relation "measure (\<lambda>(old, new, s). length s)") (auto simp: starts_with_iff)

declare replace_all.simps [simp del]

text \<open>\<^verbatim>\<open>s.rsplit("/", 1)[-1]\<close>: what follows the last slash.\<close>

definition after_slash :: "string \<Rightarrow> string" where
  "after_slash s = last (split_on (CHR ''/'') s)"

text \<open>\<^verbatim>\<open>s.rstrip(chars)\<close> and \<^verbatim>\<open>s.capitalize()\<close>.\<close>

definition py_rstrip_set :: "char list \<Rightarrow> string \<Rightarrow> string" where
  "py_rstrip_set cs s = rev (dropWhile (\<lambda>c. c \<in> set cs) (rev s))"

definition py_capitalize :: "string \<Rightarrow> string" where
  "py_capitalize s = (case s of [] \<Rightarrow> [] | c # r \<Rightarrow> upper_char c # py_lower r)"

section \<open>Numbers in text\<close>

text \<open>\<^verbatim>\<open>f"{x:.nf}"\<close>: the exact value rounded half to even at the last place, with at least one digit before the point.\<close>

definition fmt_fixed :: "nat \<Rightarrow> rat \<Rightarrow> string" where
  "fmt_fixed n x =
     (let m = round_even (\<bar>x\<bar> * 10 ^ n);
          ds = digits_of m;
          ds' = replicate (n + 1 - length ds) (CHR ''0'') @ ds;
          k = length ds' - n
      in (if x < 0 then ''-'' else []) @ take k ds' @ (if n = 0 then [] else CHR ''.'' # drop k ds'))"

text \<open>\<^verbatim>\<open>f"{x:g}"\<close>: six significant digits, without trailing zeros, in fixed point for exponents from -4 to 5.\<close>

definition fmt_g_pos :: "rat \<Rightarrow> string" where
  "fmt_g_pos x =
     (let e0 = flog10 x; m0 = round_even (x / 10 powi (e0 - 5));
          (m, e) = (if m0 = 1000000 then (100000, e0 + 1) else (m0, e0));
          ds = rev (dropWhile (\<lambda>c. c = CHR ''0'') (rev (digits_of m)));
          n = int (length ds)
      in if - 4 \<le> e \<and> e < 6
         then (if e < 0 then ''0.'' @ zeros (nat (- e - 1)) @ ds
               else if n \<le> e + 1 then ds @ zeros (nat (e + 1 - n))
               else take (nat (e + 1)) ds @ ''.'' @ drop (nat (e + 1)) ds)
         else (let p = digits_of \<bar>e\<bar>
               in take 1 ds @ (if n = 1 then [] else ''.'' @ drop 1 ds)
                  @ (if e < 0 then ''e-'' else ''e+'') @ (if length p < 2 then CHR ''0'' # p else p)))"

definition fmt_g :: "pyfloat \<Rightarrow> string" where
  "fmt_g v = (case v of
      Fin x \<Rightarrow> (if x = 0 then ''0'' else if x < 0 then CHR ''-'' # fmt_g_pos (- x) else fmt_g_pos x)
    | NegZero \<Rightarrow> ''-0'' | Inf neg \<Rightarrow> (if neg then ''-inf'' else ''inf'') | NaN \<Rightarrow> ''nan'')"

text \<open>\<^verbatim>\<open>f"{n:,}"\<close>: thousands separators.\<close>

fun group3 :: "string \<Rightarrow> string" where
  "group3 (a # b # c # d # r) = a # b # c # CHR '','' # group3 (d # r)"
| "group3 s = s"

definition commas :: "int \<Rightarrow> string" where
  "commas n = (if n < 0 then ''-'' else []) @ rev (group3 (rev (digits_of \<bar>n\<bar>)))"

definition str_nat :: "nat \<Rightarrow> string" where
  "str_nat n = str_int (int n)"

section \<open>JSON values as Python objects\<close>

text \<open>\<^verbatim>\<open>d.get(k)\<close> on a dictionary, with \<open>JNull\<close> for a missing key.\<close>

definition jget :: "json pydict \<Rightarrow> string \<Rightarrow> json" where
  "jget d k = (case dict_get d k of None \<Rightarrow> JNull | Some v \<Rightarrow> v)"

fun jtruthy :: "json \<Rightarrow> bool" where
  "jtruthy JNull = False"
| "jtruthy (JBool b) = b"
| "jtruthy (JInt i) = (i \<noteq> 0)"
| "jtruthy (JFloat v) = (v \<noteq> Fin 0 \<and> v \<noteq> NegZero)"
| "jtruthy (JStr s) = (s \<noteq> [])"
| "jtruthy (JList vs) = (vs \<noteq> [])"
| "jtruthy (JObj kvs) = (kvs \<noteq> [])"

text \<open>\<^verbatim>\<open>a or b\<close>.\<close>

definition jor :: "json \<Rightarrow> json \<Rightarrow> json" where
  "jor a b = (if jtruthy a then a else b)"

text \<open>\<^verbatim>\<open>json.loads(s)\<close> on a text: as on bytes, but a leading byte order mark is an error.\<close>

definition loads_text :: "string \<Rightarrow> json option" where
  "loads_text s = (if starts_with s [CHR 0xEF, CHR 0xBB, CHR 0xBF] then None else loads s)"

section \<open>Lemmas\<close>

lemma words_of_Nil [simp]: "words_of [] = []"
  by (simp add: words_of.simps)

lemma words_of_nonspace: "w \<in> set (words_of s) \<Longrightarrow> w \<noteq> [] \<and> (\<forall>c \<in> set w. \<not> is_space c)"
proof (induction s rule: words_of.induct)
  case (1 s)
  let ?t = "dropWhile is_space s"
  show ?case
  proof (cases "?t = []")
    case True
    then show ?thesis using "1.prems" by (subst (asm) words_of.simps) simp
  next
    case False
    then have h: "\<not> is_space (hd ?t)" by (metis hd_dropWhile)
    have "w = takeWhile (\<lambda>c. \<not> is_space c) ?t \<or> w \<in> set (words_of (dropWhile (\<lambda>c. \<not> is_space c) ?t))"
      using "1.prems" False by (subst (asm) words_of.simps) (auto simp: Let_def split: if_splits)
    then show ?thesis
    proof
      assume w: "w = takeWhile (\<lambda>c. \<not> is_space c) ?t"
      have "w \<noteq> []" using w h False by (cases ?t) auto
      moreover have "\<not> is_space c" if "c \<in> set w" for c using that w by (auto dest: set_takeWhileD)
      ultimately show ?thesis by blast
    qed (use "1.IH" [OF refl False] in blast)
  qed
qed

lemma contains_Cons_iff: "contains (c # s) p \<longleftrightarrow> starts_with (c # s) p \<or> contains s p"
  by simp

lemma partition_at_spec:
  "partition_at p s = (u, f, v) \<Longrightarrow> (if contains s p then f \<and> s = u @ p @ v else \<not> f \<and> u = s \<and> v = [])"
proof (induction s arbitrary: u f v)
  case (Cons c s)
  show ?case
  proof (cases "starts_with (c # s) p")
    case True
    then obtain t where t: "c # s = p @ t" unfolding starts_with_iff by blast
    have "(u, f, v) = ([], True, drop (length p) (c # s))" using Cons.prems True by (simp del: starts_with.simps)
    then have "u = []" "f" "v = t" using t by (simp_all del: drop_Cons')
    moreover have "contains (c # s) p" using True unfolding contains_Cons_iff by blast
    ultimately show ?thesis using t by (simp del: contains.simps)
  next
    case False
    obtain u' f' v' where r: "partition_at p s = (u', f', v')" by (cases "partition_at p s") auto
    then have "u = c # u'" "f = f'" "v = v'" using Cons.prems False by (simp_all del: starts_with.simps)
    then show ?thesis using Cons.IH [OF r] False by (simp del: starts_with.simps split: if_splits)
  qed
qed auto

lemma partition_at_length:
  assumes "partition_at p s = (u, f, v)"
  shows "length u + length v \<le> length s" "contains s p \<Longrightarrow> length u + length v + length p = length s"
proof -
  note spec = partition_at_spec [OF assms]
  show "contains s p \<Longrightarrow> length u + length v + length p = length s" using spec by simp
  then show "length u + length v \<le> length s" using spec by (cases "contains s p") auto
qed

end
