(* ===== verification/Sha256.thy ===== *)
theory Sha256
  imports Json "HOL-Library.Word"
begin

text \<open>
  \<^verbatim>\<open>hashlib.sha256(data).hexdigest()\<close>: the SHA-256 of FIPS 180-4 on 32-bit words, where addition
  wraps. The development uses of it only that it is a function and that its digest has 64
  hexadecimal digits; that two different entries do not collide is stated as a hypothesis where a
  property depends on it.
\<close>

section \<open>The hash function\<close>

type_synonym w32 = "32 word"

definition sha_k :: "w32 list" where
  "sha_k = [
     1116352408, 1899447441, 3049323471, 3921009573, 961987163, 1508970993, 2453635748, 2870763221,
     3624381080, 310598401, 607225278, 1426881987, 1925078388, 2162078206, 2614888103, 3248222580,
     3835390401, 4022224774, 264347078, 604807628, 770255983, 1249150122, 1555081692, 1996064986,
     2554220882, 2821834349, 2952996808, 3210313671, 3336571891, 3584528711, 113926993, 338241895,
     666307205, 773529912, 1294757372, 1396182291, 1695183700, 1986661051, 2177026350, 2456956037,
     2730485921, 2820302411, 3259730800, 3345764771, 3516065817, 3600352804, 4094571909, 275423344,
     430227734, 506948616, 659060556, 883997877, 958139571, 1322822218, 1537002063, 1747873779,
     1955562222, 2024104815, 2227730452, 2361852424, 2428436474, 2756734187, 3204031479, 3329325298]"

definition sha_init :: "w32 list" where
  "sha_init = [
     1779033703, 3144134277, 1013904242, 2773480762,
     1359893119, 2600822924, 528734635, 1541459225]"

definition sigma0 :: "w32 \<Rightarrow> w32" where
  "sigma0 x = xor (xor (word_rotr 7 x) (word_rotr 18 x)) (drop_bit 3 x)"

definition sigma1 :: "w32 \<Rightarrow> w32" where
  "sigma1 x = xor (xor (word_rotr 17 x) (word_rotr 19 x)) (drop_bit 10 x)"

definition big_sigma0 :: "w32 \<Rightarrow> w32" where
  "big_sigma0 x = xor (xor (word_rotr 2 x) (word_rotr 13 x)) (word_rotr 22 x)"

definition big_sigma1 :: "w32 \<Rightarrow> w32" where
  "big_sigma1 x = xor (xor (word_rotr 6 x) (word_rotr 11 x)) (word_rotr 25 x)"

definition ch :: "w32 \<Rightarrow> w32 \<Rightarrow> w32 \<Rightarrow> w32" where
  "ch x y z = xor (and x y) (and (not x) z)"

definition maj :: "w32 \<Rightarrow> w32 \<Rightarrow> w32 \<Rightarrow> w32" where
  "maj x y z = xor (xor (and x y) (and x z)) (and y z)"

text \<open>The message schedule, newest word first: 16 words of the block, then 48 more.\<close>

fun schedule :: "nat \<Rightarrow> w32 list \<Rightarrow> w32 list" where
  "schedule 0 ws = ws"
| "schedule (Suc n) ws =
     schedule n ((sigma1 (ws ! 1) + ws ! 6 + sigma0 (ws ! 14) + ws ! 15) # ws)"

fun sha_round :: "w32 list \<Rightarrow> w32 \<times> w32 \<Rightarrow> w32 list" where
  "sha_round [a, b, c, d, e, f, g, h] (k, w) =
     (let t1 = h + big_sigma1 e + ch e f g + k + w; t2 = big_sigma0 a + maj a b c
      in [t1 + t2, a, b, c, d + t1, e, f, g])"
| "sha_round s kw = s"

definition compress :: "w32 list \<Rightarrow> w32 list \<Rightarrow> w32 list" where
  "compress hs block =
     (let ws = rev (schedule 48 (rev block))
      in map2 (+) hs (foldl sha_round hs (zip sha_k ws)))"

fun be_words :: "bytes \<Rightarrow> w32 list" where
  "be_words (a # b # c # d # r) =
     word_of_int (((code_of a * 256 + code_of b) * 256 + code_of c) * 256 + code_of d) # be_words r"
| "be_words _ = []"

fun blocks :: "nat \<Rightarrow> w32 list \<Rightarrow> w32 list list" where
  "blocks 0 ws = []"
| "blocks (Suc n) ws = take 16 ws # blocks n (drop 16 ws)"

definition be_bytes :: "nat \<Rightarrow> int \<Rightarrow> bytes" where
  "be_bytes n x = map (\<lambda>i. char_of (x div 256 ^ i mod 256)) (rev [0..<n])"

text \<open>The message, the bit 1, zeros up to 56 modulo 64, and the length in bits.\<close>

definition pad :: "bytes \<Rightarrow> bytes" where
  "pad s = (let n = length s; z = (119 - n mod 64) mod 64
            in s @ CHR 0x80 # replicate z (CHR 0x00) @ be_bytes 8 (8 * int n))"

definition sha256 :: "bytes \<Rightarrow> w32 list" where
  "sha256 s = (let ws = be_words (pad s) in foldl compress sha_init (blocks (length ws div 16) ws))"

definition hex8 :: "w32 \<Rightarrow> string" where
  "hex8 w = map (\<lambda>i. hex_digit (uint w div 16 ^ i mod 16)) (rev [0..<8])"

definition sha256_hex :: "bytes \<Rightarrow> string" where
  "sha256_hex s = concat (map hex8 (sha256 s))"

section \<open>The digest is 64 hexadecimal digits\<close>

lemma length_sha_round: "length (sha_round s kw) = length s"
  by (cases "(s, kw)" rule: sha_round.cases) (auto simp: Let_def)

lemma length_rounds: "length (foldl sha_round s kws) = length s"
  by (induction kws arbitrary: s) (auto simp: length_sha_round)

lemma length_compress: "length (compress hs b) = length hs"
  by (simp add: compress_def length_rounds Let_def)

lemma length_compress_blocks: "length (foldl compress hs bs) = length hs"
  by (induction bs arbitrary: hs) (auto simp: length_compress)

lemma length_concat_hex8: "length (concat (map hex8 ws)) = 8 * length ws"
  by (induction ws) (auto simp: hex8_def)

lemma length_sha256_hex [simp]: "length (sha256_hex s) = 64"
  by (simp add: sha256_hex_def sha256_def length_concat_hex8 length_compress_blocks sha_init_def Let_def)

lemma hex8_chars: "\<forall>c \<in> set (hex8 w). code_of c < 128 \<and> 48 \<le> code_of c"
proof -
  have "code_of (hex_digit n) < 128 \<and> 48 \<le> code_of (hex_digit n)" if "0 \<le> n" "n < 16" for n
    using that by (simp add: hex_digit_def)
  then show ?thesis by (auto simp: hex8_def)
qed

lemma sha256_hex_chars: "c \<in> set (sha256_hex s) \<Longrightarrow> code_of c < 128 \<and> 48 \<le> code_of c"
  using hex8_chars by (auto simp: sha256_hex_def)

end
