(* ===== verification/Audit_Trail.thy ===== *)
theory Audit_Trail
  imports Py_Text Sha256
begin

text \<open>
  The audit trail, \<^verbatim>\<open>backend/open_webui/utils/fource_audit.py\<close>: an append-only file of JSON lines in
  which every entry carries the hash of the one before it. The state is the object's fields and the
  bytes of its file. Each method takes the state and returns the new one; an exception is a value
  of \<open>py_error\<close>. The lock makes every method atomic, so an interleaving of threads is a sequence
  of method calls.
\<close>

section \<open>State\<close>

definition GENESIS :: string where
  "GENESIS = replicate 64 (CHR ''0'')"

datatype py_error =
    JSONDecodeError | KeyError | TypeError | ValueError | OverflowError | AttributeError
  | UnicodeEncodeError | OSError | IndexError

text \<open>\<open>tr_file\<close> is \<open>None\<close> when the path does not exist; \<open>tr_last_error\<close> is \<open>None\<close> for the empty string.\<close>

record audit_trail =
  tr_file :: "bytes option"
  tr_seq :: "json option"
  tr_head :: string
  tr_last_error :: "py_error option"
  tr_failed_writes :: nat

definition new_trail :: "bytes option \<Rightarrow> audit_trail" where
  "new_trail f = \<lparr>tr_file = f, tr_seq = None, tr_head = GENESIS, tr_last_error = None, tr_failed_writes = 0\<rparr>"

section \<open>Digests\<close>

text \<open>\<^verbatim>\<open>digest\<close>: of text or bytes directly, of anything else through its JSON text.\<close>

datatype hashable = HBytes bytes | HStr string | HJson json

definition encode_utf8 :: "string \<Rightarrow> py_error + bytes" where
  "encode_utf8 s = (if utf8_ok False s then Inr s else Inl UnicodeEncodeError)"

definition digest :: "hashable \<Rightarrow> py_error + string" where
  "digest value =
     (case (case value of HBytes b \<Rightarrow> Inr b | HStr s \<Rightarrow> encode_utf8 s
                        | HJson v \<Rightarrow> encode_utf8 (dumps '', '' '': '' v)) of
        Inl e \<Rightarrow> Inl e
      | Inr data \<Rightarrow> Inr (sha256_hex data))"

definition canonical :: "json pydict \<Rightarrow> py_error + bytes" where
  "canonical entry = encode_utf8 (dumps '','' '':'' (JObj entry))"

definition seal :: "json pydict \<Rightarrow> py_error + string" where
  "seal entry = (case canonical (dict_del ''hash'' entry) of
                   Inl e \<Rightarrow> Inl e | Inr data \<Rightarrow> Inr (sha256_hex data))"

section \<open>Python's conversions\<close>

fun strip_underscores :: "string \<Rightarrow> string option" where
  "strip_underscores [] = Some []"
| "strip_underscores (c # s) =
     (if is_digit c then
        (case s of
           d # s' \<Rightarrow> (if d = CHR ''_'' \<and> s' \<noteq> [] then map_option ((#) c) (strip_underscores s')
                      else map_option ((#) c) (strip_underscores s))
         | [] \<Rightarrow> Some [c])
      else None)"

text \<open>\<^verbatim>\<open>int(v)\<close>.\<close>

definition int_of_text :: "string \<Rightarrow> py_error + int" where
  "int_of_text t =
     (let s = py_strip t;
          (neg, u) = (case s of c # r \<Rightarrow> if c = CHR ''-'' then (True, r) else if c = CHR ''+'' then (False, r) else (False, s)
                              | [] \<Rightarrow> (False, s))
      in if u = [] then Inl ValueError
         else (case strip_underscores u of
                 None \<Rightarrow> Inl ValueError
               | Some ds \<Rightarrow> Inr (if neg then - int_of_digits ds else int_of_digits ds)))"

fun py_int :: "json \<Rightarrow> py_error + int" where
  "py_int (JInt i) = Inr i"
| "py_int (JBool b) = Inr (of_bool b)"
| "py_int (JFloat (Fin x)) = Inr (if x < 0 then - \<lfloor>- x\<rfloor> else \<lfloor>x\<rfloor>)"
| "py_int (JFloat NegZero) = Inr 0"
| "py_int (JFloat (Inf _)) = Inl OverflowError"
| "py_int (JFloat NaN) = Inl ValueError"
| "py_int (JStr s) = int_of_text s"
| "py_int JNull = Inl TypeError"
| "py_int (JList _) = Inl TypeError"
| "py_int (JObj _) = Inl TypeError"

definition repr_str :: "string \<Rightarrow> string" where
  "repr_str s =
     (let q = (if CHR 0x27 \<in> set s \<and> CHR 0x22 \<notin> set s then CHR 0x22 else CHR 0x27);
          e = (\<lambda>c. if c = q \<or> c = CHR 0x5C then [CHR 0x5C, c]
                   else if c = CHR 0x0A then [CHR 0x5C, CHR ''n''] else if c = CHR 0x0D then [CHR 0x5C, CHR ''r'']
                   else if c = CHR 0x09 then [CHR 0x5C, CHR ''t'']
                   else if code_of c < 32 \<or> code_of c = 127
                     then [CHR 0x5C, CHR ''x'', hex_digit (code_of c div 16), hex_digit (code_of c mod 16)]
                   else [c])
      in q # concat (map e s) @ [q])"

function py_repr :: "json \<Rightarrow> string" where
  "py_repr JNull = ''None''"
| "py_repr (JBool b) = (if b then ''True'' else ''False'')"
| "py_repr (JInt i) = str_int i"
| "py_repr (JFloat v) = repr_float v"
| "py_repr (JStr s) = repr_str s"
| "py_repr (JList vs) = ''['' @ join_with '', '' (map py_repr vs) @ '']''"
| "py_repr (JObj kvs) = ''{'' @ join_with '', '' (map (\<lambda>(k, v). repr_str k @ '': '' @ py_repr v) kvs) @ ''}''"
  by pat_completeness auto
termination
proof (relation "measure size", goal_cases)
  case (2 vs v)
  then show ?case by (simp add: less_Suc_eq_le size_list_estimation')
next
  case (3 kvs kv k v)
  then have "size v < Suc (size_list (size_prod (\<lambda>_. 0) size) kvs)" by (induction kvs) auto
  then show ?case by simp
qed simp

text \<open>\<^verbatim>\<open>str(v)\<close>: a string itself, otherwise its representation.\<close>

definition py_str :: "json \<Rightarrow> string" where
  "py_str v = (case v of JStr s \<Rightarrow> s | _ \<Rightarrow> py_repr v)"

text \<open>\<^verbatim>\<open>v == n\<close>, \<^verbatim>\<open>isinstance(v, int) and v > n\<close> and \<^verbatim>\<open>v + 1\<close>.\<close>

fun eq_int :: "json \<Rightarrow> int \<Rightarrow> bool" where
  "eq_int (JInt i) n = (i = n)"
| "eq_int (JBool b) n = (of_bool b = n)"
| "eq_int (JFloat (Fin x)) n = (x = of_int n)"
| "eq_int (JFloat NegZero) n = (n = 0)"
| "eq_int _ n = False"

fun int_above :: "json \<Rightarrow> int \<Rightarrow> bool" where
  "int_above (JInt i) n = (n < i)"
| "int_above (JBool b) n = (n < of_bool b)"
| "int_above _ n = False"

fun add_one :: "json \<Rightarrow> py_error + json" where
  "add_one (JInt i) = Inr (JInt (i + 1))"
| "add_one (JBool b) = Inr (JInt (of_bool b + 1))"
| "add_one (JFloat (Fin x)) = Inr (JFloat (Fin (fadd x 1)))"
| "add_one (JFloat NegZero) = Inr (JFloat (Fin 1))"
| "add_one (JFloat v) = Inr (JFloat v)"
| "add_one _ = Inl TypeError"

section \<open>Writing\<close>

text \<open>
  \<^verbatim>\<open>_last_line\<close>: read blocks of 4096 bytes backwards from \<open>end\<close> until two lines that are not blank,
  or the start of the file, have been seen.
\<close>

definition newline :: char where
  "newline = CHR 0x0A"

definition text_lines :: "bytes \<Rightarrow> bytes list" where
  "text_lines data = filter nonblank (split_on newline data)"

function last_line_from :: "bytes \<Rightarrow> nat \<Rightarrow> bytes \<Rightarrow> bytes" where
  "last_line_from f end data =
     (if end = 0 then []
      else let start = end - 4096;
               data' = drop start (take end f) @ data;
               lines = text_lines data'
           in if 1 < length lines \<or> start = 0 then (if lines = [] then [] else last lines)
              else last_line_from f start data')"
  by pat_completeness auto
termination
  by (relation "measure (\<lambda>(f, end, data). end)") auto

declare last_line_from.simps [simp del]

definition last_line :: "audit_trail \<Rightarrow> bytes" where
  "last_line tr = (case tr_file tr of None \<Rightarrow> [] | Some f \<Rightarrow> last_line_from f (length f) [])"

definition load_head :: "audit_trail \<Rightarrow> py_error + audit_trail" where
  "load_head tr =
     (let line = last_line tr in
      if line = [] then Inr (tr\<lparr>tr_seq := Some (JInt 0), tr_head := GENESIS\<rparr>)
      else (case loads line of
              None \<Rightarrow> Inl JSONDecodeError
            | Some (JObj entry) \<Rightarrow>
                (case dict_get entry ''seq'' of
                   None \<Rightarrow> Inl KeyError
                 | Some s \<Rightarrow>
                     (case py_int s of
                        Inl e \<Rightarrow> Inl e
                      | Inr n \<Rightarrow>
                          (case dict_get entry ''hash'' of
                             None \<Rightarrow> Inl KeyError
                           | Some h \<Rightarrow> Inr (tr\<lparr>tr_seq := Some (JInt n), tr_head := py_str h\<rparr>))))
            | Some _ \<Rightarrow> Inl TypeError))"

text \<open>
  What the operating system does with the write: all of it reaches the disk; or the folder or the
  file cannot be opened; or the call raises after the first \<open>n\<close> bytes (all of them when it is
  the sync that fails).
\<close>

datatype disk = DiskOk | NoOpen | FailAfter nat

definition write_line :: "disk \<Rightarrow> bytes \<Rightarrow> bytes option \<Rightarrow> bool \<times> bytes option" where
  "write_line d line f =
     (let old = (case f of None \<Rightarrow> [] | Some b \<Rightarrow> b) in
      case d of
        DiskOk \<Rightarrow> (True, Some (old @ line))
      | NoOpen \<Rightarrow> (False, f)
      | FailAfter n \<Rightarrow> (False, Some (old @ take n line)))"

definition keep_context :: "json pydict \<Rightarrow> json pydict" where
  "keep_context ctx = filter (\<lambda>(k, v). v \<noteq> JNull \<and> v \<noteq> JStr []) ctx"

definition keep_fields :: "json pydict \<Rightarrow> json pydict" where
  "keep_fields fs = filter (\<lambda>(k, v). v \<noteq> JNull \<and> v \<noteq> JStr [] \<and> v \<noteq> JList [] \<and> v \<noteq> JObj []) fs"

definition make_entry :: "json \<Rightarrow> string \<Rightarrow> json pydict \<Rightarrow> string \<Rightarrow> rat \<Rightarrow> json pydict \<Rightarrow> json pydict" where
  "make_entry seq head ctx action now flds =
     dict_set ''prev'' (JStr head)
       (dict_merge (dict_merge [(''seq'', seq), (''at'', JFloat (Fin now)), (''action'', JStr action)]
                               (keep_context ctx))
                   (keep_fields flds))"

definition failed :: "py_error \<Rightarrow> audit_trail \<Rightarrow> audit_trail" where
  "failed e tr = tr\<lparr>tr_failed_writes := tr_failed_writes tr + 1, tr_last_error := Some e, tr_seq := None\<rparr>"

text \<open>
  \<^verbatim>\<open>append\<close>: \<open>ctx\<close> is the bound run context, \<open>now\<close> the rounded time, \<open>d\<close> what the disk does.
  Any exception on the way is counted, kept, and forgets the cached head.
\<close>

definition trail_append :: "json pydict \<Rightarrow> rat \<Rightarrow> disk \<Rightarrow> string \<Rightarrow> json pydict \<Rightarrow> audit_trail
    \<Rightarrow> json pydict option \<times> audit_trail" where
  "trail_append ctx now d action flds tr0 =
     (case (if tr_seq tr0 = None then load_head tr0 else Inr tr0) of
        Inl e \<Rightarrow> (None, failed e tr0)
      | Inr tr \<Rightarrow>
          (case add_one (the (tr_seq tr)) of
             Inl e \<Rightarrow> (None, failed e tr)
           | Inr seq \<Rightarrow>
               (let body = make_entry seq (tr_head tr) ctx action now flds in
                case seal body of
                  Inl e \<Rightarrow> (None, failed e tr)
                | Inr h \<Rightarrow>
                    (let entry = dict_set ''hash'' (JStr h) body in
                     case canonical entry of
                       Inl e \<Rightarrow> (None, failed e tr)
                     | Inr line \<Rightarrow>
                         (let (ok, f) = write_line d (line @ [newline]) (tr_file tr) in
                          if ok then (Some entry, tr\<lparr>tr_file := f, tr_seq := dict_get entry ''seq'', tr_head := h\<rparr>)
                          else (None, failed OSError (tr\<lparr>tr_file := f\<rparr>)))))))"

text \<open>\<^verbatim>\<open>bind\<close> keeps the truthy values of the context; \<^verbatim>\<open>record\<close> is \<^verbatim>\<open>append\<close> on the module's trail.\<close>

definition bind_run :: "json pydict \<Rightarrow> json pydict" where
  "bind_run ctx = filter (\<lambda>(k, v). jtruthy v) ctx"

text \<open>\<^verbatim>\<open>record\<close> never raises: \<open>trail_append\<close> has turned every exception into a value.\<close>

definition record_entry :: "json pydict \<Rightarrow> rat \<Rightarrow> disk \<Rightarrow> string \<Rightarrow> json pydict \<Rightarrow> audit_trail
    \<Rightarrow> json pydict option \<times> audit_trail" where
  "record_entry ctx now d action flds tr = trail_append (bind_run ctx) now d action flds tr"

section \<open>Reading\<close>

fun collect_entries :: "int \<Rightarrow> bytes list \<Rightarrow> py_error + json pydict list" where
  "collect_entries after [] = Inr []"
| "collect_entries after (l # ls) =
     (if \<not> nonblank l then collect_entries after ls
      else case loads l of
             None \<Rightarrow> collect_entries after ls
           | Some (JObj entry) \<Rightarrow>
               (case py_int (case dict_get entry ''seq'' of None \<Rightarrow> JInt 0 | Some s \<Rightarrow> s) of
                  Inl e \<Rightarrow> Inl e
                | Inr n \<Rightarrow>
                    (case collect_entries after ls of
                       Inl e \<Rightarrow> Inl e
                     | Inr es \<Rightarrow> Inr (if after < n then entry # es else es)))
           | Some _ \<Rightarrow> Inl AttributeError)"

definition entries :: "int \<Rightarrow> int \<Rightarrow> audit_trail \<Rightarrow> py_error + json pydict list" where
  "entries after limit tr =
     (case tr_file tr of
        None \<Rightarrow> Inr []
      | Some f \<Rightarrow>
          (case collect_entries after (file_lines f) of
             Inl e \<Rightarrow> Inl e
           | Inr found \<Rightarrow> Inr (if limit \<noteq> 0 then slice_from (- limit) found else found)))"

datatype reason =
    NoReason
  | LineNotJson nat
  | EntryMissing int
  | EntryOutOfOrder json
  | EntryNotFollowing json
  | EntryChanged json

record verify_result =
  vr_ok :: bool
  vr_entries :: json
  vr_head :: string
  vr_broken_at :: json
  vr_reason :: reason

definition verify_start :: verify_result where
  "verify_start = \<lparr>vr_ok = True, vr_entries = JInt 0, vr_head = GENESIS, vr_broken_at = JNull, vr_reason = NoReason\<rparr>"

definition broken :: "verify_result \<Rightarrow> json \<Rightarrow> reason \<Rightarrow> verify_result" where
  "broken r pos why = r\<lparr>vr_ok := False, vr_broken_at := pos, vr_reason := why\<rparr>"

text \<open>The loop of \<^verbatim>\<open>verify\<close>: \<open>prev\<close> and \<open>expected\<close> are its variables, \<open>number\<close> counts the file's lines.\<close>

fun verify_lines :: "string \<Rightarrow> int \<Rightarrow> nat \<Rightarrow> verify_result \<Rightarrow> bytes list \<Rightarrow> py_error + verify_result" where
  "verify_lines prev expected number r [] = Inr r"
| "verify_lines prev expected number r (l # ls) =
     (if \<not> nonblank l then verify_lines prev expected (number + 1) r ls
      else case loads l of
             None \<Rightarrow> Inr (broken r (JInt expected) (LineNotJson number))
           | Some (JObj entry) \<Rightarrow>
               (let seq = jget entry ''seq'' in
                if \<not> eq_int seq expected then
                  Inr (broken r (JInt expected)
                        (if int_above seq expected then EntryMissing expected else EntryOutOfOrder seq))
                else if jget entry ''prev'' \<noteq> JStr prev then Inr (broken r seq (EntryNotFollowing seq))
                else (case seal entry of
                        Inl e \<Rightarrow> Inl e
                      | Inr h \<Rightarrow>
                          (if jget entry ''hash'' \<noteq> JStr h then Inr (broken r seq (EntryChanged seq))
                           else verify_lines h (expected + 1) (number + 1)
                                  (r\<lparr>vr_entries := seq, vr_head := h\<rparr>) ls)))
           | Some _ \<Rightarrow> Inl AttributeError)"

definition verify :: "audit_trail \<Rightarrow> py_error + verify_result" where
  "verify tr = (case tr_file tr of
                  None \<Rightarrow> Inr verify_start
                | Some f \<Rightarrow> verify_lines GENESIS 1 1 verify_start (file_lines f))"

record trail_status =
  st_count :: json
  st_head :: string
  st_last_error :: "py_error option"
  st_failed_writes :: nat

definition trail_status_of :: "audit_trail \<Rightarrow> trail_status \<times> audit_trail" where
  "trail_status_of tr0 =
     (let tr = (if tr_seq tr0 = None
                then (case load_head tr0 of Inl e \<Rightarrow> tr0\<lparr>tr_last_error := Some e\<rparr> | Inr t \<Rightarrow> t)
                else tr0)
      in (\<lparr>st_count = (case tr_seq tr of None \<Rightarrow> JInt 0 | Some s \<Rightarrow> if jtruthy s then s else JInt 0),
           st_head = tr_head tr, st_last_error = tr_last_error tr,
           st_failed_writes = tr_failed_writes tr\<rparr>, tr))"

end
