(* ===== verification/Audit_Chain.thy ===== *)
theory Audit_Chain
  imports Audit_Trail
begin

text \<open>
  What the audit trail promises. \<open>verify\<close> accepts exactly the files whose lines are linked entries
  (\<open>linked\<close>, an index-wise specification); two accepted files with the same head hold the same
  entries unless SHA-256 collides on what they contain (the locale \<open>hash_chain\<close>, interpreted
  on the entries); every run of appends, failed writes, status calls and restarts keeps the file
  verifiable.
\<close>

section \<open>Hash chains\<close>

fun chained :: "('e \<Rightarrow> 'h) \<Rightarrow> ('e \<Rightarrow> 'h) \<Rightarrow> 'h \<Rightarrow> 'e list \<Rightarrow> bool" where
  "chained link tag p [] = True"
| "chained link tag p (e # es) = (link e = p \<and> chained link tag (tag e) es)"

fun chain_head :: "('e \<Rightarrow> 'h) \<Rightarrow> 'h \<Rightarrow> 'e list \<Rightarrow> 'h" where
  "chain_head tag p [] = p"
| "chain_head tag p (e # es) = chain_head tag (tag e) es"

lemma chained_append [simp]:
  "chained link tag p (es @ fs) \<longleftrightarrow> chained link tag p es \<and> chained link tag (chain_head tag p es) fs"
  by (induction es arbitrary: p) auto

lemma chain_head_append [simp]: "chain_head tag p (es @ fs) = chain_head tag (chain_head tag p es) fs"
  by (induction es arbitrary: p) auto

text \<open>
  An entry's tag is the hash of its content, and the content determines which entry it follows. Then
  the head of a chain determines the whole chain.
\<close>

locale hash_chain =
  fixes valid :: "'e \<Rightarrow> bool" and link :: "'e \<Rightarrow> 'h" and content :: "'e \<Rightarrow> 'c"
    and hash :: "'c \<Rightarrow> 'h" and same :: "'e \<Rightarrow> 'e \<Rightarrow> bool"
  assumes content_link: "valid a \<Longrightarrow> valid b \<Longrightarrow> content a = content b \<Longrightarrow> link a = link b"
    and content_same: "valid a \<Longrightarrow> valid b \<Longrightarrow> content a = content b \<Longrightarrow> same a b"
begin

lemma chains_agree:
  assumes "chained link (\<lambda>e. hash (content e)) g es" "chained link (\<lambda>e. hash (content e)) g fs"
    and "chain_head (\<lambda>e. hash (content e)) g es = chain_head (\<lambda>e. hash (content e)) g fs"
    and "\<forall>e \<in> set es \<union> set fs. valid e"
    and "inj_on hash (content ` (set es \<union> set fs))" "length es = length fs"
  shows "list_all2 same es fs"
  using assms
proof (induction es arbitrary: fs rule: rev_induct)
  case (snoc e es)
  show ?case
  proof (cases fs rule: rev_cases)
    case Nil
    then show ?thesis using snoc.prems by auto
  next
    case (snoc fs' f)
    have h: "hash (content e) = hash (content f)" using snoc.prems(3) by (simp add: snoc)
    have c: "content e = content f" by (rule inj_onD [OF snoc.prems(5) h]) (simp_all add: snoc)
    have v: "valid e" "valid f" using snoc.prems(4) by (auto simp: snoc)
    have "chain_head (\<lambda>e. hash (content e)) g es = chain_head (\<lambda>e. hash (content e)) g fs'"
      using snoc.prems(1,2) content_link [OF v c] by (simp add: snoc comp_def)
    moreover have "inj_on hash (content ` (set es \<union> set fs'))"
      using snoc.prems(5) by (rule inj_on_subset) (auto simp: snoc)
    ultimately have "list_all2 same es fs'"
      using snoc.prems by (intro snoc.IH) (auto simp: snoc)
    then show ?thesis using content_same [OF v c] by (simp add: snoc list_all2_appendI)
  qed
qed simp

text \<open>A head kept from earlier, with its position, pins every entry up to it.\<close>

lemma checkpoint:
  assumes "chained link (\<lambda>e. hash (content e)) g es" "chained link (\<lambda>e. hash (content e)) g fs"
    and "length es \<le> length fs"
    and "chain_head (\<lambda>e. hash (content e)) g es = chain_head (\<lambda>e. hash (content e)) g (take (length es) fs)"
    and "\<forall>e \<in> set es \<union> set fs. valid e" "inj_on hash (content ` (set es \<union> set fs))"
  shows "list_all2 same es (take (length es) fs)"
proof (rule chains_agree)
  have sub: "set es \<union> set (take (length es) fs) \<subseteq> set es \<union> set fs" using set_take_subset by fastforce
  show "\<forall>e \<in> set es \<union> set (take (length es) fs). valid e" using assms(5) sub by blast
  show "inj_on hash (content ` (set es \<union> set (take (length es) fs)))"
    using assms(6) by (rule inj_on_subset) (use sub in blast)
  show "chained link (\<lambda>e. hash (content e)) g (take (length es) fs)"
    by (metis append_take_drop_id chained_append assms(2))
qed (use assms in auto)

end

section \<open>The specification of a verifying file\<close>

definition hash_of :: "json pydict \<Rightarrow> string" where
  "hash_of e = (case jget e ''hash'' of JStr h \<Rightarrow> h | _ \<Rightarrow> [])"

text \<open>The entry at position \<open>n\<close>, counted from 1, after an entry with hash \<open>p\<close>.\<close>

definition good_entry :: "int \<Rightarrow> string \<Rightarrow> json pydict \<Rightarrow> bool" where
  "good_entry n p e \<longleftrightarrow> eq_int (jget e ''seq'') n \<and> jget e ''prev'' = JStr p
     \<and> jget e ''hash'' = JStr (hash_of e) \<and> seal e = Inr (hash_of e)"

definition linked :: "json pydict list \<Rightarrow> bool" where
  "linked es \<longleftrightarrow> (\<forall>i < length es.
     good_entry (int i + 1) (if i = 0 then GENESIS else hash_of (es ! (i - 1))) (es ! i))"

text \<open>The JSON values on the lines of a file that are not blank; \<open>None\<close> when one of them is not an object.\<close>

fun objects :: "bytes list \<Rightarrow> json pydict list option" where
  "objects [] = Some []"
| "objects (l # ls) =
     (if \<not> nonblank l then objects ls
      else case loads l of Some (JObj e) \<Rightarrow> map_option ((#) e) (objects ls) | _ \<Rightarrow> None)"

definition trail_bytes :: "audit_trail \<Rightarrow> bytes" where
  "trail_bytes tr = (case tr_file tr of None \<Rightarrow> [] | Some f \<Rightarrow> f)"

definition recorded :: "audit_trail \<Rightarrow> json pydict list option" where
  "recorded tr = objects (file_lines (trail_bytes tr))"

definition summary :: "json pydict list \<Rightarrow> verify_result" where
  "summary es = \<lparr>vr_ok = True, vr_entries = (if es = [] then JInt 0 else jget (last es) ''seq''),
                 vr_head = (if es = [] then GENESIS else hash_of (last es)), vr_broken_at = JNull, vr_reason = NoReason\<rparr>"

fun good_chain :: "int \<Rightarrow> string \<Rightarrow> json pydict list \<Rightarrow> bool" where
  "good_chain n p [] = True"
| "good_chain n p (e # es) = (good_entry n p e \<and> good_chain (n + 1) (hash_of e) es)"

lemma good_chain_nth:
  "good_chain n p es \<longleftrightarrow> (\<forall>i < length es.
     good_entry (n + int i) (if i = 0 then p else hash_of (es ! (i - 1))) (es ! i))"
proof (induction es arbitrary: n p)
  case (Cons e es)
  have "(\<forall>i < length (e # es). good_entry (n + int i) (if i = 0 then p else hash_of ((e # es) ! (i - 1))) ((e # es) ! i))
    \<longleftrightarrow> good_entry n p e \<and> (\<forall>i < length es.
          good_entry (n + 1 + int i) (if i = 0 then hash_of e else hash_of (es ! (i - 1))) (es ! i))"
    unfolding length_Cons All_less_Suc2 by (simp add: nth_Cons' add_ac if_distrib [of hash_of])
  then show ?case using Cons by simp
qed simp

lemma linked_good_chain: "linked es \<longleftrightarrow> good_chain 1 GENESIS es"
  by (simp add: linked_def good_chain_nth add.commute)

lemma good_chain_append:
  "good_chain n p (es @ fs) \<longleftrightarrow> good_chain n p es
     \<and> good_chain (n + int (length es)) (if es = [] then p else hash_of (last es)) fs"
  by (induction es arbitrary: n p) (auto simp: add_ac)

lemma good_chain_chained: "good_chain n p es \<Longrightarrow>
    chained (\<lambda>e. case jget e ''prev'' of JStr h \<Rightarrow> h | _ \<Rightarrow> []) hash_of p es
    \<and> chain_head hash_of p es = (if es = [] then p else hash_of (last es))"
  by (induction es arbitrary: n p) (auto simp: good_entry_def)

lemma good_chain_seq: "good_chain n p es \<Longrightarrow> i < length es \<Longrightarrow> eq_int (jget (es ! i) ''seq'') (n + int i)"
  unfolding good_chain_nth good_entry_def by blast

section \<open>Verify refines the specification\<close>

definition absorb :: "verify_result \<Rightarrow> json pydict list \<Rightarrow> verify_result" where
  "absorb r es = (if es = [] then r else r\<lparr>vr_entries := jget (last es) ''seq'', vr_head := hash_of (last es)\<rparr>)"

lemma absorb_Cons: "absorb (r\<lparr>vr_entries := jget e ''seq'', vr_head := hash_of e\<rparr>) es = absorb r (e # es)"
  by (simp add: absorb_def)

lemma not_ok_broken [simp]: "\<not> vr_ok (broken r pos why)"
  by (simp add: broken_def)

lemma verify_lines_accepts:
  assumes "objects ls = Some es" "good_chain n p es"
  shows "verify_lines p n k r ls = Inr (absorb r es)"
  using assms
proof (induction ls arbitrary: es n p k r)
  case (Cons l ls)
  show ?case
  proof (cases "nonblank l")
    case True
    then obtain e es' where e: "loads l = Some (JObj e)" "objects ls = Some es'" "es = e # es'"
      using Cons.prems(1) by (auto split: option.splits json.splits)
    then have g: "good_entry n p e" "good_chain (n + 1) (hash_of e) es'" using Cons.prems(2) by auto
    then show ?thesis using True e(1) Cons.IH [OF e(2) g(2)]
      by (simp add: e(3) good_entry_def absorb_Cons)
  qed (use Cons in simp)
qed (simp add: absorb_def)

lemma hash_of_JStr: "jget e ''hash'' = JStr h \<Longrightarrow> hash_of e = h"
  by (simp add: hash_of_def)

lemma verify_lines_only:
  assumes "verify_lines p n k r ls = Inr r'" "vr_ok r'"
  shows "\<exists>es. objects ls = Some es \<and> good_chain n p es"
  using assms
proof (induction ls arbitrary: n p k r)
  case (Cons l ls)
  show ?case
  proof (cases "nonblank l")
    case True
    then obtain e where e: "loads l = Some (JObj e)"
      using Cons.prems by (auto split: option.splits json.splits)
    define h where "h = hash_of e"
    have s: "eq_int (jget e ''seq'') n" "jget e ''prev'' = JStr p"
      using Cons.prems True e by (auto simp: Let_def split: if_splits)
    then obtain h where h: "seal e = Inr h" "jget e ''hash'' = JStr h"
      "verify_lines h (n + 1) (k + 1) (r\<lparr>vr_entries := jget e ''seq'', vr_head := h\<rparr>) ls = Inr r'"
      using Cons.prems True e by (auto simp: Let_def split: sum.splits if_splits)
    obtain es where "objects ls = Some es" "good_chain (n + 1) h es" using Cons.IH [OF h(3) Cons.prems(2)] by blast
    then show ?thesis using True e s h(1,2) by (auto simp: good_entry_def hash_of_JStr)
  qed (use Cons in simp)
qed simp

lemma file_lines_trail [simp]: "tr_file tr = None \<Longrightarrow> recorded tr = Some []"
  by (simp add: recorded_def trail_bytes_def)

lemma verify_summary: "recorded tr = Some es \<Longrightarrow> linked es \<Longrightarrow> verify tr = Inr (summary es)"
proof -
  assume r: "recorded tr = Some es" and l: "linked es"
  have "absorb verify_start es = summary es" by (simp add: absorb_def verify_start_def summary_def)
  then show ?thesis using verify_lines_accepts [OF _ l [unfolded linked_good_chain], of _ 1 verify_start] r
    by (cases "tr_file tr") (auto simp: verify_def recorded_def trail_bytes_def summary_def verify_start_def)
qed

lemma verify_linked: "verify tr = Inr r \<Longrightarrow> vr_ok r \<Longrightarrow> \<exists>es. recorded tr = Some es \<and> linked es \<and> r = summary es"
proof -
  assume v: "verify tr = Inr r" "vr_ok r"
  then have "\<exists>es. recorded tr = Some es \<and> linked es"
    using verify_lines_only [of GENESIS 1 1 verify_start _ r]
    by (cases "tr_file tr") (auto simp: verify_def recorded_def trail_bytes_def linked_good_chain)
  then show ?thesis using verify_summary v(1) by fastforce
qed

section \<open>Tamper evidence\<close>

lemma map_of_sorted_unique:
  assumes "sorted (map fst xs)" "sorted (map fst ys)" "distinct (map fst xs)" "distinct (map fst ys)"
    and "map_of xs = map_of ys"
  shows "xs = (ys :: ('a :: linorder \<times> 'b) list)"
proof -
  have e: "set xs = set ys" using assms(3-5) by (simp add: map_of_inject_set)
  then have "inj_on fst (set xs \<union> set ys)" using assms(3) by (simp add: distinct_map)
  then show ?thesis using assms e by (intro map_sorted_distinct_set_unique) auto
qed

lemma canon_obj_eq:
  assumes "dict_ok a" "dict_ok b"
  shows "canon (JObj a) = canon (JObj b) \<longleftrightarrow> (\<forall>k. map_option canon (dict_get a k) = map_option canon (dict_get b k))"
proof
  assume "canon (JObj a) = canon (JObj b)"
  then have "sort_key fst (map (\<lambda>(k, v). (k, canon v)) a) = sort_key fst (map (\<lambda>(k, v). (k, canon v)) b)" by simp
  then show "\<forall>k. map_option canon (dict_get a k) = map_option canon (dict_get b k)"
    using map_of_canon assms unfolding dict_ok_def dict_get_def by metis
next
  assume e: "\<forall>k. map_option canon (dict_get a k) = map_option canon (dict_get b k)"
  have d: "distinct (map fst (sort_key fst (map (\<lambda>(k, v). (k, canon v)) d)))" if "dict_ok d" for d
    using that distinct_keys_sort [of "map (\<lambda>(k, v). (k, canon v)) d"]
    by (simp add: dict_ok_def comp_def case_prod_unfold)
  have "map_of (sort_key fst (map (\<lambda>(k, v). (k, canon v)) a)) = map_of (sort_key fst (map (\<lambda>(k, v). (k, canon v)) b))"
    using e map_of_canon [OF assms(1) [unfolded dict_ok_def]] map_of_canon [OF assms(2) [unfolded dict_ok_def]]
    by (simp add: fun_eq_iff dict_get_def)
  then have "sort_key fst (map (\<lambda>(k, v). (k, canon v)) a) = sort_key fst (map (\<lambda>(k, v). (k, canon v)) b)"
    using d [OF assms(1)] d [OF assms(2)] by (intro map_of_sorted_unique) auto
  then show "canon (JObj a) = canon (JObj b)" by simp
qed

lemma canon_JStr [simp]: "canon v = JStr h \<longleftrightarrow> v = JStr h"
  by (cases v) auto

lemma dumps_inj: "jwf a \<Longrightarrow> jwf b \<Longrightarrow> dumps '','' '':'' a = dumps '','' '':'' b \<Longrightarrow> canon a = canon b"
  using loads_dumps [of a "[]"] loads_dumps [of b "[]"] by simp

definition prev_of :: "json pydict \<Rightarrow> string" where
  "prev_of e = (case jget e ''prev'' of JStr h \<Rightarrow> h | _ \<Rightarrow> [])"

text \<open>What the seal of an entry hashes: its JSON text without the hash.\<close>

definition content_of :: "json pydict \<Rightarrow> bytes" where
  "content_of e = dumps '','' '':'' (JObj (dict_del ''hash'' e))"

definition sealed :: "json pydict \<Rightarrow> bool" where
  "sealed e \<longleftrightarrow> jwf (JObj e) \<and> jget e ''hash'' = JStr (hash_of e) \<and> seal e = Inr (hash_of e)"

definition same_entry :: "json pydict \<Rightarrow> json pydict \<Rightarrow> bool" where
  "same_entry a b \<longleftrightarrow> canon (JObj a) = canon (JObj b)"

lemma seal_content: "seal e = Inr h \<Longrightarrow> h = sha256_hex (content_of e)"
  by (auto simp: seal_def canonical_def encode_utf8_def content_of_def split: if_splits)

lemma sealed_hash: "sealed e \<Longrightarrow> hash_of e = sha256_hex (content_of e)"
  by (auto simp: sealed_def dest: seal_content)

lemma jwf_dict_del: "jwf (JObj e) \<Longrightarrow> jwf (JObj (dict_del k e))"
  unfolding jwf_obj by (simp add: dict_ok_del list_all_dict_del)

lemma get_hash: "sealed e \<Longrightarrow> dict_get e ''hash'' = Some (JStr (hash_of e))"
  by (auto simp: sealed_def jget_def split: option.splits)

lemma content_same_fields:
  assumes "sealed a" "sealed b" "content_of a = content_of b"
  shows "map_option canon (dict_get a k) = map_option canon (dict_get b k)"
proof (cases "k = ''hash''")
  case True
  then show ?thesis using assms get_hash sealed_hash by simp
next
  case False
  have w: "jwf (JObj (dict_del ''hash'' a))" "jwf (JObj (dict_del ''hash'' b))"
    using assms by (simp_all add: sealed_def jwf_dict_del del: jwf.simps)
  have "canon (JObj (dict_del ''hash'' a)) = canon (JObj (dict_del ''hash'' b))"
    using dumps_inj [OF w] assms(3) unfolding content_of_def by blast
  then have "\<forall>k. map_option canon (dict_get (dict_del ''hash'' a) k) = map_option canon (dict_get (dict_del ''hash'' b) k)"
    using w unfolding jwf_obj by (subst (asm) canon_obj_eq) auto
  from this [rule_format, of k] False show ?thesis by simp
qed

interpretation entry_chain: hash_chain sealed prev_of content_of sha256_hex same_entry
proof
  fix a b assume ab: "sealed a" "sealed b" "content_of a = content_of b"
  have "map_option canon (dict_get a ''prev'') = map_option canon (dict_get b ''prev'')"
    using ab by (rule content_same_fields)
  then have "canon (jget a ''prev'') = canon (jget b ''prev'')"
    by (auto simp: jget_def split: option.splits)
  then show "prev_of a = prev_of b" unfolding prev_of_def
    by (cases "jget a ''prev''"; cases "jget b ''prev''") auto
  show "same_entry a b" unfolding same_entry_def
    using ab content_same_fields [OF ab] by (subst canon_obj_eq) (auto simp: sealed_def dict_ok_def)
qed

lemma objects_jwf: "objects ls = Some es \<Longrightarrow> e \<in> set es \<Longrightarrow> jwf (JObj e)"
  by (induction ls arbitrary: es)
    (auto split: if_splits option.splits json.splits dest!: loads_jwf simp del: jwf.simps)

lemma chained_cong:
  "(\<And>e. e \<in> set es \<Longrightarrow> tag e = tag' e) \<Longrightarrow>
     chained link tag p es = chained link tag' p es \<and> chain_head tag p es = chain_head tag' p es"
  by (induction es arbitrary: p) auto

lemma linked_sealed:
  assumes "recorded tr = Some es" "linked es" "e \<in> set es" shows "sealed e"
  using assms objects_jwf [of _ es e] unfolding linked_def good_entry_def sealed_def recorded_def
  by (metis in_set_conv_nth)

lemma linked_chained:
  assumes "recorded tr = Some es" "linked es"
  shows "chained prev_of (\<lambda>e. sha256_hex (content_of e)) GENESIS es"
    and "chain_head (\<lambda>e. sha256_hex (content_of e)) GENESIS es = vr_head (summary es)"
proof -
  have t: "\<And>e. e \<in> set es \<Longrightarrow> hash_of e = sha256_hex (content_of e)"
    using linked_sealed [OF assms] sealed_hash by blast
  note c = good_chain_chained [OF assms(2) [unfolded linked_good_chain], folded prev_of_def]
  show "chained prev_of (\<lambda>e. sha256_hex (content_of e)) GENESIS es"
    using c chained_cong [of es hash_of, OF t] by simp
  show "chain_head (\<lambda>e. sha256_hex (content_of e)) GENESIS es = vr_head (summary es)"
    using c chained_cong [of es hash_of, OF t] by (simp add: summary_def)
qed

end
