(* ===== verification/Audit_Append.thy ===== *)
theory Audit_Append
  imports Audit_Chain
begin

text \<open>
  Writing to the audit trail: the backwards reader finds the last line, a successful append extends
  the chain by one entry, and a run of appends, failed writes, status calls and restarts from an empty
  trail keeps the file verifiable.
\<close>

section \<open>The last line\<close>

lemma split_on_append:
  "split_on c (a @ b) = butlast (split_on c a) @ (last (split_on c a) @ hd (split_on c b)) # tl (split_on c b)"
proof (induction a)
  case (Cons x a)
  obtain y ys where y: "split_on c a = y # ys" by (cases "split_on c a") auto
  show ?case using Cons by (cases ys) (auto simp: y)
qed simp

lemma text_lines_later:
  assumes "1 < length (text_lines b)"
  shows "last (text_lines (a @ b)) = last (text_lines b) \<and> text_lines (a @ b) \<noteq> []"
proof -
  obtain x xs where x: "split_on newline b = x # xs" by (cases "split_on newline b") auto
  have n: "filter nonblank xs \<noteq> []"
    using assms by (auto simp: text_lines_def x split: if_splits)
  then show ?thesis by (auto simp: text_lines_def split_on_append x)
qed

lemma last_line_from_correct:
  assumes "f = take n f @ data" "n \<le> length f" "0 < n"
  shows "last_line_from f n data = (if text_lines f = [] then [] else last (text_lines f))"
  using assms
proof (induction f n data rule: last_line_from.induct)
  case (1 f n data)
  let ?start = "n - 4096"
  let ?data = "drop ?start (take n f) @ data"
  have f: "f = take ?start f @ ?data"
  proof -
    have "take n f = take ?start f @ drop ?start (take n f)" by (metis append_take_drop_id diff_le_self min.absorb1 take_take)
    then show ?thesis using "1.prems"(1) by (metis append.assoc)
  qed
  consider "1 < length (text_lines ?data)" | "length (text_lines ?data) \<le> 1" "?start = 0"
    | "length (text_lines ?data) \<le> 1" "?start \<noteq> 0" by linarith
  then show ?case
  proof cases
    case 1
    then have "last (text_lines f) = last (text_lines ?data)" "text_lines f \<noteq> []"
      using text_lines_later [of ?data "take ?start f"] f by auto
    then show ?thesis using 1 "1.prems" by (subst last_line_from.simps) (auto simp: Let_def)
  next
    case 2
    then have "?data = f" using f by simp
    then show ?thesis using 2 "1.prems" by (subst last_line_from.simps) (simp add: Let_def)
  next
    case 3
    then have "last_line_from f n data = last_line_from f ?start ?data"
      using "1.prems" by (subst last_line_from.simps) (simp add: Let_def)
    then show ?thesis using "1.IH" [OF _ refl refl refl] 3 "1.prems" f by simp
  qed
qed

text \<open>C20: reading the file backwards in blocks of 4096 bytes finds the last line that is not blank,
  whatever the file holds and however long its lines are.\<close>

theorem last_line_is_last:
  "last_line tr = (case tr_file tr of None \<Rightarrow> []
     | Some f \<Rightarrow> (if text_lines f = [] then [] else last (text_lines f)))"
proof (cases "tr_file tr")
  case (Some f)
  show ?thesis
  proof (cases "f = []")
    case True
    then show ?thesis by (simp add: last_line_def Some last_line_from.simps text_lines_def)
  next
    case False
    then show ?thesis using last_line_from_correct [of f "length f" "[]"] by (simp add: last_line_def Some)
  qed
qed (simp add: last_line_def)

section \<open>Files written by append\<close>

definition centry :: "json pydict \<Rightarrow> json pydict" where
  "centry e = sort_key fst (map (\<lambda>(k, v). (k, canon v)) e)"

definition line_of :: "json pydict \<Rightarrow> bytes" where
  "line_of e = dumps '','' '':'' (JObj e)"

definition written :: "json pydict list \<Rightarrow> bytes" where
  "written es = concat (map (\<lambda>e. line_of e @ [newline]) es)"

lemma canon_JObj: "canon (JObj e) = JObj (centry e)"
  by (simp add: centry_def)

lemma line_of_centry [simp]: "line_of (centry e) = line_of e"
  using dumps_canon [of "JObj e"] unfolding canon_JObj line_of_def .

lemma dict_get_centry: "dict_ok e \<Longrightarrow> dict_get (centry e) k = map_option canon (dict_get e k)"
  unfolding centry_def dict_get_def dict_ok_def by (rule map_of_canon)

lemma dict_del_centry: "dict_del k (centry e) = centry (dict_del k e)"
  unfolding dict_del_def centry_def by (simp add: filter_sort filter_map comp_def case_prod_unfold)

lemma seal_centry [simp]: "seal (centry e) = seal e"
  unfolding seal_def canonical_def dict_del_centry line_of_def [symmetric] by simp

lemma dict_del_set [simp]: "dict_del k (dict_set k v d) = dict_del k d"
  by (induction d) (auto simp: dict_del_def)

lemma seal_set_hash [simp]: "seal (dict_set ''hash'' v e) = seal e"
  by (simp add: seal_def)

lemma line_of_no_newline: "jwf (JObj e) \<Longrightarrow> newline \<notin> set (line_of e)"
  using dumps_no_control [of "JObj e" newline] unfolding line_of_def newline_def by auto

lemma line_of_nonblank: "jwf (JObj e) \<Longrightarrow> nonblank (line_of e)"
  unfolding line_of_def dumps_obj by (simp add: nonblank_iff is_space_def)

lemma loads_line: "jwf (JObj e) \<Longrightarrow> loads (line_of e) = Some (JObj (centry e))"
  "jwf (JObj e) \<Longrightarrow> loads (line_of e @ [newline]) = Some (JObj (centry e))"
  using loads_dumps [of "JObj e" "[]"] loads_dumps [of "JObj e" "[newline]"]
  by (simp_all add: line_of_def canon_JObj newline_def json_space_def del: jwf.simps canon.simps)

lemma written_simps [simp]:
  "written [] = []" "written (e # es) = line_of e @ newline # written es" "written (es @ fs) = written es @ written fs"
  by (simp_all add: written_def)

lemma written_ends: "written es = [] \<or> last (written es) = CHR 0x0A"
  by (cases es rule: rev_cases) (auto simp: newline_def)

lemma objects_append: "objects (a @ b) = (case objects a of None \<Rightarrow> None | Some es \<Rightarrow> map_option ((@) es) (objects b))"
  by (cases "objects b"; induction a) (auto split: option.splits json.splits)

lemma objects_written:
  "list_all (\<lambda>e. jwf (JObj e)) es \<Longrightarrow> objects (file_lines (written es)) = Some (map centry es)"
proof (induction es)
  case (Cons e es)
  then have w: "jwf (JObj e)" by (simp del: jwf.simps)
  have "file_lines (line_of e @ newline # written es) = (line_of e @ [newline]) # file_lines (written es)"
    using line_of_no_newline [OF w] unfolding newline_def by (rule file_lines_snoc)
  then show ?case using Cons loads_line(2) [OF w] line_of_nonblank [OF w] by (simp del: jwf.simps)
qed simp

lemma text_lines_written: "list_all (\<lambda>e. jwf (JObj e)) es \<Longrightarrow> text_lines (written es) = map line_of es"
proof (induction es)
  case Nil
  then show ?case by (simp add: text_lines_def)
next
  case (Cons e es)
  then have w: "jwf (JObj e)" by (simp del: jwf.simps)
  have "split_on newline (line_of e) = [line_of e]" using line_of_no_newline [OF w] by (rule split_on_no_sep)
  then show ?case using Cons line_of_nonblank [OF w]
    by (simp add: text_lines_def split_on_append_sep del: jwf.simps)
qed

section \<open>The invariant\<close>

text \<open>
  \<open>holds es tr\<close>: the file of \<open>tr\<close> is exactly the lines of the linked entries \<open>es\<close>, and what the object
  remembers of the file, when it remembers anything, is the last of them.
\<close>

definition holds :: "json pydict list \<Rightarrow> audit_trail \<Rightarrow> bool" where
  "holds es tr \<longleftrightarrow> trail_bytes tr = written es \<and> linked es
     \<and> list_all (\<lambda>e. jwf (JObj e) \<and> centry e = e) es
     \<and> (tr_seq tr = None
        \<or> tr_seq tr = Some (JInt (int (length es))) \<and> tr_head tr = vr_head (summary es))"

lemma holds_recorded: "holds es tr \<Longrightarrow> recorded tr = Some es"
proof -
  assume h: "holds es tr"
  then have "list_all (\<lambda>e. jwf (JObj e)) es" "map centry es = es"
    by (auto simp: holds_def list_all_iff intro: map_idI simp del: jwf.simps)
  then show ?thesis using h objects_written [of es] by (simp add: recorded_def holds_def del: jwf.simps)
qed

lemma holds_verify: "holds es tr \<Longrightarrow> verify tr = Inr (summary es)"
  using holds_recorded verify_summary by (simp add: holds_def)

lemma eq_int_py_int: "eq_int v n \<Longrightarrow> py_int v = Inr n"
  by (induction v n rule: eq_int.induct) auto

lemma linked_last:
  assumes "linked es" "es \<noteq> []"
  shows "eq_int (jget (last es) ''seq'') (int (length es))" "jget (last es) ''hash'' = JStr (hash_of (last es))"
proof -
  obtain xs e where es: "es = xs @ [e]" using assms(2) by (cases es rule: rev_cases) auto
  then show "eq_int (jget (last es) ''seq'') (int (length es))"
    "jget (last es) ''hash'' = JStr (hash_of (last es))"
    using assms(1) unfolding linked_good_chain by (auto simp: good_chain_append good_entry_def add.commute)
qed

lemma eq_int_not_null: "eq_int v n \<Longrightarrow> v \<noteq> JNull"
  by auto

lemma jget_Some: "jget e k = v \<Longrightarrow> v \<noteq> JNull \<Longrightarrow> dict_get e k = Some v"
  by (auto simp: jget_def split: option.splits)

lemma load_head_holds:
  assumes "holds es tr"
  shows "load_head tr = Inr (tr\<lparr>tr_seq := Some (JInt (int (length es))), tr_head := vr_head (summary es)\<rparr>)"
proof (cases "es = []")
  case True
  then have "last_line tr = []" using assms
    by (auto simp: last_line_is_last holds_def trail_bytes_def text_lines_def split: option.splits)
  then show ?thesis using True by (simp add: load_head_def summary_def)
next
  case False
  have w: "list_all (\<lambda>e. jwf (JObj e)) es" "jwf (JObj (last es))" "centry (last es) = last es"
    using assms False by (auto simp: holds_def list_all_iff simp del: jwf.simps)
  have f: "tr_file tr = Some (written es)"
    using assms False by (cases es) (auto simp: holds_def trail_bytes_def split: option.splits)
  have l: "last_line tr = line_of (last es)"
    using False by (simp add: last_line_is_last f text_lines_written [OF w(1)] last_map)
  have ne: "line_of (last es) \<noteq> []" using line_of_nonblank [OF w(2)] by auto
  have lk: "linked es" using assms by (simp add: holds_def)
  note ll = linked_last [OF lk False]
  have "dict_get (last es) ''hash'' = Some (JStr (hash_of (last es)))" using jget_Some [OF ll(2)] by simp
  moreover have "dict_get (last es) ''seq'' = Some (jget (last es) ''seq'')"
    using jget_Some [OF refl] eq_int_not_null [OF ll(1)] by blast
  ultimately show ?thesis using l ne loads_line(1) [OF w(2)] eq_int_py_int [OF ll(1)] False
    by (simp add: load_head_def w(3) py_str_def summary_def)
qed

section \<open>One append\<close>

text \<open>
  What a caller may pass: JSON values Python can hold, and no field named \<open>seq\<close>. Fields named
  \<open>prev\<close> or \<open>hash\<close> are allowed; the trail overwrites them.
\<close>

definition good_input :: "json pydict \<Rightarrow> rat \<Rightarrow> string \<Rightarrow> json pydict \<Rightarrow> bool" where
  "good_input ctx now action flds \<longleftrightarrow> jwf (JObj ctx) \<and> jwf (JObj flds) \<and> utf8_ok True action
     \<and> float_wf (Fin now) \<and> dict_get ctx ''seq'' = None \<and> dict_get flds ''seq'' = None"

lemma list_all_filter: "list_all P xs \<Longrightarrow> list_all P (filter Q xs)"
  by (simp add: list_all_iff)

lemma make_entry_jwf:
  assumes "good_input ctx now action flds" "utf8_ok True head" "jwf seq"
  shows "jwf (JObj (make_entry seq head ctx action now flds))"
  unfolding jwf_obj make_entry_def
proof
  show "dict_ok (dict_set ''prev'' (JStr head) (dict_merge (dict_merge [(''seq'', seq), (''at'', JFloat (Fin now)),
      (''action'', JStr action)] (keep_context ctx)) (keep_fields flds)))"
    by (intro dict_ok_set dict_ok_merge) (simp add: dict_ok_def)
  have f: "list_all jpair (keep_context ctx)" "list_all jpair (keep_fields flds)"
    using assms(1) unfolding good_input_def jwf_obj by (auto simp: keep_context_def keep_fields_def intro: list_all_filter)
  have "list_all jpair [(''seq'', seq), (''at'', JFloat (Fin now)), (''action'', JStr action)]" "jpair (''prev'', JStr head)"
    using assms by (auto simp: jpair_def good_input_def)
  with f show "list_all jpair (dict_set ''prev'' (JStr head) (dict_merge (dict_merge [(''seq'', seq), (''at'', JFloat (Fin now)),
      (''action'', JStr action)] (keep_context ctx)) (keep_fields flds)))"
    by (intro list_all_dict_set list_all_dict_merge)
qed

lemma dict_get_None_iff: "dict_get d k = None \<longleftrightarrow> k \<notin> fst ` set d"
  by (auto simp: dict_get_def map_of_eq_None_iff)

lemma make_entry_seq:
  assumes "good_input ctx now action flds"
  shows "dict_get (make_entry seq head ctx action now flds) ''seq'' = Some seq"
proof -
  have "''seq'' \<notin> fst ` set (keep_context ctx)" "''seq'' \<notin> fst ` set (keep_fields flds)"
    using assms unfolding good_input_def dict_get_None_iff by (auto simp: keep_context_def keep_fields_def)
  then show ?thesis by (simp add: make_entry_def dict_get_merge) (simp add: dict_get_def)
qed

lemma make_entry_prev: "dict_get (make_entry seq head ctx action now flds) ''prev'' = Some (JStr head)"
  by (simp add: make_entry_def)

lemma utf8_sha256 [simp]: "utf8_ok sp (sha256_hex s)"
  using sha256_hex_chars [of _ s] by (intro utf8_ok_ascii) blast

lemma summary_head_utf8: "linked es \<Longrightarrow> utf8_ok sp (vr_head (summary es))"
proof (cases "es = []")
  case True
  then show ?thesis by (simp add: summary_def GENESIS_def utf8_ok_ascii)
next
  case False
  moreover assume "linked es"
  ultimately have "seal (last es) = Inr (hash_of (last es))"
    unfolding linked_def good_entry_def
    by (metis diff_less last_conv_nth length_greater_0_conv zero_less_one)
  then show ?thesis using False by (auto simp: summary_def dest!: seal_content)
qed

lemma centry_idem: "centry (centry e) = centry e"
  using canon_idem [of "JObj e"] unfolding canon_JObj by simp

text \<open>A sealed entry that follows the chain extends it.\<close>

lemma linked_snoc:
  assumes "linked es" "good_entry (int (length es) + 1) (vr_head (summary es)) e"
  shows "linked (es @ [e])"
  using assms unfolding linked_good_chain good_chain_append by (auto simp: summary_def add.commute)

lemma extend_entry:
  assumes "linked es" "good_input ctx now action flds"
    and "body = make_entry (JInt (int (length es) + 1)) (vr_head (summary es)) ctx action now flds"
    and "seal body = Inr h"
  shows "linked (es @ [centry (dict_set ''hash'' (JStr h) body)])"
    and "summary (es @ [centry (dict_set ''hash'' (JStr h) body)])
           = (summary es)\<lparr>vr_entries := JInt (int (length es) + 1), vr_head := h\<rparr>"
proof -
  define e where "e = dict_set ''hash'' (JStr h) body"
  have "dict_ok body" using make_entry_jwf [OF assms(2) summary_head_utf8 [OF assms(1)], of "JInt (int (length es) + 1)"]
    unfolding assms(3) [symmetric] jwf_obj by simp
  then have ok: "dict_ok e" by (simp add: e_def dict_ok_set)
  have g: "jget (centry e) ''seq'' = JInt (int (length es) + 1)" "jget (centry e) ''hash'' = JStr h"
    "jget (centry e) ''prev'' = JStr (vr_head (summary es))"
    using make_entry_seq [OF assms(2)] make_entry_prev
    by (simp_all add: jget_def dict_get_centry [OF ok]) (simp_all add: e_def assms(3))
  then have h: "hash_of (centry e) = h" by (simp add: hash_of_def)
  have "good_entry (int (length es) + 1) (vr_head (summary es)) (centry e)"
    using g h assms(4) by (simp add: good_entry_def) (simp add: e_def)
  then show "linked (es @ [centry (dict_set ''hash'' (JStr h) body)])"
    using assms(1) unfolding e_def by (intro linked_snoc)
  show "summary (es @ [centry (dict_set ''hash'' (JStr h) body)])
           = (summary es)\<lparr>vr_entries := JInt (int (length es) + 1), vr_head := h\<rparr>"
    using g h unfolding e_def by (simp add: summary_def)
qed

lemma append_ready:
  assumes "holds es tr"
  shows "(if tr_seq tr = None then load_head tr else Inr tr)
           = Inr (tr\<lparr>tr_seq := Some (JInt (int (length es))), tr_head := vr_head (summary es)\<rparr>)"
proof (cases "tr_seq tr")
  case (Some s)
  then have "tr_seq tr = Some (JInt (int (length es)))" "tr_head tr = vr_head (summary es)"
    using assms by (auto simp: holds_def)
  then show ?thesis by (cases tr) simp
qed (simp add: load_head_holds [OF assms])

text \<open>An append on a trail that holds \<open>es\<close>, with everything but the disk worked out.\<close>

lemma trail_append_holds:
  assumes "holds es tr"
    and "body = make_entry (JInt (int (length es) + 1)) (vr_head (summary es)) ctx action now flds"
    and "tr1 = tr\<lparr>tr_seq := Some (JInt (int (length es))), tr_head := vr_head (summary es)\<rparr>"
  shows "trail_append ctx now d action flds tr =
     (case seal body of
        Inl e \<Rightarrow> (None, failed e tr1)
      | Inr h \<Rightarrow>
          (case canonical (dict_set ''hash'' (JStr h) body) of
             Inl e \<Rightarrow> (None, failed e tr1)
           | Inr line \<Rightarrow>
               (let (ok, f) = write_line d (line @ [newline]) (tr_file tr) in
                if ok then (Some (dict_set ''hash'' (JStr h) body),
                            tr1\<lparr>tr_file := f, tr_seq := dict_get (dict_set ''hash'' (JStr h) body) ''seq'', tr_head := h\<rparr>)
                else (None, failed OSError (tr1\<lparr>tr_file := f\<rparr>)))))"
  unfolding trail_append_def append_ready [OF assms(1)] assms(2,3) Let_def
  by (simp split: sum.split prod.split)

lemma failed_simps [simp]:
  "tr_file (failed e tr) = tr_file tr" "tr_seq (failed e tr) = None" "tr_last_error (failed e tr) = Some e"
  "tr_failed_writes (failed e tr) = tr_failed_writes tr + 1"
  by (simp_all add: failed_def)

lemma holds_forget: "holds es tr \<Longrightarrow> trail_bytes tr' = trail_bytes tr \<Longrightarrow> tr_seq tr' = None \<Longrightarrow> holds es tr'"
  by (simp add: holds_def)

lemma canonical_line: "canonical e = Inr line \<Longrightarrow> line = line_of e"
  by (auto simp: canonical_def encode_utf8_def line_of_def split: if_splits)

text \<open>The bytes after an append: unchanged, or longer by part of one line.\<close>

lemma append_success:
  assumes "holds es tr" "good_input ctx now action flds"
    and "trail_append ctx now DiskOk action flds tr = (Some e, tr')"
  shows "holds (es @ [centry e]) tr'" "trail_bytes tr' = trail_bytes tr @ line_of e @ [newline]"
    "dict_get e ''seq'' = Some (JInt (int (length es) + 1))"
proof -
  define body where "body = make_entry (JInt (int (length es) + 1)) (vr_head (summary es)) ctx action now flds"
  note eq = trail_append_holds [OF assms(1) body_def refl, of DiskOk]
  have lk: "linked es" using assms(1) by (simp add: holds_def)
  obtain h where h: "seal body = Inr h" "e = dict_set ''hash'' (JStr h) body" "canonical e = Inr (line_of e)"
    using assms(3) unfolding eq by (auto split: sum.splits simp: write_line_def Let_def dest: canonical_line)
  show sq: "dict_get e ''seq'' = Some (JInt (int (length es) + 1))"
    using make_entry_seq [OF assms(2)] by (simp add: h(2) body_def)
  have tr': "tr' = tr\<lparr>tr_file := Some (trail_bytes tr @ line_of e @ [newline]),
      tr_seq := Some (JInt (int (length es) + 1)), tr_head := h\<rparr>"
    using assms(3) h sq unfolding eq by (auto simp: write_line_def trail_bytes_def split: option.splits)
  then show "trail_bytes tr' = trail_bytes tr @ line_of e @ [newline]" by (simp add: trail_bytes_def)
  note ext = extend_entry [OF lk assms(2) body_def h(1), folded h(2)]
  have "jwf (JObj body)"
    using make_entry_jwf [OF assms(2) summary_head_utf8 [OF lk], of "JInt (int (length es) + 1)"]
    unfolding body_def by (metis jwf.simps(7))
  then have "jwf (JObj e)" using seal_content [OF h(1)] unfolding h(2) jwf_obj
    by (auto simp: jpair_def utf8_ok_ascii intro!: dict_ok_set list_all_dict_set)
  then have "jwf (JObj (centry e))" using loads_jwf loads_line(1) by blast
  then show "holds (es @ [centry e]) tr'"
    using assms(1) ext tr' by (simp add: holds_def centry_idem add.commute trail_bytes_def del: jwf.simps)
qed

lemma append_fail:
  assumes "holds es tr" "trail_append ctx now d action flds tr = (None, tr')"
    and "trail_bytes tr' = trail_bytes tr"
  shows "holds es tr'"
proof -
  have "tr_seq tr' = None"
    using assms(2) unfolding trail_append_holds [OF assms(1) refl refl]
    by (auto split: sum.splits if_splits prod.splits)
  then show ?thesis using holds_forget [OF assms(1,3)] by blast
qed

section \<open>Runs\<close>

text \<open>
  What can happen to a trail: an append by some run under some disk, a status call, and a restart of
  the process, which makes a new object on the same file. \<open>all_or_nothing\<close>: the append leaves the
  bytes as they were or as a working disk would have left them.
\<close>

datatype trail_event =
    Append "json pydict" rat disk string "json pydict"
  | Status
  | Restart

fun trail_do :: "trail_event \<Rightarrow> audit_trail \<Rightarrow> audit_trail" where
  "trail_do (Append ctx now d action flds) tr = snd (trail_append ctx now d action flds tr)"
| "trail_do Status tr = snd (trail_status_of tr)"
| "trail_do Restart tr = new_trail (tr_file tr)"

definition all_or_nothing :: "json pydict \<Rightarrow> rat \<Rightarrow> disk \<Rightarrow> string \<Rightarrow> json pydict \<Rightarrow> audit_trail \<Rightarrow> bool" where
  "all_or_nothing ctx now d action flds tr \<longleftrightarrow>
     trail_bytes (snd (trail_append ctx now d action flds tr))
       \<in> {trail_bytes tr, trail_bytes (snd (trail_append ctx now DiskOk action flds tr))}"

fun event_ok :: "trail_event \<Rightarrow> audit_trail \<Rightarrow> bool" where
  "event_ok (Append ctx now d action flds) tr \<longleftrightarrow> good_input ctx now action flds \<and> all_or_nothing ctx now d action flds tr"
| "event_ok _ tr \<longleftrightarrow> True"

inductive trail_reach :: "audit_trail \<Rightarrow> bool" where
  reach_new: "trail_reach (new_trail None)"
| reach_step: "trail_reach tr \<Longrightarrow> event_ok ev tr \<Longrightarrow> trail_reach (trail_do ev tr)"

lemma append_some_ok:
  assumes "holds es tr" "trail_append ctx now d action flds tr = (Some e, tr')"
  shows "trail_append ctx now DiskOk action flds tr = (Some e, tr')"
proof -
  have "d = DiskOk" using assms(2) unfolding trail_append_holds [OF assms(1) refl refl]
    by (cases d) (auto split: sum.splits simp: write_line_def Let_def)
  with assms(2) show ?thesis by simp
qed

lemma append_keeps:
  assumes "holds es tr" "good_input ctx now action flds" "all_or_nothing ctx now d action flds tr"
  shows "\<exists>es'. holds es' (snd (trail_append ctx now d action flds tr))"
proof -
  obtain o1 t1 where a: "trail_append ctx now d action flds tr = (o1, t1)" by fastforce
  obtain o2 t2 where b: "trail_append ctx now DiskOk action flds tr = (o2, t2)" by fastforce
  show ?thesis
  proof (cases o1)
    case (Some e)
    then show ?thesis using append_success [OF assms(1,2)] append_some_ok [OF assms(1)] a by auto
  next
    case o1: None
    have seq: "tr_seq t1 = None" using a unfolding o1 trail_append_holds [OF assms(1) refl refl]
      by (auto split: sum.splits if_splits prod.splits)
    show ?thesis
    proof (cases "trail_bytes t1 = trail_bytes tr")
      case True
      then show ?thesis using append_fail [OF assms(1) a [unfolded o1]] a by auto
    next
      case False
      then have t: "trail_bytes t1 = trail_bytes t2" using assms(3) a b by (auto simp: all_or_nothing_def)
      have "trail_bytes t2 \<noteq> trail_bytes tr" using t False by simp
      then obtain e where "o2 = Some e"
        using b unfolding trail_append_holds [OF assms(1) refl refl]
        by (cases o2) (auto split: sum.splits simp: write_line_def Let_def trail_bytes_def)
      then have "holds (es @ [centry e]) t2" using append_success [OF assms(1,2)] b by auto
      then show ?thesis using holds_forget [OF _ t seq] a by auto
    qed
  qed
qed

lemma status_keeps: "holds es tr \<Longrightarrow> holds es (snd (trail_status_of tr))"
  using load_head_holds [of es tr] by (auto simp: trail_status_of_def Let_def holds_def trail_bytes_def)

lemma reach_holds: "trail_reach tr \<Longrightarrow> \<exists>es. holds es tr"
proof (induction rule: trail_reach.induct)
  case reach_new
  have "holds [] (new_trail None)" by (simp add: holds_def new_trail_def trail_bytes_def linked_def)
  then show ?case ..
next
  case (reach_step tr ev)
  then obtain es where h: "holds es tr" by blast
  show ?case
  proof (cases ev)
    case (Append ctx now d action flds)
    then show ?thesis using append_keeps [OF h] reach_step.hyps by simp
  next
    case Status
    then show ?thesis using status_keeps [OF h] by auto
  next
    case Restart
    have "holds es (new_trail (tr_file tr))" using h by (simp add: holds_def new_trail_def trail_bytes_def)
    then show ?thesis using Restart by auto
  qed
qed

section \<open>The promises of the trail\<close>

lemma strings_ok_obj: "strings_ok sp (JObj kvs) \<longleftrightarrow> list_all (\<lambda>kv. utf8_ok sp (fst kv) \<and> strings_ok sp (snd kv)) kvs"
  by (simp add: list_all_iff case_prod_unfold)

lemma make_entry_strings:
  assumes "strings_ok sp (JObj ctx)" "strings_ok sp (JObj flds)" "utf8_ok sp action" "utf8_ok sp head" "strings_ok sp seq"
  shows "strings_ok sp (JObj (make_entry seq head ctx action now flds))"
proof -
  have "list_all (\<lambda>kv. utf8_ok sp (fst kv) \<and> strings_ok sp (snd kv)) (keep_context ctx)"
    "list_all (\<lambda>kv. utf8_ok sp (fst kv) \<and> strings_ok sp (snd kv)) (keep_fields flds)"
    using assms(1,2) unfolding strings_ok_obj by (auto simp: keep_context_def keep_fields_def intro: list_all_filter)
  then show ?thesis using assms(3-5) unfolding strings_ok_obj make_entry_def
    by (intro list_all_dict_set list_all_dict_merge) (auto simp: utf8_ok_ascii)
qed

lemma canonical_ok: "jwf (JObj e) \<Longrightarrow> strings_ok False (JObj e) \<Longrightarrow> canonical e = Inr (line_of e)"
  unfolding canonical_def encode_utf8_def line_of_def by (simp only: dumps_strings_ok if_True)

lemma append_accepts:
  assumes "holds es tr" "good_input ctx now action flds"
    and "strings_ok False (JObj ctx)" "strings_ok False (JObj flds)" "utf8_ok False action"
  shows "\<exists>e tr'. trail_append ctx now DiskOk action flds tr = (Some e, tr')"
proof -
  define body where "body = make_entry (JInt (int (length es) + 1)) (vr_head (summary es)) ctx action now flds"
  have lk: "linked es" using assms(1) by (simp add: holds_def)
  have w: "jwf (JObj body)" "strings_ok False (JObj body)" unfolding body_def
    using make_entry_jwf [OF assms(2) summary_head_utf8 [OF lk], of "JInt (int (length es) + 1)"]
      make_entry_strings [OF assms(3-5) summary_head_utf8 [OF lk], of "JInt (int (length es) + 1)"] by auto
  have "strings_ok False (JObj (dict_del ''hash'' body))"
    using w(2) unfolding strings_ok_obj by (rule list_all_dict_del)
  then obtain h where h: "seal body = Inr h" "h = sha256_hex (content_of body)"
    using canonical_ok [OF jwf_dict_del [OF w(1)]] by (auto simp: seal_def content_of_def line_of_def)
  have "jwf (JObj (dict_set ''hash'' (JStr h) body))" "strings_ok False (JObj (dict_set ''hash'' (JStr h) body))"
    using w h(2) unfolding jwf_obj strings_ok_obj
    by (auto simp: jpair_def utf8_ok_ascii intro!: dict_ok_set list_all_dict_set)
  then show ?thesis unfolding trail_append_holds [OF assms(1) body_def refl]
    by (simp add: h(1) canonical_ok write_line_def Let_def del: jwf.simps strings_ok.simps)
qed

text \<open>A trail with one entry.\<close>

definition demo_trail :: audit_trail where
  "demo_trail = trail_do (Append [] 0 DiskOk ''start'' []) (new_trail None)"

lemma demo_input: "good_input [] 0 ''start'' []"
  by (simp add: good_input_def float_wf_def is_double_def overflow_at_pos dict_get_def)

lemma holds_new: "holds [] (new_trail None)"
  by (simp add: holds_def new_trail_def trail_bytes_def linked_def)

lemma demo_reach: "trail_reach demo_trail"
  unfolding demo_trail_def using demo_input by (intro reach_step reach_new) (simp add: all_or_nothing_def)

lemma demo_holds: "\<exists>e. holds [e] demo_trail"
proof -
  obtain e t where "trail_append [] 0 DiskOk ''start'' [] (new_trail None) = (Some e, t)"
    using append_accepts [OF holds_new demo_input] by auto
  then show ?thesis using append_success(1) [OF holds_new demo_input] by (auto simp: demo_trail_def)
qed



text \<open>C8: on every such trail an append on a working disk succeeds: it adds one line to the bytes of the file,
  the entry carries the next sequence number, and the trail then verifies with exactly that entry added.\<close>

theorem append_records:
  assumes "trail_reach tr" "recorded tr = Some es" "good_input ctx now action flds"
    and "strings_ok False (JObj ctx)" "strings_ok False (JObj flds)" "utf8_ok False action"
  shows "\<exists>e tr'. trail_append ctx now DiskOk action flds tr = (Some e, tr')
           \<and> trail_bytes tr' = trail_bytes tr @ line_of e @ [newline]
           \<and> dict_get e ''seq'' = Some (JInt (int (length es) + 1))
           \<and> recorded tr' = Some (es @ [centry e]) \<and> verify tr' = Inr (summary (es @ [centry e]))"
proof -
  have h: "holds es tr" using reach_holds [OF assms(1)] holds_recorded assms(2) by force
  obtain e tr' where a: "trail_append ctx now DiskOk action flds tr = (Some e, tr')"
    using append_accepts [OF h assms(3-6)] by blast
  note s = append_success [OF h assms(3) a]
  show ?thesis using a s holds_recorded [OF s(1)] holds_verify [OF s(1)] by blast
qed

theorem append_records_witness:
  "\<exists>es e tr'. trail_append [] 0 DiskOk ''start'' [] demo_trail = (Some e, tr')
     \<and> dict_get e ''seq'' = Some (JInt (int (length es) + 1))
     \<and> recorded tr' = Some (es @ [centry e]) \<and> verify tr' = Inr (summary (es @ [centry e]))"
proof -
  obtain e where "holds [e] demo_trail" using demo_holds by blast
  then have "recorded demo_trail = Some [e]" by (rule holds_recorded)
  from append_records [OF demo_reach this demo_input] show ?thesis by auto
qed

lemma load_head_keeps: "load_head tr = Inr t \<Longrightarrow> tr_file t = tr_file tr \<and> tr_failed_writes t = tr_failed_writes tr"
  by (auto simp: load_head_def Let_def split: if_splits option.splits json.splits sum.splits)

lemma append_extends: "\<exists>m. trail_bytes (snd (trail_append ctx now d action flds tr)) = trail_bytes tr @ m"
  by (auto simp: trail_append_def write_line_def Let_def trail_bytes_def
      split: sum.splits option.splits disk.splits if_splits prod.splits dest!: load_head_keeps)

text \<open>C9: whatever the disk does, an append never changes a byte already in the file. When it returns an entry the
  file grew by that entry's line and no failure is counted; when it returns nothing the failure is counted, its
  reason kept and the cached head dropped, so that the next call reads the file again.\<close>

theorem append_only:
  "case trail_append ctx now d action flds tr of
     (Some e, tr') \<Rightarrow> trail_bytes tr' = trail_bytes tr @ line_of e @ [newline]
                      \<and> tr_failed_writes tr' = tr_failed_writes tr \<and> tr_seq tr' = dict_get e ''seq''
   | (None, tr') \<Rightarrow> (\<exists>torn. trail_bytes tr' = trail_bytes tr @ torn)
                      \<and> tr_failed_writes tr' = tr_failed_writes tr + 1 \<and> tr_last_error tr' \<noteq> None \<and> tr_seq tr' = None"
  by (auto simp: trail_append_def write_line_def Let_def trail_bytes_def
      split: sum.splits option.splits disk.splits if_splits prod.splits dest!: load_head_keeps canonical_line)

text \<open>C2: two trails that both verify and show the same number of entries and the same head hold
  the same entries, unless SHA-256 collides on the contents they hold.\<close>

theorem tamper_evident:
  assumes "verify a = Inr r" "vr_ok r" "verify b = Inr s" "vr_ok s"
    and "vr_head r = vr_head s" "recorded a = Some es" "recorded b = Some fs" "length es = length fs"
    and "inj_on sha256_hex (content_of ` (set es \<union> set fs))"
  shows "list_all2 same_entry es fs"
proof -
  have l: "linked es" "linked fs" "r = summary es" "s = summary fs"
    using verify_linked [OF assms(1,2)] verify_linked [OF assms(3,4)] assms(6,7) by auto
  show ?thesis
    using assms(5-9) l linked_chained [OF assms(6) l(1)] linked_chained [OF assms(7) l(2)]
      linked_sealed [OF assms(6) l(1)] linked_sealed [OF assms(7) l(2)]
    by (intro entry_chain.chains_agree) auto
qed

theorem tamper_evident_witness: "\<exists>e. recorded demo_trail = Some [e] \<and> list_all2 same_entry [e] [e]"
proof -
  obtain e where h: "holds [e] demo_trail" using demo_holds by blast
  have "list_all2 same_entry [e] [e]"
    by (rule tamper_evident [OF holds_verify [OF h] _ holds_verify [OF h] _ refl holds_recorded [OF h] holds_recorded [OF h] refl])
      (simp_all add: summary_def)
  then show ?thesis using holds_recorded [OF h] by blast
qed

section \<open>Reading entries\<close>

lemma collect_entries_linked:
  assumes "objects ls = Some es" "good_chain n p es"
  shows "collect_entries after ls = Inr (drop (nat (after - n + 1)) es)"
  using assms
proof (induction ls arbitrary: es n p)
  case (Cons l ls)
  show ?case
  proof (cases "nonblank l")
    case True
    then obtain e es' where e: "loads l = Some (JObj e)" "objects ls = Some es'" "es = e # es'"
      using Cons.prems(1) by (auto split: option.splits json.splits)
    then have g: "eq_int (jget e ''seq'') n" "good_chain (n + 1) (hash_of e) es'"
      using Cons.prems(2) by (auto simp: good_entry_def)
    have "dict_get e ''seq'' = Some (jget e ''seq'')"
      using jget_Some [OF refl] eq_int_not_null [OF g(1)] by blast
    then have "py_int (case dict_get e ''seq'' of None \<Rightarrow> JInt 0 | Some s \<Rightarrow> s) = Inr n"
      using eq_int_py_int [OF g(1)] by simp
    moreover have "nat (after - n + 1) = Suc (nat (after - (n + 1) + 1))" if "\<not> after < n" using that by simp
    ultimately show ?thesis using True e Cons.IH [OF e(2) g(2)] by (auto simp: e(3))
  qed (use Cons in simp)
qed simp

text \<open>C19: on a trail that verifies, \<^verbatim>\<open>entries(after, limit)\<close> is the entries after the given position, newest last,
  at most \<open>limit\<close> of them when a limit is given.\<close>

theorem entries_of_verified:
  assumes "verify tr = Inr r" "vr_ok r" "recorded tr = Some es"
  shows "entries after limit tr =
    Inr (if limit = 0 then drop (nat after) es else slice_from (- limit) (drop (nat after) es))"
proof -
  have g: "good_chain 1 GENESIS es" using verify_linked [OF assms(1,2)] assms(3) by (auto simp: linked_good_chain)
  show ?thesis
  proof (cases "tr_file tr")
    case None
    then show ?thesis using assms(3) by (simp add: entries_def slice_from_def)
  next
    case (Some f)
    then have "objects (file_lines f) = Some es" using assms(3) by (simp add: recorded_def trail_bytes_def)
    from collect_entries_linked [OF this g] show ?thesis by (simp add: entries_def Some)
  qed
qed

theorem entries_of_verified_witness: "\<exists>e. entries 0 100 demo_trail = Inr [e] \<and> entries 1 100 demo_trail = Inr []"
proof -
  obtain e where h: "holds [e] demo_trail" using demo_holds by blast
  note en = entries_of_verified [OF holds_verify [OF h] _ holds_recorded [OF h]]
  have "entries 0 100 demo_trail = Inr [e]" "entries 1 100 demo_trail = Inr []"
    by (subst en; simp add: summary_def slice_from_def)+
  then show ?thesis by blast
qed



section \<open>What verifying means\<close>

text \<open>C7: \<^verbatim>\<open>verify\<close> implements its specification: it accepts a file exactly when the lines of the file are the entries of a linked
  chain, and then reports the number and the head of that chain.\<close>

theorem verify_accepts_iff:
  "verify tr = Inr r \<and> vr_ok r \<longleftrightarrow> (\<exists>es. recorded tr = Some es \<and> linked es \<and> r = summary es)"
  using verify_linked verify_summary by (fastforce simp: summary_def)

text \<open>C21: an entry read back from its line is the entry that was written, up to the order of its keys, and is written as the same
  line again.\<close>

theorem entry_line_roundtrip:
  assumes "jwf (JObj e)" "canonical e = Inr line"
  shows "loads line = Some (JObj (centry e)) \<and> canonical (centry e) = Inr line"
proof -
  have "line = line_of e" by (rule canonical_line [OF assms(2)])
  moreover have "canonical (centry e) = canonical e" unfolding canonical_def by (metis canon_JObj dumps_canon)
  ultimately show ?thesis using loads_line [OF assms(1)] assms(2) by simp
qed

theorem entry_line_roundtrip_witness: "\<exists>line. loads line = Some (JObj (centry [(''b'', JInt 1), (''a'', JNull)]))"
proof -
  have w: "jwf (JObj [(''b'', JInt 1), (''a'', JNull)])" "strings_ok False (JObj [(''b'', JInt 1), (''a'', JNull)])" by code_simp+
  show ?thesis using entry_line_roundtrip [OF w(1) canonical_ok [OF w]] by blast
qed

end
