(* ===== verification/Regex.thy ===== *)
theory Regex
  imports Py_Text
begin

text \<open>
  Python's \<^verbatim>\<open>re\<close> module as the program uses it: a parser of pattern strings, a backtracking matcher, and
  \<^verbatim>\<open>match\<close>, \<^verbatim>\<open>search\<close>, \<^verbatim>\<open>finditer\<close>, \<^verbatim>\<open>sub\<close>, \<^verbatim>\<open>split\<close> on top of it. Patterns and subjects are sequences of code points.
  The matcher returns the ways a pattern can match in the order in which backtracking tries them, so
  the first is the match Python reports. Letters count as \<^verbatim>\<open>\w\<close> in ASCII, Latin, Greek and Cyrillic; case is
  ignored in ASCII.
\<close>

section \<open>Code points\<close>

type_synonym codes = "int list"

definition code_point :: "string \<Rightarrow> int" where
  "code_point cs = (case map code_of cs of
      [a] \<Rightarrow> a
    | [a, b] \<Rightarrow> (a - 192) * 64 + (b - 128)
    | [a, b, c] \<Rightarrow> (a - 224) * 4096 + (b - 128) * 64 + (c - 128)
    | [a, b, c, d] \<Rightarrow> (a - 240) * 262144 + (b - 128) * 4096 + (c - 128) * 64 + (d - 128)
    | _ \<Rightarrow> 65533)"

definition codes_of :: "string \<Rightarrow> codes" where
  "codes_of s = map code_point (utf8_chars s)"

definition text_of :: "codes \<Rightarrow> string" where
  "text_of cs = concat (map utf8_encode cs)"

definition digit_code :: "int \<Rightarrow> bool" where
  "digit_code c \<longleftrightarrow> 48 \<le> c \<and> c \<le> 57"

definition space_code :: "int \<Rightarrow> bool" where
  "space_code c \<longleftrightarrow> 9 \<le> c \<and> c \<le> 13 \<or> 28 \<le> c \<and> c \<le> 32 \<or> c \<in> {133, 160, 5760, 8232, 8233, 8239, 8287, 12288}
     \<or> 8192 \<le> c \<and> c \<le> 8202"

definition word_code :: "int \<Rightarrow> bool" where
  "word_code c \<longleftrightarrow> digit_code c \<or> 65 \<le> c \<and> c \<le> 90 \<or> 97 \<le> c \<and> c \<le> 122 \<or> c = 95
     \<or> c \<in> {170, 178, 179, 181, 185, 186, 188, 189, 190} \<or> 192 \<le> c \<and> c \<le> 705 \<and> c \<noteq> 215 \<and> c \<noteq> 247
     \<or> 880 \<le> c \<and> c \<le> 1153 \<and> c \<notin> {885, 888, 889, 894, 896, 897, 898, 899, 900, 901, 903, 907, 909, 930, 1014}"

definition swap_case :: "int \<Rightarrow> int" where
  "swap_case c = (if 65 \<le> c \<and> c \<le> 90 then c + 32 else if 97 \<le> c \<and> c \<le> 122 then c - 32 else c)"

section \<open>Patterns\<close>

datatype cset = CRange int int | CDigit bool | CSpace bool | CWord bool

datatype re =
    RSet bool "cset list"
  | RAny
  | REps
  | RSeq re re
  | RAlt re re
  | RRep nat "nat option" bool re
  | RGroup nat re
  | RBol | REol | RStart | REnd | RWordB | RNotWordB
  | RAhead bool re
  | RBehind bool re

text \<open>The flags \<^verbatim>\<open>re.I\<close>, \<^verbatim>\<open>re.M\<close> and \<^verbatim>\<open>re.S\<close>.\<close>

record flags =
  ignore_case :: bool
  multi_line :: bool
  dot_all :: bool

definition no_flags :: flags where
  "no_flags = \<lparr>ignore_case = False, multi_line = False, dot_all = False\<rparr>"

fun in_cset :: "int \<Rightarrow> cset \<Rightarrow> bool" where
  "in_cset c (CRange a b) = (a \<le> c \<and> c \<le> b)"
| "in_cset c (CDigit pos) = (digit_code c = pos)"
| "in_cset c (CSpace pos) = (space_code c = pos)"
| "in_cset c (CWord pos) = (word_code c = pos)"

definition in_class :: "flags \<Rightarrow> bool \<Rightarrow> cset list \<Rightarrow> int \<Rightarrow> bool" where
  "in_class fs neg cs c =
     ((list_ex (in_cset c) cs \<or> ignore_case fs \<and> list_ex (in_cset (swap_case c)) cs) \<noteq> neg)"

section \<open>Matching\<close>

text \<open>Where the matcher stands: what lies behind it (nearest first), what lies ahead, and the groups matched so far.\<close>

record mstate =
  m_behind :: codes
  m_ahead :: codes
  m_groups :: "(nat \<times> nat \<times> nat) list"

definition m_pos :: "mstate \<Rightarrow> nat" where
  "m_pos s = length (m_behind s)"

definition step_over :: "mstate \<Rightarrow> mstate" where
  "step_over s = (case m_ahead s of [] \<Rightarrow> s | c # r \<Rightarrow> s\<lparr>m_behind := c # m_behind s, m_ahead := r\<rparr>)"

definition step_back :: "nat \<Rightarrow> mstate \<Rightarrow> mstate" where
  "step_back n s = s\<lparr>m_behind := drop n (m_behind s), m_ahead := rev (take n (m_behind s)) @ m_ahead s\<rparr>"

definition at_boundary :: "mstate \<Rightarrow> bool" where
  "at_boundary s \<longleftrightarrow>
     ((m_behind s \<noteq> [] \<and> word_code (hd (m_behind s))) \<noteq> (m_ahead s \<noteq> [] \<and> word_code (hd (m_ahead s))))"

text \<open>Repetition: each further round must consume something; \<open>n\<close> bounds the rounds and is large enough when it
  exceeds the required rounds and the text ahead.\<close>

primrec rep_iter :: "nat \<Rightarrow> (mstate \<Rightarrow> mstate list) \<Rightarrow> nat \<Rightarrow> nat option \<Rightarrow> bool \<Rightarrow> mstate \<Rightarrow> mstate list" where
  "rep_iter 0 body lo hi greedy s = []"
| "rep_iter (Suc n) body lo hi greedy s =
     (let more = (if hi = Some 0 then []
                  else concat (map (\<lambda>t. if m_pos t = m_pos s \<and> lo = 0 then []
                                         else rep_iter n body (lo - 1) (map_option (\<lambda>h. h - 1) hi) greedy t)
                                   (body s)));
          stop = (if lo = 0 then [s] else [])
      in if greedy then more @ stop else stop @ more)"

primrec width :: "re \<Rightarrow> nat" where
  "width (RSet neg cs) = 1"
| "width RAny = 1"
| "width REps = 0"
| "width (RSeq a b) = width a + width b"
| "width (RAlt a b) = width a"
| "width (RRep lo hi greedy r) = lo * width r"
| "width (RGroup n r) = width r"
| "width RBol = 0" | "width REol = 0" | "width RStart = 0" | "width REnd = 0"
| "width RWordB = 0" | "width RNotWordB = 0"
| "width (RAhead neg r) = 0"
| "width (RBehind neg r) = 0"

primrec run_re :: "flags \<Rightarrow> re \<Rightarrow> mstate \<Rightarrow> mstate list" where
  "run_re fs (RSet neg cs) s =
     (case m_ahead s of [] \<Rightarrow> [] | c # r \<Rightarrow> if in_class fs neg cs c then [step_over s] else [])"
| "run_re fs RAny s =
     (case m_ahead s of [] \<Rightarrow> [] | c # r \<Rightarrow> if c = 10 \<and> \<not> dot_all fs then [] else [step_over s])"
| "run_re fs REps s = [s]"
| "run_re fs (RSeq a b) s = concat (map (run_re fs b) (run_re fs a s))"
| "run_re fs (RAlt a b) s = run_re fs a s @ run_re fs b s"
| "run_re fs (RRep lo hi greedy r) s = rep_iter (lo + length (m_ahead s) + 1) (run_re fs r) lo hi greedy s"
| "run_re fs (RGroup n r) s =
     map (\<lambda>t. t\<lparr>m_groups := (n, m_pos s, m_pos t) # m_groups t\<rparr>) (run_re fs r s)"
| "run_re fs RBol s = (if m_behind s = [] \<or> multi_line fs \<and> hd (m_behind s) = 10 then [s] else [])"
| "run_re fs REol s =
     (if m_ahead s = [] \<or> m_ahead s = [10] \<or> multi_line fs \<and> hd (m_ahead s) = 10 then [s] else [])"
| "run_re fs RStart s = (if m_behind s = [] then [s] else [])"
| "run_re fs REnd s = (if m_ahead s = [] then [s] else [])"
| "run_re fs RWordB s = (if at_boundary s then [s] else [])"
| "run_re fs RNotWordB s = (if at_boundary s then [] else [s])"
| "run_re fs (RAhead neg r) s =
     (case run_re fs r s of
        [] \<Rightarrow> (if neg then [s] else [])
      | t # _ \<Rightarrow> (if neg then [] else [s\<lparr>m_groups := m_groups t\<rparr>]))"
| "run_re fs (RBehind neg r) s =
     (let w = width r in
      if (w \<le> length (m_behind s) \<and> run_re fs r (step_back w s) \<noteq> []) \<noteq> neg then [s] else [])"

section \<open>Parsing patterns\<close>

text \<open>
  The parser state is the rest of the pattern and the number of groups opened so far. Named groups are numbered
  as Python numbers them; the model refers to them by number.
\<close>

definition literal :: "int \<Rightarrow> re" where
  "literal c = RSet False [CRange c c]"

definition hex_value :: "codes \<Rightarrow> int option" where
  "hex_value cs = foldl (\<lambda>acc c. case acc of None \<Rightarrow> None
     | Some v \<Rightarrow> (case hex_val (char_of c) of None \<Rightarrow> None | Some d \<Rightarrow> Some (16 * v + d))) (Some 0) cs"

text \<open>The rest of the pattern after a given ASCII prefix.\<close>

definition eat :: "string \<Rightarrow> codes \<Rightarrow> codes option" where
  "eat p cs = (if take (length p) cs = map code_of p then Some (drop (length p) cs) else None)"

text \<open>An escape inside or outside a class: what it stands for and the rest.\<close>

definition parse_escape :: "codes \<Rightarrow> (cset \<times> codes) option" where
  "parse_escape cs = (case cs of
      [] \<Rightarrow> None
    | c # r \<Rightarrow>
        (if c = 100 then Some (CDigit True, r) else if c = 68 then Some (CDigit False, r)
         else if c = 115 then Some (CSpace True, r) else if c = 83 then Some (CSpace False, r)
         else if c = 119 then Some (CWord True, r) else if c = 87 then Some (CWord False, r)
         else if c = 110 then Some (CRange 10 10, r) else if c = 116 then Some (CRange 9 9, r)
         else if c = 114 then Some (CRange 13 13, r)
         else if c = 120 then map_option (\<lambda>v. (CRange v v, drop 2 r)) (hex_value (take 2 r))
         else if c = 117 then map_option (\<lambda>v. (CRange v v, drop 4 r)) (hex_value (take 4 r))
         else Some (CRange c c, r)))"

text \<open>The members of a class up to the closing bracket; \<open>first\<close>: a bracket here would be a member.\<close>

fun parse_class :: "nat \<Rightarrow> bool \<Rightarrow> codes \<Rightarrow> (cset list \<times> codes) option" where
  "parse_class 0 first cs = None"
| "parse_class (Suc n) first cs =
     (case cs of
        [] \<Rightarrow> None
      | c # r \<Rightarrow>
          (if c = 93 \<and> \<not> first then Some ([], r)
           else case (if c = 92 then parse_escape r else Some (CRange c c, r)) of
             None \<Rightarrow> None
           | Some (m, r1) \<Rightarrow>
               (case (m, eat ''-'' r1) of
                  (CRange a a', Some (d # r2)) \<Rightarrow>
                    (if d = 93 then map_option (\<lambda>(ms, q). (m # ms, q)) (parse_class n False r1)
                     else case (if d = 92 then parse_escape r2 else Some (CRange d d, r2)) of
                       Some (CRange b b', r3) \<Rightarrow> map_option (\<lambda>(ms, q). (CRange a b # ms, q)) (parse_class n False r3)
                     | _ \<Rightarrow> None)
                | _ \<Rightarrow> map_option (\<lambda>(ms, q). (m # ms, q)) (parse_class n False r1))))"

definition int_of_codes :: "codes \<Rightarrow> nat" where
  "int_of_codes ds = foldl (\<lambda>n c. 10 * n + nat (c - 48)) 0 ds"

text \<open>A quantifier after an atom, if there is one.\<close>

definition parse_bounds :: "codes \<Rightarrow> (nat \<times> nat option \<times> codes) option" where
  "parse_bounds cs =
     (let lo = takeWhile digit_code cs; r = drop (length lo) cs in
      case eat ''}'' r of
        Some r1 \<Rightarrow> (if lo = [] then None else Some (int_of_codes lo, Some (int_of_codes lo), r1))
      | None \<Rightarrow>
          (case eat '','' r of
             Some r1 \<Rightarrow>
               (let hi = takeWhile digit_code r1 in
                map_option (\<lambda>r2. (int_of_codes lo, (if hi = [] then None else Some (int_of_codes hi)), r2))
                  (eat ''}'' (drop (length hi) r1)))
           | None \<Rightarrow> None))"

definition parse_quantifier :: "re \<Rightarrow> codes \<Rightarrow> re \<times> codes" where
  "parse_quantifier a cs =
     (let q = (case cs of
                 [] \<Rightarrow> None
               | c # r \<Rightarrow>
                   (if c = 42 then Some (0, None, r) else if c = 43 then Some (1, None, r)
                    else if c = 63 then Some (0, Some 1, r)
                    else if c = 123 then parse_bounds r else None))
      in case q of
           None \<Rightarrow> (a, cs)
         | Some (lo, hi, r) \<Rightarrow>
             (case eat ''?'' r of Some r' \<Rightarrow> (RRep lo hi False a, r') | None \<Rightarrow> (RRep lo hi True a, r)))"

text \<open>The kinds of group: how the group wraps its body, whether it takes a number, and the rest of the pattern.\<close>

definition group_heads :: "nat \<Rightarrow> (string \<times> (re \<Rightarrow> re) \<times> nat) list" where
  "group_heads g = [(''?:'', \<lambda>x. x, g), (''?='', RAhead False, g), (''?!'', RAhead True, g),
     (''?<='', RBehind False, g), (''?<!'', RBehind True, g)]"

definition parse_group_head :: "nat \<Rightarrow> codes \<Rightarrow> ((re \<Rightarrow> re) \<times> nat \<times> codes) option" where
  "parse_group_head g cs =
     (case List.map_filter (\<lambda>(h, wrap, g'). map_option (\<lambda>r. (wrap, g', r)) (eat h cs)) (group_heads g) of
        found # _ \<Rightarrow> Some found
      | [] \<Rightarrow>
          (case eat ''?P<'' cs of
             Some r \<Rightarrow> Some (RGroup (g + 1), g + 1, drop 1 (dropWhile (\<lambda>c. c \<noteq> 62) r))
           | None \<Rightarrow> (if eat ''?'' cs \<noteq> None then None else Some (RGroup (g + 1), g + 1, cs))))"

fun parse_alt :: "nat \<Rightarrow> nat \<Rightarrow> codes \<Rightarrow> (re \<times> nat \<times> codes) option"
and parse_seq :: "nat \<Rightarrow> nat \<Rightarrow> codes \<Rightarrow> (re \<times> nat \<times> codes) option"
and parse_atom :: "nat \<Rightarrow> nat \<Rightarrow> codes \<Rightarrow> (re \<times> nat \<times> codes) option" where
  "parse_alt 0 g cs = None"
| "parse_alt (Suc n) g cs =
     (case parse_seq n g cs of
        None \<Rightarrow> None
      | Some (a, g1, r) \<Rightarrow>
          (case eat ''|'' r of
             Some r' \<Rightarrow> map_option (\<lambda>(b, g2, q). (RAlt a b, g2, q)) (parse_alt n g1 r')
           | None \<Rightarrow> Some (a, g1, r)))"
| "parse_seq 0 g cs = None"
| "parse_seq (Suc n) g cs =
     (case cs of
        [] \<Rightarrow> Some (REps, g, [])
      | c # _ \<Rightarrow>
          (if c = 124 \<or> c = 41 then Some (REps, g, cs)
           else case parse_atom n g cs of
             None \<Rightarrow> None
           | Some (a, g1, r) \<Rightarrow>
               (let (a', r') = parse_quantifier a r in
                map_option (\<lambda>(b, g2, q). (if b = REps then a' else RSeq a' b, g2, q)) (parse_seq n g1 r'))))"
| "parse_atom 0 g cs = None"
| "parse_atom (Suc n) g cs =
     (case cs of
        [] \<Rightarrow> None
      | c # r \<Rightarrow>
          (if c = 40 then
             (case parse_group_head g r of
                None \<Rightarrow> None
              | Some (wrap, g1, r1) \<Rightarrow>
                  (case parse_alt n g1 r1 of
                     None \<Rightarrow> None
                   | Some (b, g2, r2) \<Rightarrow> map_option (\<lambda>r3. (wrap b, g2, r3)) (eat '')'' r2)))
           else if c = 91 then
             (case eat ''^'' r of
                Some r1 \<Rightarrow> map_option (\<lambda>(ms, q). (RSet True ms, g, q)) (parse_class n True r1)
              | None \<Rightarrow> map_option (\<lambda>(ms, q). (RSet False ms, g, q)) (parse_class n True r))
           else if c = 46 then Some (RAny, g, r)
           else if c = 94 then Some (RBol, g, r)
           else if c = 36 then Some (REol, g, r)
           else if c = 92 then
             (if eat ''b'' r \<noteq> None then Some (RWordB, g, tl r)
              else if eat ''B'' r \<noteq> None then Some (RNotWordB, g, tl r)
              else if eat ''A'' r \<noteq> None then Some (RStart, g, tl r)
              else if eat ''Z'' r \<noteq> None then Some (REnd, g, tl r)
              else map_option (\<lambda>(m, q). (RSet False [m], g, q)) (parse_escape r))
           else Some (literal c, g, r)))"

text \<open>\<^verbatim>\<open>re.compile(pattern)\<close>; a pattern the parser does not read, which no pattern of the program is, matches nothing.\<close>

definition re_parse :: "string \<Rightarrow> re option" where
  "re_parse p = (let cs = codes_of p in
     case parse_alt (3 * length cs + 3) 0 cs of Some (r, _, []) \<Rightarrow> Some r | _ \<Rightarrow> None)"

definition re_compile :: "string \<Rightarrow> re" where
  "re_compile p = (case re_parse p of Some r \<Rightarrow> r | None \<Rightarrow> RSet False [])"

text \<open>
  A pattern of the source, transcribed with \<open>~\<close> for the backslash; characters beyond ASCII are written as their
  \<^verbatim>\<open>\u\<close> escapes.
\<close>

definition rx :: "string \<Rightarrow> re" where
  "rx p = re_compile (map (\<lambda>c. if c = CHR ''~'' then CHR 0x5C else c) p)"

definition flag_i :: flags where
  "flag_i = no_flags\<lparr>ignore_case := True\<rparr>"

definition flag_s :: flags where
  "flag_s = no_flags\<lparr>dot_all := True\<rparr>"

definition flag_m :: flags where
  "flag_m = no_flags\<lparr>multi_line := True\<rparr>"

section \<open>The module's functions\<close>

text \<open>A match: its bounds and the text of its groups.\<close>

record re_hit =
  hit_start :: nat
  hit_end :: nat
  hit_groups :: "(nat \<times> nat \<times> nat) list"

definition start_state :: "codes \<Rightarrow> nat \<Rightarrow> mstate" where
  "start_state cs i = \<lparr>m_behind = rev (take i cs), m_ahead = drop i cs, m_groups = []\<rparr>"

definition hit_at :: "flags \<Rightarrow> re \<Rightarrow> codes \<Rightarrow> nat \<Rightarrow> re_hit option" where
  "hit_at fs r cs i = (case run_re fs r (start_state cs i) of
      [] \<Rightarrow> None
    | t # _ \<Rightarrow> Some \<lparr>hit_start = i, hit_end = m_pos t, hit_groups = m_groups t\<rparr>)"

definition re_match :: "flags \<Rightarrow> re \<Rightarrow> string \<Rightarrow> re_hit option" where
  "re_match fs r s = hit_at fs r (codes_of s) 0"

text \<open>The first match that starts at \<open>i\<close> or later.\<close>

function hit_from :: "flags \<Rightarrow> re \<Rightarrow> codes \<Rightarrow> nat \<Rightarrow> re_hit option" where
  "hit_from fs r cs i =
     (if length cs < i then None
      else case hit_at fs r cs i of Some h \<Rightarrow> Some h | None \<Rightarrow> hit_from fs r cs (i + 1))"
  by pat_completeness auto
termination by (relation "measure (\<lambda>(fs, r, cs, i). Suc (length cs) - i)") auto

declare hit_from.simps [simp del]

definition re_search :: "flags \<Rightarrow> re \<Rightarrow> string \<Rightarrow> re_hit option" where
  "re_search fs r s = hit_from fs r (codes_of s) 0"

text \<open>\<^verbatim>\<open>m.group(n)\<close>: the text of a group, \<open>None\<close> when it took no part; group 0 is the whole match.\<close>

definition slice_codes :: "codes \<Rightarrow> nat \<Rightarrow> nat \<Rightarrow> codes" where
  "slice_codes cs i j = take (j - i) (drop i cs)"

definition hit_group :: "codes \<Rightarrow> re_hit \<Rightarrow> nat \<Rightarrow> string option" where
  "hit_group cs h n =
     (if n = 0 then Some (text_of (slice_codes cs (hit_start h) (hit_end h)))
      else map_option (\<lambda>(i, j). text_of (slice_codes cs i j)) (map_of (hit_groups h) n))"

text \<open>\<^verbatim>\<open>re.finditer\<close>: after an empty match the next one starts at the same place only if it is not empty.\<close>

definition hit_nonempty_at :: "flags \<Rightarrow> re \<Rightarrow> codes \<Rightarrow> nat \<Rightarrow> re_hit option" where
  "hit_nonempty_at fs r cs i = (case filter (\<lambda>t. m_pos t \<noteq> i) (run_re fs r (start_state cs i)) of
      [] \<Rightarrow> None
    | t # _ \<Rightarrow> Some \<lparr>hit_start = i, hit_end = m_pos t, hit_groups = m_groups t\<rparr>)"

fun all_hits :: "nat \<Rightarrow> flags \<Rightarrow> re \<Rightarrow> codes \<Rightarrow> nat \<Rightarrow> bool \<Rightarrow> re_hit list" where
  "all_hits 0 fs r cs i after_empty = []"
| "all_hits (Suc n) fs r cs i after_empty =
     (let h = (if after_empty
               then (case hit_nonempty_at fs r cs i of Some h \<Rightarrow> Some h | None \<Rightarrow> hit_from fs r cs (i + 1))
               else hit_from fs r cs i)
      in case h of
           None \<Rightarrow> []
         | Some h \<Rightarrow> h # all_hits n fs r cs (hit_end h) (hit_end h = hit_start h))"

definition re_finditer :: "flags \<Rightarrow> re \<Rightarrow> string \<Rightarrow> re_hit list" where
  "re_finditer fs r s = (let cs = codes_of s in all_hits (2 * length cs + 2) fs r cs 0 False)"

text \<open>\<^verbatim>\<open>re.findall\<close> for a pattern with no group, or with one.\<close>

definition re_findall :: "flags \<Rightarrow> re \<Rightarrow> nat \<Rightarrow> string \<Rightarrow> string list" where
  "re_findall fs r n s = map (\<lambda>h. case hit_group (codes_of s) h n of None \<Rightarrow> [] | Some t \<Rightarrow> t) (re_finditer fs r s)"

text \<open>\<^verbatim>\<open>re.sub\<close> with a function of the match.\<close>

fun splice :: "codes \<Rightarrow> (re_hit \<Rightarrow> string) \<Rightarrow> nat \<Rightarrow> re_hit list \<Rightarrow> string" where
  "splice cs f i [] = text_of (drop i cs)"
| "splice cs f i (h # hs) = text_of (slice_codes cs i (hit_start h)) @ f h @ splice cs f (hit_end h) hs"

definition re_sub_with :: "flags \<Rightarrow> re \<Rightarrow> (codes \<Rightarrow> re_hit \<Rightarrow> string) \<Rightarrow> string \<Rightarrow> string" where
  "re_sub_with fs r f s = (let cs = codes_of s in splice cs (f cs) 0 (re_finditer fs r s))"

definition re_sub :: "flags \<Rightarrow> re \<Rightarrow> string \<Rightarrow> string \<Rightarrow> string" where
  "re_sub fs r repl s = re_sub_with fs r (\<lambda>cs h. repl) s"

text \<open>\<^verbatim>\<open>re.split\<close>: the text between matches, with the text of the first \<open>k\<close> groups kept in between.\<close>

fun pieces :: "codes \<Rightarrow> nat \<Rightarrow> nat \<Rightarrow> re_hit list \<Rightarrow> string list" where
  "pieces cs k i [] = [text_of (drop i cs)]"
| "pieces cs k i (h # hs) =
     text_of (slice_codes cs i (hit_start h))
       # map (\<lambda>n. case hit_group cs h n of None \<Rightarrow> [] | Some t \<Rightarrow> t) [1..<k+1]
       @ pieces cs k (hit_end h) hs"

definition re_split :: "flags \<Rightarrow> re \<Rightarrow> nat \<Rightarrow> string \<Rightarrow> string list" where
  "re_split fs r k s = pieces (codes_of s) k 0 (re_finditer fs r s)"

text \<open>\<^verbatim>\<open>bool(pattern.search(s))\<close> and the groups of the first match.\<close>

definition found_in :: "flags \<Rightarrow> re \<Rightarrow> string \<Rightarrow> bool" where
  "found_in fs r s \<longleftrightarrow> re_search fs r s \<noteq> None"

definition search_group :: "flags \<Rightarrow> re \<Rightarrow> nat \<Rightarrow> string \<Rightarrow> string option" where
  "search_group fs r n s = (case re_search fs r s of None \<Rightarrow> None | Some h \<Rightarrow> hit_group (codes_of s) h n)"

definition match_group :: "flags \<Rightarrow> re \<Rightarrow> nat \<Rightarrow> string \<Rightarrow> string option" where
  "match_group fs r n s = (case re_match fs r s of None \<Rightarrow> None | Some h \<Rightarrow> hit_group (codes_of s) h n)"

definition hit_text :: "codes \<Rightarrow> re_hit \<Rightarrow> nat \<Rightarrow> string" where
  "hit_text cs h n = (case hit_group cs h n of None \<Rightarrow> [] | Some t \<Rightarrow> t)"

section \<open>Bounds of a match\<close>

lemma m_groups_update [simp]: "m_behind (t\<lparr>m_groups := g\<rparr>) = m_behind t" "m_ahead (t\<lparr>m_groups := g\<rparr>) = m_ahead t"
  by simp_all

text \<open>\<open>forward s t\<close>: \<open>t\<close> is \<open>s\<close> moved forward over the same text.\<close>

definition forward :: "mstate \<Rightarrow> mstate \<Rightarrow> bool" where
  "forward s t \<longleftrightarrow> (\<exists>w. m_ahead s = w @ m_ahead t \<and> m_behind t = rev w @ m_behind s)"

lemma forward_refl [simp]: "forward s s"
  by (auto simp: forward_def)

lemma forward_groups [simp]: "forward s (t\<lparr>m_groups := g\<rparr>) = forward s t" "forward (s\<lparr>m_groups := g\<rparr>) t = forward s t"
  by (simp_all add: forward_def)

lemma forward_trans: "forward a b \<Longrightarrow> forward b c \<Longrightarrow> forward a c"
  by (fastforce simp: forward_def)

lemma forward_step: "forward s (step_over s)"
  by (auto simp: forward_def step_over_def split: list.splits)

lemma forward_rep:
  assumes "\<And>s t. t \<in> set (body s) \<Longrightarrow> forward s t"
  shows "t \<in> set (rep_iter n body lo hi greedy s) \<Longrightarrow> forward s t"
proof (induction n arbitrary: lo hi s)
  case (Suc n)
  show ?case
  proof (cases "t = s")
    case False
    then obtain u lo' hi' where "u \<in> set (body s)" "t \<in> set (rep_iter n body lo' hi' greedy u)"
      using Suc.prems by (auto simp: Let_def split: if_splits)
    then show ?thesis using Suc.IH assms forward_trans by blast
  qed simp
qed simp

lemma forward_run: "t \<in> set (run_re fs r s) \<Longrightarrow> forward s t"
proof (induction r arbitrary: s t)
  case (RSet neg cs)
  then show ?case using forward_step by (auto split: list.splits if_splits)
next
  case RAny
  then show ?case using forward_step by (auto split: list.splits if_splits)
next
  case (RSeq a b)
  then show ?case using forward_trans by fastforce
next
  case (RRep lo hi greedy r)
  then show ?case using forward_rep by (simp del: rep_iter.simps) blast
qed (auto simp: Let_def split: list.splits if_splits)

text \<open>A match lies inside the text and does not end before it starts.\<close>

lemma hit_at_bounds:
  assumes "hit_at fs r cs i = Some h" "i \<le> length cs"
  shows "hit_start h = i \<and> i \<le> hit_end h \<and> hit_end h \<le> length cs"
proof -
  obtain t where t: "t \<in> set (run_re fs r (start_state cs i))" "h = \<lparr>hit_start = i, hit_end = m_pos t, hit_groups = m_groups t\<rparr>"
    using assms(1) by (auto simp: hit_at_def split: list.splits)
  obtain w where w: "drop i cs = w @ m_ahead t" "m_behind t = rev w @ rev (take i cs)"
    using forward_run [OF t(1)] by (auto simp: forward_def start_state_def)
  have "length (drop i cs) = length w + length (m_ahead t)" by (simp add: w(1))
  then show ?thesis using w(2) assms(2) by (simp add: t(2) m_pos_def min_absorb2)
qed

lemma hit_from_bounds:
  "hit_from fs r cs i = Some h \<Longrightarrow> i \<le> hit_start h \<and> hit_start h \<le> hit_end h \<and> hit_end h \<le> length cs"
proof (induction fs r cs i rule: hit_from.induct)
  case (1 fs r cs i)
  show ?case
  proof (cases "length cs < i")
    case True
    then show ?thesis using "1.prems" by (simp add: hit_from.simps)
  next
    case False
    then show ?thesis using "1.prems" "1.IH" [OF False]
      by (cases "hit_at fs r cs i") (fastforce simp: hit_from.simps [of fs r cs i] dest: hit_at_bounds)+
  qed
qed

lemma re_search_bounds:
  "re_search fs r s = Some h \<Longrightarrow> hit_start h \<le> hit_end h \<and> hit_end h \<le> length (codes_of s)"
  by (auto simp: re_search_def dest: hit_from_bounds)

section \<open>Groups that take part in every match\<close>

primrec captures :: "nat \<Rightarrow> re \<Rightarrow> bool" where
  "captures n (RSet neg cs) = False"
| "captures n RAny = False"
| "captures n REps = False"
| "captures n (RSeq a b) = (captures n a \<or> captures n b)"
| "captures n (RAlt a b) = (captures n a \<and> captures n b)"
| "captures n (RRep lo hi greedy r) = (0 < lo \<and> captures n r)"
| "captures n (RGroup m r) = (m = n \<or> captures n r)"
| "captures n RBol = False" | "captures n REol = False" | "captures n RStart = False" | "captures n REnd = False"
| "captures n RWordB = False" | "captures n RNotWordB = False"
| "captures n (RAhead neg r) = False"
| "captures n (RBehind neg r) = False"

definition has_group :: "nat \<Rightarrow> mstate \<Rightarrow> bool" where
  "has_group n s \<longleftrightarrow> n \<in> fst ` set (m_groups s)"

lemma has_group_step [simp]: "has_group n (step_over s) = has_group n s"
  by (auto simp: has_group_def step_over_def split: list.splits)

lemma keeps_group_rep:
  assumes "\<And>s t. t \<in> set (body s) \<Longrightarrow> has_group n s \<or> c \<Longrightarrow> has_group n t"
  shows "t \<in> set (rep_iter k body lo hi greedy s) \<Longrightarrow> has_group n s \<or> (0 < lo \<and> c) \<Longrightarrow> has_group n t"
proof (induction k arbitrary: lo hi s)
  case (Suc k)
  show ?case
  proof (cases "t = s \<and> lo = 0")
    case True
    then show ?thesis using Suc.prems(2) by simp
  next
    case False
    then obtain u lo' hi' where u: "u \<in> set (body s)" "t \<in> set (rep_iter k body lo' hi' greedy u)"
      using Suc.prems by (auto simp: Let_def split: if_splits)
    have "has_group n u" using assms [OF u(1)] Suc.prems(2) by blast
    then show ?thesis using Suc.IH [OF u(2)] by blast
  qed
qed simp

lemma keeps_group_run: "t \<in> set (run_re fs r s) \<Longrightarrow> has_group n s \<or> captures n r \<Longrightarrow> has_group n t"
proof (induction r arbitrary: s t)
  case (RRep lo hi greedy r)
  show ?case
  proof (rule keeps_group_rep)
    show "t \<in> set (rep_iter (lo + length (m_ahead s) + 1) (run_re fs r) lo hi greedy s)"
      using RRep.prems(1) by (simp del: rep_iter.simps)
    show "has_group n s \<or> (0 < lo \<and> captures n r)" using RRep.prems(2) by simp
  qed (rule RRep.IH)
next
  case (RGroup m r)
  obtain u where u: "u \<in> set (run_re fs r s)" "t = u\<lparr>m_groups := (m, m_pos s, m_pos u) # m_groups u\<rparr>"
    using RGroup.prems(1) by auto
  have "has_group n u \<or> m = n" using RGroup.IH [OF u(1)] RGroup.prems(2) by auto
  then show ?case by (auto simp: u(2) has_group_def)
next
  case (RAhead neg r)
  then have g: "has_group n s" by simp
  consider "t = s" | u where "u \<in> set (run_re fs r s)" "t = s\<lparr>m_groups := m_groups u\<rparr>"
    using RAhead.prems(1) by (auto split: list.splits if_splits)
  then show ?case
  proof cases
    case 2
    then have "has_group n u" using RAhead.IH g by blast
    then show ?thesis using 2(2) by (simp add: has_group_def)
  qed (use g in simp)
qed (fastforce simp: Let_def split: list.splits if_splits)+

lemma hit_at_captures: "hit_at fs r cs i = Some h \<Longrightarrow> captures n r \<Longrightarrow> n \<in> fst ` set (hit_groups h)"
  using keeps_group_run [of _ fs r "start_state cs i" n] by (fastforce simp: hit_at_def has_group_def split: list.splits)

lemma hit_from_captures: "hit_from fs r cs i = Some h \<Longrightarrow> captures n r \<Longrightarrow> n \<in> fst ` set (hit_groups h)"
proof (induction fs r cs i rule: hit_from.induct)
  case (1 fs r cs i)
  then show ?case using hit_at_captures
    by (subst (asm) (2) hit_from.simps) (auto split: if_splits option.splits)
qed

lemma re_search_captures:
  assumes "re_search fs r s = Some h" "captures n r"
  obtains g where "hit_group cs h n = Some g"
proof -
  have "map_of (hit_groups h) n \<noteq> None"
    using hit_from_captures assms by (simp add: re_search_def map_of_eq_None_iff)
  then show thesis using that by (cases "n = 0") (auto simp: hit_group_def)
qed

end
