(* ===== verification/Intent.thy ===== *)
theory Intent
  imports Py_Text
begin

text \<open>
  What a request is, \<^verbatim>\<open>4ce/functions/orchestrator.py\<close>: TONY's deterministic classification by the words
  a request contains, the small-talk test that lets a message bypass the agent chain and its
  approval gate, and the test for a request about this deployment's sovereignty.
\<close>

section \<open>Signals\<close>

definition CODE_SIGNALS :: "string list" where
  "CODE_SIGNALS = [
     ''code'', ''script'', ''program'', ''function'', ''debug'', ''compile'', ''refactor'', ''python'',
     ''javascript'', ''sql'', ''algorithm'', ''unit test'', ''traceback'']"

definition DOCUMENT_SIGNALS :: "string list" where
  "DOCUMENT_SIGNALS = [
     ''report'', ''inspection'', ''sop'', ''manual'', ''approval note'', ''summarise'', ''summarize'',
     ''findings'', ''drawing'', ''correspondence'', ''note sheet'', ''tender'', ''specification'',
     ''procedure'', ''audit'']"

definition AUDIT_SIGNALS :: "string list" where
  "AUDIT_SIGNALS = [
     ''prove nothing leaves'', ''leaves the premises'', ''leave the premises'', ''sovereignty'',
     ''sovereign'', ''audit the running'', ''audit the configuration'', ''external call'', ''air gap'',
     ''air-gapped'', ''offline mode'', ''telemetry'', ''data leaving'', ''phone home'', ''off-premise'',
     ''off premise'', ''off the premises'', ''send data'', ''sends data'', ''sending data'', ''data leave'',
     ''anything leave'', ''egress'', ''outbound connection'', ''network monitor'', ''audit this deployment'',
     ''audit the deployment'']"

definition CALC_SIGNALS :: "string list" where
  "CALC_SIGNALS = [
     ''calculate'', ''compute'', ''thickness'', ''pressure'', ''flow rate'', ''tonnage'']"

definition META_QUESTIONS :: "string list" where
  "META_QUESTIONS = [
     ''who are you'', ''what are you'', ''what can you do'', ''what do you do'', ''how do you work'',
     ''what is 4ce'', ''who made you'', ''introduce yourself'', ''what models do you'',
     ''which models do you'', ''are you online'', ''are you there'']"

definition GREETINGS :: "string list" where
  "GREETINGS = [
     ''hi'', ''hello'', ''hey'', ''yo'', ''hiya'', ''howdy'', ''hola'', ''namaste'', ''morning'',
     ''afternoon'', ''evening'', ''greetings'', ''good morning'', ''good afternoon'', ''good evening'',
     ''good day'']"

definition COURTESIES :: "string list" where
  "COURTESIES = [
     ''thanks'', ''thank you'', ''thankyou'', ''ta'', ''cheers'', ''ok'', ''okay'', ''k'', ''cool'',
     ''nice'', ''great'', ''perfect'', ''got it'', ''understood'', ''sure'', ''yes'', ''no'', ''bye'',
     ''goodbye'', ''see you'', ''good night'', ''test'', ''testing'', ''and again'', ''again'',
     ''once more'', ''go on'', ''carry on'', ''continue'', ''next'', ''same again'', ''one more'', ''and'',
     ''so'', ''right'', ''fine'', ''alright'', ''indeed'', ''exactly'', ''correct'', ''wonderful'',
     ''excellent'', ''brilliant'', ''lovely'', ''hmm'', ''hm'', ''ah'', ''oh'', ''i see'', ''makes sense'',
     ''noted'']"

text \<open>The task types; \<open>task_name\<close> is the string the program uses.\<close>

datatype task_type = Chat | Code | Vision | Document | Analysis

fun task_name :: "task_type \<Rightarrow> string" where
  "task_name Chat = ''chat''"
| "task_name Code = ''code''"
| "task_name Vision = ''vision''"
| "task_name Document = ''document''"
| "task_name Analysis = ''analysis''"

definition RETRIEVING_TASKS :: "task_type list" where
  "RETRIEVING_TASKS = [Document, Vision, Analysis]"

section \<open>Classification\<close>

text \<open>\<^verbatim>\<open>" ".join(re.sub(r"[^a-z0-9\s]", " ", prompt.lower()).split())\<close>, as the list of its words.\<close>

definition keep_letter :: "char \<Rightarrow> char" where
  "keep_letter c = (if is_lower c \<or> is_digit c \<or> is_space c then c else CHR '' '')"

definition plain_words :: "string \<Rightarrow> string list" where
  "plain_words prompt = words_of (map keep_letter (py_lower prompt))"

definition conversational :: "string \<Rightarrow> string option" where
  "conversational prompt =
     (let words = plain_words prompt; text = join_with '' '' words in
      if text = [] then None
      else if 8 < length words then None
      else if text \<in> set GREETINGS \<or> text \<in> set COURTESIES then Some text
      else if hd words \<in> set GREETINGS \<and> length words \<le> 5 then Some (hd words)
      else find (contains text) META_QUESTIONS)"

definition classify :: "string \<Rightarrow> bool \<Rightarrow> task_type \<times> string list" where
  "classify prompt has_image =
     (let lowered = py_lower prompt in
      if has_image then (Vision, [''image attached''])
      else case conversational prompt of
        Some small_talk \<Rightarrow> (Chat, [''conversational: '' @ [CHR 0x27] @ small_talk @ [CHR 0x27]])
      | None \<Rightarrow>
          (let hits = filter (contains lowered) CODE_SIGNALS in
           if hits \<noteq> [] then (Code, take 3 hits)
           else let hits = filter (contains lowered) DOCUMENT_SIGNALS in
           if hits \<noteq> [] then (Document, take 3 hits)
           else let hits = filter (contains lowered) CALC_SIGNALS in
           if hits \<noteq> [] then (Analysis, take 3 hits)
           else (Analysis, [])))"

definition wants_audit :: "string \<Rightarrow> bool" where
  "wants_audit prompt = (let lowered = py_lower prompt in \<exists>signal \<in> set AUDIT_SIGNALS. contains lowered signal)"

section \<open>Properties\<close>

lemma conversational_short: "conversational prompt = Some p \<Longrightarrow> length (plain_words prompt) \<le> 8"
  by (auto simp: conversational_def Let_def split: if_splits)

lemma find_SomeD: "find P xs = Some x \<Longrightarrow> x \<in> set xs \<and> P x"
  by (auto simp: find_Some_iff)

lemma classify_chat: "fst (classify prompt has_image) = Chat \<longleftrightarrow> \<not> has_image \<and> conversational prompt \<noteq> None"
  by (auto simp: classify_def Let_def split: option.splits)

text \<open>Only a message of at most eight words, with no image, can be taken for small talk, and then only because
  it is a greeting or a courtesy, opens with a greeting and has at most five words, or contains a question
  about the assistant.\<close>

lemma chat_is_small_talk:
  assumes "fst (classify prompt has_image) = Chat"
  shows "\<not> has_image \<and> length (plain_words prompt) \<le> 8
     \<and> (let text = join_with '' '' (plain_words prompt) in
        text \<in> set GREETINGS \<union> set COURTESIES
        \<or> hd (plain_words prompt) \<in> set GREETINGS \<and> length (plain_words prompt) \<le> 5
        \<or> (\<exists>q \<in> set META_QUESTIONS. contains text q))"
proof -
  obtain p where p: "conversational prompt = Some p" and i: "\<not> has_image"
    using assms by (auto simp: classify_chat)
  then show ?thesis using conversational_short [OF p]
    by (auto simp: conversational_def Let_def split: if_splits dest!: find_SomeD)
qed

lemma chat_is_small_talk_witness:
  "length (plain_words ''Hello there!'') \<le> 8"
proof -
  have "fst (classify ''Hello there!'' False) = Chat" by code_simp
  from chat_is_small_talk [OF this] show ?thesis by blast
qed

text \<open>A request for work that opens with a greeting is taken for small talk, so it is answered
  without the agent chain, without verification and without the approval gate.\<close>

lemma greeting_bypasses_chain:
  "fst (classify ''Hi, summarise the inspection findings'' False) = Chat
   \<and> fst (classify ''Summarise the inspection findings'' False) = Document"
  by code_simp

end
