(* ===== verification/Router.thy ===== *)
theory Router
  imports Intent Audit_Trail
begin

text \<open>
  The model router of \<^verbatim>\<open>4ce/functions/orchestrator.py\<close>: the pipe's valves, the model registry (JSON in a valve
  or the built-in copy), the models the server lists less the orchestrator itself, and the choice of
  a model for a task and for each agent. The registry is data an administrator writes, so the
  conversions the code applies to it are modelled with the exceptions they can raise.
\<close>

section \<open>Valves\<close>

record valves =
  v_model_registry :: string
  v_analysis_model :: string
  v_coding_model :: string
  v_vision_model :: string
  v_chat_model :: string
  v_orchestrate_small_talk :: bool
  v_friday_model :: string
  v_jarvis_model :: string
  v_independent_verification :: bool
  v_ultron_model :: string
  v_retrieval_k :: int
  v_retrieval_strong_score :: rat
  v_vision_max_edge :: int
  v_vision_page_edge :: int
  v_vision_extraction :: bool
  v_extraction_max_tokens :: int
  v_max_tokens :: int
  v_enable_verification :: bool
  v_enable_replan :: bool
  v_require_approval :: bool
  v_show_trace :: bool
  v_show_reasoning :: bool
  v_show_model_thinking :: bool

definition default_valves :: valves where
  "default_valves = \<lparr>
     v_model_registry = [], v_analysis_model = [], v_coding_model = [], v_vision_model = [], v_chat_model = [],
     v_orchestrate_small_talk = False, v_friday_model = [], v_jarvis_model = [],
     v_independent_verification = True, v_ultron_model = [], v_retrieval_k = 4,
     v_retrieval_strong_score = fl (8 / 10), v_vision_max_edge = 900, v_vision_page_edge = 2200,
     v_vision_extraction = True, v_extraction_max_tokens = 2400, v_max_tokens = 900,
     v_enable_verification = True, v_enable_replan = True, v_require_approval = True,
     v_show_trace = True, v_show_reasoning = True, v_show_model_thinking = True\<rparr>"

section \<open>The registry\<close>

definition jstrs :: "string list \<Rightarrow> json" where
  "jstrs ss = JList (map JStr ss)"

definition DEFAULT_REGISTRY :: "json pydict" where
  "DEFAULT_REGISTRY = [
     (''models'', JList [
        JObj [(''id'', JStr ''qwen/qwen3-vl-4b''), (''family'', JStr ''Qwen3-VL 4B''),
              (''modalities'', jstrs [''text'', ''image'']),
              (''capabilities'', jstrs [''reasoning'', ''documents'', ''drafting'', ''vision'', ''verification'']),
              (''context'', JInt 8192), (''size_gb'', JFloat (Fin (fl (333 / 100)))), (''licence'', JStr ''Apache-2.0'')],
        JObj [(''id'', JStr ''qwen/qwen3-1.7b''), (''family'', JStr ''Qwen3 1.7B''), (''modalities'', jstrs [''text'']),
              (''capabilities'', jstrs [''coding'', ''chat'', ''verification'']),
              (''context'', JInt 8192), (''size_gb'', JFloat (Fin (fl (114 / 100)))), (''licence'', JStr ''Apache-2.0'')]]),
     (''embedding'', JObj [(''id'', JStr ''text-embedding-nomic-embed-text-v1.5''),
        (''family'', JStr ''nomic-embed-text v1.5''), (''context'', JInt 2048),
        (''size_gb'', JFloat (Fin (fl (8 / 100)))), (''licence'', JStr ''Apache-2.0'')]),
     (''routing'', JObj [(''chat'', jstrs [''chat'']), (''code'', jstrs [''coding'']), (''vision'', jstrs [''vision'']),
        (''document'', jstrs [''documents'']), (''analysis'', jstrs [''reasoning''])])]"

definition registry_of :: "valves \<Rightarrow> json pydict" where
  "registry_of v =
     (let text = py_strip (v_model_registry v) in
      if text = [] then DEFAULT_REGISTRY
      else case loads_text text of
             Some (JObj registry) \<Rightarrow>
               (case jget registry ''models'' of JList _ \<Rightarrow> registry | _ \<Rightarrow> DEFAULT_REGISTRY)
           | _ \<Rightarrow> DEFAULT_REGISTRY)"

text \<open>\<^verbatim>\<open>[str(c) for c in v or []]\<close>: a list's elements, a text's characters, a dictionary's keys.\<close>

definition str_items :: "json \<Rightarrow> py_error + string list" where
  "str_items v =
     (if \<not> jtruthy v then Inr []
      else case v of
             JList vs \<Rightarrow> Inr (map py_str vs)
           | JStr s \<Rightarrow> Inr (utf8_chars s)
           | JObj kvs \<Rightarrow> Inr (map fst kvs)
           | _ \<Rightarrow> Inl TypeError)"

text \<open>\<^verbatim>\<open>(registry.get("routing") or {}).get(task_type) or []\<close>, as texts.\<close>

definition needs_of :: "json pydict \<Rightarrow> task_type \<Rightarrow> py_error + string list" where
  "needs_of registry task =
     (case jor (jget registry ''routing'') (JObj []) of
        JObj routing \<Rightarrow> str_items (jget routing (task_name task))
      | _ \<Rightarrow> Inl AttributeError)"

definition registry_models :: "json pydict \<Rightarrow> json list" where
  "registry_models registry = (case jget registry ''models'' of JList vs \<Rightarrow> vs | _ \<Rightarrow> [])"

section \<open>Served models\<close>

text \<open>The keys of \<^verbatim>\<open>request.app.state.MODELS\<close>, less everything that is the orchestrator itself.\<close>

definition own_model :: "string \<Rightarrow> bool" where
  "own_model k \<longleftrightarrow> contains (py_lower k) ''4ce'' \<or> starts_with (py_lower k) ''ace_orchestrator''"

definition available_models :: "string list \<Rightarrow> string list" where
  "available_models keys = filter (\<lambda>k. \<not> own_model k) keys"

definition match_model :: "string \<Rightarrow> string list \<Rightarrow> string \<Rightarrow> string option" where
  "match_model wanted available current =
     (if wanted = [] then None
      else if wanted \<in> set available then Some wanted
      else let lowered = py_lower wanted in
        find (\<lambda>candidate. candidate \<noteq> current
                \<and> (contains (py_lower candidate) lowered \<or> contains lowered (py_lower candidate))) available)"

text \<open>The truth test on a text that may be missing: an empty one counts as missing.\<close>

definition some_text :: "string option \<Rightarrow> string option" where
  "some_text r = (if r = Some [] then None else r)"

section \<open>Routing\<close>

record candidate =
  ca_id :: string
  ca_capabilities :: "string list"
  ca_licence :: string
  ca_status :: string

definition override_for :: "valves \<Rightarrow> task_type \<Rightarrow> string" where
  "override_for v task = py_strip (case task of
      Chat \<Rightarrow> v_chat_model v | Code \<Rightarrow> v_coding_model v | Vision \<Rightarrow> v_vision_model v
    | Document \<Rightarrow> v_analysis_model v | Analysis \<Rightarrow> v_analysis_model v)"

text \<open>The loop over the registry: \<open>chosen\<close> and \<open>first_capable\<close> are its variables.\<close>

fun route_scan :: "string list \<Rightarrow> string list \<Rightarrow> string option \<Rightarrow> string option \<Rightarrow> json list
    \<Rightarrow> py_error + (string option \<times> string option \<times> candidate list)" where
  "route_scan needs available chosen first_capable [] = Inr (chosen, first_capable, [])"
| "route_scan needs available chosen first_capable (e # es) =
     (case e of
        JObj entry \<Rightarrow>
          (if \<not> jtruthy (jget entry ''id'') then route_scan needs available chosen first_capable es
           else case str_items (jget entry ''capabilities'') of
             Inl err \<Rightarrow> Inl err
           | Inr capabilities \<Rightarrow>
               (let model = py_str (jget entry ''id'');
                    missing = filter (\<lambda>c. c \<notin> set capabilities) needs;
                    served = (if available \<noteq> [] then some_text (match_model model available []) else None);
                    fresh = (chosen = None \<and> first_capable = None);
                    takes = (missing = [] \<and> \<not> (available \<noteq> [] \<and> served = None) \<and> fresh);
                    status = (if missing \<noteq> [] then ''lacks '' @ join_with '', '' missing
                              else if available \<noteq> [] \<and> served = None then ''not served''
                              else if fresh then ''chosen'' else ''capable, not first'')
                in case route_scan needs available (if takes then served else chosen)
                          (if takes then Some model else first_capable) es of
                     Inl err \<Rightarrow> Inl err
                   | Inr (c, f, cs) \<Rightarrow>
                       Inr (c, f, \<lparr>ca_id = model, ca_capabilities = capabilities,
                                   ca_licence = py_str (jor (jget entry ''licence'') (JStr [])), ca_status = status\<rparr> # cs)))
      | _ \<Rightarrow> route_scan needs available chosen first_capable es)"

definition mark_overridden :: "candidate \<Rightarrow> candidate" where
  "mark_overridden c = (if ca_status c = ''chosen'' then c\<lparr>ca_status := ''overridden''\<rparr> else c)"

definition route :: "valves \<Rightarrow> task_type \<Rightarrow> string list \<Rightarrow> string
    \<Rightarrow> py_error + (string option \<times> string \<times> candidate list)" where
  "route v task keys current =
     (let registry = registry_of v; available = available_models keys; override = override_for v task in
      case needs_of registry task of
        Inl e \<Rightarrow> Inl e
      | Inr needs \<Rightarrow>
          (case route_scan needs available None None (registry_models registry) of
             Inl e \<Rightarrow> Inl e
           | Inr (chosen, first_capable, cands) \<Rightarrow>
               (let need = task_name task @ (if needs \<noteq> [] then '' work needs '' @ join_with '', '' needs else '' work'');
                    resolved = (if override = [] then None
                                else if available \<noteq> [] then some_text (match_model override available current)
                                else Some override)
                in case resolved of
                     Some m \<Rightarrow> Inr (Some m, need @ ''; the '' @ task_name task @ '' override in the valves names '' @ m,
                                    map mark_overridden cands)
                   | None \<Rightarrow>
                       (case chosen of
                          Some m \<Rightarrow> Inr (Some m, need @ ''; '' @ m @ '' is the first served model in the registry with it'', cands)
                        | None \<Rightarrow>
                            (case (if available = [] then first_capable else None) of
                               Some m \<Rightarrow> Inr (Some m, need @ ''; the model server did not list its models, so the registry's first capable entry, '' @ m, cands)
                             | None \<Rightarrow>
                                 (case some_text (find (\<lambda>m. m \<noteq> current) available) of
                                    Some m \<Rightarrow> Inr (Some m, need @ '', and no served model in the registry has it; fell back to '' @ m, cands)
                                  | None \<Rightarrow> Inr (None, ''no local model available'', cands)))))))"

section \<open>A model for each agent\<close>

text \<open>Registry entries, those that can verify first; the sort of the code is stable. \<open>in\<close> on the capabilities is membership.\<close>

definition has_member :: "json \<Rightarrow> string \<Rightarrow> py_error + bool" where
  "has_member v x =
     (if \<not> jtruthy v then Inr False
      else case v of
             JList vs \<Rightarrow> Inr (JStr x \<in> set vs)
           | JStr s \<Rightarrow> Inr (contains s x)
           | JObj kvs \<Rightarrow> Inr (x \<in> fst ` set kvs)
           | _ \<Rightarrow> Inl TypeError)"

fun verify_flags :: "json list \<Rightarrow> py_error + (bool \<times> json pydict) list" where
  "verify_flags [] = Inr []"
| "verify_flags (JObj e # es) =
     (case has_member (jget e ''capabilities'') ''verification'' of
        Inl err \<Rightarrow> Inl err
      | Inr b \<Rightarrow> (case verify_flags es of Inl err \<Rightarrow> Inl err | Inr r \<Rightarrow> Inr ((b, e) # r)))"
| "verify_flags (_ # es) = verify_flags es"

definition verify_order :: "json list \<Rightarrow> py_error + json pydict list" where
  "verify_order es = (case verify_flags es of
      Inl err \<Rightarrow> Inl err
    | Inr fs \<Rightarrow> Inr (map snd (filter fst fs @ filter (\<lambda>(b, _). \<not> b) fs)))"

definition alternate_model :: "valves \<Rightarrow> string \<Rightarrow> string list \<Rightarrow> py_error + string option" where
  "alternate_model v routed available =
     (case verify_order (registry_models (registry_of v)) of
        Inl err \<Rightarrow> Inl err
      | Inr ordered \<Rightarrow>
          (let matches = List.map_filter (\<lambda>e. match_model (py_str (jor (jget e ''id'') (JStr []))) available []) ordered
           in Inr (case find (\<lambda>c. c \<noteq> [] \<and> c \<noteq> routed) matches of
                     Some c \<Rightarrow> Some c
                   | None \<Rightarrow> find (\<lambda>c. c \<noteq> routed) available)))"

definition agent_model :: "valves \<Rightarrow> string \<Rightarrow> string \<Rightarrow> string list \<Rightarrow> bool \<Rightarrow> py_error + string" where
  "agent_model v override routed available indep =
     (let wanted = py_strip override in
      if wanted \<noteq> [] then
        Inr (case some_text (match_model wanted available []) of Some m \<Rightarrow> m | None \<Rightarrow> routed)
      else if indep \<and> v_independent_verification v then
        (case alternate_model v routed available of
           Inl err \<Rightarrow> Inl err
         | Inr r \<Rightarrow> Inr (case some_text r of Some m \<Rightarrow> m | None \<Rightarrow> routed))
      else Inr routed)"

section \<open>Properties\<close>

lemma match_model_available: "match_model wanted available current = Some m \<Longrightarrow> m \<in> set available"
  by (auto simp: match_model_def Let_def split: if_splits dest: find_SomeD)

lemma some_textD: "some_text r = Some m \<Longrightarrow> r = Some m \<and> m \<noteq> []"
  by (auto simp: some_text_def split: if_splits)

lemma route_scan_served:
  assumes "route_scan needs available chosen fc es = Inr (c, f, cs)" "available \<noteq> []" "\<And>m. chosen = Some m \<Longrightarrow> m \<in> set available"
    and "c = Some m"
  shows "m \<in> set available"
  using assms
proof (induction es arbitrary: chosen fc c f cs)
  case (Cons e es)
  show ?case
  proof (cases e)
    case (JObj entry)
    show ?thesis
    proof (cases "jtruthy (jget entry ''id'')")
      case False
      then show ?thesis using Cons JObj by auto
    next
      case True
      obtain caps where caps: "str_items (jget entry ''capabilities'') = Inr caps"
        using Cons.prems(1) JObj True by (auto split: sum.splits)
      define served where "served = some_text (match_model (py_str (jget entry ''id'')) available [])"
      have sv: "served = Some x \<Longrightarrow> x \<in> set available" for x
        by (auto simp: served_def dest!: some_textD match_model_available)
      obtain chosen' fc' cs' where r: "route_scan needs available chosen' fc' es = Inr (c, f, cs')"
        and ch: "chosen' = chosen \<or> chosen' = served"
        using Cons.prems(1,2) JObj True caps
        by (auto simp: Let_def served_def split: sum.splits prod.splits if_splits)
      show ?thesis using Cons.IH [OF r Cons.prems(2) _ Cons.prems(4)] ch sv Cons.prems(3) by blast
    qed
  qed (use Cons in auto)
qed auto

text \<open>C16: when the server lists models, the model a task is routed to is one of them, and never the
  orchestrator itself, so an agent call cannot recurse into the chain.\<close>

theorem routed_model_is_served:
  assumes "route v task keys current = Inr (Some m, why, cs)" "available_models keys \<noteq> []"
  shows "m \<in> set keys \<and> \<not> own_model m"
proof -
  have "m \<in> set (available_models keys)"
    using assms
    by (auto simp: route_def Let_def split: sum.splits prod.splits option.splits if_splits
        dest!: some_textD match_model_available find_SomeD dest: route_scan_served)
  then show ?thesis by (simp add: available_models_def)
qed

theorem routed_model_is_served_witness:
  "\<exists>m why cs. route default_valves Code [''ace_orchestrator.tony'', ''qwen3-1.7b''] [] = Inr (Some m, why, cs)
     \<and> m = ''qwen3-1.7b'' \<and> \<not> own_model m"
proof -
  have r: "map_sum id fst (route default_valves Code [''ace_orchestrator.tony'', ''qwen3-1.7b''] []) = Inr (Some ''qwen3-1.7b'')"
    by code_simp
  then obtain why cs where "route default_valves Code [''ace_orchestrator.tony'', ''qwen3-1.7b''] [] = Inr (Some ''qwen3-1.7b'', why, cs)"
    by (cases "route default_valves Code [''ace_orchestrator.tony'', ''qwen3-1.7b''] []") auto
  moreover have "available_models [''ace_orchestrator.tony'', ''qwen3-1.7b''] \<noteq> []" by code_simp
  ultimately show ?thesis using routed_model_is_served [of default_valves Code] by blast
qed

text \<open>A registry entry that serves a task: it lists what the task needs and the server has it.\<close>

definition served_as :: "string list \<Rightarrow> json \<Rightarrow> string option" where
  "served_as available e = (case e of
      JObj entry \<Rightarrow> some_text (match_model (py_str (jget entry ''id'')) available [])
    | _ \<Rightarrow> None)"

definition capable :: "string list \<Rightarrow> string list \<Rightarrow> json \<Rightarrow> bool" where
  "capable needs available e \<longleftrightarrow> (case e of
      JObj entry \<Rightarrow> jtruthy (jget entry ''id'')
        \<and> (case str_items (jget entry ''capabilities'') of Inl _ \<Rightarrow> False | Inr caps \<Rightarrow> set needs \<subseteq> set caps)
    | _ \<Rightarrow> False) \<and> served_as available e \<noteq> None"

lemma route_scan_done:
  "route_scan needs available chosen fc es = Inr (c, f, cs) \<Longrightarrow> chosen \<noteq> None \<or> fc \<noteq> None \<Longrightarrow> c = chosen \<and> f = fc"
proof (induction es arbitrary: cs)
  case (Cons e es)
  then show ?case by (cases e) (auto simp: Let_def split: if_splits sum.splits prod.splits)
qed simp

lemma filter_missing: "filter (\<lambda>c. c \<notin> set caps) needs = [] \<longleftrightarrow> set needs \<subseteq> set caps"
  by (auto simp: filter_empty_conv)

lemma route_scan_first:
  assumes "available \<noteq> []" "route_scan needs available None None es = Inr (c, f, cs)"
  shows "c = (case find (capable needs available) es of Some e \<Rightarrow> served_as available e | None \<Rightarrow> None)"
  using assms(2)
proof (induction es arbitrary: c f cs)
  case (Cons e es)
  show ?case
  proof (cases "capable needs available e")
    case True
    then obtain entry caps m where e: "e = JObj entry" "jtruthy (jget entry ''id'')"
      "str_items (jget entry ''capabilities'') = Inr caps" "set needs \<subseteq> set caps" "served_as available e = Some m"
      by (cases e) (auto simp: capable_def split: sum.splits)
    then have m: "some_text (match_model (py_str (jget entry ''id'')) available []) = Some m" by (simp add: served_as_def)
    have sub: "filter (\<lambda>c. c \<notin> set caps) needs = []" using e(4) by (simp add: filter_missing)
    obtain cs' where "route_scan needs available (Some m) (Some (py_str (jget entry ''id''))) es = Inr (c, f, cs')"
      using Cons.prems e m assms(1) by (auto simp: Let_def sub split: sum.splits prod.splits)
    then have "c = Some m" using route_scan_done by blast
    then show ?thesis using True e(5) by simp
  next
    case False
    have "\<exists>cs'. route_scan needs available None None es = Inr (c, f, cs')"
      using Cons.prems False assms(1)
      by (cases e) (auto simp: Let_def capable_def served_as_def filter_missing split: if_splits sum.splits prod.splits)
    then show ?thesis using Cons.IH False by auto
  qed
qed simp

text \<open>with no override in the valves, a task goes to the first registry entry that has every capability the task
  needs and that the server lists, and to the first other model listed when there is none.\<close>

lemma routes_to_first_capable:
  assumes "route v task keys current = Inr (r, why, cs)" "override_for v task = []"
    and "available_models keys \<noteq> []" "needs_of (registry_of v) task = Inr needs"
  shows "r = (case find (capable needs (available_models keys)) (registry_models (registry_of v)) of
                Some e \<Rightarrow> served_as (available_models keys) e
              | None \<Rightarrow> some_text (find (\<lambda>m. m \<noteq> current) (available_models keys)))"
proof -
  let ?a = "available_models keys"
  obtain c f ks where s: "route_scan needs ?a None None (registry_models (registry_of v)) = Inr (c, f, ks)"
    using assms by (auto simp: route_def Let_def split: sum.splits)
  have r: "r = (case c of Some m \<Rightarrow> Some m | None \<Rightarrow> some_text (find (\<lambda>m. m \<noteq> current) ?a))"
    using assms s by (auto simp: route_def Let_def split: option.splits)
  note first = route_scan_first [OF assms(3) s]
  show ?thesis
  proof (cases "find (capable needs ?a) (registry_models (registry_of v))")
    case (Some e)
    then have "served_as ?a e \<noteq> None" using find_SomeD [OF Some] by (auto simp: capable_def)
    then show ?thesis using r first Some by auto
  qed (use r first in simp)
qed

lemma routes_to_first_capable_witness:
  "\<exists>why cs. route default_valves Code [''qwen/qwen3-vl-4b'', ''qwen/qwen3-1.7b''] [] = Inr (Some ''qwen/qwen3-1.7b'', why, cs)"
proof -
  let ?k = "[''qwen/qwen3-vl-4b'', ''qwen/qwen3-1.7b'']"
  have n: "needs_of (registry_of default_valves) Code = Inr [''coding'']" by code_simp
  have o: "override_for default_valves Code = []" by code_simp
  have a: "available_models ?k \<noteq> []" by code_simp
  have f: "(case find (capable [''coding''] (available_models ?k)) (registry_models (registry_of default_valves)) of
              Some e \<Rightarrow> served_as (available_models ?k) e
            | None \<Rightarrow> some_text (find (\<lambda>m. m \<noteq> []) (available_models ?k))) = Some ''qwen/qwen3-1.7b''" by code_simp
  have "isl (route default_valves Code ?k []) = False" by code_simp
  then obtain r why cs where r: "route default_valves Code ?k [] = Inr (r, why, cs)"
    by (cases "route default_valves Code ?k []") auto
  from routes_to_first_capable [OF r o a n] f r show ?thesis by auto
qed

section \<open>Independent verification\<close>

text \<open>C17: with no model of its own and the valve on, ULTRON is given a model other than the routed one
  whenever the server has one.\<close>

theorem ultron_differs_from_routed:
  assumes "agent_model v override routed available True = Inr m" "py_strip override = []"
    and "v_independent_verification v" "other \<in> set available" "other \<noteq> routed" "[] \<notin> set available"
  shows "m \<noteq> routed \<and> m \<in> set available"
proof -
  obtain r where r: "alternate_model v routed available = Inr r"
    using assms(1-3) by (auto simp: agent_model_def split: sum.splits)
  have mf: "c \<in> set available" if "c \<in> set (List.map_filter (\<lambda>e. match_model (n e) available []) xs)" for c n and xs :: "json pydict list"
    using that by (auto simp: List.map_filter_def dest: match_model_available)
  obtain y where y: "find (\<lambda>c. c \<noteq> routed) available = Some y"
    using assms(4,5) by (cases "find (\<lambda>c. c \<noteq> routed) available") (auto simp: find_None_iff)
  obtain ordered where o: "verify_order (registry_models (registry_of v)) = Inr ordered"
    using r by (auto simp: alternate_model_def split: sum.splits)
  define ms where "ms = List.map_filter (\<lambda>e. match_model (py_str (jor (jget e ''id'') (JStr []))) available []) ordered"
  have "r = (case find (\<lambda>c. c \<noteq> [] \<and> c \<noteq> routed) ms of Some c \<Rightarrow> Some c | None \<Rightarrow> Some y)"
    using r y by (cases "find (\<lambda>c. c \<noteq> [] \<and> c \<noteq> routed) ms") (auto simp: alternate_model_def o ms_def [symmetric])
  then have "\<exists>x. r = Some x \<and> x \<noteq> routed \<and> x \<in> set available"
    using find_SomeD [OF y] mf by (cases "find (\<lambda>c. c \<noteq> [] \<and> c \<noteq> routed) ms") (auto simp: ms_def dest!: find_SomeD)
  then obtain x where x: "r = Some x" "x \<noteq> routed" "x \<in> set available" by blast
  then have "x \<noteq> []" using assms(6) by blast
  then show ?thesis using assms(1-3) r x by (auto simp: agent_model_def some_text_def)
qed

theorem ultron_differs_from_routed_witness:
  "\<exists>m. agent_model default_valves [] ''qwen/qwen3-vl-4b'' [''qwen/qwen3-vl-4b'', ''qwen/qwen3-1.7b''] True = Inr m
     \<and> m \<noteq> ''qwen/qwen3-vl-4b''"
proof -
  let ?a = "[''qwen/qwen3-vl-4b'', ''qwen/qwen3-1.7b'']"
  have "isl (agent_model default_valves [] ''qwen/qwen3-vl-4b'' ?a True) = False" by code_simp
  then obtain m where m: "agent_model default_valves [] ''qwen/qwen3-vl-4b'' ?a True = Inr m"
    by (cases "agent_model default_valves [] ''qwen/qwen3-vl-4b'' ?a True") auto
  have "m \<noteq> ''qwen/qwen3-vl-4b'' \<and> m \<in> set ?a"
    by (rule ultron_differs_from_routed [OF m, of "''qwen/qwen3-1.7b''"]) (simp_all add: default_valves_def py_strip_def strip_if_def)
  with m show ?thesis by blast
qed

text \<open>The independence is from the routed model, not from JARVIS. When a valve gives JARVIS the other model, ULTRON
  checks JARVIS's draft on the very model that wrote it, although the valve promises a different one.\<close>

lemma ultron_can_share_jarvis_model:
  "let v = default_valves\<lparr>v_jarvis_model := ''qwen/qwen3-1.7b''\<rparr>;
       available = [''qwen/qwen3-vl-4b'', ''qwen/qwen3-1.7b'']; routed = ''qwen/qwen3-vl-4b''
   in agent_model v (v_jarvis_model v) routed available False = Inr ''qwen/qwen3-1.7b''
      \<and> agent_model v (v_ultron_model v) routed available True = Inr ''qwen/qwen3-1.7b''"
  by code_simp

end
