(* ===== verification/Replies.thy ===== *)
theory Replies
  imports Regex Router
begin

text \<open>
  The plumbing of a model call in \<^verbatim>\<open>4ce/functions/orchestrator.py\<close>: what the agents are told they are, the text and
  images of a request, the content, reasoning and token counts of a response, and the error message
  a failed call becomes.
\<close>

section \<open>The agents\<close>

definition ERR :: string where
  \<open>ERR =
     ''**4CE error:**''\<close>

definition FRIDAY_SYSTEM :: string where
  \<open>FRIDAY_SYSTEM =
     (''You are FRIDAY, the analysis agent of a sovereign on-premise AI workbench. You work only from '' @
     ''the context supplied to you. You never claim access to external systems or the internet. '' @
     ''Separate established fact from assumption, and say plainly when the supplied evidence is '' @
     ''insufficient.'')\<close>

definition READER_SYSTEM :: string where
  \<open>READER_SYSTEM =
     (''You read images for a sovereign on-premise workbench. You report only what is visible, exactly '' @
     ''as written, and you reply with JSON only.'')\<close>

definition JARVIS_SYSTEM :: string where
  \<open>JARVIS_SYSTEM =
     (''You are JARVIS, the execution agent of a sovereign on-premise AI workbench. You turn analysis '' @
     ''into a finished, well-structured deliverable. Show your working for calculations. Never claim '' @
     ''to have performed an action you have not actually performed.'')\<close>

definition TONY_CHAT_SYSTEM :: string where
  \<open>TONY_CHAT_SYSTEM =
     lit (''You are TONY, the coordinator of 4CE ~u2014 a sovereign, on-premise AI workbench for '' @
     ''confidential industrial work. You run entirely on local open-weight models with no external '' @
     ''connection. You coordinate three agents: FRIDAY grounds and analyses, JARVIS produces '' @
     ''deliverables, and ULTRON verifies them before a human approves. This message is conversation '' @
     ''rather than a work request, so answer it directly, warmly and briefly. Do not invent '' @
     ''capabilities and do not claim to have performed any action.~n~nAnswer only what was asked. A '' @
     ''greeting gets a greeting back and nothing else: reply to 'hello' with something like 'Hello. '' @
     ''What can I help you with?' and stop there. Describe the agents ONLY when the question is '' @
     ''explicitly about what you are or what you can do. Listing them in response to a greeting is '' @
     ''wrong.~n~nWhen you do name them, the names are exactly TONY, FRIDAY, JARVIS and ULTRON. Copy '' @
     ''those spellings character for character; do not reconstruct them from memory, because an '' @
     ''invented name is the first thing a reader notices.'')\<close>

definition ULTRON_SYSTEM :: string where
  \<open>ULTRON_SYSTEM =
     (''You are ULTRON, a skeptical verification agent. Challenge the result you are given: look for '' @
     ''unsupported claims, missing steps, arithmetic errors and fabricated detail. Reply with exactly '' @
     ''PASS or FAIL on the first line, then list your concerns.'')\<close>

definition agent_of :: "string \<Rightarrow> string" where
  \<open>agent_of system =
     (case match_group no_flags (rx ''You are (~w+)'') 1 system of
        Some name \<Rightarrow> name
      | None \<Rightarrow> if system = READER_SYSTEM then ''READER'' else [])\<close>

section \<open>Requests\<close>

text \<open>A message is a dictionary; its content is a text or a list of parts.\<close>

definition part_texts :: "json list \<Rightarrow> string list" where
  "part_texts parts = List.map_filter (\<lambda>p. case p of
      JObj part \<Rightarrow> (if jget part ''type'' = JStr ''text''
                     then Some (case dict_get part ''text'' of Some (JStr t) \<Rightarrow> t | _ \<Rightarrow> []) else None)
    | _ \<Rightarrow> None) parts"

definition message_text :: "json pydict \<Rightarrow> string" where
  "message_text message = (case jget message ''content'' of
      JStr s \<Rightarrow> s
    | JList parts \<Rightarrow> join_with nl (part_texts parts)
    | _ \<Rightarrow> [])"

definition ATTACHED_FILES :: re where
  \<open>ATTACHED_FILES = rx ''<attached_files>.*?</attached_files>~s*''\<close>

definition request_text :: "json pydict \<Rightarrow> string" where
  "request_text message = py_strip (re_sub flag_s ATTACHED_FILES [] (message_text message))"

definition is_image_part :: "json \<Rightarrow> bool" where
  "is_image_part p = (case p of JObj part \<Rightarrow> jget part ''type'' = JStr ''image_url'' | _ \<Rightarrow> False)"

definition content_parts :: "json pydict \<Rightarrow> json list" where
  "content_parts message = (case jget message ''content'' of JList parts \<Rightarrow> parts | _ \<Rightarrow> [])"

definition has_image :: "json pydict \<Rightarrow> bool" where
  "has_image message = list_ex is_image_part (content_parts message)"

definition first_image :: "json pydict \<Rightarrow> json option" where
  "first_image message = find is_image_part (content_parts message)"

definition system_texts :: "json list \<Rightarrow> string list" where
  "system_texts messages = List.map_filter (\<lambda>m. case m of
      JObj message \<Rightarrow> (if jget message ''role'' = JStr ''system'' then Some (message_text message) else None)
    | _ \<Rightarrow> None) messages"

definition retrieved_context :: "json list \<Rightarrow> string" where
  "retrieved_context messages = join_with nl2 (filter (\<lambda>p. p \<noteq> []) (map py_strip (system_texts messages)))"

definition grounding_text :: "json list \<Rightarrow> string" where
  "grounding_text messages =
     join_with nl2 (filter (\<lambda>c. c \<noteq> [])
       (map py_strip (concat (map (re_findall flag_s (rx ''<context>(.*?)</context>'') 1) (system_texts messages)))))"

definition with_challenge :: "string \<Rightarrow> string option \<Rightarrow> string" where
  \<open>with_challenge instruction challenge =
     (case challenge of
        None \<Rightarrow> instruction
      | Some c \<Rightarrow> if c = [] then instruction
                  else instruction @ lit ''~n~nPREVIOUS ATTEMPT WAS REJECTED BY THE VERIFIER FOR:~n'' @ c)\<close>

section \<open>Responses\<close>

text \<open>
  What \<^verbatim>\<open>generate_chat_completion\<close> returns: a JSON value, a response object carrying an encoded body, or something
  else; or what it raises, with the \<^verbatim>\<open>detail\<close> of an HTTP error and the text of the exception.
\<close>

datatype response = RJson json | RBody bytes | ROther

record raised =
  ex_detail :: json
  ex_text :: string

text \<open>\<^verbatim>\<open>body.decode("utf-8", "replace")\<close>: every maximal ill-formed piece becomes one replacement character.\<close>

definition replacement_char :: string where
  "replacement_char = [CHR 0xEF, CHR 0xBF, CHR 0xBD]"

definition good_tail :: "char \<Rightarrow> nat \<Rightarrow> bytes \<Rightarrow> nat" where
  "good_tail c k s =
     (if s \<noteq> [] \<and> utf8_cont (hd s) \<and> utf8_second False c (hd s)
      then length (takeWhile utf8_cont (take k s)) else 0)"

function decode_replace :: "bytes \<Rightarrow> string" where
  "decode_replace s =
     (case s of
        [] \<Rightarrow> []
      | c # r \<Rightarrow>
          (if code_of c < 128 then c # decode_replace r
           else let k = utf8_more c; j = good_tail c k r in
             (if 0 < k \<and> j = k then c # take k r else replacement_char) @ decode_replace (drop j r)))"
  by pat_completeness auto
termination by (relation "measure length") auto

declare decode_replace.simps [simp del]

definition unwrap_list :: "json \<Rightarrow> json" where
  "unwrap_list v = (case v of JList [x] \<Rightarrow> x | _ \<Rightarrow> v)"

text \<open>The first choice's message; \<open>None\<close> where the code would find no choice.\<close>

definition first_message :: "json pydict \<Rightarrow> json pydict option" where
  "first_message payload = (case jget payload ''choices'' of
      JList (JObj choice # _) \<Rightarrow> (case jget choice ''message'' of JObj message \<Rightarrow> Some message | _ \<Rightarrow> Some [])
    | _ \<Rightarrow> None)"

definition str_field :: "json pydict \<Rightarrow> string \<Rightarrow> string" where
  "str_field d k = (case jget d k of JStr s \<Rightarrow> s | _ \<Rightarrow> [])"

definition or_text :: "string \<Rightarrow> string \<Rightarrow> string" where
  "or_text a b = (if a \<noteq> [] then a else b)"

definition response_text :: "response \<Rightarrow> string" where
  "response_text response =
     (let payload = (case response of
          RJson v \<Rightarrow> (case unwrap_list v of JObj p \<Rightarrow> Some p | _ \<Rightarrow> None)
        | RBody b \<Rightarrow> (case loads_text (decode_replace b) of Some (JObj p) \<Rightarrow> Some p | _ \<Rightarrow> None)
        | ROther \<Rightarrow> None)
      in case payload of
           None \<Rightarrow> []
         | Some p \<Rightarrow> (case first_message p of
               None \<Rightarrow> []
             | Some m \<Rightarrow> or_text (str_field m ''content'') (str_field m ''reasoning_content'')))"

definition response_parts :: "response \<Rightarrow> string \<times> string" where
  "response_parts response =
     (let message = (case response of
          RJson v \<Rightarrow> (case unwrap_list v of JObj p \<Rightarrow> first_message p | _ \<Rightarrow> None)
        | _ \<Rightarrow> None)
      in case message of
           Some m \<Rightarrow>
             (let reasoning = or_text (str_field m ''reasoning_content'') (str_field m ''reasoning'');
                  content = str_field m ''content''
              in if content = [] \<and> reasoning \<noteq> [] then (reasoning, []) else (content, reasoning))
         | None \<Rightarrow> (response_text response, []))"

definition usage_of :: "response \<Rightarrow> json pydict" where
  "usage_of response = (case response of
      RJson v \<Rightarrow> (case unwrap_list v of
          JObj p \<Rightarrow> (case jget p ''usage'' of JObj u \<Rightarrow> u | _ \<Rightarrow> [])
        | _ \<Rightarrow> [])
    | _ \<Rightarrow> [])"

section \<open>Thinking\<close>

lemma strip_decreases:
  assumes "partition_at a raw = (head, f, rest)" "partition_at b rest = (thought, g, tail)" "contains raw a" "a \<noteq> []"
  shows "length head + length tail < length raw"
proof -
  have "0 < length a" using assms(4) by simp
  then show ?thesis using partition_at_length(2) [OF assms(1,3)] partition_at_length(1) [OF assms(2)] by linarith
qed

text \<open>The inner loop of \<^verbatim>\<open>_split_thinking\<close> for one pair of tags: what is left, and the thoughts taken out.\<close>

function strip_thoughts :: "string \<Rightarrow> string \<Rightarrow> string \<Rightarrow> string \<times> string list" where
  "strip_thoughts open_tag close_tag raw =
     (if open_tag = [] \<or> \<not> contains raw open_tag then (raw, [])
      else let (head, _, rest) = partition_at open_tag raw;
               (thought, closed, tail) = partition_at close_tag rest
           in if \<not> closed then (head, [py_strip thought])
              else let (left, more) = strip_thoughts open_tag close_tag (head @ tail)
                   in (left, py_strip thought # more))"
  by pat_completeness auto
termination
  by (relation "measure (\<lambda>(a, b, raw). length raw)") (auto dest!: sym [where t = "partition_at _ _"] intro: strip_decreases)

declare strip_thoughts.simps [simp del]

definition split_thinking :: "string \<Rightarrow> string \<times> string" where
  "split_thinking raw =
     (let (raw1, t1) = strip_thoughts ''<think>'' ''</think>'' raw;
          (raw2, t2) = strip_thoughts ''<thinking>'' ''</thinking>'' raw1
      in (py_strip raw2, py_strip (join_with nl2 (filter (\<lambda>t. t \<noteq> []) (t1 @ t2)))))"

section \<open>Errors\<close>

definition REMEDIES :: "(string list \<times> string) list" where
  \<open>REMEDIES = [
     ([''connect call failed'', ''cannot connect to host'', ''connection refused'', ''errno 61'', ''all connection attempts failed'', ''server connection error''],
      lit (''The model server isn't reachable on localhost:1234. Start Bionic and turn on its server '' @
      ''(Developer ~u2192 Start Server), then send the message again.'')),
     ([''exceeds the available context'', ''context size'', ''context length'', ''maximum context'', ''too many tokens''],
      (''This request is longer than the model's context window. Attach long documents instead of '' @
      ''pasting them, so retrieval sends only the passages that matter.'')),
     ([''timed out'', ''timeout''],
      lit (''The model took too long to answer. If answers are slow in general, a model is probably loaded '' @
      ''above 8192 context ~u2014 run `python 4ce/preflight.py --fix`.'')),
     ([''model not found'', ''no model'', ''not loaded'', ''does not exist''],
      (''The model this turn was routed to isn't loaded in Bionic. Load qwen3-vl-4b and qwen3-1.7b, or '' @
      ''run `python 4ce/preflight.py --fix`.''))]\<close>

definition remedy :: "string \<Rightarrow> string" where
  "remedy detail = (let text = py_lower detail in
     case find (\<lambda>(needles, advice). list_ex (contains text) needles) REMEDIES of
       Some (needles, advice) \<Rightarrow> advice | None \<Rightarrow> [])"

definition failure :: "string \<Rightarrow> string \<Rightarrow> string" where
  \<open>failure what detail =
     (let advice = remedy detail; raw = what @ (if detail \<noteq> [] then lit '' ~u2014 '' @ detail else ''.'')
      in if advice = [] then ERR @ '' '' @ raw
         else ERR @ '' '' @ advice @ lit ''~n~n*Detail: '' @ raw @ ''*'')\<close>

text \<open>\<^verbatim>\<open>dig\<close> of \<^verbatim>\<open>_explain\<close>: the texts found so far, at most four levels deep and four texts long.\<close>

function dig :: "nat \<Rightarrow> json \<Rightarrow> string list \<Rightarrow> string list" where
  "dig depth node seen =
     (if 4 < depth \<or> 3 < length seen then seen
      else case node of
        JStr s \<Rightarrow> (let text = py_strip s in if text \<noteq> [] \<and> text \<notin> set seen then seen @ [text] else seen)
      | JObj d \<Rightarrow> foldl (\<lambda>acc key. case dict_get d key of None \<Rightarrow> acc | Some v \<Rightarrow> dig (depth + 1) v acc)
                    seen [''message'', ''detail'', ''error'', ''msg'']
      | JList vs \<Rightarrow> foldl (\<lambda>acc v. dig (depth + 1) v acc) seen (take 2 vs)
      | _ \<Rightarrow> seen)"
  by pat_completeness auto
termination by (relation "measure (\<lambda>(depth, node, seen). 5 - depth)") auto

declare dig.simps [simp del]

definition best_of :: "string list \<Rightarrow> string" where
  \<open>best_of seen =
     (let best = (case find (\<lambda>t. t \<noteq> []) seen of Some t \<Rightarrow> t | None \<Rightarrow> []);
          inner = search_group no_flags (rx ''"message"~s*:~s*"([^"]{10,400})"'') 1 best;
          best = (case inner of Some t \<Rightarrow> t | None \<Rightarrow> best)
      in py_take 300 (py_strip (join_with '' '' (words_of best))))\<close>

definition explain_raised :: "raised \<Rightarrow> string" where
  "explain_raised x =
     (let seen = dig 0 (ex_detail x) [] in best_of (if seen = [] then [py_strip (ex_text x)] else seen))"

definition explain_response :: "response \<Rightarrow> string" where
  "explain_response response = best_of (case response of
      RJson v \<Rightarrow> dig 0 v []
    | RBody b \<Rightarrow> (case loads_text (decode_replace b) of
          Some v \<Rightarrow> dig 0 v [] | None \<Rightarrow> dig 0 (JStr (decode_replace b)) [])
    | ROther \<Rightarrow> [])"

end
