(* ===== verification/Citations.thy ===== *)
theory Citations
  imports Replies
begin

text \<open>
  Sources and citations in \<^verbatim>\<open>4ce/functions/orchestrator.py\<close>: retrieved passages grouped and numbered by document,
  the bracketed numbers an answer cites them with, the check that drops numbers naming no retrieved
  document, the tidying of an answer before it is verified, and clipping a text to a line.
\<close>

section \<open>Numbered sources\<close>

record passage =
  pa_text :: string
  pa_name :: string
  pa_meta :: "json pydict"
  pa_distance :: json

record source_doc =
  so_name :: string
  so_passages :: "passage list"

text \<open>The position of a document among the sources so far.\<close>

fun name_index :: "string \<Rightarrow> source_doc list \<Rightarrow> nat option" where
  "name_index n [] = None"
| "name_index n (s # ss) = (if so_name s = n then Some 0 else map_option Suc (name_index n ss))"

definition add_passage :: "source_doc list \<Rightarrow> passage \<Rightarrow> source_doc list \<times> nat" where
  "add_passage sources p =
     (case name_index (pa_name p) sources of
        None \<Rightarrow> (sources @ [\<lparr>so_name = pa_name p, so_passages = [p]\<rparr>], length sources + 1)
      | Some i \<Rightarrow> (sources[i := (sources ! i)\<lparr>so_passages := so_passages (sources ! i) @ [p]\<rparr>], i + 1))"

definition passage_block :: "nat \<Rightarrow> passage \<Rightarrow> string" where
  \<open>passage_block n p = ''['' @ str_nat n @ ''] '' @ pa_name p @ nl @ pa_text p\<close>

fun number_loop :: "source_doc list \<Rightarrow> passage list \<Rightarrow> source_doc list \<times> string list" where
  "number_loop sources [] = (sources, [])"
| "number_loop sources (p # ps) =
     (let (sources', n) = add_passage sources p; (final, texts) = number_loop sources' ps
      in (final, passage_block n p # texts))"

definition number_sources :: "passage list \<Rightarrow> source_doc list \<times> string" where
  \<open>number_sources passages =
     (let (sources, texts) = number_loop [] passages in (sources, join_with (lit ''~n~n---~n~n'') texts))\<close>

definition source_numbers :: "source_doc list \<Rightarrow> string" where
  \<open>source_numbers sources = join_with '', '' (map (\<lambda>n. ''['' @ str_nat n @ '']'') [1..<length sources + 1])\<close>

section \<open>Citations\<close>

definition BRACKETED :: re where
  \<open>BRACKETED = rx ''(~s*)~[(~d+(?:~s*,~s*~d+)*)~]''\<close>

definition citation :: "string \<Rightarrow> int list" where
  \<open>citation grp =
     (let numbers = map int_of_digits (re_split no_flags (rx ''~s*,~s*'') 0 grp)
      in if 4 < length numbers \<or> numbers \<noteq> sort (remdups numbers) then [] else numbers)\<close>

definition citations :: "string \<Rightarrow> int list" where
  "citations text = concat (map (\<lambda>h. citation (hit_text (codes_of text) h 2)) (re_finditer no_flags BRACKETED text))"

definition strip_citations :: "string \<Rightarrow> string \<Rightarrow> string" where
  "strip_citations text repl =
     re_sub_with no_flags BRACKETED (\<lambda>cs h. if citation (hit_text cs h 2) \<noteq> [] then repl else hit_text cs h 0) text"

definition fix_citation :: "int \<Rightarrow> codes \<Rightarrow> re_hit \<Rightarrow> string" where
  \<open>fix_citation count cs h =
     (let numbers = citation (hit_text cs h 2) in
      if numbers = [] then hit_text cs h 0
      else let keep = filter (\<lambda>n. 1 \<le> n \<and> n \<le> count) numbers in
        if keep \<noteq> [] then hit_text cs h 1 @ ''['' @ join_with '', '' (map str_int keep) @ '']''
        else '' *(unverified)*'')\<close>

text \<open>The parts of a text split at code: those at even positions are prose.\<close>

fun map_even :: "('a \<Rightarrow> 'a) \<Rightarrow> 'a list \<Rightarrow> 'a list" where
  "map_even f [] = []"
| "map_even f [x] = [f x]"
| "map_even f (x # y # r) = f x # y # map_even f r"

definition check_citations :: "string \<Rightarrow> int \<Rightarrow> string" where
  \<open>check_citations text count =
     concat (map_even (re_sub_with no_flags BRACKETED (fix_citation count))
       (re_split no_flags (rx ''(```[~s~S]*?```|`[^`~n]*`)'') 1 text))\<close>

definition cited_numbers :: "string \<Rightarrow> int \<Rightarrow> int list" where
  "cited_numbers text count = sort (remdups (filter (\<lambda>n. 1 \<le> n \<and> n \<le> count) (citations text)))"

definition FIGURE :: re where
  \<open>FIGURE = rx ''(?<![~w.~-])~d+(?:[.,]~d+)?(?![~w])''\<close>

text \<open>Code texts and code spans taken out of a text.\<close>

definition without_code :: "string \<Rightarrow> string" where
  \<open>without_code text = re_sub no_flags (rx ''```[~s~S]*?```|`[^`~n]*`'') '' '' text\<close>

text \<open>The figures each source is cited for; a set of figures is a list of them, in the order found.\<close>

definition cited_figures :: "string \<Rightarrow> int \<Rightarrow> int \<Rightarrow> string list" where
  \<open>cited_figures text count n =
     concat (map (\<lambda>sentence.
         if 1 \<le> n \<and> n \<le> count \<and> n \<in> set (citations sentence)
         then re_findall no_flags FIGURE 0 (strip_citations sentence '' '') else [])
       (re_split no_flags (rx ''(?<=[.!?])~s+'') 0 (without_code text)))\<close>

section \<open>Supporting text\<close>

text \<open>\<^verbatim>\<open>re.escape(s)\<close> for the figures the program escapes: digits, dots, commas.\<close>

definition re_escape :: "string \<Rightarrow> string" where
  "re_escape s = concat (map (\<lambda>c. if is_digit c \<or> is_lower c \<or> is_upper c \<or> c = CHR ''_'' \<or> 128 \<le> code_of c
      then [c] else [CHR 0x5C, c]) s)"

definition clause_start :: "string \<Rightarrow> bool" where
  \<open>clause_start line \<longleftrightarrow> re_match no_flags (rx ''^~s*~d+(?:~.~d+)*~s'') line \<noteq> None\<close>

fun clause_blocks :: "string list \<Rightarrow> string list \<Rightarrow> string list" where
  "clause_blocks current [] = (if current \<noteq> [] then [join_with '' '' current] else [])"
| "clause_blocks current (line # ls) =
     (let bare = py_strip line;
          ends = (bare = [] \<or> clause_start line);
          done = (if ends \<and> current \<noteq> [] then [join_with '' '' current] else []);
          now = (if ends \<and> current \<noteq> [] then [] else current)
      in done @ clause_blocks (if bare \<noteq> [] then now @ [bare] else now) ls)"

definition holds_figure :: "string \<Rightarrow> string \<Rightarrow> bool" where
  \<open>holds_figure block f =
     found_in no_flags (re_compile (map (\<lambda>c. if c = CHR ''~'' then CHR 0x5C else c) ''(?<![~w.])'' @ re_escape f @
                                    map (\<lambda>c. if c = CHR ''~'' then CHR 0x5C else c) ''(?!~w|~.~d)''))
       (re_sub no_flags (rx ''^~s*~d+(?:~.~d+)*~.?~s+'') [] block)\<close>

definition supporting_text :: "string \<Rightarrow> string list \<Rightarrow> string" where
  "supporting_text text figures =
     (let hits = filter (\<lambda>block. list_ex (holds_figure block) figures) (clause_blocks [] (split_lines text))
      in if hits \<noteq> [] then join_with nl hits else text)"

section \<open>Tidying an answer\<close>

definition RULE_LINE :: re where
  \<open>RULE_LINE = rx ''^~s*(?:-{3,}|~*{3,}|_{3,})~s*$''\<close>

definition HEADING_LINE :: re where
  \<open>HEADING_LINE = rx ''^(#{1,6})~s+(.*?)~s*#*~s*$''\<close>

definition BOLD_LINE :: re where
  \<open>BOLD_LINE = rx ''^~s*(?:~*~*|__)~s*(.+?)~s*(?:~*~*|__)~s*:?~s*$''\<close>

definition TITLE_LINE :: re where
  \<open>TITLE_LINE = rx ''^[*_~s]*(?:final~s+)?deliverable~b~s*[:~-~u2013~u2014]''\<close>

definition SIGN_OFF :: re where
  \<open>SIGN_OFF = rx (''^[*_~s]*(?:end of (?:the )?(?:deliverable|report|document|response)~b|(?:this|the above) '' @
     ''(?:deliverable|document|report|response) (?:was|has been|is) '' @
     ''(?:prepared|produced|generated|compiled)~b|(?:prepared|produced|generated) by (?:jarvis|4ce)~b)'')\<close>

definition strip_marks :: "string \<Rightarrow> string" where
  "strip_marks s = strip_if (\<lambda>c. c \<in> set ''*_ '') s"

definition unnumbered :: "string \<Rightarrow> string" where
  \<open>unnumbered s = re_sub no_flags (rx ''^~d+(?:~.~d+)*[.)]?~s+'') [] s\<close>

definition py_rstrip :: "string \<Rightarrow> string" where
  "py_rstrip s = rev (dropWhile is_space (rev s))"

fun tidy_lines :: "bool \<Rightarrow> string list \<Rightarrow> string list \<times> bool" where
  "tidy_lines opening [] = ([], opening)"
| \<open>tidy_lines opening (line # ls) =
     (let bare = py_strip line in
      if bare = [] then (let (kept, o') = tidy_lines opening ls in ([] # kept, o'))
      else if re_match no_flags RULE_LINE bare \<noteq> None \<or> re_match flag_i SIGN_OFF bare \<noteq> None
        then tidy_lines opening ls
      else
        let marks = match_group no_flags HEADING_LINE 1 bare;
            words = match_group no_flags HEADING_LINE 2 bare;
            bold = (if marks \<noteq> None then None else match_group no_flags BOLD_LINE 1 bare)
        in if opening \<and> (re_match flag_i TITLE_LINE bare \<noteq> None
                           \<or> (case marks of Some m \<Rightarrow> length m \<le> 2 | None \<Rightarrow> False) \<or> bold \<noteq> None)
           then tidy_lines False ls
           else
             let line' = (case (marks, words) of
                 (Some m, Some w) \<Rightarrow>
                   replicate (max 3 (length m)) (CHR ''#'') @ '' '' @ py_rstrip_set '':'' (unnumbered (strip_marks w))
               | _ \<Rightarrow>
                   (case bold of
                      Some b \<Rightarrow>
                        (let w = unnumbered (strip_marks b) in
                         if \<not> found_in no_flags (rx ''~S:~s+~S'') w \<and> \<not> ends_with w ''.'' \<and> \<not> ends_with w ''!''
                            \<and> \<not> ends_with w ''?'' \<and> py_len w \<le> 70
                         then ''### '' @ py_rstrip_set '':'' w else line)
                    | None \<Rightarrow> line));
                 (kept, o') = tidy_lines False ls
             in (py_rstrip line' # kept, o'))\<close>

fun tidy_parts :: "bool \<Rightarrow> string list \<Rightarrow> string list" where
  "tidy_parts opening [] = []"
| "tidy_parts opening [p] = [join_with nl (fst (tidy_lines opening (split_on (CHR 0x0A) p)))]"
| "tidy_parts opening (p # code # r) =
     join_with nl (fst (tidy_lines opening (split_on (CHR 0x0A) p))) # code # tidy_parts False r"

definition tidy :: "string \<Rightarrow> string" where
  \<open>tidy text =
     py_strip (re_sub no_flags (rx ''~n{3,}'') nl2
       (concat (tidy_parts True (re_split no_flags (rx ''(```[~s~S]*?```)'') 1 (py_strip text)))))\<close>

section \<open>Clipping\<close>

text \<open>\<^verbatim>\<open>line.rfind(" ", 0, limit)\<close> on code points.\<close>

definition last_space :: "nat \<Rightarrow> string list \<Rightarrow> nat option" where
  "last_space limit chars =
     (let found = filter (\<lambda>i. chars ! i = '' '') [0..<min limit (length chars)]
      in if found = [] then None else Some (last found))"

definition clip :: "string \<Rightarrow> nat \<Rightarrow> string" where
  \<open>clip text limit =
     (let line = py_strip (re_sub no_flags (rx ''~s+'') '' '' text); chars = utf8_chars line in
      if length chars \<le> limit then line
      else py_rstrip_set '' ,;:''
             (concat (case last_space limit chars of Some i \<Rightarrow> take i chars | None \<Rightarrow> butlast chars)) @ lit ''~u2026'')\<close>

definition count_of :: "nat \<Rightarrow> string \<Rightarrow> string" where
  "count_of n noun = str_nat n @ '' '' @ noun @ (if n = 1 then [] else ''s'')"

section \<open>Properties of the numbering\<close>

definition names_of :: "source_doc list \<Rightarrow> string list" where
  "names_of ss = map so_name ss"

lemma name_index_Some: "name_index n ss = Some i \<Longrightarrow> i < length ss \<and> so_name (ss ! i) = n"
  by (induction ss arbitrary: i) (auto split: if_splits)

lemma name_index_None: "name_index n ss = None \<longleftrightarrow> n \<notin> set (names_of ss)"
  by (induction ss) (auto simp: names_of_def)

text \<open>\<open>numbered ss ps\<close>: the documents \<open>ss\<close> have distinct names, hold passages of their own name only, and the passages \<open>ps\<close>.\<close>

definition numbered :: "source_doc list \<Rightarrow> passage list \<Rightarrow> bool" where
  "numbered ss ps \<longleftrightarrow> distinct (names_of ss)
     \<and> (\<forall>s \<in> set ss. so_passages s = filter (\<lambda>p. pa_name p = so_name s) ps)
     \<and> (\<forall>p \<in> set ps. pa_name p \<in> set (names_of ss))"

lemma add_passage_names:
  assumes "add_passage ss p = (ss', n)"
  shows "names_of ss' = (if pa_name p \<in> set (names_of ss) then names_of ss else names_of ss @ [pa_name p])"
    and "0 < n \<and> n \<le> length ss' \<and> so_name (ss' ! (n - 1)) = pa_name p"
proof -
  show "names_of ss' = (if pa_name p \<in> set (names_of ss) then names_of ss else names_of ss @ [pa_name p])"
  proof (cases "name_index (pa_name p) ss")
    case None
    then show ?thesis using assms name_index_None [of "pa_name p" ss] by (auto simp: add_passage_def names_of_def)
  next
    case (Some i)
    then have "pa_name p \<in> set (names_of ss)" using name_index_None [of "pa_name p" ss] by auto
    moreover have "names_of ss' = (names_of ss)[i := so_name (ss ! i)]"
      using assms Some by (auto simp: add_passage_def names_of_def map_update)
    moreover have "(names_of ss)[i := so_name (ss ! i)] = names_of ss"
      using name_index_Some [OF Some] by (auto simp: names_of_def intro!: list_update_same_conv [THEN iffD2])
    ultimately show ?thesis by simp
  qed
  show "0 < n \<and> n \<le> length ss' \<and> so_name (ss' ! (n - 1)) = pa_name p"
    using assms by (auto simp: add_passage_def split: option.splits dest: name_index_Some)
qed

lemma add_passage_numbered:
  assumes "add_passage ss p = (ss', n)" "numbered ss ps"
  shows "numbered ss' (ps @ [p])"
proof (cases "name_index (pa_name p) ss")
  case None
  then have f: "pa_name p \<notin> set (names_of ss)" by (simp add: name_index_None)
  then have e: "filter (\<lambda>q. pa_name q = pa_name p) ps = []" using assms(2) by (auto simp: numbered_def filter_empty_conv)
  have "\<forall>s \<in> set ss. so_name s \<noteq> pa_name p" using f unfolding names_of_def by (metis image_eqI list.set_map)
  moreover have "ss' = ss @ [\<lparr>so_name = pa_name p, so_passages = [p]\<rparr>]" using assms(1) None by (simp add: add_passage_def)
  ultimately show ?thesis using assms(2) f e by (auto simp: numbered_def names_of_def)
next
  case (Some i)
  note i = name_index_Some [OF Some]
  have ss': "ss' = ss[i := (ss ! i)\<lparr>so_passages := so_passages (ss ! i) @ [p]\<rparr>]" using assms(1) Some by (simp add: add_passage_def)
  have d: "distinct (map so_name ss)" using assms(2) by (simp add: numbered_def names_of_def)
  have "so_passages s = filter (\<lambda>q. pa_name q = so_name s) (ps @ [p])" if s: "s \<in> set ss'" for s
  proof -
    have "length ss' = length ss" by (simp add: ss')
    then obtain j where j: "j < length ss" "s = ss' ! j" using s unfolding in_set_conv_nth by auto
    show ?thesis
    proof (cases "j = i")
      case True
      then show ?thesis using j i assms(2) by (simp add: ss' numbered_def)
    next
      case False
      then have "so_name (ss ! j) \<noteq> so_name (ss ! i)" using d j(1) i by (metis (no_types, lifting) distinct_conv_nth length_map nth_map)
      then show ?thesis using j i assms(2) False by (auto simp: ss' numbered_def)
    qed
  qed
  moreover have m: "pa_name p \<in> set (names_of ss)" unfolding names_of_def using i by (metis image_eqI list.set_map nth_mem)
  moreover have "names_of ss' = names_of ss" using add_passage_names(1) [OF assms(1)] m by simp
  ultimately show ?thesis using assms(2) by (auto simp: numbered_def)
qed

lemma number_loop_names: "number_loop ss ps = (final, texts) \<Longrightarrow> \<exists>more. names_of final = names_of ss @ more"
proof (induction ps arbitrary: ss final texts)
  case (Cons p ps)
  obtain ss' n where a: "add_passage ss p = (ss', n)" by fastforce
  obtain b where "number_loop ss' ps = (final, b)" using Cons.prems a by (auto split: prod.splits)
  from Cons.IH [OF this] add_passage_names(1) [OF a] show ?case by (auto split: if_splits)
qed simp

lemma number_loop_sound:
  assumes "number_loop ss ps = (final, texts)" "numbered ss qs"
  shows "numbered final (qs @ ps) \<and> length texts = length ps
    \<and> (\<forall>k < length ps. \<exists>n. 0 < n \<and> n \<le> length final \<and> so_name (final ! (n - 1)) = pa_name (ps ! k)
                            \<and> texts ! k = passage_block n (ps ! k))"
  using assms
proof (induction ps arbitrary: ss qs final texts)
  case (Cons p ps)
  obtain ss' n where a: "add_passage ss p = (ss', n)" by fastforce
  then obtain bs where l: "number_loop ss' ps = (final, bs)" "texts = passage_block n p # bs"
    using Cons.prems(1) by (auto split: prod.splits)
  note IH = Cons.IH [OF l(1) add_passage_numbered [OF a Cons.prems(2)]]
  obtain more where more: "names_of final = names_of ss' @ more" using number_loop_names [OF l(1)] by blast
  have n: "0 < n" "n \<le> length ss'" "so_name (ss' ! (n - 1)) = pa_name p" using add_passage_names(2) [OF a] by auto
  have len: "length ss' \<le> length final" using arg_cong [OF more, of length] by (simp add: names_of_def)
  have "names_of final ! (n - 1) = names_of ss' ! (n - 1)" using n more unfolding names_of_def by (auto simp: nth_append)
  then have nm: "so_name (final ! (n - 1)) = pa_name p" using n len by (simp add: names_of_def)
  have "\<exists>m. 0 < m \<and> m \<le> length final \<and> so_name (final ! (m - 1)) = pa_name ((p # ps) ! k) \<and> texts ! k = passage_block m ((p # ps) ! k)"
    if "k < length (p # ps)" for k
    using that IH nm n(1,2) len l(2) by (cases k) auto
  then show ?case using IH l(2) by auto
qed simp

text \<open>C14: every passage shown to the agents as [n] comes from the document listed as number n; documents are
  numbered once each, and each lists exactly the passages retrieved from it, in order.\<close>

theorem number_sources_sound:
  "case number_loop [] passages of (sources, texts) \<Rightarrow>
     distinct (map so_name sources)
     \<and> (\<forall>i < length sources. so_passages (sources ! i) = filter (\<lambda>p. pa_name p = so_name (sources ! i)) passages)
     \<and> length texts = length passages
     \<and> (\<forall>k < length passages. \<exists>n. 0 < n \<and> n \<le> length sources
          \<and> so_name (sources ! (n - 1)) = pa_name (passages ! k) \<and> texts ! k = passage_block n (passages ! k))"
proof -
  obtain ss bs where l: "number_loop [] passages = (ss, bs)" by fastforce
  have "numbered [] []" by (simp add: numbered_def names_of_def)
  from number_loop_sound [OF l this] show ?thesis by (auto simp: l numbered_def names_of_def)
qed

theorem number_sources_sound_witness:
  "\<exists>p sources texts. number_loop [] [p] = (sources, texts) \<and> texts = [passage_block 1 p]"
proof -
  let ?p = "\<lparr>pa_text = ''t'', pa_name = ''n'', pa_meta = [], pa_distance = JNull\<rparr>"
  obtain ss bs where l: "number_loop [] [?p] = (ss, bs)" by fastforce
  then have "ss = [\<lparr>so_name = ''n'', so_passages = [?p]\<rparr>]" by (auto simp: add_passage_def)
  moreover have "length bs = 1 \<and> (\<exists>n. 0 < n \<and> n \<le> length ss \<and> bs ! 0 = passage_block n ?p)"
    using number_sources_sound [of "[?p]"] unfolding l prod.case by force
  ultimately have "bs = [passage_block 1 ?p]" by (cases bs) (auto simp: le_Suc_eq)
  then show ?thesis using l by blast
qed

section \<open>Properties of clipping\<close>

lemma utf8_chars_append_cont: "length (utf8_chars (a @ b)) \<le> length (utf8_chars a) + length (utf8_chars b)"
proof (induction a rule: utf8_chars.induct)
  case (2 c a)
  show ?case
  proof (cases "dropWhile utf8_cont a = []")
    case True
    then have t: "takeWhile utf8_cont a = a" by (metis append_Nil2 takeWhile_dropWhile_id)
    have "dropWhile utf8_cont (a @ b) = dropWhile utf8_cont b" using True by (simp add: dropWhile_eq_Nil_conv dropWhile_append2)
    moreover have "length (utf8_chars (dropWhile utf8_cont b)) \<le> length (utf8_chars b)"
      by (cases b) auto
    ultimately show ?thesis using True by simp
  next
    case False
    then obtain x where "x \<in> set a" "\<not> utf8_cont x" by (auto simp: dropWhile_eq_Nil_conv)
    then have "dropWhile utf8_cont (a @ b) = dropWhile utf8_cont a @ b" by (rule dropWhile_append1)
    then show ?thesis using 2 by simp
  qed
qed simp

lemma py_rstrip_set_takes: "\<exists>t. s = py_rstrip_set cs s @ t"
  unfolding py_rstrip_set_def by (metis rev_append rev_rev_ident takeWhile_dropWhile_id)

lemma py_len_prefix: "py_len a \<le> py_len (a @ b)"
proof (induction a rule: utf8_chars.induct)
  case (2 c a)
  show ?case
  proof (cases "dropWhile utf8_cont a = []")
    case True
    then show ?thesis by (simp only: py_len_def utf8_chars.simps append_Cons True list.size)
  next
    case False
    then obtain x where "x \<in> set a" "\<not> utf8_cont x" by (auto simp: dropWhile_eq_Nil_conv)
    then have "dropWhile utf8_cont (a @ b) = dropWhile utf8_cont a @ b" by (rule dropWhile_append1)
    then show ?thesis using 2 by (simp add: py_len_def)
  qed
qed (simp add: py_len_def)

lemma py_len_concat_take: "py_len (concat (take n (utf8_chars s))) \<le> n"
proof -
  have "utf8_chars (concat (take n (utf8_chars s))) = take n (utf8_chars s)"
  proof (induction s arbitrary: n rule: utf8_chars.induct)
    case (2 c s)
    show ?case
    proof (cases n)
      case (Suc m)
      define r where "r = concat (take m (utf8_chars (dropWhile utf8_cont s)))"
      have "takeWhile utf8_cont (takeWhile utf8_cont s @ r) = takeWhile utf8_cont s
            \<and> dropWhile utf8_cont (takeWhile utf8_cont s @ r) = r"
      proof (cases r)
        case Nil
        have "takeWhile utf8_cont (takeWhile utf8_cont s) = takeWhile utf8_cont s"
          by (simp add: takeWhile_eq_all_conv)
        then show ?thesis using Nil by (auto simp: dropWhile_eq_Nil_conv dest: set_takeWhileD)
      next
        case (Cons d q)
        have "\<not> utf8_cont d"
        proof (cases "dropWhile utf8_cont s")
          case Nil
          then show ?thesis using Cons by (simp only: r_def Nil utf8_chars.simps take_Nil concat.simps list.distinct)
        next
          case (Cons e es)
          then have "\<not> utf8_cont e" by (metis hd_dropWhile list.discI list.sel(1))
          moreover have "d = e" using \<open>r = d # q\<close> Cons by (cases m) (auto simp: r_def)
          ultimately show ?thesis by simp
        qed
        moreover have "\<forall>x \<in> set (takeWhile utf8_cont s). utf8_cont x" by (meson set_takeWhileD)
        ultimately show ?thesis using Cons by (simp add: takeWhile_append2 dropWhile_append2)
      qed
      then show ?thesis using Suc 2 by (simp add: r_def)
    qed simp
  qed simp
  then show ?thesis by (simp add: py_len_def)
qed

lemma py_len_append: "py_len (a @ b) \<le> py_len a + py_len b"
  unfolding py_len_def by (rule utf8_chars_append_cont)

text \<open>A clipped text is no longer than its limit whenever its first characters hold a space to cut at.\<close>

lemma clip_bound:
  assumes "last_space limit (utf8_chars (py_strip (re_sub no_flags (rx ''~s+'') '' '' text))) = Some i"
  shows "py_len (clip text limit) \<le> limit"
proof -
  define line where "line = py_strip (re_sub no_flags (rx ''~s+'') '' '' text)"
  show ?thesis
  proof (cases "length (utf8_chars line) \<le> limit")
    case True
    then show ?thesis by (simp add: clip_def Let_def line_def [symmetric] py_len_def)
  next
    case False
    have i: "i < limit"
    proof -
      have "i \<in> set (filter (\<lambda>j. utf8_chars line ! j = '' '') [0..<min limit (length (utf8_chars line))])"
        using assms unfolding line_def [symmetric] last_space_def Let_def by (metis last_in_set option.distinct(1) option.sel)
      then show ?thesis by simp
    qed
    define cut where "cut = py_rstrip_set '' ,;:'' (concat (take i (utf8_chars line)))"
    obtain t where "concat (take i (utf8_chars line)) = cut @ t" using py_rstrip_set_takes unfolding cut_def by blast
    then have "py_len cut \<le> i" using py_len_prefix [of cut t] py_len_concat_take [of i line] by simp
    moreover have "py_len (lit ''~u2026'') = 1" by code_simp
    moreover have "clip text limit = cut @ lit ''~u2026''"
      using assms False by (simp add: clip_def Let_def line_def [symmetric] cut_def)
    ultimately show ?thesis using py_len_append [of cut "lit ''~u2026''"] i by simp
  qed
qed

lemma clip_bound_witness: "py_len (clip ''the pump has failed'' 12) \<le> 12"
proof -
  have "last_space 12 (utf8_chars (py_strip (re_sub no_flags (rx ''~s+'') '' '' ''the pump has failed''))) = Some 8" by code_simp
  then show ?thesis by (rule clip_bound)
qed

text \<open>A text with no space near its start is not clipped at all: it loses its last character and gains the mark of a
  cut, however far it exceeds the limit.\<close>

lemma clip_unbounded: "py_len (clip (replicate 30 (CHR ''x'')) 9) = 30"
  by code_simp

end
