(* ===== verification/Verdicts.thy ===== *)
theory Verdicts
  imports Citations
begin

text \<open>
  Verification of an answer in \<^verbatim>\<open>4ce/functions/orchestrator.py\<close>: ULTRON's verdict and the checks it lists, and the checks
  4CE makes itself without a model - figures against the sources cited for them, the SOP rule pack's
  verdicts, intervals and workbook changes against what the answer says of them, and what the sandbox
  reported of generated code.
\<close>

section \<open>Verdicts and checks\<close>

text \<open>\<open>ck_on\<close> and \<open>ck_final\<close> are keys only some checks have; \<open>ck_ran\<close> marks the check of generated code, whose keys come in
  another order.\<close>

record check =
  ck_kind :: string
  ck_text :: string
  ck_by :: string
  ck_on :: "string option"
  ck_final :: bool
  ck_ran :: bool

definition plain_check :: "string \<Rightarrow> string \<Rightarrow> string \<Rightarrow> check" where
  "plain_check kind text by = \<lparr>ck_kind = kind, ck_text = text, ck_by = by, ck_on = None, ck_final = False, ck_ran = False\<rparr>"

text \<open>The keys of the verdict dictionary; \<open>None\<close> is an absent key.\<close>

record verdict =
  vd_status :: string
  vd_passed :: bool
  vd_detail :: string
  vd_summary :: "string option"
  vd_checks :: "check list option"
  vd_cited_text :: string
  vd_failed_by :: "string option"
  vd_failed_on :: "string option"
  vd_reservations :: "nat option"
  vd_revision :: "json option"

definition basic_verdict :: "string \<Rightarrow> bool \<Rightarrow> string \<Rightarrow> string option \<Rightarrow> verdict" where
  "basic_verdict status passed detail summary = \<lparr>vd_status = status, vd_passed = passed, vd_detail = detail,
     vd_summary = summary, vd_checks = None, vd_cited_text = [], vd_failed_by = None, vd_failed_on = None,
     vd_reservations = None, vd_revision = None\<rparr>"

text \<open>\<^verbatim>\<open>s.strip(chars)\<close> where the characters may lie beyond ASCII.\<close>

definition strip_any :: "string \<Rightarrow> string \<Rightarrow> string" where
  "strip_any marks s =
     (let out = (\<lambda>c. c \<in> set (utf8_chars marks))
      in concat (rev (dropWhile out (rev (dropWhile out (utf8_chars s))))))"

definition VERDICT_LINE :: re where
  \<open>VERDICT_LINE = rx ''^[~s>*#_`-]*(?:verdict~s*[:-]~s*)?[*_`]*(PASS|FAIL)~b''\<close>

text \<open>The lines that state a verdict, with their index and the word.\<close>

definition verdict_hits :: "string list \<Rightarrow> (nat \<times> string) list" where
  "verdict_hits lines = List.map_filter (\<lambda>(i, line).
     map_option (\<lambda>w. (i, py_upper w)) (match_group flag_i VERDICT_LINE 1 line)) (enumerate 0 lines)"

definition summarise_line :: "string \<Rightarrow> string" where
  \<open>summarise_line line = clip (replace_all ''**'' [] (re_sub no_flags (rx ''^[~s>*#_`~-~d.)]+'') [] line)) 90\<close>

definition parse_verdict :: "string \<Rightarrow> verdict" where
  \<open>parse_verdict raw =
     (let text = py_strip raw in
      if starts_with text ERR then basic_verdict ''ERROR'' False text (Some ''the verifier could not run'')
      else
        let lines = split_lines text; hits = verdict_hits lines in
        if hits = [] then
          basic_verdict ''FAIL'' False (or_text (py_take 1500 text) ''Verifier returned nothing.'')
            (Some ''ULTRON gave no PASS or FAIL verdict'')
        else
          let (index, word) = (if fst (hd hits) = 0 then hd hits else last hits);
              remainder = strip_any (lit '' *_:-~u2014~u2013'') (re_sub flag_i VERDICT_LINE [] (lines ! index));
              after = (if remainder \<noteq> [] then [remainder] else []) @ filter nonblank (drop (index + 1) lines);
              earlier = filter nonblank (take index lines);
              concerns = py_strip (join_with nl (if after \<noteq> [] then after else earlier))
          in basic_verdict word (word = ''PASS'') (py_take 1500 (or_text concerns text))
               (Some (if after \<noteq> [] then summarise_line (hd after) else [])))\<close>

definition CHECK_LINE :: re where
  \<open>CHECK_LINE = rx ''^[~s>*~-~u2022~d.)]*(OK|PROBLEM|UNVERIFIED|NOT VERIFIED)~b~s*[:~-~u2014~u2013]~s*(.+)$''\<close>

definition SOURCE_GUESS :: re where
  \<open>SOURCE_GUESS = rx (''~b(?:in|from|per|based on|supported by|found in|backed '' @
     ''by)~s+(?:any|the|a|its)~s+(?:source|document|passage)s?~b|~bthe (?:original '' @
     '')?(?:source|document|passage|SOP(?:-[~w-]+)?)s?(?: '' @
     ''document)?(?:~s*~[~d+~])?~s+(?:says|say|states|state|does not|do '' @
     ''not|doesn't|only|mentions|lists|defines|uses)~b'')\<close>

definition CONCEDED :: re where
  \<open>CONCEDED = rx (''~b(?:no (?:issue|problem|contradiction)s?~b|not (?:a )?(?:problem|contradict~w*|an '' @
     ''issue)|(?:is|are) (?:technically '' @
     '')?(?:correct|valid|consistent|equivalent|accurate)~b|technically correct|both are '' @
     ''equivalent|clear and explicit|which is correct)'')\<close>

definition OPEN_QUESTION :: re where
  \<open>OPEN_QUESTION = rx (''~b(?:does not (?:specify|define|say|state|indicate|clarify)|not specified|unclear whether|no '' @
     ''indication (?:of )?whether|without clarification)~b'')\<close>

definition NEGATION :: re where
  \<open>NEGATION = rx (''~b(?:not (?:in|found|present|supported|stated|mentioned|given|listed)|no '' @
     ''source|missing|unsupported|absent|does not appear|cannot be verified|could not be verified)~b'')\<close>

definition no_concern :: "string list" where
  \<open>no_concern = [''none'', ''nothing'', ''n/a'', ''no problems'', ''no issues'', ''no concerns'', ''none found'']\<close>

text \<open>One line of ULTRON's reply, given the checks before it.\<close>

definition parse_check :: "check list \<Rightarrow> string \<Rightarrow> check option" where
  \<open>parse_check checks line =
     (let bare = replace_all ''`'' [] (replace_all ''**'' [] line) in
      case (match_group flag_i CHECK_LINE 1 bare, match_group flag_i CHECK_LINE 2 bare) of
        (Some w, Some rest) \<Rightarrow>
          (let word = py_upper w;
               kind = (if word = ''OK'' then ''ok'' else if word = ''PROBLEM'' then ''problem'' else ''unverified'');
               kind = (if kind = ''ok'' \<and> found_in flag_i NEGATION rest then ''unverified'' else kind);
               text = clip (py_strip rest) 180
           in if found_in flag_i SOURCE_GUESS text then None
              else if length (words_of text) < 4 then None
              else if kind = ''problem'' \<and> found_in flag_i CONCEDED text then None
              else
                let kind = (if kind = ''problem'' \<and> found_in flag_i OPEN_QUESTION text then ''unverified'' else kind) in
                if list_ex (\<lambda>c. ck_text c = text) checks then None
                else if text = [] \<or> strip_if (\<lambda>c. c \<in> set '' .!'') (py_lower text) \<in> set no_concern then None
                else Some (plain_check kind text ''ULTRON''))
      | _ \<Rightarrow> None)\<close>

definition parse_checks :: "string \<Rightarrow> check list" where
  "parse_checks detail = take 8 (foldl (\<lambda>checks line.
     case parse_check checks line of None \<Rightarrow> checks | Some c \<Rightarrow> checks @ [c]) [] (split_lines detail))"

definition reservations_phrase :: "verdict \<Rightarrow> string \<Rightarrow> string \<Rightarrow> string" where
  "reservations_phrase v lead tail =
     (let count = (if vd_passed v then (case vd_reservations v of None \<Rightarrow> 0 | Some n \<Rightarrow> n) else 0) in
      if count = 0 then [] else lead @ str_nat count @ '' reservation'' @ (if count = 1 then [] else ''s'') @ tail)"

section \<open>What the answer says of its sources\<close>

definition rsplit_dot :: "string \<Rightarrow> string" where
  "rsplit_dot s = (let ps = split_on (CHR ''.'') s in if length ps = 1 then s else join_with ''.'' (butlast ps))"

definition doc_code :: "string \<Rightarrow> string" where
  \<open>doc_code title = (case match_group no_flags (rx ''[A-Z]{2,}(?:-[A-Z0-9]+)*-~d+'') 0 (rsplit_dot title) of
      Some c \<Rightarrow> c | None \<Rightarrow> [])\<close>

definition doc_label :: "string \<Rightarrow> string list \<Rightarrow> string" where
  \<open>doc_label name others =
     (let stem = rsplit_dot name; code = doc_code name in
      if code = [] then replace_all ''_'' '' '' stem
      else
        let rest = py_strip (replace_all ''_'' '' '' (re_sub no_flags (rx ''^[~s_~-.]+'') [] (drop (length code) stem)));
            shared = list_ex (\<lambda>other. other \<noteq> name \<and> doc_code other = code) others
        in if shared \<and> rest \<noteq> [] then code @ lit '' ~u00b7 '' @ rest else code)\<close>

definition CLAUSE_REF :: re where
  \<open>CLAUSE_REF = rx ''(?:~u00a7~s*|~bclauses?~s+|~bsections?~s+)(~d+(?:~.~d+)*)''\<close>

definition ATTRIBUTED :: re where
  \<open>ATTRIBUTED = rx ''~bSOP[-~s]|~bclauses?~b|~bsections?~s+~d|~u00a7''\<close>

definition NOT_FOUND :: string where
  \<open>NOT_FOUND =
     lit (''~n~nNOTHING RELEVANT WAS FOUND in the local knowledge base for this request. If it asks about '' @
     ''the plant's documents, say plainly that it is not found in them - that is an acceptable answer '' @
     ''- and do not answer from general knowledge as if a plant document said it.'')\<close>

definition STOP :: "string list" where
  \<open>STOP = [
     ''what'', ''which'', ''when'', ''where'', ''who'', ''why'', ''how'', ''does'', ''did'',
     ''the'', ''and'', ''for'', ''are'', ''was'', ''were'', ''been'', ''being'', ''this'',
     ''that'', ''these'', ''those'', ''with'', ''from'', ''into'', ''onto'', ''about'', ''under'',
     ''over'', ''per'', ''its'', ''their'', ''there'', ''them'', ''they'', ''you'', ''your'',
     ''our'', ''can'', ''could'', ''should'', ''would'', ''will'', ''shall'', ''may'', ''might'',
     ''must'', ''give'', ''tell'', ''show'', ''list'', ''explain'', ''describe'', ''please'',
     ''contain'', ''contains'', ''is'', ''a'', ''an'', ''of'', ''to'', ''in'', ''on'', ''at'',
     ''by'', ''as'', ''be'', ''or'', ''if'', ''do'', ''it'', ''me'', ''my'', ''we'', ''us'',
     ''sop'', ''sops'', ''document'', ''documents'', ''procedure'', ''procedures'', ''summarise'',
     ''summarize'']\<close>

definition word_set :: "string \<Rightarrow> string list" where
  \<open>word_set text = re_findall no_flags (rx ''[a-z0-9]+'') 0 (py_lower text)\<close>

definition at_least :: "json \<Rightarrow> rat \<Rightarrow> bool" where
  "at_least score strong = (case score of
      JInt i \<Rightarrow> strong \<le> of_int i | JBool b \<Rightarrow> strong \<le> of_bool b
    | JFloat (Fin x) \<Rightarrow> strong \<le> x | JFloat NegZero \<Rightarrow> strong \<le> 0 | JFloat (Inf neg) \<Rightarrow> \<not> neg | _ \<Rightarrow> False)"

definition relevant :: "passage list \<Rightarrow> string \<Rightarrow> rat \<Rightarrow> passage list" where
  "relevant passages query strong =
     (let terms = filter (\<lambda>t. 3 \<le> length t \<and> t \<notin> set STOP) (word_set query) in
      if terms = [] then passages
      else filter (\<lambda>p. list_ex (\<lambda>t. t \<in> set (word_set (pa_text p @ '' '' @ pa_name p))) terms
                       \<or> at_least (pa_distance p) strong) passages)"

definition sop_clauses :: "string \<Rightarrow> string list" where
  \<open>sop_clauses sop = re_findall no_flags (rx ''~u00a7(~d+(?:~.~d+)*)'') 1 sop\<close>

section \<open>Figures\<close>

definition OWN_SECTIONS :: "string list" where
  \<open>OWN_SECTIONS = [''### Read from the image'', ''### The workbook, on approval'']\<close>

definition answer_only :: "string \<Rightarrow> string" where
  "answer_only deliverable =
     (let cuts = map (\<lambda>s. fst (partition_at s deliverable)) (filter (contains deliverable) OWN_SECTIONS)
      in case sort_key length cuts of [] \<Rightarrow> deliverable | c # _ \<Rightarrow> c)"

text \<open>A pattern built around an escaped text.\<close>

definition rx_around :: "string \<Rightarrow> string \<Rightarrow> string \<Rightarrow> re" where
  "rx_around pre s post =
     (let bs = map (\<lambda>c. if c = CHR ''~'' then CHR 0x5C else c) in re_compile (bs pre @ re_escape s @ bs post))"

definition present :: "string \<Rightarrow> string \<Rightarrow> bool" where
  \<open>present figure text = found_in no_flags (rx_around ''(?<![~w.])'' figure ''(?![~w])'') text\<close>

text \<open>The lists \<^verbatim>\<open>_figure_checks\<close> builds up; a borrowed figure carries where it came from.\<close>

record figures =
  fg_found :: "string list"
  fg_missing :: "(string \<times> string) list"
  fg_borrowed :: "(string \<times> string \<times> string) list"
  fg_misplaced :: "(string \<times> string \<times> string) list"
  fg_unsourced :: "string list"

text \<open>What a figure is looked up in: the passages of each source by number, the request, 4CE's calculation, the rule pack's
  report, the fields read from an image, and the clauses the rule pack cited.\<close>

record evidence =
  ev_sources :: "source_doc list"
  ev_request :: string
  ev_clauses :: "string list"
  ev_computed :: string
  ev_ruled :: string
  ev_read :: string

definition source_text :: "evidence \<Rightarrow> int \<Rightarrow> string" where
  "source_text ev n = join_with '' '' (map pa_text (so_passages (ev_sources ev ! nat (n - 1))))"

definition source_keys :: "evidence \<Rightarrow> int list" where
  "source_keys ev = map int [1..<length (ev_sources ev) + 1]"

definition label_of :: "evidence \<Rightarrow> int \<Rightarrow> string" where
  "label_of ev n = doc_label (so_name (ev_sources ev ! nat (n - 1))) (map so_name (ev_sources ev))"

definition uniq :: "'a list \<Rightarrow> 'a list" where
  "uniq xs = rev (remdups (rev xs))"

definition add_new :: "'a \<Rightarrow> 'a list \<Rightarrow> 'a list" where
  "add_new x xs = (if x \<in> set xs then xs else xs @ [x])"

definition add_borrowed :: "string \<Rightarrow> string \<Rightarrow> string \<Rightarrow> figures \<Rightarrow> figures" where
  "add_borrowed figure names origin fg =
     (if list_ex (\<lambda>b. fst b = figure) (fg_borrowed fg) then fg
      else fg\<lparr>fg_borrowed := fg_borrowed fg @ [(figure, names, origin)]\<rparr>)"

text \<open>A figure in a sentence that cites nothing but speaks for the SOP.\<close>

definition uncited_figure :: "evidence \<Rightarrow> figures \<Rightarrow> string \<Rightarrow> figures" where
  "uncited_figure ev fg figure =
     (let anywhere = join_with '' '' (map (source_text ev) (source_keys ev)) in
      if list_ex (present figure) [anywhere, ev_request ev, ev_computed ev, ev_ruled ev] then fg
      else fg\<lparr>fg_unsourced := add_new figure (fg_unsourced fg)\<rparr>)"

text \<open>A figure in a sentence that cites the sources \<open>cited\<close>.\<close>

definition cited_figure :: "evidence \<Rightarrow> int list \<Rightarrow> string \<Rightarrow> figures \<Rightarrow> string \<Rightarrow> figures" where
  \<open>cited_figure ev cited names fg figure =
     (if list_ex (\<lambda>n. present figure (source_text ev n)) cited then fg\<lparr>fg_found := add_new figure (fg_found fg)\<rparr>
      else if present figure (ev_request ev) then add_borrowed figure names [] fg
      else if present figure (ev_read ev) then add_borrowed figure names ''read from the image'' fg
      else if present figure (ev_computed ev) then add_borrowed figure names ''4CE's own calculation'' fg
      else
        case filter (\<lambda>m. m \<notin> set cited \<and> present figure (source_text ev m)) (source_keys ev) of
          m # _ \<Rightarrow> (if list_ex (\<lambda>b. fst b = figure) (fg_misplaced fg) then fg
                     else fg\<lparr>fg_misplaced := fg_misplaced fg @ [(figure, names, label_of ev m)]\<rparr>)
        | [] \<Rightarrow> (if present figure (ev_ruled ev) then add_borrowed figure names ''the SOP rule pack's figure'' fg
                  else fg\<lparr>fg_missing := add_new (figure, names) (fg_missing fg)\<rparr>))\<close>

definition figures_in :: "string \<Rightarrow> string list" where
  "figures_in bare = re_findall no_flags FIGURE 0 (re_sub flag_i CLAUSE_REF '' '' bare)"

definition figure_sentence :: "evidence \<Rightarrow> figures \<Rightarrow> string \<Rightarrow> figures" where
  \<open>figure_sentence ev fg sentence =
     (let cited = filter (\<lambda>n. n \<in> set (source_keys ev)) (citations sentence); bare = strip_citations sentence '' '' in
      if cited = [] then
        (if found_in flag_i ATTRIBUTED sentence then foldl (uncited_figure ev) fg (figures_in bare) else fg)
      else
        let names = join_with '', '' (uniq (map (label_of ev) cited));
            fg' = foldl (\<lambda>f ref.
                if ref \<in> set (ev_clauses ev) \<or> list_ex (\<lambda>n. present ref (source_text ev n)) cited then f
                else f\<lparr>fg_missing := add_new (''Clause '' @ ref, names) (fg_missing f)\<rparr>)
              fg (re_findall flag_i CLAUSE_REF 1 bare)
        in foldl (cited_figure ev cited names) fg' (figures_in bare))\<close>

definition figure_prose :: "string \<Rightarrow> string" where
  \<open>figure_prose deliverable =
     (let prose = without_code (answer_only deliverable);
          prose = re_sub flag_m (rx ''^~s*~d{1,3}[.)]~s+'') [] prose
      in re_sub no_flags (rx ''~b~d{1,2}:~d{2}(?::~d{2})?~b'') '' '' prose)\<close>

definition no_figures :: figures where
  "no_figures = \<lparr>fg_found = [], fg_missing = [], fg_borrowed = [], fg_misplaced = [], fg_unsourced = []\<rparr>"

definition figure_report :: "figures \<Rightarrow> check list" where
  \<open>figure_report fg =
     (if fg_found fg \<noteq> [] \<and> fg_missing fg = [] \<and> fg_unsourced fg = [] \<and> fg_misplaced fg = []
      then [plain_check ''ok'' (''Every figure the answer cites ('' @ join_with '', '' (take 6 (fg_found fg))
              @ (if 6 < length (fg_found fg) then lit ''~u2026'' else []) @ '') appears in the source it cites'') ''4CE'']
      else [])
     @ map (\<lambda>(figure, names). plain_check ''problem'' (figure @ '' is cited to '' @ names @ '', which does not contain it'') ''4CE'')
         (take 4 (fg_missing fg))
     @ map (\<lambda>figure. plain_check ''problem'' (figure @ '' is stated as the SOP's with no citation, and no source, reading or check contains it'') ''4CE'')
         (take 3 (fg_unsourced fg))
     @ map (\<lambda>(figure, names, other). plain_check ''unverified'' (figure @ '' is in '' @ other @ '', but is cited to '' @ names) ''4CE'')
         (take 3 (fg_misplaced fg))
     @ map (\<lambda>(figure, names, origin). plain_check ''unverified'' (figure @ '' is ''
               @ or_text origin ''the request's own figure'' @ '', cited to '' @ names @ '' as if the document gave it'') ''4CE'')
         (take 3 (fg_borrowed fg))\<close>

definition figure_checks :: "string \<Rightarrow> evidence \<Rightarrow> check list" where
  \<open>figure_checks deliverable ev =
     (if ev_sources ev = [] then []
      else figure_report (foldl (figure_sentence ev) no_figures
             (re_split no_flags (rx ''(?<=[.!?]|~n)~s+'') 0 (figure_prose deliverable))))\<close>

section \<open>The rule pack, the survey and the workbook\<close>

definition ALREADY_THERE :: re where
  \<open>ALREADY_THERE = rx (''~balready~s+(?:present|included|computed|calculated|populated|in~s+the~s+(?:spreadsheet|sheet|wo'' @
     ''rkbook))~b|~bno~s+(?:new~s+|further~s+|additional~s+)?(?:data|columns?|changes?|modifications?)'' @
     ''~s+(?:is~s+|are~s+)?(?:required|needed)~b|~brequest~s+(?:has~s+been|is)~s+(?:fulfilled|complete)'')\<close>

definition DOES_NOT_APPLY :: re where
  \<open>DOES_NOT_APPLY = rx (''~b(?:not~s+met|(?:does|do)~s+not~s+apply|doesn't~s+apply|not~s+applicable|not~s+triggered|no~s+l'' @
     ''ocation|none~s+of~s+the~s+locations|in~s+no~s+location|not~s+required)~b'')\<close>

definition WITHIN_LIMITS :: re where
  \<open>WITHIN_LIMITS = rx (''~b(?:is|are|was|were|remains?|stays?)~s+(?:well~s+|still~s+)?within~s+(?:the~s+)?(?:acceptable~s'' @
     ''+|allowable~s+|permissible~s+|sop~s+|its~s+)?limits?~b|~b(?:is|are)~s+(?:still~s+)?acceptable~b'')\<close>

definition on_check :: "string \<Rightarrow> string \<Rightarrow> check" where
  "on_check text on = (plain_check ''problem'' text ''4CE'')\<lparr>ck_on := Some on\<rparr>"

definition interval_checks :: "string \<Rightarrow> nat \<Rightarrow> string \<Rightarrow> nat \<Rightarrow> check list" where
  \<open>interval_checks deliverable intervals basis locations =
     (case search_group no_flags (rx ''~u00a7~s*([~d.]+)'') 1 basis of
        None \<Rightarrow> []
      | Some clause \<Rightarrow>
          (if list_ex (\<lambda>sentence. found_in flag_i (rx_around ''(?:~u00a7~s*|clause~s+|section~s+)'' clause ''~b'') sentence
                                  \<and> found_in flag_i DOES_NOT_APPLY sentence)
                (re_split no_flags (rx ''(?<=[.!?])~s+|~n'') 0 (answer_only deliverable))
           then [on_check (lit ''The answer says ~u00a7'' @ clause @ '' does not apply; the SOP rule pack requires its interval at ''
                    @ str_nat intervals @ '' of '' @ str_nat locations @ '' locations'') ''verdict'']
           else []))\<close>

definition workbook_checks :: "string \<Rightarrow> json list \<Rightarrow> check list" where
  \<open>workbook_checks deliverable planned =
     (case search_group flag_i ALREADY_THERE 0 (answer_only deliverable) of
        None \<Rightarrow> []
      | Some found \<Rightarrow>
          (let added = length (filter (\<lambda>c. case c of JObj d \<Rightarrow> dict_get d ''column'' \<noteq> None | _ \<Rightarrow> False) planned)
           in [on_check (''The answer says the workbook already has what was asked ("'' @ found
                 @ ''"); nothing has been written yet - on approval 4CE adds ''
                 @ (if added \<noteq> 0 then str_nat added @ '' column'' @ (if added \<noteq> 1 then ''s'' else []) else ''the changes'')
                 @ '' to a copy'') ''workbook'']))\<close>

definition is_table_line :: "string \<Rightarrow> bool" where
  "is_table_line l = starts_with (py_lstrip l) ''|''"

fun first_table_lines :: "string list \<Rightarrow> string list" where
  \<open>first_table_lines (a # b # ls) =
     (if is_table_line a \<and> re_match no_flags (rx ''^~s*~|?~s*:?-{2,}'') b \<noteq> None
      then takeWhile is_table_line (a # b # ls) else first_table_lines (b # ls))\<close>
| "first_table_lines ls = []"

definition first_table :: "string \<Rightarrow> string" where
  "first_table markdown = join_with nl (first_table_lines (split_lines markdown))"

text \<open>\<^verbatim>\<open>[c.strip() for c in line.strip().strip("|").split("|")]\<close>.\<close>

definition table_cells :: "string \<Rightarrow> string list" where
  "table_cells line = map py_strip (split_on (CHR ''|'') (strip_if (\<lambda>c. c = CHR ''|'') (py_strip line)))"

definition verdict_row :: "string list \<Rightarrow> string \<Rightarrow> check list" where
  \<open>verdict_row sentences line =
     (let cells = table_cells line in
      if length cells < 5 \<or> py_upper (last cells) \<notin> {''REVIEW'', ''FAIL''} then []
      else
        let parameter = py_lower (py_strip (hd (re_split no_flags (rx ''[(/]'') 0 (hd cells)))); words = words_of parameter in
        if words = [] then []
        else if list_ex (\<lambda>s. list_all (contains (py_lower s)) words \<and> found_in flag_i WITHIN_LIMITS s) sentences
        then [on_check (''The answer calls '' @ parameter @ '' within limits; the SOP rule pack's verdict is ''
                @ py_upper (last cells) @ '' under '' @ cells ! 3) ''verdict'']
        else [])\<close>

definition verdict_checks :: "string \<Rightarrow> string \<Rightarrow> check list" where
  \<open>verdict_checks deliverable sop =
     (let table = first_table sop in
      if table = [] then []
      else
        let sentences = filter nonblank (re_split no_flags (rx ''(?<=[.!?])~s+|~n'') 0 (answer_only deliverable))
        in concat (map (verdict_row sentences) (drop 2 (split_lines table))))\<close>

section \<open>Generated code\<close>

definition ASKS_FOR_OUTPUT :: re where
  \<open>ASKS_FOR_OUTPUT = rx ''~b(?:print|prints|printed|output|outputs|show|display)~b''\<close>

definition ran_check :: "string \<Rightarrow> string \<Rightarrow> string \<Rightarrow> check" where
  "ran_check kind text by = (plain_check kind text by)\<lparr>ck_ran := True\<rparr>"

definition execution_check :: "string \<Rightarrow> string \<Rightarrow> string \<Rightarrow> check" where
  \<open>execution_check code report prompt =
     (if code = [] then ran_check ''problem'' ''There is no ```python block in the result, so nothing could be run'' ''4CE''
      else if report = [] \<or> starts_with report ERR then
        (ran_check ''unverified'' ''The code was not executed: the sandbox tool is not attached to this model'' ''4CE'')\<lparr>ck_final := True\<rparr>
      else if contains report ''was NOT executed'' then
        (ran_check ''unverified'' (clip (''The code was not executed'' @
            (case search_group no_flags (rx ''Reason:~s*(.+)'') 1 report of Some r \<Rightarrow> '': '' @ py_strip r | None \<Rightarrow> [])) 180) ''4CE'')\<lparr>ck_final := True\<rparr>
      else if contains report ''**Timed out**'' then
        ran_check ''problem'' ''The code did not finish inside the sandbox's time limit'' ''4CE''
      else
        let exit_code = (case search_group no_flags (rx ''- Exit code:~s*(-?~d+|None)'') 1 report of Some e \<Rightarrow> e | None \<Rightarrow> ''unknown'') in
        if exit_code = ''0'' then
          (if found_in flag_i ASKS_FOR_OUTPUT prompt \<and> \<not> contains report ''**stdout**'' then
             ran_check ''problem'' ''The request asks for the result to be printed, and the program printed nothing'' ''4CE''
           else
             let asserts = length (re_findall flag_m (rx ''^~s*assert~b'') 0 code) in
             if asserts \<noteq> 0 then
               ran_check ''ok'' (''The code ran in the sandbox and exited 0, with its '' @ str_nat asserts @ '' assertion''
                 @ (if asserts = 1 then [] else ''s'') @ '' holding'') ''4CE''
             else ran_check ''unverified'' ''The code ran in the sandbox and exited 0, but asserts nothing about its own result'' ''4CE'')
        else
          let stderr = (case search_group flag_s (rx ''~*~*stderr~*~*~s*```~s*~n(.*?)```'') 1 report of Some e \<Rightarrow> e | None \<Rightarrow> []);
              lines = filter nonblank (split_lines stderr)
          in ran_check ''problem'' (clip (''The code failed in the sandbox with exit code '' @ exit_code
               @ (if lines \<noteq> [] then '': '' @ py_strip (last lines) else [])) 180) ''4CE'')\<close>

section \<open>What the reviewer is told\<close>

definition objection :: "verdict \<Rightarrow> string" where
  \<open>objection v =
     (let problems = filter (\<lambda>c. ck_kind c = ''problem'') (case vd_checks v of None \<Rightarrow> [] | Some cs \<Rightarrow> cs);
          who = (if vd_failed_by v = Some ''4CE'' then
                   (if vd_failed_on v = Some ''verdict'' then ''4CE's rule-pack check''
                    else if vd_failed_on v = Some ''workbook'' then ''4CE's workbook check'' else ''4CE's figure check'')
                 else ''ULTRON'')
      in if problems \<noteq> [] then
           who @ '' objected: '' @ join_with ''; '' (map (\<lambda>c. py_rstrip_set ''.'' (ck_text c)) (take 3 problems)) @ ''.''
         else
           let summary = py_strip (case vd_summary v of None \<Rightarrow> [] | Some s \<Rightarrow> s) in
           if summary \<noteq> [] \<and> re_match flag_i (rx ''(okay|ok|so|let me|let's|hmm|first|alright)~b'') summary = None
           then who @ '' objected: '' @ summary
           else who @ '' failed it without stating a usable reason.'')\<close>

definition approval_message :: "string \<Rightarrow> verdict \<Rightarrow> string \<Rightarrow> string \<Rightarrow> string" where
  \<open>approval_message deliverable v task_type model_id =
     (let status = py_upper (vd_status v);
          line = ''**ULTRON: '' @ status @ lit ''** ~u00b7 '' @ task_type @ lit '' task ~u00b7 drafted on `'' @ model_id @ ''`'';
          why = objection v
      in (if status \<noteq> ''PASS'' \<and> why \<noteq> [] then line @ nl2 @ ''*'' @ why @ ''*'' else line) @ nl2
         @ lit (''<div class="text-gray-900 dark:text-gray-100 bg-gray-50 dark:bg-gray-900 border border-gray-200 '' @
           ''dark:border-gray-800" style="max-height:42vh;overflow-y:auto;padding:12px 14px;margin:10px 0 '' @
           ''12px;border-radius:12px;font-size:13.5px;line-height:1.55">~n~n'')
         @ or_text (py_strip deliverable) ''*(the draft is empty)*'' @ lit ''~n~n</div>~n~n''
         @ (''This is exactly what will be released. Type **approve** to release it; anything else, or an '' @
           ''empty box, withholds it.''))\<close>

end
