(* ===== verification/Artifacts.thy ===== *)
theory Artifacts
  imports Verdicts
begin

text \<open>
  What a deliverable becomes, in \<^verbatim>\<open>4ce/functions/orchestrator.py\<close>: the Python code in it that is run in the sandbox, the
  files its fenced blocks are saved as, their names, and the title of the documents made from it. Python's own parser,
  \<^verbatim>\<open>ast.parse\<close>, is a parameter of the definitions: it returns what the code asks of a tree, the statements at its top
  level, or raises.
\<close>

section \<open>Python's parser\<close>

text \<open>A statement at the top level of a program: a function or class with its name, another statement that makes a text a
  program (an assignment, an import, a loop, a condition, \<^verbatim>\<open>with\<close>, \<^verbatim>\<open>try\<close>), a call, or anything else.\<close>

datatype py_node = NDef string | NProgram | NCall | NOther

datatype parsed = Parsed "py_node list" | BadSyntax | BadValue

type_synonym py_parser = "string \<Rightarrow> parsed"

definition is_program :: "py_node \<Rightarrow> bool" where
  "is_program n \<longleftrightarrow> (case n of NOther \<Rightarrow> False | _ \<Rightarrow> True)"

section \<open>Code in a deliverable\<close>

definition looks_like_code :: "py_parser \<Rightarrow> string \<Rightarrow> bool" where
  "looks_like_code ast cand \<longleftrightarrow> cand \<noteq> [] \<and> (case ast cand of Parsed ns \<Rightarrow> list_ex is_program ns | _ \<Rightarrow> False)"

fun longest_program :: "py_parser \<Rightarrow> string list \<Rightarrow> nat \<Rightarrow> string" where
  "longest_program ast lines 0 = []"
| "longest_program ast lines (Suc end) =
     (let cand = py_strip (join_with nl (take (Suc end) lines)) in
      if looks_like_code ast cand then cand else longest_program ast lines end)"

definition unfenced_python :: "py_parser \<Rightarrow> string \<Rightarrow> string" where
  "unfenced_python ast text = (let lines = split_lines text in longest_program ast lines (length lines))"

definition flag_si :: flags where
  "flag_si = \<lparr>ignore_case = True, multi_line = False, dot_all = True\<rparr>"

definition extract_python :: "py_parser \<Rightarrow> string \<Rightarrow> string" where
  \<open>extract_python ast text =
     (let blocks = re_findall flag_si (rx ''```(?:python|py)~s*~n(.*?)```'') 1 text;
          usable = map py_strip (filter (\<lambda>b. nonblank b \<and> \<not> starts_with (py_lstrip b) ''>>>'' \<and> \<not> starts_with (py_lstrip b) ''$ '') blocks)
      in if usable \<noteq> [] then join_with nl2 usable else unfenced_python ast text)\<close>

section \<open>Titles\<close>

definition REQUEST_OPENERS :: "string list" where
  \<open>REQUEST_OPENERS = [
     ''write'', ''draft'', ''create'', ''produce'', ''generate'', ''make'', ''build'', ''give'',
     ''show'', ''provide'', ''prepare'', ''compose'', ''summarise'', ''summarize'', ''list'',
     ''me'', ''a'', ''an'', ''the'', ''some'', ''please'', ''us'', ''code'', ''for'',
     ''calculate'', ''compute'', ''estimate'', ''determine'', ''work'', ''out'', ''extract'',
     ''read'', ''identify'', ''find'', ''describe'', ''tell'', ''put'', ''every'', ''all'']\<close>

definition subject_words :: "string \<Rightarrow> string list" where
  \<open>subject_words title =
     (let ws = dropWhile (\<lambda>w. py_lower w \<in> set REQUEST_OPENERS) (re_findall no_flags (rx ''[A-Za-z0-9-]+'') 0 title)
      in if ws = [] then [''artifact''] else ws)\<close>

definition TITLE_ASK :: re where
  \<open>TITLE_ASK = rx (''^(?:what|which|how|why|when|where|who)~s+(?:(?:is|are|was|were|does|do|did|can|could|should|woul'' @
     ''d|will|must)~s+)?(?:(?:the|a|an|we|i|you|it)~s+)?'')\<close>

definition TITLE_VERB :: re where
  \<open>TITLE_VERB = rx (''~s+(?:require|requires|say|says|state|states|specify|specifies|mean|means|cover|covers|allow|all'' @
     ''ows|recommend|recommends)~b.*$'')\<close>

definition TITLE_FORMAT :: re where
  \<open>TITLE_FORMAT = rx (''~s+(?:as|in(?:to)?)~s+(?:an?~s+)?(?:excel~s+(?:workbook|file|sheet)|excel|xlsx|spreadsheet|workb'' @
     ''ook|power~s?point(?:~s+deck)?|pptx|slide~s+deck|deck|slides|presentation|word~s+(?:document|file'' @
     '')|docx|csv(?:~s+file)?)~b'')\<close>

definition TITLE_FORMAT_LEAD :: re where
  \<open>TITLE_FORMAT_LEAD = rx (''^(?:~w+~s+){0,3}?(?:an?~s+|the~s+)?(?:excel~s+workbook|spreadsheet|workbook|power~s?point~s+deck'' @
     ''|power~s?point|slide~s+deck|deck|presentation|slides)~s+(?:on|about|of|covering)~s+'')\<close>

definition TITLE_HANDOVER :: re where
  \<open>TITLE_HANDOVER = rx ''^(?:here~s+is|here~s+are|here['~u2019]s|this~s+is|attached~s+is|see~s+attached|please~s+find)~s+''\<close>

definition TITLE_BREAKS :: "string list" where
  \<open>TITLE_BREAKS = [
     ''what'', ''how'', ''when'', ''why'', ''whether'', ''which'', ''who'', ''where'', ''if'',
     ''also'', ''describe'', ''explain'', ''tell'', ''list'', ''give'', ''show'', ''summarise'',
     ''summarize'', ''check'', ''draft'', ''write'', ''calculate'', ''compare'', ''identify'',
     ''flag'']\<close>

definition TITLE_DANGLING :: "string list" where
  \<open>TITLE_DANGLING = [
     ''and'', ''or'', ''of'', ''the'', ''a'', ''an'', ''to'', ''for'', ''in'', ''on'', ''under'',
     ''with'', ''by'', ''at'', ''what'', ''how'']\<close>

text \<open>The words up to the first joining word that opens a second question.\<close>

fun cut_second :: "string list \<Rightarrow> string list" where
  "cut_second (w # n # ws) =
     (if py_lower w \<in> {''and'', ''or'', ''then''} \<and> py_lower n \<in> set TITLE_BREAKS then [] else w # cut_second (n # ws))"
| "cut_second ws = ws"

definition title_words :: "string \<Rightarrow> string list" where
  \<open>title_words asked =
     (let ws = re_findall no_flags (rx ''[A-Za-z0-9-]+(?:&[A-Za-z0-9]+)?(?:['~u2019][a-z]{1,2}~b)?(?:~.[0-9]+)*'') 0 asked;
          ws = dropWhile (\<lambda>w. py_lower w \<in> set (REQUEST_OPENERS @ [''and'', ''run'', ''execute''])) ws;
          ws = (case ws of [] \<Rightarrow> [] | w # us \<Rightarrow> w # cut_second us)
      in if 10 < length ws then rev (dropWhile (\<lambda>w. py_lower w \<in> set TITLE_DANGLING) (rev (take 10 ws))) else ws)\<close>

definition asked_of :: "string \<Rightarrow> string" where
  \<open>asked_of cleaned =
     (let head = hd (split_on (CHR '':'') cleaned);
          first = py_rstrip_set '' ?.!'' (hd (re_split no_flags (rx ''(?<=[.?!])~s+'') 0 head));
          first = re_sub flag_i TITLE_FORMAT [] first;
          first = re_sub flag_i TITLE_FORMAT_LEAD [] first;
          first = re_sub flag_i TITLE_HANDOVER [] first;
          asked = re_sub flag_i TITLE_ASK [] first
      in if asked \<noteq> first then re_sub flag_i TITLE_VERB [] asked else asked)\<close>

definition document_title :: "string \<Rightarrow> string" where
  \<open>document_title prompt =
     (let cleaned = py_strip (re_sub no_flags (rx ''~s+'') '' '' prompt) in
      if cleaned = [] then ''4CE deliverable''
      else
        let title = py_rstrip_set '' ,.;:?'' (join_with '' '' (title_words (asked_of cleaned)))
        in if title = [] then ''4CE deliverable'' else upper_char (hd title) # tl title)\<close>

section \<open>Files\<close>

definition LANGUAGE_SUFFIX :: "(string \<times> string) list" where
  \<open>LANGUAGE_SUFFIX = [
     (''python'', ''py''), (''py'', ''py''), (''sql'', ''sql''), (''javascript'', ''js''),
     (''js'', ''js''), (''typescript'', ''ts''), (''ts'', ''ts''), (''java'', ''java''),
     (''c'', ''c''), (''cpp'', ''cpp''), (''c++'', ''cpp''), (''csharp'', ''cs''),
     (''cs'', ''cs''), (''go'', ''go''), (''golang'', ''go''), (''rust'', ''rs''),
     (''rs'', ''rs''), (''ruby'', ''rb''), (''rb'', ''rb''), (''bash'', ''sh''), (''sh'', ''sh''),
     (''shell'', ''sh''), (''powershell'', ''ps1''), (''ps1'', ''ps1''), (''r'', ''r''),
     (''matlab'', ''m''), (''csv'', ''csv''), (''tsv'', ''tsv''), (''json'', ''json''),
     (''yaml'', ''yaml''), (''yml'', ''yaml''), (''xml'', ''xml''), (''html'', ''html''),
     (''css'', ''css''), (''markdown'', ''md''), (''md'', ''md''), (''ini'', ''ini''),
     (''toml'', ''toml''), (''text'', ''txt''), (''txt'', ''txt''), (''plaintext'', ''txt'')]\<close>

definition artifact_stem :: "py_parser \<Rightarrow> string \<Rightarrow> string \<Rightarrow> string \<Rightarrow> py_error + string" where
  \<open>artifact_stem ast title body suffix =
     (let named = (if suffix = ''py'' then
                     (case ast body of
                        Parsed ns \<Rightarrow> Inr (List.map_filter (\<lambda>n. case n of NDef name \<Rightarrow> Some name | _ \<Rightarrow> None) ns)
                      | BadSyntax \<Rightarrow> Inr []
                      | BadValue \<Rightarrow> Inl ValueError)
                   else Inr [])
      in case named of
           Inl e \<Rightarrow> Inl e
         | Inr (name # _) \<Rightarrow> Inr (py_lower name)
         | Inr [] \<Rightarrow>
             (let stem = py_lower (join_with ''_'' (take 5 (subject_words title)))
              in Inr (or_text (strip_if (\<lambda>c. c = CHR ''_'') (re_sub no_flags (rx ''[^a-z0-9_]+'') [] stem)) ''artifact'')))\<close>

text \<open>\<^verbatim>\<open>grouped.setdefault(suffix, []).append(body)\<close>.\<close>

definition add_part :: "string list pydict \<Rightarrow> string \<times> string \<Rightarrow> string list pydict" where
  "add_part grouped = (\<lambda>(suffix, body).
     dict_set suffix ((case dict_get grouped suffix of Some ps \<Rightarrow> ps | None \<Rightarrow> []) @ [body]) grouped)"

definition fenced_parts :: "string \<Rightarrow> (string \<times> string) list" where
  \<open>fenced_parts text =
     List.map_filter (\<lambda>h.
         let cs = codes_of text; body = py_strip (hit_text cs h 2)
         in case map_of LANGUAGE_SUFFIX (py_lower (py_strip (hit_text cs h 1))) of
              Some suffix \<Rightarrow> if body \<noteq> [] then Some (suffix, body) else None
            | None \<Rightarrow> None)
       (re_finditer flag_s (rx ''```(~w*)[^~S~n]*~n(.*?)```'') text)\<close>

definition grouped_parts :: "py_parser \<Rightarrow> string \<Rightarrow> string list pydict" where
  "grouped_parts ast text =
     (let grouped = foldl add_part [] (fenced_parts text) in
      if grouped \<noteq> [] then grouped
      else let loose = unfenced_python ast text in if loose \<noteq> [] then [(''py'', [loose])] else [])"

fun name_files :: "py_parser \<Rightarrow> string \<Rightarrow> string list pydict \<Rightarrow> py_error + (string \<times> string) list" where
  "name_files ast title [] = Inr []"
| "name_files ast title ((suffix, parts) # gs) =
     (let body = join_with nl2 parts in
      case artifact_stem ast title body suffix of
        Inl e \<Rightarrow> Inl e
      | Inr stem \<Rightarrow> (case name_files ast title gs of
            Inl e \<Rightarrow> Inl e
          | Inr files \<Rightarrow> Inr ((stem @ ''.'' @ suffix, body) # files)))"

definition artifacts :: "py_parser \<Rightarrow> string \<Rightarrow> string \<Rightarrow> py_error + (string \<times> string) list" where
  "artifacts ast text title = name_files ast title (grouped_parts ast text)"

section \<open>Names of the files\<close>

definition suffix_ok :: "string \<Rightarrow> bool" where
  "suffix_ok s \<longleftrightarrow> CHR ''.'' \<notin> set s"

lemma language_suffixes: "list_all (\<lambda>(l, s). suffix_ok s) LANGUAGE_SUFFIX"
  by code_simp

lemma fenced_suffixes: "list_all (\<lambda>(s, b). suffix_ok s) (fenced_parts text)"
  using language_suffixes
  by (auto simp: fenced_parts_def list_all_iff List.map_filter_def Let_def dest!: map_of_SomeD split: option.splits if_splits)

lemma add_part_keys:
  "distinct (map fst g) \<and> list_all suffix_ok (map fst g) \<Longrightarrow> suffix_ok (fst p) \<Longrightarrow>
     distinct (map fst (add_part g p)) \<and> list_all suffix_ok (map fst (add_part g p))"
proof -
  have keys: "fst ` set (dict_set k v d) = insert k (fst ` set d)" "distinct (map fst d) \<Longrightarrow> distinct (map fst (dict_set k v d))"
    for k and v :: "string list" and d by (induction k v d rule: dict_set.induct) auto
  show "distinct (map fst g) \<and> list_all suffix_ok (map fst g) \<Longrightarrow> suffix_ok (fst p) \<Longrightarrow>
     distinct (map fst (add_part g p)) \<and> list_all suffix_ok (map fst (add_part g p))"
    by (cases p) (auto simp: add_part_def keys list_all_iff)
qed

lemma grouped_keys: "distinct (map fst (grouped_parts ast text)) \<and> list_all suffix_ok (map fst (grouped_parts ast text))"
proof -
  have "list_all (\<lambda>(s, b). suffix_ok s) ps \<Longrightarrow> distinct (map fst g) \<and> list_all suffix_ok (map fst g)
      \<Longrightarrow> distinct (map fst (foldl add_part g ps)) \<and> list_all suffix_ok (map fst (foldl add_part g ps))" for ps g
    by (induction ps arbitrary: g) (auto simp: add_part_keys case_prod_unfold)
  from this [OF fenced_suffixes, of "[]"] show ?thesis by (auto simp: grouped_parts_def Let_def suffix_ok_def)
qed

lemma same_suffix: "a @ ''.'' @ s = b @ ''.'' @ t \<Longrightarrow> suffix_ok s \<Longrightarrow> suffix_ok t \<Longrightarrow> s = t"
proof (induction a arbitrary: b)
  case Nil
  then show ?case by (cases b) (auto simp: suffix_ok_def)
next
  case (Cons c a)
  then show ?case by (cases b) (auto simp: suffix_ok_def)
qed

lemma name_files_suffix:
  "name_files ast title gs = Inr files \<Longrightarrow> map snd files = map (\<lambda>(s, ps). join_with nl2 ps) gs
     \<and> list_all2 (\<lambda>f g. \<exists>stem. fst f = stem @ ''.'' @ fst g) files gs"
  by (induction ast title gs arbitrary: files rule: name_files.induct) (fastforce simp: Let_def split: sum.splits)+

lemma distinct_names:
  "list_all2 (\<lambda>f g. \<exists>stem. fst f = stem @ ''.'' @ fst g) files gs \<Longrightarrow> distinct (map fst gs) \<Longrightarrow> list_all suffix_ok (map fst gs)
     \<Longrightarrow> distinct (map fst files)"
proof (induction files gs rule: list_all2_induct)
  case (Cons f fs g gs)
  have "fst f \<noteq> fst f'" if f': "f' \<in> set fs" for f'
  proof
    assume eq: "fst f = fst f'"
    have "\<exists>g' \<in> set gs. \<exists>stem. fst f' = stem @ ''.'' @ fst g'" using Cons.hyps(2) f' by (induction rule: list_all2_induct) auto
    then obtain g' stem where g': "g' \<in> set gs" "fst f' = stem @ ''.'' @ fst g'" by blast
    obtain stem' where "fst f = stem' @ ''.'' @ fst g" using Cons.hyps(1) by blast
    then have "fst g = fst g'" using same_suffix [of stem' "fst g" stem "fst g'"] eq g' Cons.prems(2) by (auto simp: list_all_iff)
    then show False using Cons.prems(1) g'(1) by auto
  qed
  then show ?case using Cons.IH Cons.prems by auto
qed simp


end
