(* ===== verification/Survey.thy ===== *)
theory Survey
  imports Verdicts
begin

text \<open>
  Spreadsheets and thickness surveys in \<^verbatim>\<open>4ce/functions/orchestrator.py\<close>: the sheets attached to a request, the
  survey table the \<^verbatim>\<open>read_sheet\<close> tool renders, the columns of formulas 4CE proposes for it, the inspection interval the
  SOP rule pack requires, and the workbook and deck a request asks for by name. A row's interval is a float, kept by
  sheet row. Column letters and their numbers are inverse to each other.
\<close>

section \<open>Attached sheets\<close>

definition SHEET_FILE :: re where
  \<open>SHEET_FILE = rx ''~.(?:xlsx|xlsm|csv|tsv)$''\<close>

definition SHEET_EDIT :: re where
  \<open>SHEET_EDIT = rx (''~b(?:add|insert|append|fill(?:~s+in)?|put|write|update|extend)~b[^.?!]{0,120}~b(?:column|columns'' @
     ''|sheet|workbook|spreadsheet|excel|survey)~b|~b(?:to|in|into)~s+(?:the|this|my|that)~s+(?:~w+~s+)'' @
     ''?(?:sheet|workbook|spreadsheet|survey)~b'')\<close>

definition SHEET_BLOCK :: re where
  \<open>SHEET_BLOCK = rx ''```4ce-sheet~s*~n(.*?)```''\<close>

definition SURVEY_COLUMNS :: "(string \<times> string list) list" where
  \<open>SURVEY_COLUMNS = [
     (''previous'', [''previous'', ''prev'', ''prior'', ''original'', ''initial'', ''baseline'', ''last'']),
     (''current'', [''current'', ''measured'', ''actual'', ''latest'', ''present'']),
     (''required'', [''required'', ''retirement'', ''t_req'', ''treq'', ''minimum allowable'', ''min required'']),
     (''years'', [''years'', ''interval'', ''yrs'', ''delta t''])]\<close>

fun try_all :: "('a \<Rightarrow> 'e + 'b) \<Rightarrow> 'a list \<Rightarrow> 'e + 'b list" where
  "try_all f [] = Inr []"
| "try_all f (x # xs) = (case f x of Inl e \<Rightarrow> Inl e
     | Inr y \<Rightarrow> (case try_all f xs of Inl e \<Rightarrow> Inl e | Inr ys \<Rightarrow> Inr (y # ys)))"

lemma try_all_Inr: "try_all f xs = Inr ys \<Longrightarrow> length ys = length xs \<and> list_all2 (\<lambda>x y. f x = Inr y) xs ys"
proof (induction xs arbitrary: ys)
  case (Cons x xs)
  then show ?case by (auto split: sum.splits)
qed simp

lemma try_all_total: "list_all (\<lambda>x. \<exists>y. f x = Inr y) xs \<Longrightarrow> \<exists>ys. try_all f xs = Inr ys"
  by (induction xs) auto

text \<open>\<^verbatim>\<open>for item in v or []\<close>: a list's elements; a dictionary's keys and a text's characters are not dictionaries.\<close>

definition iter_items :: "json \<Rightarrow> py_error + json list" where
  "iter_items v =
     (if \<not> jtruthy v then Inr []
      else case v of
             JList vs \<Rightarrow> Inr vs
           | JStr s \<Rightarrow> Inr (map JStr (utf8_chars s))
           | JObj kvs \<Rightarrow> Inr (map (\<lambda>(k, _). JStr k) kvs)
           | _ \<Rightarrow> Inl TypeError)"

definition sheet_of :: "json \<Rightarrow> py_error + string list" where
  "sheet_of item = (case item of
      JObj it \<Rightarrow>
        (let inner = (case jget it ''file'' of JObj d \<Rightarrow> d | _ \<Rightarrow> []);
             name = jor (jget it ''name'') (jget inner ''filename'');
             named = (if jtruthy name then Inr name
                      else case jor (jget inner ''meta'') (JObj []) of
                             JObj m \<Rightarrow> Inr (jor (jget m ''name'') (JStr []))
                           | _ \<Rightarrow> Inl AttributeError)
         in case named of
              Inl e \<Rightarrow> Inl e
            | Inr (JStr s) \<Rightarrow> Inr (if found_in flag_i SHEET_FILE s then [s] else [])
            | Inr _ \<Rightarrow> Inl TypeError)
    | _ \<Rightarrow> Inr [])"

definition attached_sheets :: "json pydict \<Rightarrow> py_error + string list" where
  "attached_sheets metadata = (case iter_items (jget metadata ''files'') of
      Inl e \<Rightarrow> Inl e
    | Inr items \<Rightarrow> map_sum id concat (try_all sheet_of items))"

definition wants_sheet_edit :: "string \<Rightarrow> bool" where
  "wants_sheet_edit prompt = found_in flag_i SHEET_EDIT prompt"

section \<open>Column letters\<close>

definition column_index :: "string \<Rightarrow> nat" where
  "column_index letters = foldl (\<lambda>n ch. nat (int n * 26 + code_of ch - 64)) 0 letters"

text \<open>The loop is \<^verbatim>\<open>while n\<close>; it is only ever entered with the number of a column.\<close>

function column_name_from :: "nat \<Rightarrow> string \<Rightarrow> string" where
  "column_name_from n letters =
     (if n = 0 then letters
      else column_name_from ((n - 1) div 26) (char_of (65 + int ((n - 1) mod 26)) # letters))"
  by pat_completeness auto
termination by (relation "measure fst") (auto intro: le_less_trans [OF div_le_dividend])

declare column_name_from.simps [simp del]

definition column_name :: "nat \<Rightarrow> string" where
  "column_name n = column_name_from n []"

section \<open>The survey table\<close>

definition middot :: string where
  \<open>middot = lit '' ~u00b7 ''\<close>

definition is_header :: "string \<Rightarrow> bool" where
  "is_header line \<longleftrightarrow> starts_with line ''| '' \<and> contains line middot"

definition is_rule :: "string \<Rightarrow> bool" where
  "is_rule line = starts_with line ''|---''"

fun find_table :: "string list \<Rightarrow> (string \<times> string list) option" where
  "find_table (a # b # ls) = (if is_header a \<and> is_rule b then Some (a, ls) else find_table (b # ls))"
| "find_table ls = None"

text \<open>\<^verbatim>\<open>float(...)\<close> of a text that matches \<^verbatim>\<open>-?\d+(?:\.\d+)?\<close>.\<close>

definition float_text :: "string \<Rightarrow> pyfloat" where
  "float_text s =
     (let neg = starts_with s ''-''; u = (if neg then tl s else s);
          ip = takeWhile is_digit u; fp = drop 1 (dropWhile is_digit u)
      in float_of neg (dec_val (ip @ fp) (- int (length fp))))"

definition column_for :: "string \<Rightarrow> string list \<Rightarrow> nat option" where
  "column_for key names =
     (let words = (case dict_get SURVEY_COLUMNS key of Some ws \<Rightarrow> ws | None \<Rightarrow> []) in
      map_option fst (find (\<lambda>(n, name). list_ex (contains name) words) (enumerate 0 names)))"

record survey_row =
  sr_row :: int
  sr_location :: string
  sr_current :: pyfloat
  sr_required :: pyfloat

definition reading_at :: "string list \<Rightarrow> nat \<Rightarrow> string option" where
  \<open>reading_at cells n =
     (if n < length cells then match_group no_flags (rx ''-?~d+(?:~.~d+)?'') 0 (cells ! n) else None)\<close>

definition survey_row_of :: "nat \<Rightarrow> nat \<Rightarrow> string \<Rightarrow> survey_row list" where
  \<open>survey_row_of cur req row =
     (let cells = table_cells row in
      case (reading_at cells cur, reading_at cells req) of
        (Some a, Some b) \<Rightarrow>
          (if py_isdigit (last cells) then
             let label = (case find (\<lambda>(n, c). n \<noteq> cur \<and> n \<noteq> req \<and> c \<noteq> [] \<and> re_match no_flags (rx ''-?~d'') c = None)
                                (enumerate 0 (butlast cells)) of
                            Some (n, c) \<Rightarrow> c | None \<Rightarrow> [])
             in [\<lparr>sr_row = int_of_digits (last cells), sr_location = label,
                  sr_current = float_text a, sr_required = float_text b\<rparr>]
           else [])
      | _ \<Rightarrow> [])\<close>

definition survey_rows :: "string \<Rightarrow> survey_row list" where
  \<open>survey_rows sheet_text =
     (case find_table (split_lines sheet_text) of
        None \<Rightarrow> []
      | Some (header, rows) \<Rightarrow>
          (let names = map (\<lambda>h. py_lower (re_sub no_flags (rx ''^[A-Z]{1,3} ~u00b7 '') [] h)) (table_cells header) in
           case (column_for ''current'' names, column_for ''required'' names) of
             (Some cur, Some req) \<Rightarrow>
               concat (map (survey_row_of cur req) (takeWhile (\<lambda>row. starts_with row ''|'') rows))
           | _ \<Rightarrow> []))\<close>

section \<open>Formulas over the survey's columns\<close>

definition survey_columns :: "string \<Rightarrow> (string \<times> string) list" where
  \<open>survey_columns sheet_text =
     (let header = (case find is_header (split_lines sheet_text) of Some l \<Rightarrow> l | None \<Rightarrow> []) in
      List.map_filter (\<lambda>cell.
          case (match_group no_flags (rx ''([A-Z]{1,3}) ~u00b7 (.*)'') 1 (py_strip cell),
                match_group no_flags (rx ''([A-Z]{1,3}) ~u00b7 (.*)'') 2 (py_strip cell)) of
            (Some letter, Some name) \<Rightarrow> Some (letter, py_lower name)
          | _ \<Rightarrow> None)
        (split_text '' | '' (strip_if (\<lambda>c. c \<in> set ''| '') header)))\<close>

definition assign_letter :: "(string \<times> string) list \<Rightarrow> string pydict \<Rightarrow> string \<times> string list \<Rightarrow> string pydict" where
  "assign_letter columns letters = (\<lambda>(key, words).
     case find (\<lambda>(letter, name). letter \<notin> snd ` set letters \<and> list_ex (contains name) words) columns of
       Some (letter, name) \<Rightarrow> letters @ [(key, letter)]
     | None \<Rightarrow> letters)"

type_synonym intervals = "(int \<times> pyfloat) list"

definition formula_change :: "string \<Rightarrow> string \<Rightarrow> json" where
  "formula_change column formula = JObj [(''column'', JStr column), (''formula'', JStr formula)]"

definition rate_formula :: "string \<Rightarrow> string \<Rightarrow> string \<Rightarrow> string" where
  \<open>rate_formula prev cur yrs =
     ''=IF('' @ yrs @ ''{row}>0,('' @ prev @ ''{row}-'' @ cur @ ''{row})/'' @ yrs @ ''{row},"")''\<close>

definition life_formula :: "string \<Rightarrow> string \<Rightarrow> string \<Rightarrow> string" where
  \<open>life_formula cur req rate =
     ''=IF('' @ cur @ ''{row}<='' @ req @ ''{row},0,IF(N('' @ rate @ ''{row})<=0,"not corrosion-limited",(''
       @ cur @ ''{row}-'' @ req @ ''{row})/'' @ rate @ ''{row}))''\<close>

definition next_formula :: "string \<Rightarrow> string" where
  \<open>next_formula life = ''=IF(ISNUMBER('' @ life @ ''{row}),'' @ life @ ''{row}/2,"")''\<close>

definition ruled_formula :: "string \<Rightarrow> string \<Rightarrow> string" where
  \<open>ruled_formula life rule =
     ''=IF(ISNUMBER('' @ life @ ''{row}),IF(ISNUMBER('' @ rule @ ''{row}),MIN('' @ life @ ''{row}/2,'' @ rule @ ''{row}),''
       @ life @ ''{row}/2),IF(ISNUMBER('' @ rule @ ''{row}),'' @ rule @ ''{row},""))''\<close>

definition interval_values :: "string \<Rightarrow> intervals \<Rightarrow> json list" where
  "interval_values sheet_text ivs =
     (let rows = map sr_row (survey_rows sheet_text); top = (if rows = [] then 1 else Max (set rows))
      in map (\<lambda>r. case map_of ivs r of Some v \<Rightarrow> JFloat v | None \<Rightarrow> JStr []) [2..top])"

definition survey_changes :: "string \<Rightarrow> intervals \<Rightarrow> json list option" where
  "survey_changes sheet_text ivs =
     (let columns = survey_columns sheet_text;
          letters = foldl (assign_letter columns) [] SURVEY_COLUMNS;
          at_key = (\<lambda>k. case dict_get letters k of Some l \<Rightarrow> l | None \<Rightarrow> [])
      in if length letters < 4 \<or> columns = [] then None
         else
           let prev = at_key ''previous''; cur = at_key ''current''; req = at_key ''required''; yrs = at_key ''years'';
               top = Max (set (map (\<lambda>c. column_index (fst c)) columns));
               rate = column_name (top + 1); life = column_name (top + 2); rule = column_name (top + 3)
           in Some ([formula_change ''Corrosion rate (mm/yr)'' (rate_formula prev cur yrs),
                     formula_change ''Remaining life (yr)'' (life_formula cur req rate)]
                @ (if ivs \<noteq> [] then
                     [JObj [(''column'', JStr ''SOP interval (yr)''), (''values'', JList (interval_values sheet_text ivs))],
                      formula_change ''Next inspection (yr)'' (ruled_formula life rule)]
                   else [formula_change ''Next inspection (yr)'' (next_formula life)])))"

section \<open>The interval column\<close>

datatype column_phase = Before | Separator | Rows | After

definition row_number :: "string \<Rightarrow> int option" where
  \<open>row_number line =
     (if starts_with line ''|'' then map_option int_of_digits (search_group no_flags (rx ''~| (~d+) ~|~s*$'') 1 line)
      else None)\<close>

definition nonzero :: "pyfloat \<Rightarrow> bool" where
  "nonzero v \<longleftrightarrow> v \<noteq> Fin 0 \<and> v \<noteq> NegZero"

fun interval_lines :: "intervals \<Rightarrow> column_phase \<Rightarrow> string list \<Rightarrow> string list" where
  "interval_lines ivs phase [] = []"
| "interval_lines ivs phase (line # ls) =
     (if phase = Before \<and> is_header line \<and> ls \<noteq> [] \<and> is_rule (hd ls)
      then (line @ '' SOP interval (yr) |'') # interval_lines ivs Separator ls
      else if phase = Separator then (line @ ''---|'') # interval_lines ivs Rows ls
      else case (if phase = Rows then row_number line else None) of
             Some n \<Rightarrow> (line @ (case map_of ivs n of
                          Some v \<Rightarrow> (if nonzero v then '' '' @ fmt_g v @ '' |'' else ''  |'')
                        | None \<Rightarrow> ''  |'')) # interval_lines ivs Rows ls
           | None \<Rightarrow> line # interval_lines ivs (if phase = Rows then After else phase) ls)"

definition with_interval_column :: "string \<Rightarrow> intervals \<Rightarrow> string" where
  "with_interval_column sheet_text ivs = join_with nl (interval_lines ivs Before (split_lines sheet_text))"

definition sheet_block :: "string \<Rightarrow> json list option" where
  "sheet_block text = (case search_group flag_s SHEET_BLOCK 1 text of
      None \<Rightarrow> None
    | Some b \<Rightarrow> (case loads_text b of Some (JList changes) \<Rightarrow> if changes \<noteq> [] then Some changes else None | _ \<Rightarrow> None))"

section \<open>Remaining life and its interval\<close>

definition REMAINING_LIFE :: re where
  \<open>REMAINING_LIFE = rx (''remaining (?:life|wall)|corrosion rate|retirement thickness|required thickness|thickness '' @
     ''survey|~bTMLs?~b|wall loss'')\<close>

definition wants_remaining_life :: "string \<Rightarrow> bool" where
  \<open>wants_remaining_life prompt \<longleftrightarrow> found_in flag_i REMAINING_LIFE prompt
     \<or> contains (py_lower prompt) ''thickness'' \<and> 3 \<le> length (re_findall no_flags (rx ''~d+(?:~.~d+)?~s*mm~b'') 0 prompt)\<close>

definition MONTH_WORDS :: "(string \<times> int) list" where
  \<open>MONTH_WORDS = [
     (''one'', 1), (''two'', 2), (''three'', 3), (''four'', 4), (''five'', 5), (''six'', 6), (''seven'', 7), (''eight'', 8), (''nine'', 9), (''ten'', 10), (''eleven'', 11), (''twelve'', 12)]\<close>

text \<open>The months a word names: a number word, or a text of digits; zero counts as none.\<close>

definition months_of :: "string \<Rightarrow> pyfloat option" where
  "months_of word = (case map_of MONTH_WORDS word of
      Some n \<Rightarrow> Some (Fin (of_int n))
    | None \<Rightarrow> (if py_isdigit word then
                 let v = float_of False (dec_val word 0) in if nonzero v then Some v else None
               else None))"

definition years_of :: "pyfloat \<Rightarrow> pyfloat" where
  "years_of months = (case months of Fin x \<Rightarrow> Fin (fdiv x 12) | v \<Rightarrow> v)"

definition sop_interval :: "string \<Rightarrow> pyfloat \<times> string" where
  \<open>sop_interval sop =
     (let sop_id = search_group no_flags (rx ''SOP assessment - ([A-Za-z0-9-]+)'') 1 sop;
          r = rx ''~*~*~u00a7([~d.]+)~*~* - ([^~n]+)'';
          required = List.map_filter (\<lambda>h.
            let clause = hit_text (codes_of sop) h 1; action = hit_text (codes_of sop) h 2
            in case search_group flag_i (rx ''interval to (~w+)~s+months?'') 1 action of
                 None \<Rightarrow> None
               | Some w \<Rightarrow> map_option (\<lambda>m. (years_of m, ''the interval ''
                     @ (case sop_id of Some i \<Rightarrow> i @ '' '' | None \<Rightarrow> []) @ lit ''~u00a7'' @ clause @ '' requires''))
                   (months_of (py_lower w))) (re_finditer no_flags r sop)
      in case required of [] \<Rightarrow> (Fin 0, []) | x # _ \<Rightarrow> x)\<close>

text \<open>\<^verbatim>\<open>a - b\<close> on floats.\<close>

definition pf_sub :: "pyfloat \<Rightarrow> pyfloat \<Rightarrow> pyfloat" where
  "pf_sub a b = (case (a, b) of
      (NaN, _) \<Rightarrow> NaN | (_, NaN) \<Rightarrow> NaN
    | (Inf m, Inf n) \<Rightarrow> (if m = n then NaN else Inf m)
    | (Inf m, _) \<Rightarrow> Inf m | (_, Inf n) \<Rightarrow> Inf (\<not> n)
    | (NegZero, Fin y) \<Rightarrow> (if y = 0 then NegZero else Fin (- y))
    | (NegZero, NegZero) \<Rightarrow> Fin 0
    | (Fin x, NegZero) \<Rightarrow> Fin x
    | (Fin x, Fin y) \<Rightarrow> (if overflow_at \<le> \<bar>x - y\<bar> then Inf (x < y) else Fin (fl (x - y))))"

definition fmt_fixed_float :: "nat \<Rightarrow> pyfloat \<Rightarrow> string" where
  "fmt_fixed_float n v = (case v of
      Fin x \<Rightarrow> fmt_fixed n x | NegZero \<Rightarrow> CHR ''-'' # fmt_fixed n 0
    | Inf neg \<Rightarrow> (if neg then ''-inf'' else ''inf'') | NaN \<Rightarrow> ''nan'')"

section \<open>Workbooks and decks\<close>

definition OFFICE_FORMATS :: "(string \<times> re) list" where
  \<open>OFFICE_FORMATS = [
     (''xlsx'', rx ''~b(?:excel|xlsx|spreadsheet|workbook)~b''),
     (''pptx'', rx ''~b(?:power~s?point|pptx|slides?|slide deck|deck|presentation)~b'')]\<close>

definition OFFICE_TOOLS :: "(string \<times> string \<times> string) list" where
  "OFFICE_TOOLS = [(''xlsx'', ''create_spreadsheet'', ''Excel workbook''), (''pptx'', ''create_presentation'', ''PowerPoint deck'')]"

definition office_formats :: "string \<Rightarrow> string list" where
  "office_formats prompt = map fst (filter (\<lambda>(fmt, pattern). found_in flag_i pattern prompt) OFFICE_FORMATS)"

definition office_guidance :: "string list \<Rightarrow> string" where
  \<open>office_guidance formats =
     (if ''xlsx'' \<in> set formats then
        lit (''~n~nThe spreadsheet the request asks for is made by 4CE from this answer once it is approved, '' @
        ''so that part of the request is already taken care of: write only the content that goes in it, '' @
        ''and say nothing about files. Put the figures in markdown tables, one table per sheet, with a '' @
        ''header row, one value per cell, and a unit shared by a whole column in its header rather than '' @
        ''in every cell.'')
      else [])
     @ (if ''pptx'' \<in> set formats then
        lit (''~n~nThe slide deck the request asks for is made by 4CE from this answer once it is approved, so '' @
        ''that part of the request is already taken care of: write only the content that goes in it, and '' @
        ''say nothing about files. Open with the answer in one or two sentences, then give each ### '' @
        ''section three to six short bullet points, one idea per bullet. A table becomes a table slide.'')
        else [])\<close>

section \<open>Properties\<close>

lemma column_step:
  assumes "0 < n"
  shows "nat (int ((n - 1) div 26) * 26 + code_of (char_of (65 + int ((n - 1) mod 26))) - 64) = n"
proof -
  have "(n - 1) mod 26 < 26" by simp
  then have "code_of (char_of (65 + int ((n - 1) mod 26))) = 65 + int ((n - 1) mod 26)" by (intro code_of_char_of) linarith+
  moreover have "(n - 1) div 26 * 26 + (n - 1) mod 26 = n - 1" by (rule div_mult_mod_eq)
  then have "int ((n - 1) div 26) * 26 + int ((n - 1) mod 26) = int n - 1" using assms by linarith
  ultimately show ?thesis by linarith
qed

lemma column_name_from_index:
  "foldl (\<lambda>n ch. nat (int n * 26 + code_of ch - 64)) 0 (column_name_from n ls)
     = foldl (\<lambda>n ch. nat (int n * 26 + code_of ch - 64)) n ls"
proof (induction n ls rule: column_name_from.induct)
  case (1 n ls)
  show ?case
  proof (cases "n = 0")
    case False
    then have "nat (int ((n - 1) div 26) * 26 + code_of (char_of (65 + int ((n - 1) mod 26))) - 64) = n"
      by (intro column_step) simp
    then show ?thesis using "1.IH" [OF False] False
      by (subst column_name_from.simps) (simp only: foldl.simps if_False)
  qed (simp add: column_name_from.simps)
qed

lemma column_index_snoc:
  "column_index (s @ [c]) = nat (int (column_index s) * 26 + code_of c - 64)"
  by (simp add: column_index_def)

lemma column_name_from_letters:
  "list_all is_upper s \<Longrightarrow> column_name_from (column_index s) ls = s @ ls"
proof (induction s arbitrary: ls rule: rev_induct)
  case (snoc c s)
  define m where "m = column_index (s @ [c])"
  have c: "65 \<le> code_of c" "code_of c \<le> 90" using snoc.prems by (simp_all add: is_upper_def)
  have m: "int m = int (column_index s) * 26 + (code_of c - 64)"
    using c by (simp add: m_def column_index_snoc)
  then have p: "0 < m" using c by linarith
  have "int (m - 1) = int (column_index s) * 26 + (code_of c - 65)" using m p by linarith
  then have d: "int (m - 1) div 26 = int (column_index s)" "int (m - 1) mod 26 = code_of c - 65"
    using c by simp_all
  have dn: "(m - 1) div 26 = column_index s" using d(1) by (simp flip: zdiv_int add: of_nat_diff)
  have md: "int ((m - 1) mod 26) = code_of c - 65" using d(2) by (simp add: zmod_int)
  have "column_name_from m ls = column_name_from (column_index s) (c # ls)"
    using p by (subst column_name_from.simps) (simp add: dn [simplified] md [simplified])
  also have "\<dots> = s @ c # ls" using snoc by simp
  finally show ?case by (simp add: m_def)
qed (simp add: column_index_def column_name_from.simps)

text \<open>The letters 4CE computes for a column it adds name that column: numbering a column and naming it are inverse to
  each other, in both directions, for any number of letters.\<close>

lemma column_letters_roundtrip:
  "column_index (column_name n) = n \<and> (list_all is_upper s \<longrightarrow> column_name (column_index s) = s)"
  using column_name_from_index [of n "[]"] column_name_from_letters [of s "[]"]
  by (simp add: column_name_def column_index_def)

lemma column_letters_roundtrip_witness:
  "column_name (column_index ''AZ'') = ''AZ'' \<and> column_index (column_name 53) = 53"
proof -
  have "list_all is_upper ''AZ''" by code_simp
  then show ?thesis using column_letters_roundtrip [of 53 "''AZ''"] by blast
qed

lemma interval_lines_extend: "list_all2 (\<lambda>new old. starts_with new old) (interval_lines ivs phase ls) ls"
  by (induction ivs phase ls rule: interval_lines.induct) (auto simp: starts_with_iff split: option.splits)

lemma interval_lines_no_table:
  "find_table ls = None \<Longrightarrow> interval_lines ivs Before ls = ls"
proof (induction ls rule: find_table.induct)
  case (1 a b ls)
  then show ?case by (auto split: if_splits)
qed auto

text \<open>adding the interval column changes no cell of the survey: every line of the sheet stays, in order, and only
  has text added at its end; with no table in the sheet nothing is added at all.\<close>

lemma interval_column_adds_only:
  "list_all2 (\<lambda>new old. starts_with new old) (interval_lines ivs Before (split_lines sheet)) (split_lines sheet)
   \<and> (find_table (split_lines sheet) = None \<longrightarrow> interval_lines ivs Before (split_lines sheet) = split_lines sheet)"
  using interval_lines_extend interval_lines_no_table by blast

lemma interval_column_adds_only_witness:
  "interval_lines [(2, Fin 1)] Before (split_lines ''no table here'') = split_lines ''no table here''"
proof -
  have "find_table (split_lines ''no table here'') = None" by code_simp
  then show ?thesis using interval_column_adds_only [of "[(2, Fin 1)]" "''no table here''"] by blast
qed

end
