(* ===== verification/Vision.thy ===== *)
theory Vision
  imports Verdicts
begin

text \<open>
  Images in \<^verbatim>\<open>4ce/functions/orchestrator.py\<close>: what kind of image a request carries and the size it is sent at, the reading
  pass that turns it into numbered fields with the box each was read from, the table and checks made of them, and whether
  a text holds readings at all. Pillow is a parameter: \<open>open_image\<close> decodes the text after \<^verbatim>\<open>base64,\<close> into a size and the pixels of a 64 by 64
  copy, and \<open>shrink\<close> returns the encoded smaller copy, both \<open>None\<close> where the code catches what it raises. Fields are
  numbered from one without gaps, no two fields of an answer are the same, and every box lies on the grid.
\<close>

section \<open>Readings in a text\<close>

definition READING_PATTERN :: re where
  \<open>READING_PATTERN = rx (''~d+(?:~.~d+)?~s*(?:drops?~s*(?:per~s*minute|/~s*min|pm)|mm~s*/~s*s|mm|microns?|~u00b5m|um|bar(?:'' @
     ''~s*g)?|kpa|mpa|psi|~u00b0~s*c|deg~s*c|~bc~b|rpm|hz|%|litres?~s*/~s*min|l~s*/~s*min|m3~s*/~s*h)~b'')\<close>

definition has_readings :: "string \<Rightarrow> bool" where
  "has_readings text = found_in flag_i READING_PATTERN text"

section \<open>Images\<close>

text \<open>\<open>pic_pixels\<close> is \<open>None\<close> when converting or resizing the image raises.\<close>

record picture =
  pic_width :: int
  pic_height :: int
  pic_pixels :: "(int \<times> int \<times> int) list option"

type_synonym image_reader = "string \<Rightarrow> picture option"

text \<open>\<^verbatim>\<open>((part or {}).get("image_url") or {}).get("url", "")\<close>.\<close>

definition image_url_of :: "json option \<Rightarrow> py_error + string" where
  "image_url_of part = (case part of
      Some (JObj p) \<Rightarrow>
        (case jor (jget p ''image_url'') (JObj []) of
           JObj u \<Rightarrow> (case dict_get u ''url'' of None \<Rightarrow> Inr [] | Some (JStr s) \<Rightarrow> Inr s | Some _ \<Rightarrow> Inl AttributeError)
         | _ \<Rightarrow> Inl AttributeError)
    | _ \<Rightarrow> Inr [])"

definition inline_image :: "string \<Rightarrow> bool" where
  "inline_image url \<longleftrightarrow> starts_with url ''data:image'' \<and> contains url ''base64,''"

text \<open>\<^verbatim>\<open>url.split("base64,", 1)[1]\<close>.\<close>

definition encoded_part :: "string \<Rightarrow> string" where
  "encoded_part url = snd (snd (partition_at ''base64,'' url))"

definition decode_image :: "image_reader \<Rightarrow> json option \<Rightarrow> py_error + picture option" where
  "decode_image open_image part = (case image_url_of part of
      Inl e \<Rightarrow> Inl e
    | Inr url \<Rightarrow> Inr (if inline_image url then open_image (encoded_part url) else None))"

definition shrink_image :: "(string \<Rightarrow> int \<Rightarrow> string option) \<Rightarrow> json \<Rightarrow> int \<Rightarrow> py_error + json" where
  "shrink_image shrink part max_edge = (case image_url_of (Some part) of
      Inl e \<Rightarrow> Inl e
    | Inr url \<Rightarrow>
        (if inline_image url then
           (case shrink (encoded_part url) max_edge of
              None \<Rightarrow> Inr part
            | Some smaller \<Rightarrow> Inr (JObj [(''type'', JStr ''image_url''),
                (''image_url'', JObj [(''url'', JStr (''data:image/jpeg;base64,'' @ smaller))])]))
         else Inr part))"

definition DRAWING_WORDS :: re where
  \<open>DRAWING_WORDS = rx (''p~s*&~s*ids?~b|~bpids?~b|piping and '' @
     ''instrument|~bdrawings?~b|~bdiagram|~bschematic|~bisometric|~bpfd~b|flow~s?sheet|~bloop '' @
     ''sheet|~blayout~b|~bgeneral arrangement'')\<close>

definition PAGE_WORDS :: re where
  \<open>PAGE_WORDS = rx (''~bhandwrit|~bnotes?~b|~blog(?:s|book|sheet)?~b|~bscan|~bpage~b|~bform~b|~breport~b|~bregister~b|'' @
     ''~bchecklist~b|~bletter~b|~bdata ?sheet'')\<close>

definition looks_like_paper :: "picture \<Rightarrow> bool" where
  "looks_like_paper pic = (case pic_pixels pic of
      None \<Rightarrow> False
    | Some pixels \<Rightarrow>
        (let light = filter (\<lambda>(r, g, b). 170 < min r (min g b) \<and> max r (max g b) - min r (min g b) < 40) pixels
         in fl (3 / 5) < fdiv (of_nat (length light)) (of_nat (length pixels))))"

definition image_kind :: "string \<Rightarrow> picture option \<Rightarrow> string" where
  "image_kind prompt pic =
     (if found_in flag_i DRAWING_WORDS prompt then ''drawing''
      else if found_in flag_i PAGE_WORDS prompt \<or> (case pic of Some p \<Rightarrow> looks_like_paper p | None \<Rightarrow> False) then ''page''
      else ''photo'')"

definition sent_size :: "int \<times> int \<Rightarrow> int option \<Rightarrow> int \<times> int" where
  "sent_size dims edge =
     (let (width, height) = dims; limit = (case edge of Some e \<Rightarrow> e | None \<Rightarrow> 0) in
      if limit \<noteq> 0 \<and> limit < max width height then
        let scale = fdiv (of_int limit) (of_int (max width height))
        in (max 1 (round_even (fmul (of_int width) scale)), max 1 (round_even (fmul (of_int height) scale)))
      else (width, height))"

definition image_rules :: "string \<Rightarrow> bool \<Rightarrow> string" where
  \<open>image_rules kind read =
     lit (''~n~nREADING THE IMAGE: work only from what is visible. Where a word or digit is smudged, faint '' @
     ''or cut off, give your best reading followed by [?] - never fill in a digit you cannot actually '' @
     ''see, and never state an uncertain value as certain.'')
     @ (if kind = ''drawing'' then
          '' This is an engineering drawing.''
          @ (if read then '' Its tags have been read into the numbered table below.''
             else ('' List its tags exactly as written, grouped as equipment, valves, instruments and line numbers - '' @
        ''an instrument bubble with letters above a number, such as PT over 101, is the tag PT-101.''))
          @ ('' Say what connects to what, following the lines and flow arrows; a dashed line is a signal, not '' @
        ''flow. Do not name a tag that is not on the drawing.'')
        else if kind = ''page'' then
          '' This is a page - a scan, a form or a handwritten note.''
          @ (if read then ('' Its readings have been read into the numbered table below: analyse them, refer to each by its '' @
        ''number, as #3, and do not transcribe the page again.'')
             else ('' Transcribe the lines that carry readings or observations, as written, then give each reading '' @
        ''as time, equipment, parameter, value and unit, with your confidence in it: high, medium or low.''))
        else
          ('' This is a photograph. Describe only what is visible - equipment, gauges, nameplates, and '' @
        ''defects such as a leak, corrosion or a missing part - and read a gauge to the nearest mark, '' @
        ''saying so.'')
          @ (if read then '' What it shows has been read into the numbered table below; refer to each by its number.'' else []))\<close>

definition READ_PROMPTS :: "string \<Rightarrow> string" where
  \<open>READ_PROMPTS kind =
     (if kind = ''page'' then
        (''Read every measured value, reading and observation written on this page. Reply with JSON only: '' @
        ''a list with one object per value, with keys "tag" (the equipment tag it belongs to, or ""), '' @
        ''"item" (what was measured or observed, in a few words), "value" (exactly as written), "unit" '' @
        ''(as written, or ""), "time" (if one is written beside it, else ""), "confidence" ("high", '' @
        ''"medium" or "low") and "bbox_2d" [x1, y1, x2, y2] around where the value is written. Where a '' @
        ''digit or word is smudged, faint or unclear, give your best reading followed by [?] and set '' @
        ''confidence to "low" - never fill in a digit you cannot actually see.'')
      else if kind = ''drawing'' then
        (''List every tag and line number on this engineering drawing. Reply with JSON only: a list with '' @
        ''one object per tag, with keys "tag" (exactly as written - an instrument bubble with letters '' @
        ''above a number, such as PT over 101, is the tag PT-101), "type" ("equipment", "valve", '' @
        ''"instrument", "line" or "other"), "confidence" ("high", "medium" or "low") and "bbox_2d" [x1, '' @
        ''y1, x2, y2]. Mark a tag you are not sure of with [?] and set its confidence to "low". Do not '' @
        ''list anything that is not on the drawing.'')
      else
        (''Read every gauge, display, nameplate, tag and label visible in this photograph, and note each '' @
        ''visible defect - a leak, corrosion, a crack, a missing part. Reply with JSON only: a list with '' @
        ''one object per reading or defect, with keys "tag" (the equipment tag, if one is visible, else '' @
        ''""), "item" (what it is, in a few words), "value" (as shown - a needle between two marks is '' @
        ''read to the nearer mark - or the defect seen), "unit", "time" (""), "confidence" ("high", '' @
        ''"medium" or "low") and "bbox_2d" [x1, y1, x2, y2]. Where a digit is unclear, give your best '' @
        ''reading followed by [?] and set confidence to "low" - never fill in a digit you cannot actually '' @
        ''see.''))\<close>

section \<open>Tags\<close>

definition VALVE_CODES :: "string list" where
  \<open>VALVE_CODES = [
     ''HV'', ''FV'', ''PV'', ''LV'', ''TV'', ''XV'', ''NRV'', ''CV'', ''PSV'', ''PRV'', ''SDV'',
     ''BDV'', ''MOV'', ''ESDV'', ''FCV'', ''PCV'', ''LCV'', ''TCV'', ''HCV'']\<close>

definition INSTRUMENT_CODES :: "string list" where
  \<open>INSTRUMENT_CODES = [
     ''FE'', ''FT'', ''FI'', ''FIC'', ''FC'', ''FR'', ''FY'', ''FQ'', ''FS'', ''PT'', ''PI'',
     ''PIC'', ''PC'', ''PG'', ''PS'', ''PSH'', ''PSL'', ''PDT'', ''PDI'', ''TT'', ''TI'', ''TIC'',
     ''TC'', ''TE'', ''TG'', ''TS'', ''TW'', ''LT'', ''LI'', ''LIC'', ''LC'', ''LG'', ''LS'',
     ''LSH'', ''LSL'', ''AT'', ''AI'', ''AE'', ''SE'', ''ST'', ''SI'', ''VT'', ''VE'', ''VI'',
     ''ZT'', ''ZS'', ''ZI'']\<close>

definition TAG_TOKEN :: re where
  \<open>TAG_TOKEN = rx ''~d+(?:~.~d+)?"-[~w-]+|~b[A-Z]{1,5}-~d{2,5}[A-Z]?(?:/[A-Z])?~b''\<close>

definition TYPE_ORDER :: "string list" where
  \<open>TYPE_ORDER = [
     ''equipment'', ''valve'', ''instrument'', ''line'', ''other'']\<close>

definition squeezed :: "string \<Rightarrow> string" where
  "squeezed s = join_with '' '' (words_of s)"

definition normal_tag :: "string \<Rightarrow> string" where
  \<open>normal_tag given =
     (let label = squeezed (replace_all (lit ''~u2033'') ''"'' (replace_all (lit ''~u201d'') ''"'' given));
          r = rx ''([A-Z]{1,5})~s+(~d{2,5}[A-Z]?)~Z''
      in case (match_group no_flags r 1 label, match_group no_flags r 2 label) of
           (Some a, Some b) \<Rightarrow> a @ ''-'' @ b
         | _ \<Rightarrow> label)\<close>

definition tag_type :: "string \<Rightarrow> json \<Rightarrow> string" where
  \<open>tag_type tag stated =
     (if re_match no_flags (rx ''~d+(?:~.~d+)?"'') tag \<noteq> None then ''line''
      else
        let code = (case match_group no_flags (rx ''[A-Z]+'') 0 tag of Some c \<Rightarrow> c | None \<Rightarrow> []) in
        if code \<in> set VALVE_CODES then ''valve''
        else if code \<in> set INSTRUMENT_CODES then ''instrument''
        else if length code = 1 \<and> found_in no_flags (rx ''~d'') tag then ''equipment''
        else
          let said = py_lower (py_strip (py_str (jor stated (JStr []))))
          in if said \<in> set TYPE_ORDER then said else ''other'')\<close>

section \<open>Boxes\<close>

text \<open>A number of a box: an \<^verbatim>\<open>int\<close> (or \<^verbatim>\<open>bool\<close>) or a \<^verbatim>\<open>float\<close>.\<close>

datatype num = NInt int | NFlt pyfloat

definition num_of :: "json \<Rightarrow> num option" where
  "num_of v = (case v of JInt i \<Rightarrow> Some (NInt i) | JBool b \<Rightarrow> Some (NInt (of_bool b)) | JFloat x \<Rightarrow> Some (NFlt x) | _ \<Rightarrow> None)"

text \<open>\<^verbatim>\<open>a > b\<close>; a comparison with \<^verbatim>\<open>nan\<close> is false.\<close>

definition num_float :: "num \<Rightarrow> pyfloat" where
  "num_float n = (case n of NInt i \<Rightarrow> Fin (of_int i) | NFlt NegZero \<Rightarrow> Fin 0 | NFlt x \<Rightarrow> x)"

definition num_gt :: "num \<Rightarrow> num \<Rightarrow> bool" where
  "num_gt a b = (case (num_float a, num_float b) of
      (Fin x, Fin y) \<Rightarrow> y < x | (Fin x, Inf neg) \<Rightarrow> neg | (Inf neg, Fin y) \<Rightarrow> \<not> neg | (Inf m, Inf n) \<Rightarrow> \<not> m \<and> n
    | _ \<Rightarrow> False)"

definition num_max :: "num list \<Rightarrow> num" where
  "num_max ns = foldl (\<lambda>m v. if num_gt v m then v else m) (hd ns) (tl ns)"

text \<open>\<^verbatim>\<open>min(1000, max(0, v))\<close>.\<close>

definition clamp :: "num \<Rightarrow> num" where
  "clamp v = (if num_gt v (NInt 0) then (if num_gt (NInt 1000) v then v else NInt 1000) else NInt 0)"

text \<open>\<^verbatim>\<open>v * 1000 / s\<close>.\<close>

definition onto_grid :: "num \<Rightarrow> int \<Rightarrow> py_error + num" where
  "onto_grid v s = (case v of
      NInt i \<Rightarrow> (if overflow_at \<le> \<bar>of_int (i * 1000) / of_int s\<bar> then Inl OverflowError
                 else Inr (NFlt (Fin (fl (of_int (i * 1000) / of_int s)))))
    | NFlt (Fin x) \<Rightarrow> Inr (NFlt (if overflow_at \<le> \<bar>x * 1000\<bar> then Inf (x < 0) else Fin (fdiv (fmul x 1000) (of_int s))))
    | NFlt x \<Rightarrow> Inr (NFlt x))"

text \<open>The value of a number on the grid.\<close>

definition on_grid :: "num \<Rightarrow> rat" where
  "on_grid n = (case num_float n of Fin x \<Rightarrow> x | _ \<Rightarrow> 0)"

type_synonym box = "num \<times> num \<times> num \<times> num"

definition sorted2 :: "num \<Rightarrow> num \<Rightarrow> num \<times> num" where
  "sorted2 a b = (if num_gt a b then (b, a) else (a, b))"

definition grid_box :: "num list \<Rightarrow> box option" where
  "grid_box b =
     (let (x1, x2) = sorted2 (clamp (b ! 0)) (clamp (b ! 2)); (y1, y2) = sorted2 (clamp (b ! 1)) (clamp (b ! 3))
      in if num_gt x2 x1 \<and> num_gt y2 y1 then Some (x1, y1, x2, y2) else None)"

definition box_of :: "json \<Rightarrow> int \<times> int \<Rightarrow> py_error + box option" where
  "box_of v sent = (case v of
      JList vs \<Rightarrow>
        (if length vs = 4 \<and> list_all (\<lambda>x. num_of x \<noteq> None) vs then
           let b = List.map_filter num_of vs in
           if num_gt (num_max b) (NInt 1000) then
             (case (onto_grid (b ! 0) (fst sent), onto_grid (b ! 1) (snd sent),
                    onto_grid (b ! 2) (fst sent), onto_grid (b ! 3) (snd sent)) of
                (Inr x1, Inr y1, Inr x2, Inr y2) \<Rightarrow> Inr (grid_box [x1, y1, x2, y2])
              | _ \<Rightarrow> Inl OverflowError)
           else Inr (grid_box b)
         else Inr None)
    | _ \<Rightarrow> Inr None)"

section \<open>Fields\<close>

text \<open>A drawing's field has a type; any other has an item, a unit and a time.\<close>

record field =
  fd_tag :: string
  fd_type :: string
  fd_item :: string
  fd_value :: string
  fd_unit :: string
  fd_time :: string
  fd_confidence :: string
  fd_box :: "box option"
  fd_check :: bool
  fd_n :: nat

definition text_field :: "json pydict \<Rightarrow> string \<Rightarrow> string" where
  "text_field item k = py_str (jor (jget item k) (JStr []))"

definition confidence_of :: "json pydict \<Rightarrow> string" where
  "confidence_of item =
     (let c = py_lower (py_strip (text_field item ''confidence''))
      in if c \<in> {''high'', ''medium'', ''low''} then c else ''unstated'')"

definition bare_field :: field where
  "bare_field = \<lparr>fd_tag = [], fd_type = [], fd_item = [], fd_value = [], fd_unit = [], fd_time = [], fd_confidence = [],
     fd_box = None, fd_check = False, fd_n = 0\<rparr>"

definition drawing_field :: "json pydict \<Rightarrow> field option" where
  "drawing_field item =
     (let tag = normal_tag (text_field item ''tag''); ws = words_of tag;
          named = (if 1 < length ws then
                     (case search_group no_flags TAG_TOKEN 0 tag of
                        Some t \<Rightarrow> if 3 < length ws then None else Some t
                      | None \<Rightarrow> None)
                   else if found_in no_flags TAG_TOKEN (replace_all ''[?]'' [] tag) then Some tag else None)
      in map_option (\<lambda>t. bare_field\<lparr>fd_tag := t, fd_type := tag_type t (jget item ''type''), fd_value := t\<rparr>) named)"

definition without_unit :: "string \<Rightarrow> string \<Rightarrow> string" where
  "without_unit value unit =
     (let cut = py_strip (take (length value - length unit) value)
      in if unit \<noteq> [] \<and> ends_with (py_lower value) (py_lower unit) \<and> cut \<noteq> [] then cut else value)"

definition page_field :: "json pydict \<Rightarrow> field option" where
  "page_field item =
     (let value = squeezed (text_field item ''value''); unit = squeezed (text_field item ''unit'') in
      if value = [] then None
      else Some (bare_field\<lparr>fd_tag := normal_tag (text_field item ''tag''), fd_item := squeezed (text_field item ''item''),
             fd_value := without_unit value unit, fd_unit := unit, fd_time := squeezed (text_field item ''time'')\<rparr>))"

text \<open>What makes two fields the same.\<close>

definition field_key :: "string \<Rightarrow> field \<Rightarrow> string \<times> string \<times> string" where
  "field_key kind f =
     (if kind = ''drawing'' then (py_lower (fd_tag f), [], [])
      else (py_lower (fd_tag f), py_lower (fd_item f), py_lower (fd_value f)))"

definition add_field :: "string \<Rightarrow> int \<times> int \<Rightarrow> field list \<Rightarrow> json pydict \<Rightarrow> py_error + field list" where
  "add_field kind sent fs item =
     (case box_of (jget item ''bbox_2d'') sent of
        Inl e \<Rightarrow> Inl e
      | Inr box \<Rightarrow>
          (case (if kind = ''drawing'' then drawing_field item else page_field item) of
             None \<Rightarrow> Inr fs
           | Some f \<Rightarrow>
               (if list_ex (\<lambda>g. field_key kind g = field_key kind f) fs then Inr fs
                else let sure = confidence_of item in
                  Inr (fs @ [f\<lparr>fd_confidence := sure, fd_box := box,
                        fd_check := sure \<noteq> ''high'' \<or> contains (fd_value f) ''?''\<rparr>]))))"

fun add_fields :: "string \<Rightarrow> int \<times> int \<Rightarrow> field list \<Rightarrow> string list \<Rightarrow> py_error + field list" where
  "add_fields kind sent fs [] = Inr fs"
| "add_fields kind sent fs (chunk # cs) = (case loads_text chunk of
      Some (JObj item) \<Rightarrow> (case add_field kind sent fs item of
          Inl e \<Rightarrow> Inl e | Inr fs' \<Rightarrow> add_fields kind sent fs' cs)
    | _ \<Rightarrow> add_fields kind sent fs cs)"

fun index_in :: "string \<Rightarrow> string list \<Rightarrow> nat" where
  "index_in x [] = 0"
| "index_in x (y # ys) = (if x = y then 0 else Suc (index_in x ys))"

text \<open>The two sorts of the code, by a tuple of keys: a stable sort by the last key first.\<close>

definition ordered_fields :: "string \<Rightarrow> field list \<Rightarrow> field list" where
  "ordered_fields kind fs =
     (if kind = ''drawing'' then sort_key (\<lambda>f. index_in (fd_type f) TYPE_ORDER) (sort_key fd_tag fs)
      else sort_key (\<lambda>f. fd_box f = None)
             (sort_key (\<lambda>f. case fd_box f of Some (x1, y1, x2, y2) \<Rightarrow> on_grid y1 | None \<Rightarrow> 0)
               (sort_key (\<lambda>f. case fd_box f of Some (x1, y1, x2, y2) \<Rightarrow> on_grid x1 | None \<Rightarrow> 0) fs)))"

definition number_fields :: "field list \<Rightarrow> field list" where
  "number_fields fs = map (\<lambda>(n, f). f\<lparr>fd_n := n\<rparr>) (enumerate 1 (take 60 fs))"

definition parse_fields :: "string \<Rightarrow> string \<Rightarrow> int \<times> int \<Rightarrow> py_error + field list" where
  \<open>parse_fields text kind sent =
     (case add_fields kind sent [] (re_findall no_flags (rx ''~{[^{}]*~}'') 0 text) of
        Inl e \<Rightarrow> Inl e
      | Inr fs \<Rightarrow> Inr (number_fields (ordered_fields kind fs)))\<close>

section \<open>What the reviewer sees\<close>

text \<open>\<^verbatim>\<open>round(x * width / 1000)\<close>.\<close>

definition to_pixel :: "num \<Rightarrow> int \<Rightarrow> int" where
  "to_pixel v dims = (case v of
      NInt i \<Rightarrow> round_even (fl (of_int (i * dims) / 1000))
    | NFlt x \<Rightarrow> round_even (fdiv (fmul (on_grid (NFlt x)) (of_int dims)) 1000))"

definition where_text :: "box option \<Rightarrow> int \<times> int \<Rightarrow> string" where
  \<open>where_text b dims = (case b of
      None \<Rightarrow> ''-''
    | Some (x1, y1, x2, y2) \<Rightarrow>
        str_int (to_pixel x1 (fst dims)) @ '','' @ str_int (to_pixel y1 (snd dims)) @ lit '' ~u2192 ''
        @ str_int (to_pixel x2 (fst dims)) @ '','' @ str_int (to_pixel y2 (snd dims)))\<close>

definition cell_text :: "string \<Rightarrow> string" where
  "cell_text s = or_text (py_strip (replace_all ''|'' ''/'' (or_text s ''-''))) ''-''"

definition sure_text :: "field \<Rightarrow> string" where
  \<open>sure_text f = fd_confidence f @ (if fd_check f then lit '' ~u00b7 **check**'' else [])\<close>

definition drawing_line :: "int \<times> int \<Rightarrow> field \<Rightarrow> string" where
  "drawing_line dims f = ''| '' @ str_nat (fd_n f) @ '' | '' @ cell_text (fd_tag f) @ '' | '' @ py_capitalize (fd_type f)
     @ '' | '' @ sure_text f @ '' | '' @ where_text (fd_box f) dims @ '' |''"

definition page_line :: "bool \<Rightarrow> int \<times> int \<Rightarrow> field \<Rightarrow> string" where
  "page_line timed dims f = ''| '' @ str_nat (fd_n f) @ '' |'' @ (if timed then '' '' @ cell_text (fd_time f) @ '' |'' else [])
     @ '' '' @ cell_text (fd_tag f) @ '' | '' @ cell_text (fd_item f) @ '' | '' @ cell_text (fd_value f) @ '' | ''
     @ cell_text (fd_unit f) @ '' | '' @ sure_text f @ '' | '' @ where_text (fd_box f) dims @ '' |''"

definition fields_table :: "field list \<Rightarrow> string \<Rightarrow> int \<times> int \<Rightarrow> string" where
  "fields_table fs kind dims =
     (if kind = ''drawing'' then
        join_with nl ([''| # | Tag | Type | Confidence | Where (px) |'', ''|---|---|---|---|---|''] @ map (drawing_line dims) fs)
      else
        let timed = list_ex (\<lambda>f. fd_time f \<noteq> []) fs in
        join_with nl ([''| # |'' @ (if timed then '' Time |'' else []) @ '' Tag | Item | Value | Unit | Confidence | Where (px) |'',
                       ''|---|'' @ (if timed then ''---|'' else []) @ ''---|---|---|---|---|---|'']
                      @ map (page_line timed dims) fs))"

definition readings_text :: "field list \<Rightarrow> string" where
  "readings_text fs = join_with nl (map (\<lambda>f.
     let value = py_strip (replace_all ''[?]'' [] (fd_value f));
         lead = join_with '' '' (filter (\<lambda>p. p \<noteq> []) [fd_time f, fd_tag f, fd_item f])
     in py_strip (lead @ '': '' @ value @ '' '' @ fd_unit f)) fs)"

text \<open>What the reading pass returns.\<close>

record reading =
  rd_kind :: string
  rd_fields :: "field list"
  rd_table :: string
  rd_section :: string
  rd_readings :: string
  rd_image_url :: string

definition flagged_check :: "string \<Rightarrow> field \<Rightarrow> check" where
  "flagged_check kind f =
     (let what = (if kind = ''drawing'' then fd_tag f
                  else join_with '' '' (filter (\<lambda>p. p \<noteq> []) [fd_tag f, fd_item f]) @ '', '' @ fd_value f
                       @ (if fd_unit f \<noteq> [] then '' '' @ fd_unit f else []))
      in plain_check ''unverified'' (''#'' @ str_nat (fd_n f) @ '' '' @ what @ '', was read with '' @ fd_confidence f
           @ '' confidence - check it against box '' @ str_nat (fd_n f)) ''4CE'')"

definition reading_checks :: "reading \<Rightarrow> check list" where
  "reading_checks r =
     (let fs = rd_fields r; flagged = filter fd_check fs;
          place = (if rd_kind r = ''drawing'' then ''drawing'' else ''image'')
      in if fs = [] then []
         else plain_check ''ok'' (count_of (length fs) ''field'' @ '' read from the '' @ place
                @ '', each boxed where it was read''
                @ (if flagged \<noteq> [] then ''; '' @ str_nat (length fs - length flagged) @ '' with full confidence''
                   else '', all with full confidence'')) ''4CE''
              # map (flagged_check (rd_kind r)) (take 4 flagged))"

section \<open>What the reading pass guarantees\<close>

definition box_ok :: "box \<Rightarrow> bool" where
  "box_ok b = (case b of (x1, y1, x2, y2) \<Rightarrow>
     0 \<le> on_grid x1 \<and> on_grid x1 < on_grid x2 \<and> on_grid x2 \<le> 1000
     \<and> 0 \<le> on_grid y1 \<and> on_grid y1 < on_grid y2 \<and> on_grid y2 \<le> 1000)"

definition field_ok :: "field \<Rightarrow> bool" where
  "field_ok f \<longleftrightarrow> (\<forall>b. fd_box f = Some b \<longrightarrow> box_ok b)
     \<and> (fd_check f \<or> fd_confidence f = ''high'' \<and> \<not> contains (fd_value f) ''?'')"

lemma clamp_range: "\<exists>x. num_float (clamp v) = Fin x \<and> 0 \<le> x \<and> x \<le> 1000"
  by (cases "num_float v") (auto simp: clamp_def num_gt_def num_float_def [of "NInt _"])

lemma grid_box_ok: "grid_box ns = Some b \<Longrightarrow> box_ok b"
proof -
  assume g: "grid_box ns = Some b"
  have *: "0 \<le> on_grid u \<and> on_grid u < on_grid w \<and> on_grid w \<le> 1000"
    if "sorted2 (clamp v) (clamp v') = (u, w)" "num_gt w u" for v v' u w
    using that clamp_range [of v] clamp_range [of v']
    by (auto simp: sorted2_def on_grid_def num_gt_def split: if_splits)
  show ?thesis using g * by (auto simp: grid_box_def box_ok_def split: prod.splits if_splits)
qed

lemma box_of_ok: "box_of v sent = Inr (Some b) \<Longrightarrow> box_ok b"
  by (auto simp: box_of_def Let_def split: json.splits if_splits sum.splits dest: grid_box_ok)

lemma field_key_simps [simp]:
  "field_key kind (f\<lparr>fd_confidence := c, fd_box := b, fd_check := k\<rparr>) = field_key kind f"
  "field_key kind (f\<lparr>fd_n := n\<rparr>) = field_key kind f"
  by (simp_all add: field_key_def)

definition fields_ok :: "string \<Rightarrow> field list \<Rightarrow> bool" where
  "fields_ok kind fs \<longleftrightarrow> distinct (map (field_key kind) fs) \<and> list_all field_ok fs"

lemma add_field_ok: "add_field kind sent fs item = Inr gs \<Longrightarrow> fields_ok kind fs \<Longrightarrow> fields_ok kind gs"
  by (fastforce simp: add_field_def fields_ok_def field_ok_def list_ex_iff Let_def
      split: sum.splits option.splits if_splits dest: box_of_ok)

lemma add_fields_ok: "add_fields kind sent fs cs = Inr gs \<Longrightarrow> fields_ok kind fs \<Longrightarrow> fields_ok kind gs"
proof (induction kind sent fs cs rule: add_fields.induct)
  case (2 kind sent fs c cs)
  show ?case
  proof (cases "\<exists>item. loads_text c = Some (JObj item)")
    case True
    then obtain item where c: "loads_text c = Some (JObj item)" by blast
    then obtain fs' where a: "add_field kind sent fs item = Inr fs'" "add_fields kind sent fs' cs = Inr gs"
      using "2.prems"(1) by (auto split: sum.splits)
    show ?thesis using "2.IH" c a add_field_ok [OF a(1) "2.prems"(2)] by blast
  next
    case False
    then show ?thesis using "2" by (auto split: option.splits json.splits)
  qed
qed simp

lemma ordered_fields_ok: "fields_ok kind fs \<Longrightarrow> fields_ok kind (ordered_fields kind fs)"
  by (auto simp: fields_ok_def ordered_fields_def distinct_map list_all_iff)

lemma number_fields_nth:
  "length (number_fields fs) = min (length fs) 60"
  "i < min (length fs) 60 \<Longrightarrow> number_fields fs ! i = (fs ! i)\<lparr>fd_n := i + 1\<rparr>"
  by (simp_all add: number_fields_def nth_enumerate_eq)

lemma number_fields_simps:
  "map fd_n (number_fields fs) = [1..<length (number_fields fs) + 1]"
  "map (field_key kind) (number_fields fs) = map (field_key kind) (take 60 fs)"
  by (rule nth_equalityI; simp add: number_fields_nth del: upt_Suc)+

lemma number_fields_ok: "list_all field_ok fs \<Longrightarrow> list_all field_ok (number_fields fs)"
  by (auto simp: list_all_length number_fields_nth field_ok_def)

lemma parse_fields_Inr:
  assumes "parse_fields reply kind sent = Inr fs"
  shows "\<exists>cs gs. add_fields kind sent [] cs = Inr gs \<and> fs = number_fields (ordered_fields kind gs)"
proof (cases "add_fields kind sent [] (re_findall no_flags (rx ''~{[^{}]*~}'') 0 reply)")
  case (Inr gs)
  then show ?thesis using assms by (simp only: parse_fields_def sum.case sum.inject) blast
next
  case (Inl e)
  then show ?thesis using assms by (simp only: parse_fields_def sum.case) blast
qed



end
