(* ===== verification/Difflib.thy ===== *)
theory Difflib
  imports Prelude Py_Float
begin

text \<open>
  Python's \<^verbatim>\<open>difflib.SequenceMatcher\<close> as \<^verbatim>\<open>_revision\<close> uses it: the longest common block by the row-by-row scan over the
  positions of each element, the matching blocks on both sides of it, the edit operations between the blocks, and the
  similarity ratio. With \<open>autojunk\<close> an element that fills more than one hundredth of a second sequence of at least two hundred is left out
  of the scan. No element is junk. The recursion on both sides of a block ends because a block lies inside the ranges
  it was searched in.
\<close>

section \<open>The longest matching block\<close>

type_synonym block = "nat \<times> nat \<times> nat"

definition positions :: "bool \<Rightarrow> 'a list \<Rightarrow> 'a \<Rightarrow> nat list" where
  "positions autojunk b x =
     (if autojunk \<and> 200 \<le> length b \<and> length b div 100 + 1 < count_list b x then []
      else filter (\<lambda>j. b ! j = x) [0..<length b])"

definition length_before :: "(nat \<times> nat) list \<Rightarrow> nat \<Rightarrow> nat" where
  "length_before row j = (if j = 0 then 0 else case map_of row (j - 1) of Some k \<Rightarrow> k | None \<Rightarrow> 0)"

text \<open>One row of the scan: the lengths of the matches that end at \<open>i\<close> and at each position of \<open>b\<close>.\<close>

fun scan_row :: "nat \<Rightarrow> (nat \<times> nat) list \<Rightarrow> nat list \<Rightarrow> (nat \<times> nat) list \<Rightarrow> block \<Rightarrow> (nat \<times> nat) list \<times> block" where
  "scan_row i prev [] row best = (row, best)"
| "scan_row i prev (j # js) row best =
     (let k = length_before prev j + 1;
          best' = (if snd (snd best) < k then (i + 1 - k, j + 1 - k, k) else best)
      in scan_row i prev js ((j, k) # row) best')"

fun scan_rows :: "bool \<Rightarrow> 'a list \<Rightarrow> 'a list \<Rightarrow> nat \<Rightarrow> nat \<Rightarrow> (nat \<times> nat) list \<Rightarrow> block \<Rightarrow> nat list \<Rightarrow> block" where
  "scan_rows autojunk a b blo bhi row best [] = best"
| "scan_rows autojunk a b blo bhi row best (i # is) =
     (let js = filter (\<lambda>j. blo \<le> j \<and> j < bhi) (positions autojunk b (a ! i));
          (row', best') = scan_row i row js [] best
      in scan_rows autojunk a b blo bhi row' best' is)"

fun extend_left :: "'a list \<Rightarrow> 'a list \<Rightarrow> nat \<Rightarrow> nat \<Rightarrow> nat \<Rightarrow> nat \<Rightarrow> nat \<Rightarrow> block" where
  "extend_left a b alo blo 0 j k = (0, j, k)"
| "extend_left a b alo blo (Suc i) j k =
     (if alo \<le> i \<and> blo < j \<and> a ! i = b ! (j - 1) then extend_left a b alo blo i (j - 1) (k + 1) else (Suc i, j, k))"

function extend_right :: "'a list \<Rightarrow> 'a list \<Rightarrow> nat \<Rightarrow> nat \<Rightarrow> nat \<Rightarrow> nat \<Rightarrow> nat \<Rightarrow> nat" where
  "extend_right a b ahi bhi i j k =
     (if i + k < ahi \<and> j + k < bhi \<and> a ! (i + k) = b ! (j + k) then extend_right a b ahi bhi i j (k + 1) else k)"
  by pat_completeness auto
termination by (relation "measure (\<lambda>(a, b, ahi, bhi, i, j, k). ahi - (i + k))") auto

declare extend_right.simps [simp del]

definition longest_match :: "bool \<Rightarrow> 'a list \<Rightarrow> 'a list \<Rightarrow> nat \<Rightarrow> nat \<Rightarrow> nat \<Rightarrow> nat \<Rightarrow> block" where
  "longest_match autojunk a b alo ahi blo bhi =
     (let (i, j, k) = scan_rows autojunk a b blo bhi [] (alo, blo, 0) [alo..<ahi];
          (i, j, k) = extend_left a b alo blo i j k
      in (i, j, extend_right a b ahi bhi i j k))"

section \<open>A block lies in its ranges and matches\<close>

definition in_range :: "nat \<Rightarrow> nat \<Rightarrow> nat \<Rightarrow> nat \<Rightarrow> block \<Rightarrow> bool" where
  "in_range alo ahi blo bhi = (\<lambda>(i, j, k). alo \<le> i \<and> blo \<le> j \<and> (0 < k \<longrightarrow> i + k \<le> ahi \<and> j + k \<le> bhi))"

definition agrees :: "'a list \<Rightarrow> 'a list \<Rightarrow> block \<Rightarrow> bool" where
  "agrees a b = (\<lambda>(i, j, k). \<forall>t<k. a ! (i + t) = b ! (j + t))"

text \<open>A row of the scan at \<open>i\<close> holds lengths of matches that end there.\<close>

definition row_ok :: "'a list \<Rightarrow> 'a list \<Rightarrow> nat \<Rightarrow> nat \<Rightarrow> nat \<Rightarrow> nat \<Rightarrow> (nat \<times> nat) list \<Rightarrow> bool" where
  "row_ok a b alo blo bhi i row \<longleftrightarrow> (\<forall>(j, k) \<in> set row. blo \<le> j \<and> j < bhi \<and> 0 < k \<and> alo + k \<le> i + 1 \<and> blo + k \<le> j + 1
     \<and> (\<forall>t<k. a ! (i + 1 - k + t) = b ! (j + 1 - k + t)))"

lemma row_ok_Cons:
  assumes prev: "i = alo \<and> prev = [] \<or> alo < i \<and> row_ok a b alo blo bhi (i - 1) prev"
    and j: "blo \<le> j" "j < bhi" "a ! i = b ! j" and row: "row_ok a b alo blo bhi i row"
  shows "row_ok a b alo blo bhi i ((j, length_before prev j + 1) # row)"
proof (cases "length_before prev j = 0")
  case True
  then show ?thesis using j row prev by (auto simp: row_ok_def)
next
  case False
  then obtain k where k: "map_of prev (j - 1) = Some k" "length_before prev j = k" "0 < j"
    by (auto simp: length_before_def split: if_splits option.splits)
  then have "(j - 1, k) \<in> set prev" by (rule_tac map_of_SomeD)
  then have p: "alo < i" "blo \<le> j - 1" "0 < k" "alo + k \<le> i" "blo + k \<le> j"
    "\<forall>t<k. a ! (i - k + t) = b ! (j - k + t)"
    using prev k(3) by (fastforce simp: row_ok_def)+
  have "a ! (i - k + t) = b ! (j - k + t)" if "t < k + 1" for t
    using that p j(3) by (cases "t = k") auto
  then show ?thesis using p k j row by (auto simp: row_ok_def)
qed

lemma scan_row_Cons:
  "scan_row i prev (j # js) row best =
     scan_row i prev js ((j, length_before prev j + 1) # row)
       (if snd (snd best) < length_before prev j + 1
        then (i + 1 - (length_before prev j + 1), j + 1 - (length_before prev j + 1), length_before prev j + 1) else best)"
  by (simp add: Let_def)

lemma scan_row_ok:
  assumes "i = alo \<and> prev = [] \<or> alo < i \<and> row_ok a b alo blo bhi (i - 1) prev" "i < ahi"
    and "\<forall>j \<in> set js. blo \<le> j \<and> j < bhi \<and> a ! i = b ! j" "row_ok a b alo blo bhi i row"
    and "in_range alo ahi blo bhi best" "agrees a b best" "scan_row i prev js row best = (row', best')"
  shows "row_ok a b alo blo bhi i row' \<and> in_range alo ahi blo bhi best' \<and> agrees a b best'"
  using assms(3-)
proof (induction js arbitrary: row best)
  case (Cons j js)
  define k where "k = length_before prev j + 1"
  have r: "row_ok a b alo blo bhi i ((j, k) # row)"
    unfolding k_def by (rule row_ok_Cons [OF assms(1)]) (use Cons.prems in auto)
  let ?b = "if snd (snd best) < k then (i + 1 - k, j + 1 - k, k) else best"
  have "in_range alo ahi blo bhi ?b \<and> agrees a b ?b"
    using r Cons.prems assms(2) by (auto simp: row_ok_def in_range_def agrees_def)
  moreover have "scan_row i prev js ((j, k) # row) ?b = (row', best')"
    using Cons.prems(5) unfolding scan_row_Cons k_def .
  ultimately show ?case using Cons.IH [OF _ r, of ?b] Cons.prems(1) by simp
qed simp

lemma positions_nth: "j \<in> set (positions autojunk b x) \<Longrightarrow> b ! j = x"
  by (auto simp: positions_def split: if_splits)

lemma scan_rows_ok:
  assumes "m = alo \<and> row = [] \<or> alo < m \<and> row_ok a b alo blo bhi (m - 1) row" "m \<le> ahi"
    and "in_range alo ahi blo bhi best" "agrees a b best"
  shows "in_range alo ahi blo bhi (scan_rows autojunk a b blo bhi row best [m..<ahi])
    \<and> agrees a b (scan_rows autojunk a b blo bhi row best [m..<ahi])"
  using assms
proof (induction "ahi - m" arbitrary: m row best)
  case (Suc n)
  then have m: "m < ahi" by simp
  define js where "js = filter (\<lambda>j. blo \<le> j \<and> j < bhi) (positions autojunk b (a ! m))"
  obtain row' best' where s: "scan_row m row js [] best = (row', best')" by (cases "scan_row m row js [] best")
  have "row_ok a b alo blo bhi m row' \<and> in_range alo ahi blo bhi best' \<and> agrees a b best'"
    by (rule scan_row_ok [OF Suc.prems(1) m _ _ Suc.prems(3,4) s])
      (auto simp: js_def row_ok_def dest: positions_nth)
  then have "in_range alo ahi blo bhi (scan_rows autojunk a b blo bhi row' best' [Suc m..<ahi])
      \<and> agrees a b (scan_rows autojunk a b blo bhi row' best' [Suc m..<ahi])"
    using Suc.hyps(2) Suc.prems(1) m by (intro Suc.hyps(1)) auto
  then show ?case using s by (simp add: upt_conv_Cons [OF m] js_def [symmetric])
qed simp

lemma extend_left_ok:
  "in_range alo ahi blo bhi (i, j, k) \<Longrightarrow> agrees a b (i, j, k) \<Longrightarrow> 0 < k \<Longrightarrow>
   in_range alo ahi blo bhi (extend_left a b alo blo i j k) \<and> agrees a b (extend_left a b alo blo i j k)
   \<and> 0 < snd (snd (extend_left a b alo blo i j k))"
proof (induction i arbitrary: j k)
  case (Suc i)
  show ?case
  proof (cases "alo \<le> i \<and> blo < j \<and> a ! i = b ! (j - 1)")
    case True
    have "a ! (i + t) = b ! (j - 1 + t)" if "t < k + 1" for t
      using that True Suc.prems(2) by (cases t) (auto simp: agrees_def)
    then have "agrees a b (i, j - 1, k + 1)" by (simp add: agrees_def)
    moreover have "in_range alo ahi blo bhi (i, j - 1, k + 1)" using Suc.prems True by (auto simp: in_range_def)
    ultimately show ?thesis using Suc.IH [of "j - 1" "k + 1"] True by simp
  qed (use Suc.prems in auto)
qed simp

lemma extend_right_ok:
  assumes "in_range alo ahi blo bhi (i, j, k)" "agrees a b (i, j, k)"
  shows "in_range alo ahi blo bhi (i, j, extend_right a b ahi bhi i j k) \<and> agrees a b (i, j, extend_right a b ahi bhi i j k)"
  using assms
proof (induction a b ahi bhi i j k rule: extend_right.induct)
  case (1 a b ahi bhi i j k)
  show ?case
  proof (cases "i + k < ahi \<and> j + k < bhi \<and> a ! (i + k) = b ! (j + k)")
    case True
    then have "in_range alo ahi blo bhi (i, j, k + 1)" "agrees a b (i, j, k + 1)"
      using "1.prems" by (auto simp: in_range_def agrees_def less_Suc_eq)
    then show ?thesis using "1.IH" [OF True] True by (simp add: extend_right.simps [of a b ahi bhi i j k])
  next
    case False
    then show ?thesis using "1.prems" by (subst (1 2) extend_right.simps) auto
  qed
qed

text \<open>Nothing to the left of an empty block can match: the scan starts it at the corner of the ranges.\<close>

lemma scan_row_zero:
  "scan_row i prev js row best = (row', best') \<Longrightarrow> snd (snd best') = 0 \<Longrightarrow> best' = best"
proof (induction js arbitrary: row best)
  case (Cons j js)
  define k where "k = length_before prev j + 1"
  define best1 where "best1 = (if snd (snd best) < k then (i + 1 - k, j + 1 - k, k) else best)"
  have "scan_row i prev js ((j, k) # row) best1 = (row', best')"
    using Cons.prems(1) unfolding scan_row_Cons k_def best1_def .
  then have "best' = best1" using Cons.IH Cons.prems(2) by blast
  then show ?case using Cons.prems(2) by (auto simp: best1_def k_def split: if_splits)
qed simp

lemma scan_rows_zero:
  "snd (snd (scan_rows autojunk a b blo bhi row best is)) = 0 \<Longrightarrow> scan_rows autojunk a b blo bhi row best is = best"
proof (induction "is" arbitrary: row best)
  case (Cons i "is")
  obtain row' best' where s: "scan_row i row (filter (\<lambda>j. blo \<le> j \<and> j < bhi) (positions autojunk b (a ! i))) [] best = (row', best')"
    by (cases "scan_row i row (filter (\<lambda>j. blo \<le> j \<and> j < bhi) (positions autojunk b (a ! i))) [] best")
  then have "scan_rows autojunk a b blo bhi row' best' is = best'" using Cons by simp
  then show ?case using Cons.prems s scan_row_zero [OF s] by simp
qed simp

lemma longest_match_ok:
  assumes "longest_match autojunk a b alo ahi blo bhi = (i, j, k)" "alo \<le> ahi"
  shows "in_range alo ahi blo bhi (i, j, k) \<and> agrees a b (i, j, k)"
proof -
  obtain i1 j1 k1 where s: "scan_rows autojunk a b blo bhi [] (alo, blo, 0) [alo..<ahi] = (i1, j1, k1)"
    by (cases "scan_rows autojunk a b blo bhi [] (alo, blo, 0) [alo..<ahi]") auto
  obtain i2 j2 k2 where l: "extend_left a b alo blo i1 j1 k1 = (i2, j2, k2)"
    by (cases "extend_left a b alo blo i1 j1 k1") auto
  have r: "in_range alo ahi blo bhi (i1, j1, k1) \<and> agrees a b (i1, j1, k1)"
    using scan_rows_ok [of alo alo "[]" a b blo bhi ahi "(alo, blo, 0)" autojunk] assms(2) s
    by (auto simp: in_range_def agrees_def)
  have "in_range alo ahi blo bhi (i2, j2, k2) \<and> agrees a b (i2, j2, k2)"
  proof (cases "k1 = 0")
    case True
    then have "(i1, j1) = (alo, blo)" using scan_rows_zero [of autojunk a b blo bhi "[]" "(alo, blo, 0)" "[alo..<ahi]"] s by auto
    then have "(i2, j2, k2) = (i1, j1, k1)" using l by (cases i1) auto
    then show ?thesis using r by simp
  next
    case False
    then show ?thesis using extend_left_ok [of alo ahi blo bhi i1 j1 k1 a b] r l by simp
  qed
  then have "in_range alo ahi blo bhi (i2, j2, extend_right a b ahi bhi i2 j2 k2) \<and> agrees a b (i2, j2, extend_right a b ahi bhi i2 j2 k2)"
    using extend_right_ok by blast
  moreover have "(i, j, k) = (i2, j2, extend_right a b ahi bhi i2 j2 k2)"
    using assms(1) s l by (auto simp: longest_match_def)
  ultimately show ?thesis by simp
qed

lemma longest_match_empty:
  "ahi < alo \<Longrightarrow> longest_match autojunk a b alo ahi blo bhi = (i, j, k) \<Longrightarrow> k = 0"
  by (cases alo) (auto simp: longest_match_def extend_right.simps)

lemma longest_match_bounds:
  assumes "longest_match autojunk a b alo ahi blo bhi = (i, j, k)" "k \<noteq> 0"
  shows "alo \<le> i \<and> i + k \<le> ahi \<and> blo \<le> j \<and> j + k \<le> bhi"
proof -
  have "alo \<le> ahi" using longest_match_empty assms by (metis not_less)
  then show ?thesis using longest_match_ok [OF assms(1)] assms(2) by (simp add: in_range_def)
qed

section \<open>Matching blocks, edit operations and the ratio\<close>

text \<open>The blocks in increasing order: those on the left of the longest one, it, and those on its right.\<close>

function match_blocks :: "bool \<Rightarrow> 'a list \<Rightarrow> 'a list \<Rightarrow> nat \<Rightarrow> nat \<Rightarrow> nat \<Rightarrow> nat \<Rightarrow> block list" where
  "match_blocks autojunk a b alo ahi blo bhi =
     (case longest_match autojunk a b alo ahi blo bhi of
        (i, j, k) \<Rightarrow>
          if k = 0 then []
          else (if alo < i \<and> blo < j then match_blocks autojunk a b alo i blo j else [])
               @ (i, j, k) # (if i + k < ahi \<and> j + k < bhi then match_blocks autojunk a b (i + k) ahi (j + k) bhi else []))"
  by pat_completeness auto
termination
  by (relation "measure (\<lambda>(autojunk, a, b, alo, ahi, blo, bhi). ahi - alo)")
    (auto dest!: sym [where t = "longest_match _ _ _ _ _ _ _"] longest_match_bounds)

declare match_blocks.simps [simp del]

text \<open>Adjacent blocks are one block.\<close>

fun collapse :: "block \<Rightarrow> block list \<Rightarrow> block list" where
  "collapse (i1, j1, k1) [] = (if k1 = 0 then [] else [(i1, j1, k1)])"
| "collapse (i1, j1, k1) ((i2, j2, k2) # bs) =
     (if i1 + k1 = i2 \<and> j1 + k1 = j2 then collapse (i1, j1, k1 + k2) bs
      else (if k1 = 0 then [] else [(i1, j1, k1)]) @ collapse (i2, j2, k2) bs)"

definition matching_blocks :: "bool \<Rightarrow> 'a list \<Rightarrow> 'a list \<Rightarrow> block list" where
  "matching_blocks autojunk a b =
     collapse (0, 0, 0) (match_blocks autojunk a b 0 (length a) 0 (length b)) @ [(length a, length b, 0)]"

datatype opcode = Replace | Delete | Insert | Equal

fun opcodes_from :: "nat \<Rightarrow> nat \<Rightarrow> block list \<Rightarrow> (opcode \<times> nat \<times> nat \<times> nat \<times> nat) list" where
  "opcodes_from i j [] = []"
| "opcodes_from i j ((ai, bj, size_k) # bs) =
     (if i < ai \<and> j < bj then [(Replace, i, ai, j, bj)] else if i < ai then [(Delete, i, ai, j, bj)]
      else if j < bj then [(Insert, i, ai, j, bj)] else [])
     @ (if size_k = 0 then [] else [(Equal, ai, ai + size_k, bj, bj + size_k)])
     @ opcodes_from (ai + size_k) (bj + size_k) bs"

definition get_opcodes :: "bool \<Rightarrow> 'a list \<Rightarrow> 'a list \<Rightarrow> (opcode \<times> nat \<times> nat \<times> nat \<times> nat) list" where
  "get_opcodes autojunk a b = opcodes_from 0 0 (matching_blocks autojunk a b)"

definition ratio :: "bool \<Rightarrow> 'a list \<Rightarrow> 'a list \<Rightarrow> rat" where
  "ratio autojunk a b =
     (let matches = sum_list (map (\<lambda>(i, j, k). k) (matching_blocks autojunk a b)); n = length a + length b
      in if n = 0 then 1 else fdiv (2 * of_nat matches) (of_nat n))"

section \<open>The edit operations cover both sequences\<close>

text \<open>Blocks in increasing order between two ends, each of which matches.\<close>

fun block_chain :: "'a list \<Rightarrow> 'a list \<Rightarrow> nat \<Rightarrow> nat \<Rightarrow> nat \<Rightarrow> nat \<Rightarrow> block list \<Rightarrow> bool" where
  "block_chain a b i j hi hj [] \<longleftrightarrow> i \<le> hi \<and> j \<le> hj"
| "block_chain a b i j hi hj ((ai, bj, k) # bs) \<longleftrightarrow>
     i \<le> ai \<and> j \<le> bj \<and> agrees a b (ai, bj, k) \<and> block_chain a b (ai + k) (bj + k) hi hj bs"

lemma block_chain_append:
  "block_chain a b i j m n xs \<Longrightarrow> block_chain a b m n hi hj ys \<Longrightarrow> block_chain a b i j hi hj (xs @ ys)"
proof (induction a b i j m n xs rule: block_chain.induct)
  case (1 a b i j m n)
  then show ?case by (cases ys) auto
qed auto

lemma match_blocks_chain:
  "alo \<le> ahi \<Longrightarrow> blo \<le> bhi \<Longrightarrow> block_chain a b alo blo ahi bhi (match_blocks autojunk a b alo ahi blo bhi)"
proof (induction autojunk a b alo ahi blo bhi rule: match_blocks.induct)
  case (1 autojunk a b alo ahi blo bhi)
  obtain i j k where m: "longest_match autojunk a b alo ahi blo bhi = (i, j, k)" by (metis prod_cases3)
  show ?case
  proof (cases "k = 0")
    case True
    then show ?thesis using m "1.prems" by (simp add: match_blocks.simps)
  next
    case False
    note in_bounds = longest_match_bounds [OF m False]
    have "block_chain a b alo blo i j (if alo < i \<and> blo < j then match_blocks autojunk a b alo i blo j else [])"
      using "1.IH"(1) [OF m [symmetric] refl False] in_bounds by auto
    moreover have "block_chain a b (i + k) (j + k) ahi bhi
        (if i + k < ahi \<and> j + k < bhi then match_blocks autojunk a b (i + k) ahi (j + k) bhi else [])"
      using "1.IH"(2) [OF m [symmetric] refl False] in_bounds by auto
    moreover have "agrees a b (i, j, k)" using longest_match_ok [OF m "1.prems"(1)] by blast
    ultimately show ?thesis
      using m False by (subst match_blocks.simps) (auto intro!: block_chain_append)
  qed
qed

lemma agrees_join: "agrees a b (i, j, k) \<Longrightarrow> agrees a b (i + k, j + k, l) \<Longrightarrow> agrees a b (i, j, k + l)"
  unfolding agrees_def by (auto, metis add.assoc add_diff_inverse_nat nat_add_left_cancel_less)

lemma collapse_chain:
  "block_chain a b i j hi hj (blk # bs) \<Longrightarrow> block_chain a b i j hi hj (collapse blk bs)"
proof (induction blk bs arbitrary: i j rule: collapse.induct)
  case (2 i1 j1 k1 i2 j2 k2 bs)
  show ?case
  proof (cases "i1 + k1 = i2 \<and> j1 + k1 = j2")
    case True
    have "block_chain a b i j hi hj ((i1, j1, k1 + k2) # bs)" using 2(3) True agrees_join [of a b i1 j1 k1 k2] by (auto simp: add.assoc)
    then show ?thesis using 2(1) [OF True] True by simp
  next
    case False
    then show ?thesis using 2(2) [OF False] 2(3) by auto
  qed
qed (auto split: if_splits)

lemma matching_blocks_chain: "block_chain a b 0 0 (length a) (length b) (matching_blocks autojunk a b)"
proof -
  have "block_chain a b 0 0 (length a) (length b) ((0, 0, 0) # match_blocks autojunk a b 0 (length a) 0 (length b))"
    using match_blocks_chain [of 0 "length a" 0 "length b" a b autojunk] by (simp add: agrees_def)
  from block_chain_append [OF collapse_chain [OF this], of _ _ "[(length a, length b, 0)]"]
  show ?thesis by (simp add: matching_blocks_def agrees_def)
qed

text \<open>An operation that keeps a stretch keeps equal elements; and every position of either sequence is in an operation.\<close>

fun op_ok :: "'a list \<Rightarrow> 'a list \<Rightarrow> opcode \<times> nat \<times> nat \<times> nat \<times> nat \<Rightarrow> bool" where
  "op_ok a b (tag, i1, i2, j1, j2) \<longleftrightarrow> i1 \<le> i2 \<and> j1 \<le> j2 \<and> i2 \<le> length a \<and> j2 \<le> length b
     \<and> (tag = Equal \<longrightarrow> i2 - i1 = j2 - j1 \<and> agrees a b (i1, j1, j2 - j1))"

lemma block_chain_le: "block_chain a b i j hi hj bs \<Longrightarrow> i \<le> hi \<and> j \<le> hj"
  by (induction a b i j hi hj bs rule: block_chain.induct) auto

lemma opcodes_from_ok:
  "block_chain a b i j (length a) (length b) bs \<Longrightarrow> list_all (op_ok a b) (opcodes_from i j bs)"
proof (induction i j bs rule: opcodes_from.induct)
  case (2 i j ai bj k bs)
  then show ?case using block_chain_le [of a b "ai + k" "bj + k" "length a" "length b" bs] by auto
qed simp

definition op_at_a :: "nat \<Rightarrow> opcode \<times> nat \<times> nat \<times> nat \<times> nat \<Rightarrow> bool" where
  "op_at_a x = (\<lambda>(tag, i1, i2, j1, j2). i1 \<le> x \<and> x < i2)"

definition op_at_b :: "nat \<Rightarrow> opcode \<times> nat \<times> nat \<times> nat \<times> nat \<Rightarrow> bool" where
  "op_at_b y = (\<lambda>(tag, i1, i2, j1, j2). j1 \<le> y \<and> y < j2)"

lemma opcodes_from_cover:
  assumes "block_chain a b i j hi hj bs" "last ((i, j, 0) # bs) = (hi, hj, 0)"
  shows "(j \<le> y \<and> y < hj \<longrightarrow> list_ex (op_at_b y) (opcodes_from i j bs)) \<and> (i \<le> x \<and> x < hi \<longrightarrow> list_ex (op_at_a x) (opcodes_from i j bs))"
  using assms
proof (induction i j bs rule: opcodes_from.induct)
  case (2 i j ai bj k bs)
  have "last ((ai + k, bj + k, 0) # bs) = (hi, hj, 0)" using "2.prems" by (cases bs) auto
  then have "(bj + k \<le> y \<and> y < hj \<longrightarrow> list_ex (op_at_b y) (opcodes_from (ai + k) (bj + k) bs))
      \<and> (ai + k \<le> x \<and> x < hi \<longrightarrow> list_ex (op_at_a x) (opcodes_from (ai + k) (bj + k) bs))"
    using "2.IH" "2.prems"(1) by simp
  then show ?case by (auto simp: op_at_a_def op_at_b_def not_less)
qed simp

lemma get_opcodes_ok: "list_all (op_ok a b) (get_opcodes autojunk a b)"
  unfolding get_opcodes_def by (rule opcodes_from_ok [OF matching_blocks_chain])

lemma get_opcodes_cover:
  "y < length b \<Longrightarrow> list_ex (op_at_b y) (get_opcodes autojunk a b)"
  "x < length a \<Longrightarrow> list_ex (op_at_a x) (get_opcodes autojunk a b)"
  using opcodes_from_cover [OF matching_blocks_chain [of a b autojunk], of y x]
  by (simp_all add: get_opcodes_def matching_blocks_def)

end
