(* ===== verification/Provenance.thy ===== *)
theory Provenance
  imports Verdicts Difflib
begin

text \<open>
  The record of a run in \<^verbatim>\<open>4ce/functions/orchestrator.py\<close>: the steps and their token cost, the receipt and the provenance
  table under an answer, the file cards, what a second try changed, what the sign-off panel shows the reviewer, and the
  text left behind by a run that is stopped. \<^verbatim>\<open>json.dumps\<close> without \<^verbatim>\<open>sort_keys\<close> writes a dictionary in insertion order.
\<close>

section \<open>JSON in insertion order\<close>

function dumps_plain :: "(string \<Rightarrow> string) \<Rightarrow> json \<Rightarrow> string" where
  "dumps_plain q JNull = ''null''"
| "dumps_plain q (JBool b) = (if b then ''true'' else ''false'')"
| "dumps_plain q (JInt i) = str_int i"
| "dumps_plain q (JFloat v) = dump_float v"
| "dumps_plain q (JStr s) = q s"
| "dumps_plain q (JList vs) = ''['' @ join_with '', '' (map (dumps_plain q) vs) @ '']''"
| "dumps_plain q (JObj kvs) = ''{'' @ join_with '', '' (map (\<lambda>(k, v). q k @ '': '' @ dumps_plain q v) kvs) @ ''}''"
  by pat_completeness auto
termination
proof (relation "measure (\<lambda>(q, v). size v)", goal_cases)
  case (2 q vs v)
  then show ?case by (simp add: less_Suc_eq_le size_list_estimation')
next
  case (3 q kvs kv k v)
  then have "size v < Suc (size_list (size_prod (\<lambda>_. 0) size) kvs)" by (induction kvs) auto
  then show ?case by simp
qed simp

text \<open>A string with \<^verbatim>\<open>ensure_ascii=True\<close>: everything beyond ASCII as \<^verbatim>\<open>\uXXXX\<close>, in two halves above \<^verbatim>\<open>0xFFFF\<close>.\<close>

definition u_escape :: "int \<Rightarrow> string" where
  "u_escape n = [CHR 0x5C, CHR ''u'', hex_digit (n div 4096 mod 16), hex_digit (n div 256 mod 16),
     hex_digit (n div 16 mod 16), hex_digit (n mod 16)]"

definition ascii_char :: "string \<Rightarrow> string" where
  "ascii_char cs = (case cs of
      [c] \<Rightarrow> (if code_of c = 127 then u_escape 127 else esc_char c)
    | _ \<Rightarrow> (let n = code_point cs in
        if n < 65536 then u_escape n
        else u_escape (55296 + (n - 65536) div 1024) @ u_escape (56320 + (n - 65536) mod 1024)))"

definition quoted_ascii :: "string \<Rightarrow> string" where
  "quoted_ascii s = CHR 0x22 # concat (map ascii_char (utf8_chars s)) @ [CHR 0x22]"

section \<open>Steps\<close>

record step =
  sp_agent :: string
  sp_label :: string
  sp_model :: string
  sp_seconds :: rat
  sp_thinking :: string
  sp_text :: string
  sp_usage :: "json pydict"

text \<open>A step that is not a model call: no time, no thinking, no tokens.\<close>

definition plain_step :: "string \<Rightarrow> string \<Rightarrow> string \<Rightarrow> string \<Rightarrow> step" where
  "plain_step agent label model text = \<lparr>sp_agent = agent, sp_label = label, sp_model = model, sp_seconds = 0,
     sp_thinking = [], sp_text = text, sp_usage = []\<rparr>"

definition token_count :: "json pydict \<Rightarrow> string \<Rightarrow> string \<Rightarrow> py_error + int" where
  "token_count usage a b = py_int (jor (jor (jget usage a) (jget usage b)) (JInt 0))"

fun usage_sums :: "step list \<Rightarrow> py_error + int \<times> int" where
  "usage_sums [] = Inr (0, 0)"
| "usage_sums (s # ss) =
     (case (token_count (sp_usage s) ''prompt_tokens'' ''input_tokens'',
            token_count (sp_usage s) ''completion_tokens'' ''output_tokens'') of
        (Inl e, _) \<Rightarrow> Inl e
      | (_, Inl e) \<Rightarrow> Inl e
      | (Inr p, Inr c) \<Rightarrow> map_sum id (\<lambda>(p', c'). (p + p', c + c')) (usage_sums ss))"

definition usage_total :: "step list \<Rightarrow> py_error + json pydict" where
  "usage_total steps = map_sum id (\<lambda>(p, c).
     if p = 0 \<and> c = 0 then []
     else [(''prompt_tokens'', JInt p), (''completion_tokens'', JInt c), (''total_tokens'', JInt (p + c))]) (usage_sums steps)"

section \<open>The egress observation\<close>

text \<open>What \<^verbatim>\<open>watch.since_mark\<close> returns: a reason why nothing was observed, or the counts
  external, LAN out, samples, processes and the interval in milliseconds.\<close>

datatype egress = Unobserved string | Observed int int int int int

definition egress_json :: "egress \<Rightarrow> json" where
  "egress_json e = (case e of
      Unobserved reason \<Rightarrow> JObj [(''observed'', JBool False), (''reason'', JStr reason)]
    | Observed external lan_out samples processes ms \<Rightarrow> JObj [(''observed'', JBool True), (''external'', JInt external),
        (''lan_out'', JInt lan_out), (''samples'', JInt samples), (''processes'', JInt processes), (''interval_ms'', JInt ms)])"

definition plural :: "int \<Rightarrow> string" where
  "plural n = (if n = 1 then [] else ''s'')"

definition egress_row :: "egress \<Rightarrow> string" where
  \<open>egress_row e = (case e of
      Unobserved reason \<Rightarrow> lit ''not observed ~u2014 '' @ or_text reason ''the egress watch is not running''
    | Observed external lan_out samples processes ms \<Rightarrow>
        ''**'' @ str_int external @ ''** external connection'' @ plural external @ '' observed across '' @ str_int processes
        @ '' workbench processes during this run ('' @ commas samples @ '' samples, every '' @ str_int ms @ '' ms)''
        @ (if lan_out \<noteq> 0 then lit '' ~u00b7 '' @ str_int lan_out @ '' other outbound LAN connection'' @ plural lan_out else []))\<close>

section \<open>The receipt and the provenance table\<close>

record facts =
  pv_task :: string
  pv_signals :: "string list"
  pv_model :: string
  pv_rationale :: string
  pv_verdict :: verdict
  pv_approval :: string
  pv_elapsed :: rat
  pv_attempts :: nat
  pv_agents :: "(string \<times> string) list"
  pv_tools :: "string list"
  pv_grounding :: string
  pv_sources :: "source_doc list"
  pv_approver :: string
  pv_approved_at :: string
  pv_fingerprint :: string
  pv_egress :: egress
  pv_audit :: string

definition check_json :: "check \<Rightarrow> json" where
  "check_json c = JObj
     (if ck_ran c then
        [(''kind'', JStr (ck_kind c)), (''by'', JStr (ck_by c))] @ (if ck_final c then [(''final'', JBool True)] else [])
        @ [(''text'', JStr (ck_text c))]
      else [(''kind'', JStr (ck_kind c)), (''text'', JStr (ck_text c)), (''by'', JStr (ck_by c))]
        @ (case ck_on c of Some on \<Rightarrow> [(''on'', JStr on)] | None \<Rightarrow> []))"

definition opt_str :: "string option \<Rightarrow> json" where
  "opt_str r = JStr (case r of Some s \<Rightarrow> s | None \<Rightarrow> [])"

text \<open>\<^verbatim>\<open>round(x, 1)\<close> and \<^verbatim>\<open>round(x, 2)\<close>.\<close>

definition round_to :: "nat \<Rightarrow> rat \<Rightarrow> rat" where
  "round_to n x = fl (of_int (round_even (x * 10 ^ n)) / 10 ^ n)"

definition checks_of :: "verdict \<Rightarrow> check list" where
  "checks_of v = (case vd_checks v of Some cs \<Rightarrow> cs | None \<Rightarrow> [])"

definition step_json :: "step \<Rightarrow> json" where
  "step_json s = JObj [(''agent'', JStr (sp_agent s)), (''label'', JStr (sp_label s)),
     (''model'', JStr (after_slash (sp_model s))), (''seconds'', JFloat (Fin (round_to 1 (sp_seconds s))))]"

definition receipt_data :: "facts \<Rightarrow> step list \<Rightarrow> string \<Rightarrow> json pydict" where
  "receipt_data p steps now =
     (let v = pv_verdict p; checks = checks_of v in
      [(''v'', JInt 1), (''task'', JStr (pv_task p)), (''model'', JStr (after_slash (pv_model p))),
       (''agents'', JObj (map (\<lambda>(a, m). (a, JStr (after_slash m))) (pv_agents p))),
       (''sources'', JList (map (\<lambda>s. JStr (so_name s)) (pv_sources p))),
       (''cited'', JList (map JInt (cited_numbers (vd_cited_text v) (int (length (pv_sources p)))))),
       (''verdict'', JStr (py_upper (vd_status v))),
       (''reservations'', JInt (case vd_reservations v of Some n \<Rightarrow> int n | None \<Rightarrow> 0)),
       (''failed_by'', opt_str (vd_failed_by v)), (''failed_on'', opt_str (vd_failed_on v)),
       (''attempts'', JInt (int (pv_attempts p))),
       (''checks'', JList (map check_json (if checks \<noteq> [] then checks else parse_checks (vd_detail v)))),
       (''approval'', JStr (pv_approval p)), (''approver'', JStr (pv_approver p)), (''approved_at'', JStr (pv_approved_at p)),
       (''seconds'', JInt (round_even (pv_elapsed p))), (''tools'', JList (map JStr (pv_tools p))),
       (''external_calls'', (case pv_egress p of Observed external _ _ _ _ \<Rightarrow> JInt external | Unobserved _ \<Rightarrow> JNull)),
       (''egress'', egress_json (pv_egress p)), (''fingerprint'', JStr (pv_fingerprint p)), (''at'', JStr now),
       (''signals'', JList (map JStr (pv_signals p))), (''steps'', JList (map step_json steps))]
      @ (case vd_revision v of Some r \<Rightarrow> if jtruthy r then [(''revision'', r)] else [] | None \<Rightarrow> []))"

definition receipt :: "facts \<Rightarrow> step list \<Rightarrow> string \<Rightarrow> string" where
  \<open>receipt p steps now = lit ''```4ce-receipt~n'' @ dumps_plain quoted (JObj (receipt_data p steps now)) @ lit ''~n```''\<close>

definition provenance_rows :: "facts \<Rightarrow> string \<Rightarrow> (string \<times> string) list" where
  \<open>provenance_rows p timings =
     (let v = pv_verdict p; dot = lit '' ~u00b7 '' in
      [(''Task type'', ''`'' @ pv_task p @ ''`'' @ (if pv_signals p \<noteq> [] then lit '' ~u2014 matched: '' @ join_with '', '' (pv_signals p)
                                                 else lit '' ~u2014 no strong signal'')),
       (''Model routed'', ''`'' @ pv_model p @ lit ''` ~u2014 '' @ pv_rationale p),
       (''Agents'', join_with dot (map (\<lambda>(a, m). a @ '' `'' @ m @ ''`'') (pv_agents p))),
       (''Verification'', ''ULTRON **'' @ vd_status v @ ''**''
          @ (if 1 < pv_attempts p then '' after '' @ str_nat (pv_attempts p) @ '' attempts'' else [])
          @ reservations_phrase v (lit '' ~u2014 with '') '' it did not count against the result''),
       (''Human approval'', py_capitalize (pv_approval p)),
       (''Elapsed'', fmt_fixed 0 (pv_elapsed p) @ ''s working'' @ (if timings \<noteq> [] then dot @ timings else [])),
       (''Grounding'', if pv_grounding p \<noteq> [] then commas (int (py_len (pv_grounding p))) @ '' characters of retrieved passages reached FRIDAY''
                      else lit ''none ~u2014 nothing retrieved, answered from the request alone''),
       (''Tools run'', if pv_tools p \<noteq> [] then join_with dot (map (\<lambda>t. ''`'' @ t @ ''`'') (pv_tools p))
                      else lit ''none ~u2014 the agents reasoned unaided''),
       (''Inference'', ''Local open-weight models''),
       (''Egress'', egress_row (pv_egress p))])\<close>

text \<open>\<^verbatim>\<open>s.title()\<close> on ASCII.\<close>

fun title_from :: "bool \<Rightarrow> string \<Rightarrow> string" where
  "title_from inside [] = []"
| "title_from inside (c # s) =
     (let letter = is_upper c \<or> is_lower c in
      (if letter \<and> \<not> inside then upper_char c else lower_char c) # title_from letter s)"

definition details :: "string \<Rightarrow> string \<Rightarrow> string" where
  \<open>details summary body = lit ''<details>~n<summary>'' @ summary @ lit ''</summary>~n~n'' @ body @ lit ''~n</details>''\<close>

definition numbered_lines :: "string list \<Rightarrow> string list" where
  "numbered_lines ls = map (\<lambda>(i, l). str_nat i @ ''. '' @ l) (enumerate 1 ls)"

definition step_block :: "bool \<Rightarrow> step \<Rightarrow> string" where
  \<open>step_block thinking s =
     details (sp_agent s @ lit '' ~u2014 '' @ sp_label s @ lit ''  ~u00b7  '' @ sp_model s)
       (join_with nl ([or_text (py_strip (sp_text s)) ''_no output_'']
          @ (if thinking \<and> sp_thinking s \<noteq> []
             then [[], ''**Model's internal reasoning**'', [], ''> '' @ replace_all nl (lit ''~n> '') (sp_thinking s)] else [])))\<close>

definition provenance_rest :: "step list \<Rightarrow> nat \<Rightarrow> bool \<Rightarrow> string list \<Rightarrow> string list \<Rightarrow> string \<Rightarrow> string" where
  \<open>provenance_rest steps attempts thinking trace table rcpt =
     join_with nl2 ([''---'', rcpt, details ''Full provenance'' (join_with nl table)]
       @ map (step_block thinking) (filter (\<lambda>s. \<not> (sp_agent s = ''JARVIS'' \<and> attempts < 2) \<and> sp_agent s \<noteq> ''TONY'') steps)
       @ (if trace \<noteq> [] then [details ''Execution timeline'' (join_with nl (numbered_lines trace))] else []))\<close>

definition provenance :: "facts \<Rightarrow> step list \<Rightarrow> bool \<Rightarrow> string list \<Rightarrow> string \<Rightarrow> string" where
  \<open>provenance p steps thinking trace now =
     (let timings = join_with (lit '' ~u00b7 '') (map (\<lambda>s. title_from False (sp_agent s) @ '' '' @ fmt_fixed 0 (sp_seconds s) @ ''s'')
            (filter (\<lambda>s. sp_seconds s \<noteq> 0) steps));
          rows = provenance_rows p timings
            @ (if pv_fingerprint p \<noteq> [] then [(''Fingerprint'', ''SHA-256 `'' @ pv_fingerprint p @ ''` of the released answer'')] else [])
            @ (if pv_audit p \<noteq> [] then [(''Audit trail'', pv_audit p)] else []);
          table = [''| Stage | Detail |'', ''|---|---|''] @ map (\<lambda>(k, v). ''| '' @ k @ '' | '' @ v @ '' |'') rows
      in provenance_rest steps (pv_attempts p) thinking trace table (receipt p steps now))\<close>

section \<open>File cards\<close>

text \<open>The groups of the pattern are the kind, the title, the size, the address and the rest.\<close>

definition REPORT_LINE :: re where
  \<open>REPORT_LINE = rx (''^~*~*(?P<kind>[^*]+)~*~* ~u00b7 (?P<title>.+?) ~u00b7 (?P<kb>~d+) KB, stored on this machine '' @
     ''~u00b7 ~[Download [^~]]*~]~((?P<url>[^)~s]+)~)(?P<rest>[~s~S]*)$'')\<close>

definition file_card :: "string \<Rightarrow> string" where
  \<open>file_card line =
     (let s = py_strip line in
      case re_match no_flags REPORT_LINE s of
        None \<Rightarrow> line
      | Some h \<Rightarrow>
          (let grp = hit_text (codes_of s) h; rest = py_strip (grp 5)
           in lit ''```4ce-file~n'' @ dumps_plain quoted (JObj ([(''kind'', JStr (py_strip (grp 1))), (''title'', JStr (py_strip (grp 2))),
                (''kb'', JInt (int_of_digits (grp 3))), (''url'', JStr (grp 4))]
                @ (if rest \<noteq> [] then [(''note'', JStr rest)] else []))) @ lit ''~n```''))\<close>

section \<open>What a second try changed\<close>

definition STOP_WORDS :: "string list" where
  \<open>STOP_WORDS = [
     ''the'', ''and'', ''for'', ''are'', ''but'', ''not'', ''with'', ''this'', ''that'', ''from'',
     ''into'', ''than'', ''then'', ''there'', ''their'', ''they'', ''what'', ''when'', ''where'',
     ''which'', ''while'', ''will'', ''would'', ''should'', ''could'', ''must'', ''does'', ''did'',
     ''has'', ''have'', ''had'', ''was'', ''were'', ''been'', ''being'', ''its'', ''any'', ''all'',
     ''per'', ''only'', ''also'', ''more'', ''most'', ''such'', ''other'', ''some'', ''each'',
     ''answer'', ''result'', ''says'', ''said'', ''state'', ''states'', ''stated'', ''source'',
     ''sources'', ''document'']\<close>

definition clean_line :: "string \<Rightarrow> string" where
  \<open>clean_line line =
     (let line = re_sub no_flags (rx ''^~s*(?:#{1,6}~s+|[-*+]~s+|~d+[.)]~s+|>~s*)'') [] line;
          line = replace_all ''__'' [] (replace_all ''**'' [] line)
      in replace_all ''*(unverified)*'' [] (strip_citations line []))\<close>

definition line_units :: "string \<Rightarrow> string list" where
  \<open>line_units raw =
     (if starts_with (py_strip raw) ''```'' then []
      else
        let line = clean_line raw in
        if set (py_strip line) \<subseteq> set ''-|: '' then []
        else
          let joined = join_with (lit '' ~u00b7 '') (filter (\<lambda>c. c \<noteq> []) (table_cells line))
          in map py_strip (filter (\<lambda>s. 2 \<le> length (re_findall no_flags (rx ''[A-Za-z]{2,}'') 0 s))
               (re_split no_flags (rx ''(?<=[.!?])~s+(?=[A-Z0-9"~u201c(])'') 0 joined)))\<close>

definition units :: "string \<Rightarrow> string list" where
  "units text = concat (map line_units (split_lines text))"

text \<open>The set of words, in order of first appearance.\<close>

definition words_in :: "string \<Rightarrow> string list" where
  \<open>words_in text =
     uniq (map (\<lambda>w. if 4 < length w then re_sub no_flags (rx ''(?:ing|ed|es|s)$'') [] w else w)
       (filter (\<lambda>w. 2 < length w \<and> w \<notin> set STOP_WORDS) (word_set text)))\<close>

definition same_text :: "string \<Rightarrow> string \<Rightarrow> bool" where
  \<open>same_text x y \<longleftrightarrow> re_sub no_flags (rx ''~W+'') [] (py_lower x) = re_sub no_flags (rx ''~W+'') [] (py_lower y)\<close>

record change =
  cg_removed :: string
  cg_added :: string
  cg_kind :: string

definition best_pair :: "string \<Rightarrow> string list \<Rightarrow> nat list \<Rightarrow> nat option \<times> rat" where
  "best_pair gone added used = foldl (\<lambda>(best, score) (k, new).
     if k \<in> set used then (best, score)
     else let r = ratio True (utf8_chars gone) (utf8_chars new) in if score < r then (Some k, r) else (best, score))
   (None, 0) (enumerate 0 added)"

fun pair_up :: "string list \<Rightarrow> string list \<Rightarrow> nat list \<Rightarrow> change list \<times> nat list" where
  "pair_up [] added used = ([], used)"
| "pair_up (gone # removed) added used =
     (case best_pair gone added used of
        (Some k, score) \<Rightarrow>
          (if fl (9 / 20) \<le> score then
             let (cs, used') = pair_up removed added (k # used)
             in ((if same_text gone (added ! k) then [] else [\<lparr>cg_removed = gone, cg_added = added ! k, cg_kind = ''reworded''\<rparr>]) @ cs, used')
           else
             let (cs, used') = pair_up removed added used in (\<lparr>cg_removed = gone, cg_added = [], cg_kind = ''removed''\<rparr> # cs, used'))
      | (None, score) \<Rightarrow>
          (let (cs, used') = pair_up removed added used in (\<lparr>cg_removed = gone, cg_added = [], cg_kind = ''removed''\<rparr> # cs, used')))"

definition slice_of :: "'a list \<Rightarrow> nat \<Rightarrow> nat \<Rightarrow> 'a list" where
  "slice_of xs i j = take (j - i) (drop i xs)"

definition changed_stretch :: "string list \<Rightarrow> string list \<Rightarrow> opcode \<times> nat \<times> nat \<times> nat \<times> nat \<Rightarrow> change list" where
  "changed_stretch a b = (\<lambda>(tag, i1, i2, j1, j2).
     if tag = Equal then []
     else
       let added = slice_of b j1 j2; (cs, used) = pair_up (slice_of a i1 i2) added []
       in cs @ map (\<lambda>(k, new). \<lparr>cg_removed = [], cg_added = new, cg_kind = ''added''\<rparr>)
            (filter (\<lambda>(k, new). k \<notin> set used) (enumerate 0 added)))"

definition draft_changes :: "string \<Rightarrow> string \<Rightarrow> change list" where
  "draft_changes draft after =
     (let a = units draft; b = units after in concat (map (changed_stretch a b) (get_opcodes False a b)))"

text \<open>How many of the word sets hold a word, and how well a change answers an objection: Python adds the shares up in
  the unspecified order of a set, here in order of appearance.\<close>

definition spread :: "change list \<Rightarrow> string \<Rightarrow> nat" where
  "spread cs w = length (filter (\<lambda>ws. w \<in> set ws) (map (\<lambda>c. words_in (cg_added c)) cs @ map (\<lambda>c. words_in (cg_removed c)) cs))"

definition shares :: "change list \<Rightarrow> string list \<Rightarrow> rat" where
  "shares cs ws = foldl (\<lambda>acc w. fadd acc (fdiv 1 (of_nat (spread cs w)))) 0 ws"

definition score_of :: "change list \<Rightarrow> string list \<Rightarrow> change \<Rightarrow> rat" where
  "score_of cs wanted c =
     (let added = words_in (cg_added c); removed = words_in (cg_removed c)
      in fadd (shares cs (filter (\<lambda>w. w \<in> set added) wanted))
              (fmul (1 / 2) (shares cs (filter (\<lambda>w. w \<in> set removed \<and> w \<notin> set added) wanted))))"

definition fixes_for :: "change list \<Rightarrow> string \<Rightarrow> nat list" where
  "fixes_for cs text =
     (let score = (\<lambda>i. score_of cs (words_in text) (cs ! i))
      in filter (\<lambda>i. 1 / 4 \<le> score i) (take 2 (rev (sort_key score [0..<length cs]))))"

text \<open>The draft that was sent back and why.\<close>

record first_try =
  ft_draft :: string
  ft_failed_by :: string
  ft_objections :: "(string \<times> string) list"

fun place_in :: "nat list \<Rightarrow> nat \<Rightarrow> nat option" where
  "place_in [] i = None"
| "place_in (k # ks) i = (if k = i then Some 0 else map_option Suc (place_in ks i))"

definition change_json :: "change \<Rightarrow> json" where
  "change_json c = JObj [(''removed'', JStr (clip (cg_removed c) 240)), (''added'', JStr (clip (cg_added c) 240)), (''kind'', JStr (cg_kind c))]"

definition kept_changes :: "change list \<Rightarrow> (string \<times> string) list \<Rightarrow> nat list" where
  "kept_changes cs objections =
     (let fixed = uniq (concat (map (\<lambda>(text, by). fixes_for cs text) objections))
      in take 14 (fixed @ filter (\<lambda>i. i \<notin> set fixed) [0..<length cs]))"

definition revision :: "first_try \<Rightarrow> string \<Rightarrow> verdict \<Rightarrow> json" where
  "revision first after v =
     (let cs = draft_changes (ft_draft first) after; keep = kept_changes cs (ft_objections first)
      in JObj [
        (''objections'', JList (map (\<lambda>(text, by). JObj [(''text'', JStr (clip text 220)), (''by'', JStr by),
            (''fixes'', JList (map (\<lambda>n. JInt (int n)) (List.map_filter (place_in keep) (fixes_for cs text))))]) (ft_objections first))),
        (''changes'', JList (map (\<lambda>i. change_json (cs ! i)) keep)),
        (''more'', JInt (int (length cs - length keep))),
        (''by'', JStr (ft_failed_by first)),
        (''verdict'', JStr (py_upper (vd_status v)))])"

section \<open>What the reviewer is shown\<close>

definition distance_of :: "json \<Rightarrow> rat option" where
  "distance_of d = (case d of
      JInt i \<Rightarrow> Some (of_int i) | JBool b \<Rightarrow> Some (of_bool b) | JFloat (Fin x) \<Rightarrow> Some x | JFloat NegZero \<Rightarrow> Some 0
    | JFloat _ \<Rightarrow> Some (- 1) | _ \<Rightarrow> None)"

definition review_source :: "string \<Rightarrow> int \<Rightarrow> int \<times> source_doc \<Rightarrow> json" where
  "review_source deliverable k = (\<lambda>(n, source).
     let scores = List.map_filter (\<lambda>p. distance_of (pa_distance p)) (so_passages source);
         best = (if scores \<noteq> [] \<and> list_all (\<lambda>d. 0 \<le> d \<and> d \<le> 1) scores then Some (Max (set scores)) else None)
     in JObj [(''n'', JInt n), (''name'', JStr (so_name source)),
          (''cited'', JBool (n \<in> set (cited_numbers deliverable k))),
          (''passage'', JStr (clip (supporting_text (join_with nl (map pa_text (so_passages source))) (cited_figures deliverable k n)) 700)),
          (''match'', case best of Some d \<Rightarrow> JInt (round_even (fmul d 100)) | None \<Rightarrow> JNull)])"

definition review :: "string \<Rightarrow> verdict \<Rightarrow> source_doc list \<Rightarrow> nat \<Rightarrow> json pydict" where
  "review deliverable v sources attempts =
     [(''checks'', JList (map (\<lambda>c. JObj [(''kind'', JStr (ck_kind c)), (''text'', JStr (ck_text c)), (''by'', JStr (ck_by c))]) (checks_of v))),
      (''sources'', JList (map (review_source deliverable (int (length sources)))
          (zip (map int [1..<length sources + 1]) sources))),
      (''revision'', case vd_revision v of Some r \<Rightarrow> r | None \<Rightarrow> JNull),
      (''tries'', JInt (int attempts))]"

section \<open>A stopped run\<close>

definition stop_text :: "string list \<Rightarrow> step list \<Rightarrow> string" where
  \<open>stop_text trace steps =
     (let completed = filter (\<lambda>s. sp_agent s \<noteq> ''TONY'') steps
      in join_with nl ([''### Stopped'', [],
           (''The run was stopped before it produced a deliverable. Nothing was released and nothing was '' @
     ''approved.'')]
         @ (if completed \<noteq> [] then [[], ''Completed before the stop: ''
              @ join_with '', '' (map (\<lambda>s. sp_agent s @ '' ('' @ sp_label s @ '')'') completed) @ ''.''] else [])
         @ (if trace \<noteq> [] then [[], ''<details>'', ''<summary>Execution timeline</summary>'', []] @ numbered_lines trace @ [[], ''</details>'']
            else [])))\<close>

section \<open>Sources shown in the chat\<close>

definition plain_value :: "json \<Rightarrow> bool" where
  "plain_value v = (case v of JStr _ \<Rightarrow> True | JInt _ \<Rightarrow> True | JFloat _ \<Rightarrow> True | JBool _ \<Rightarrow> True | _ \<Rightarrow> False)"

definition source_event :: "source_doc \<Rightarrow> json" where
  "source_event source =
     (let passages = so_passages source;
          file_id = (case find (\<lambda>p. jtruthy (jget (pa_meta p) ''file_id'')) passages of
              Some p \<Rightarrow> jget (pa_meta p) ''file_id'' | None \<Rightarrow> JStr (so_name source))
      in JObj [(''type'', JStr ''source''), (''data'', JObj [
           (''source'', JObj [(''name'', JStr (so_name source)), (''id'', file_id)]),
           (''document'', JList (map (\<lambda>p. JStr (pa_text p)) passages)),
           (''metadata'', JList (map (\<lambda>p. JObj (dict_set ''source'' (JStr (so_name source)) (dict_set ''name'' (JStr (so_name source))
               (filter (\<lambda>(k, v). plain_value v) (pa_meta p))))) passages)),
           (''distances'', JList (filter (\<lambda>d. d \<noteq> JNull) (map pa_distance passages)))])])"

section \<open>The changes between two drafts\<close>

lemma best_pair_some: "best_pair gone added used = (Some k, score) \<Longrightarrow> k < length added"
proof -
  have "fst (foldl (\<lambda>(best, score) (k, new). if k \<in> set used then (best, score)
      else let r = ratio True (utf8_chars gone) (utf8_chars new) in if score < r then (Some k, r) else (best, score)) acc xs)
    \<in> insert (fst acc) (Some ` fst ` set xs)" for acc :: "nat option \<times> rat" and xs :: "(nat \<times> string) list"
    by (induction xs arbitrary: acc) (auto simp: Let_def split: prod.splits if_splits, (fastforce split: if_splits)+)
  from this [of "(None, 0)" "enumerate 0 added"] show "best_pair gone added used = (Some k, score) \<Longrightarrow> k < length added"
    by (auto simp: best_pair_def in_set_enumerate_eq)
qed

lemma pair_up_used:
  "pair_up removed added used = (cs, used') \<Longrightarrow> k \<in> set used' \<Longrightarrow>
     k \<in> set used \<or> list_ex (\<lambda>g. same_text g (added ! k)) removed \<or> list_ex (\<lambda>c. cg_added c = added ! k) cs"
  by (induction removed added used arbitrary: cs used' rule: pair_up.induct)
    (fastforce simp: Let_def split: prod.splits option.splits if_splits)+

lemma pair_up_removed:
  "pair_up removed added used = (cs, used') \<Longrightarrow> g \<in> set removed \<Longrightarrow>
     list_ex (same_text g) added \<or> list_ex (\<lambda>c. cg_removed c = g) cs"
proof (induction removed added used arbitrary: cs used' rule: pair_up.induct)
  case (2 gone removed added used)
  then show ?case
    by (fastforce simp: Let_def list_ex_iff dest: best_pair_some split: prod.splits option.splits if_splits)
qed simp

lemma slice_of_nth: "i \<le> x \<Longrightarrow> x < j \<Longrightarrow> j \<le> length xs \<Longrightarrow> slice_of xs i j ! (x - i) = xs ! x \<and> x - i < length (slice_of xs i j)"
  by (auto simp: slice_of_def)

lemma slice_of_set: "set (slice_of xs i j) \<subseteq> set xs"
  unfolding slice_of_def by (meson order_trans set_drop_subset set_take_subset)

text \<open>Of one edit operation: what it puts into the second sequence, and what it takes from the first.\<close>

lemma stretch_added:
  assumes "op_ok a b (tag, i1, i2, j1, j2)" "j1 \<le> y" "y < j2"
  shows "b ! y \<in> set a \<or> list_ex (\<lambda>g. same_text g (b ! y)) a
    \<or> list_ex (\<lambda>c. cg_added c = b ! y) (changed_stretch a b (tag, i1, i2, j1, j2))"
proof (cases "tag = Equal")
  case True
  then have "\<forall>t<j2 - j1. a ! (i1 + t) = b ! (j1 + t)" "i1 + (y - j1) < length a" using assms by (auto simp: agrees_def)
  moreover have "y - j1 < j2 - j1" "j1 + (y - j1) = y" using assms(2,3) by auto
  ultimately show ?thesis by (metis nth_mem)
next
  case False
  let ?added = "slice_of b j1 j2"
  obtain cs used where p: "pair_up (slice_of a i1 i2) ?added [] = (cs, used)" by fastforce
  have y: "?added ! (y - j1) = b ! y" "y - j1 < length ?added" using slice_of_nth assms by auto
  show ?thesis
  proof (cases "y - j1 \<in> set used")
    case True
    then show ?thesis using pair_up_used [OF p True] False p y slice_of_set [of a i1 i2]
      by (auto simp: changed_stretch_def list_ex_iff)
  next
    case unused: False
    have "(y - j1, b ! y) \<in> set (enumerate 0 ?added)" using y by (auto simp: in_set_enumerate_eq)
    then show ?thesis using False p unused by (force simp: changed_stretch_def list_ex_iff)
  qed
qed

lemma stretch_removed:
  assumes "op_ok a b (tag, i1, i2, j1, j2)" "i1 \<le> x" "x < i2"
  shows "a ! x \<in> set b \<or> list_ex (same_text (a ! x)) b
    \<or> list_ex (\<lambda>c. cg_removed c = a ! x) (changed_stretch a b (tag, i1, i2, j1, j2))"
proof (cases "tag = Equal")
  case True
  then have "\<forall>t<j2 - j1. a ! (i1 + t) = b ! (j1 + t)" "j1 + (x - i1) < length b" using assms by (auto simp: agrees_def)
  moreover have "x - i1 < j2 - j1" "i1 + (x - i1) = x" using assms True by auto
  ultimately show ?thesis by (metis nth_mem)
next
  case False
  obtain cs used where p: "pair_up (slice_of a i1 i2) (slice_of b j1 j2) [] = (cs, used)" by fastforce
  have "a ! x \<in> set (slice_of a i1 i2)" using slice_of_nth [of i1 x i2 a] assms by (metis nth_mem op_ok.simps)
  from pair_up_removed [OF p this] show ?thesis using False p slice_of_set [of b j1 j2]
    by (auto simp: changed_stretch_def list_ex_iff)
qed

lemma change_in_draft: "op \<in> set (get_opcodes False (units draft) (units after)) \<Longrightarrow>
    list_ex P (changed_stretch (units draft) (units after) op) \<Longrightarrow> list_ex P (draft_changes draft after)"
  by (auto simp: draft_changes_def Let_def list_ex_iff)

end
