(* ===== verification/Chain_World.thy ===== *)
theory Chain_World
  imports Audit_Append Artifacts Survey Vision Provenance
begin

text \<open>
  What a run of the agent chain of \<^verbatim>\<open>4ce/functions/orchestrator.py\<close> runs in, and the calls every stage of it makes. Code outside the
  program - the model server, the tools attached to the model, the event emitter and the prompt to the reviewer, the
  user and model tables, the vector search, the clocks, Pillow and Python's parser - is a record of functions over an
  arbitrary world state. An awaited call returns, raises, or is cancelled. A run passes a state: the world, the audit trail and its
  context, the timeline, the steps and the tools used, and a log of what the run did to the outside. A computation
  ends with a value, with the text the chain returns, with an exception, or cancelled.
\<close>

section \<open>Outside the program\<close>

datatype 'a awaited = Got 'a | Fails raised | Cancelled

record user =
  us_id :: string
  us_name :: string
  us_email :: string

text \<open>\<^verbatim>\<open>datetime.now().astimezone()\<close> as the code formats it: day, month and year, time, zone, and \<^verbatim>\<open>isoformat\<close>.\<close>

record local_time =
  lt_day :: int
  lt_month_year :: string
  lt_clock :: string
  lt_zone :: string
  lt_iso :: string

record 'w world =
  w_monotonic :: "'w \<Rightarrow> rat \<times> 'w"
  w_time :: "'w \<Rightarrow> rat \<times> 'w"
  w_now :: "'w \<Rightarrow> local_time \<times> 'w"
  w_disk :: "'w \<Rightarrow> disk \<times> 'w"
  w_emit :: "json \<Rightarrow> 'w \<Rightarrow> unit awaited \<times> 'w"
  w_ask :: "json \<Rightarrow> 'w \<Rightarrow> json awaited \<times> 'w"
  w_complete :: "json \<Rightarrow> 'w \<Rightarrow> response awaited \<times> 'w"
  w_tool :: "string \<Rightarrow> json pydict \<Rightarrow> 'w \<Rightarrow> string awaited \<times> 'w"
  w_user :: "json \<Rightarrow> 'w \<Rightarrow> user option awaited \<times> 'w"
  w_models :: "'w \<Rightarrow> string list"
  w_knowledge :: "json \<Rightarrow> 'w \<Rightarrow> json option awaited \<times> 'w"
  w_query :: "json list \<Rightarrow> string \<Rightarrow> int \<Rightarrow> 'w \<Rightarrow> json awaited \<times> 'w"
  w_annotate :: "string \<Rightarrow> field list \<Rightarrow> 'w \<Rightarrow> string awaited \<times> 'w"
  w_store_image :: "string \<Rightarrow> string \<Rightarrow> string \<Rightarrow> 'w \<Rightarrow> string awaited \<times> 'w"
  w_upsert :: "string \<Rightarrow> string \<Rightarrow> json \<Rightarrow> 'w \<Rightarrow> unit awaited \<times> 'w"
  w_mark :: "'w \<Rightarrow> json option \<times> 'w"
  w_since :: "json option \<Rightarrow> 'w \<Rightarrow> egress option \<times> 'w"
  w_ast :: py_parser
  w_open_image :: image_reader
  w_shrink :: "string \<Rightarrow> int \<Rightarrow> string option"

text \<open>The arguments of \<^verbatim>\<open>pipe\<close>. A tool's entry says whether it has a callable.\<close>

record 'w run_env =
  e_world :: "'w world"
  e_valves :: valves
  e_body :: "json pydict"
  e_user :: "json pydict"
  e_metadata :: "json pydict"
  e_tools :: "bool pydict"
  e_task :: string
  e_emitter :: bool
  e_event_call :: bool

section \<open>The state of a run\<close>

text \<open>What a run did to the outside, in order. An answer of the reviewer is kept with the prompt.\<close>

datatype act =
    Emitted json
  | Audited "json pydict" rat disk string "json pydict"
  | ModelCall string string
  | ToolCall string "json pydict"
  | Asked json "json awaited"
  | Upserted json

record 'w run_state =
  rs_world :: 'w
  rs_trail :: audit_trail
  rs_context :: "json pydict"
  rs_trace :: "string list"
  rs_steps :: "step list"
  rs_tools :: "string list"
  rs_log :: "act list"

datatype cause = Internal py_error | External raised

datatype 'a outcome = Ok 'a | Return string | Raise cause | Cancel

type_synonym ('w, 'a) run = "'w run_state \<Rightarrow> 'a outcome \<times> 'w run_state"

definition ret :: "'a \<Rightarrow> ('w, 'a) run" where
  "ret x s = (Ok x, s)"

definition stop_with :: "string \<Rightarrow> ('w, 'a) run" where
  "stop_with text s = (Return text, s)"

definition andthen :: "('w, 'a) run \<Rightarrow> ('a \<Rightarrow> ('w, 'b) run) \<Rightarrow> ('w, 'b) run" where
  "andthen m f s = (case m s of
      (Ok x, s') \<Rightarrow> f x s'
    | (Return text, s') \<Rightarrow> (Return text, s')
    | (Raise e, s') \<Rightarrow> (Raise e, s')
    | (Cancel, s') \<Rightarrow> (Cancel, s'))"

definition seq :: "('w, unit) run \<Rightarrow> ('w, 'b) run \<Rightarrow> ('w, 'b) run" where
  "seq m n = andthen m (\<lambda>_. n)"

definition raising :: "py_error + 'a \<Rightarrow> ('w, 'a) run" where
  "raising r = (case r of Inl e \<Rightarrow> (\<lambda>s. (Raise (Internal e), s)) | Inr x \<Rightarrow> ret x)"

definition awaiting :: "'a awaited \<Rightarrow> ('w, 'a) run" where
  "awaiting r s = (case r of Got x \<Rightarrow> (Ok x, s) | Fails x \<Rightarrow> (Raise (External x), s) | Cancelled \<Rightarrow> (Cancel, s))"

definition gets :: "('w run_state \<Rightarrow> 'a) \<Rightarrow> ('w, 'a) run" where
  "gets f s = (Ok (f s), s)"

definition only_if :: "bool \<Rightarrow> ('w, unit) run \<Rightarrow> ('w, unit) run" where
  "only_if b m = (if b then m else ret ())"

text \<open>An \<^verbatim>\<open>await\<close> on the outside: what it does to the world, and what the log keeps of it.\<close>

definition outside :: "('w \<Rightarrow> 'a \<times> 'w) \<Rightarrow> ('a \<Rightarrow> act list) \<Rightarrow> ('w, 'a) run" where
  "outside f note s = (case f (rs_world s) of (x, w) \<Rightarrow> (Ok x, s\<lparr>rs_world := w, rs_log := rs_log s @ note x\<rparr>))"

fun fold_run :: "('a \<Rightarrow> 'b \<Rightarrow> ('w, 'b) run) \<Rightarrow> 'a list \<Rightarrow> 'b \<Rightarrow> ('w, 'b) run" where
  "fold_run f [] acc = ret acc"
| "fold_run f (x # xs) acc = andthen (f x acc) (fold_run f xs)"

definition add_trace :: "string \<Rightarrow> ('w, unit) run" where
  "add_trace line s = (Ok (), s\<lparr>rs_trace := rs_trace s @ [line]\<rparr>)"

definition add_step :: "step \<Rightarrow> ('w, unit) run" where
  "add_step st s = (Ok (), s\<lparr>rs_steps := rs_steps s @ [st]\<rparr>)"

definition add_tool :: "string \<Rightarrow> ('w, unit) run" where
  "add_tool name s = (Ok (), s\<lparr>rs_tools := rs_tools s @ [name]\<rparr>)"

definition add_tool_once :: "string \<Rightarrow> ('w, unit) run" where
  "add_tool_once name s = (Ok (), s\<lparr>rs_tools := add_new name (rs_tools s)\<rparr>)"

definition monotonic :: "'w run_env \<Rightarrow> ('w, rat) run" where
  "monotonic E = outside (w_monotonic (e_world E)) (\<lambda>_. [])"

section \<open>Status, audit and egress\<close>

definition emit :: "'w run_env \<Rightarrow> json \<Rightarrow> ('w, unit) run" where
  "emit E ev = andthen (outside (w_emit (e_world E) ev) (\<lambda>_. [Emitted ev])) awaiting"

definition status :: "'w run_env \<Rightarrow> string \<Rightarrow> string \<Rightarrow> bool \<Rightarrow> string list \<Rightarrow> ('w, unit) run" where
  "status E action description finished notes =
     only_if (e_emitter E) (
       andthen (outside (w_time (e_world E)) (\<lambda>_. [])) (\<lambda>now.
       let kept = filter (\<lambda>f. f \<noteq> []) notes in
       emit E (JObj [(''type'', JStr ''status''), (''data'', JObj ([(''action'', JStr action), (''description'', JStr description),
         (''done'', JBool finished), (''ts'', JFloat (Fin (round_to 3 now)))]
         @ (if kept \<noteq> [] then [(''facts'', JList (map JStr kept))] else [])))])))"

definition emit_source :: "'w run_env \<Rightarrow> source_doc \<Rightarrow> ('w, unit) run" where
  "emit_source E source = only_if (e_emitter E) (emit E (source_event source))"

definition audit_bind :: "json pydict \<Rightarrow> ('w, unit) run" where
  "audit_bind ctx s = (Ok (), s\<lparr>rs_context := ctx\<rparr>)"

definition audit :: "'w run_env \<Rightarrow> string \<Rightarrow> json pydict \<Rightarrow> ('w, json pydict option) run" where
  "audit E action flds s =
     (let (now, w1) = w_time (e_world E) (rs_world s); (d, w2) = w_disk (e_world E) w1;
          (entry, tr) = record_entry (rs_context s) (round_to 3 now) d action flds (rs_trail s)
      in (Ok entry, s\<lparr>rs_world := w2, rs_trail := tr,
            rs_log := rs_log s @ [Audited (bind_run (rs_context s)) (round_to 3 now) d action flds]\<rparr>))"

definition audited :: "'w run_env \<Rightarrow> string \<Rightarrow> json pydict \<Rightarrow> ('w, unit) run" where
  "audited E action flds = andthen (audit E action flds) (\<lambda>_. ret ())"

text \<open>\<^verbatim>\<open>_digest\<close>.\<close>

definition digest_text :: "string \<Rightarrow> ('w, string) run" where
  "digest_text s = raising (digest (HStr s))"

definition digest_json :: "json \<Rightarrow> ('w, string) run" where
  "digest_json v = raising (digest (HJson v))"

definition trail_span :: "json \<Rightarrow> ('w, string) run" where
  \<open>trail_span first = gets (\<lambda>s.
     if \<not> jtruthy first then []
     else
       let newest = (case tr_seq (rs_trail s) of Some n \<Rightarrow> jor n first | None \<Rightarrow> first);
           span = (if newest = first then ''entry '' @ py_str first
                   else ''entries '' @ py_str first @ lit ''~u2013'' @ py_str newest)
       in span @ lit '' ~u00b7 chain head '' @ py_take 16 (tr_head (rs_trail s)) @ lit ''~u2026'')\<close>

definition egress_mark :: "'w run_env \<Rightarrow> ('w, json option) run" where
  "egress_mark E = outside (w_mark (e_world E)) (\<lambda>_. [])"

definition egress_since :: "'w run_env \<Rightarrow> json option \<Rightarrow> ('w, egress) run" where
  "egress_since E mark = (
       andthen (outside (w_since (e_world E) mark) (\<lambda>_. [])) (\<lambda>seen.
       ret (case seen of Some e \<Rightarrow> e | None \<Rightarrow> Unobserved ''this backend has no egress watch'')))"

section \<open>Tools\<close>

definition visible_args :: "json pydict \<Rightarrow> json pydict" where
  "visible_args kwargs = filter (\<lambda>(k, v). \<not> starts_with k ''__'') kwargs"

definition use_tool :: "'w run_env \<Rightarrow> string \<Rightarrow> json pydict \<Rightarrow> ('w, string) run" where
  "use_tool E name kwargs =
     (if dict_get (e_tools E) name \<noteq> Some True then ret []
      else (
       andthen (digest_json (JObj (visible_args kwargs))) (\<lambda>given.
       andthen (monotonic E) (\<lambda>started.
       andthen (outside (w_tool (e_world E) name kwargs) (\<lambda>_. [ToolCall name kwargs])) (\<lambda>r.
       (case r of
           Cancelled \<Rightarrow> (\<lambda>s. (Cancel, s))
         | Fails exc \<Rightarrow> (
         andthen (monotonic E) (\<lambda>ended.
         seq (audited E ''tool.call'' [(''tool'', JStr name), (''input'', JStr given), (''ok'', JBool False),
               (''error'', JStr (py_take 160 (ex_text exc))), (''seconds'', JFloat (Fin (round_to 2 (fsub ended started))))]) (
         ret (ERR @ '' '' @ name @ '' failed: '' @ ex_text exc))))
         | Got result \<Rightarrow> (
         let text = py_strip result in
         andthen (digest_text text) (\<lambda>sealed.
         andthen (monotonic E) (\<lambda>ended.
         seq (audited E ''tool.call'' [(''tool'', JStr name), (''input'', JStr given), (''output'', JStr sealed), (''ok'', JBool True),
               (''seconds'', JFloat (Fin (round_to 2 (fsub ended started))))]) (
         ret text))))))))))"

definition tool_failed :: "string \<Rightarrow> bool" where
  "tool_failed text \<longleftrightarrow> text = [] \<or> starts_with text ERR"

section \<open>Agents\<close>

text \<open>A model's answer; the agent and the label are filled in by the stage that called it.\<close>

definition make_step :: "'w run_env \<Rightarrow> string \<Rightarrow> string \<Rightarrow> string \<Rightarrow> rat \<Rightarrow> json pydict \<Rightarrow> ('w, step) run" where
  "make_step E text thinking model started usage = (
       andthen (monotonic E) (\<lambda>ended.
       ret \<lparr>sp_agent = [], sp_label = [], sp_model = model, sp_seconds = fsub ended started,
            sp_thinking = thinking, sp_text = text, sp_usage = usage\<rparr>))"

definition labelled :: "string \<Rightarrow> string \<Rightarrow> step \<Rightarrow> step" where
  "labelled agent label st = st\<lparr>sp_agent := agent, sp_label := label\<rparr>"

fun shrink_all :: "(string \<Rightarrow> int \<Rightarrow> string option) \<Rightarrow> int \<Rightarrow> json list \<Rightarrow> py_error + json list" where
  "shrink_all shrink limit [] = Inr []"
| "shrink_all shrink limit (p # ps) = (case shrink_image shrink p limit of
      Inl e \<Rightarrow> Inl e
    | Inr q \<Rightarrow> map_sum id ((#) q) (shrink_all shrink limit ps))"

text \<open>The images of the last message, for an agent that is to see them.\<close>

definition agent_content :: "'w run_env \<Rightarrow> json pydict \<Rightarrow> string \<Rightarrow> bool \<Rightarrow> int option \<Rightarrow> ('w, json) run" where
  "agent_content E message instruction pass_images edge =
     (let parts = (if pass_images then filter is_image_part (content_parts message) else []);
          limit = (case edge of Some e \<Rightarrow> e | None \<Rightarrow> v_vision_max_edge (e_valves E))
      in if parts = [] then ret (JStr instruction)
         else (
       andthen (raising (if limit \<noteq> 0 then shrink_all (w_shrink (e_world E)) limit parts else Inr parts)) (\<lambda>sent.
       ret (JList (JObj [(''type'', JStr ''text''), (''text'', JStr instruction)] # sent)))))"

record call =
  cl_model :: string
  cl_system :: string
  cl_instruction :: string
  cl_images :: bool
  cl_think :: bool
  cl_edge :: "int option"
  cl_tokens :: "int option"

definition plain_call :: "string \<Rightarrow> string \<Rightarrow> string \<Rightarrow> call" where
  "plain_call model system instruction = \<lparr>cl_model = model, cl_system = system, cl_instruction = instruction,
     cl_images = False, cl_think = True, cl_edge = None, cl_tokens = None\<rparr>"

definition call_messages :: "call \<Rightarrow> json \<Rightarrow> json" where
  "call_messages c content = JList [JObj [(''role'', JStr ''system''), (''content'', JStr (cl_system c))],
     JObj [(''role'', JStr ''user''), (''content'', content)]]"

definition call_payload :: "valves \<Rightarrow> call \<Rightarrow> json \<Rightarrow> json" where
  "call_payload v c content =
     (let budget = (case cl_tokens c of Some n \<Rightarrow> n | None \<Rightarrow> v_max_tokens v)
      in JObj ([(''model'', JStr (cl_model c)), (''messages'', call_messages c content), (''stream'', JBool False)]
           @ (if budget \<noteq> 0 then [(''max_tokens'', JInt budget)] else [])))"

text \<open>What the call makes of an answer of the model server.\<close>

definition read_reply :: "'w run_env \<Rightarrow> call \<Rightarrow> json \<Rightarrow> rat \<Rightarrow> response \<Rightarrow> ('w, step) run" where
  "read_reply E c content started response =
     (let usage = usage_of response; (raw, separate) = response_parts response in (
       andthen (digest_json (call_messages c content)) (\<lambda>given.
       andthen (digest_text (raw @ separate)) (\<lambda>sealed.
       andthen (monotonic E) (\<lambda>ended.
       seq (audited E ''model.call'' [(''agent'', JStr (agent_of (cl_system c))), (''model'', JStr (cl_model c)), (''input'', JStr given),
          (''output'', JStr sealed), (''seconds'', JFloat (Fin (round_to 2 (fsub ended started)))), (''tokens'', jget usage ''total_tokens'')]) (
       (if py_strip raw = [] \<and> py_strip separate = [] then
           make_step E (failure (''local model '' @ [CHR 0x27] @ cl_model c @ [CHR 0x27] @ '' returned no content'') (explain_response response))
             [] (cl_model c) started usage
         else
           let (answer, inline) = split_thinking (py_strip raw);
               thinking = join_with nl2 (filter (\<lambda>t. t \<noteq> []) [py_strip separate, inline])
           in make_step E (or_text answer (py_strip raw)) thinking (cl_model c) started usage)))))))"

definition agent_call :: "'w run_env \<Rightarrow> json pydict \<Rightarrow> call \<Rightarrow> ('w, step) run" where
  \<open>agent_call E message c =
     (let c = (if cl_think c then c else c\<lparr>cl_instruction := cl_instruction c @ lit ''~n~n/no_think''\<rparr>) in (
       andthen (agent_content E message (cl_instruction c) (cl_images c) (cl_edge c)) (\<lambda>content.
       andthen (monotonic E) (\<lambda>started.
       andthen (outside (w_complete (e_world E) (call_payload (e_valves E) c content))
          (\<lambda>_. [ModelCall (agent_of (cl_system c)) (cl_model c)])) (\<lambda>r.
       (case r of
           Cancelled \<Rightarrow> (\<lambda>s. (Cancel, s))
         | Fails exc \<Rightarrow> (
         andthen (digest_json (call_messages c content)) (\<lambda>given.
         andthen (monotonic E) (\<lambda>ended.
         seq (audited E ''model.call'' [(''agent'', JStr (agent_of (cl_system c))), (''model'', JStr (cl_model c)), (''input'', JStr given),
               (''ok'', JBool False), (''error'', JStr (py_take 160 (ex_text exc))),
               (''seconds'', JFloat (Fin (round_to 2 (fsub ended started))))]) (
         make_step E (failure (''local model call to '' @ [CHR 0x27] @ cl_model c @ [CHR 0x27] @ '' failed'') (explain_raised exc)) [] (cl_model c) started []))))
         | Got response \<Rightarrow> read_reply E c content started response))))))\<close>

section \<open>Relations a run obeys\<close>

text \<open>
  What can be said of a computation whatever the outside does: the states before and after it are related. A relation that
  is reflexive and transitive is obeyed by a stage when the calls the stage is made of obey it.
\<close>

definition obeys :: "('w run_state \<Rightarrow> 'w run_state \<Rightarrow> bool) \<Rightarrow> ('w, 'a) run \<Rightarrow> bool" where
  "obeys R m \<longleftrightarrow> (\<forall>s. R s (snd (m s)))"

text \<open>The tools that write a file for the user, and what counts as releasing.\<close>

definition writes_file :: "string \<Rightarrow> json pydict \<Rightarrow> bool" where
  "writes_file name kwargs \<longleftrightarrow> name \<in> {''save_artifact'', ''create_spreadsheet'', ''create_presentation'', ''create_word_document''}
     \<or> name = ''write_sheet'' \<and> dict_get kwargs ''__preview__'' \<noteq> Some (JBool True)"

fun releases :: "act \<Rightarrow> bool" where
  "releases (ToolCall name kwargs) = writes_file name kwargs"
| "releases (Audited ctx now d action flds) = (action = ''release'')"
| "releases _ = False"

fun is_call :: "act \<Rightarrow> bool" where
  "is_call (ModelCall _ _) = True"
| "is_call _ = False"

lemma ret_andthen: "andthen (ret x) f = f x"
  by (rule ext) (simp add: andthen_def ret_def)

locale run_preorder =
  fixes R :: "'w run_state \<Rightarrow> 'w run_state \<Rightarrow> bool"
  assumes R_refl: "R s s" and R_trans: "R s t \<Longrightarrow> R t u \<Longrightarrow> R s u"
begin

lemma obeys_pure:
  "obeys R (ret x)" "obeys R (stop_with text)" "obeys R (gets f)" "obeys R (raising r)" "obeys R (awaiting a)"
  by (auto simp: obeys_def ret_def stop_with_def gets_def raising_def awaiting_def R_refl split: sum.splits awaited.splits)

lemma obeys_cancel: "obeys R (\<lambda>s. (Cancel, s))"
  by (simp add: obeys_def R_refl)

lemma obeys_andthen: "obeys R m \<Longrightarrow> (\<And>x. obeys R (f x)) \<Longrightarrow> obeys R (andthen m f)"
  unfolding obeys_def andthen_def by (auto split: prod.splits outcome.splits) (metis R_trans snd_conv)+

lemma obeys_seq: "obeys R m \<Longrightarrow> obeys R n \<Longrightarrow> obeys R (seq m n)"
  unfolding seq_def by (rule obeys_andthen)

lemma obeys_only_if: "(b \<Longrightarrow> obeys R m) \<Longrightarrow> obeys R (only_if b m)"
  by (simp add: only_if_def obeys_pure)

lemma obeys_fold: "(\<And>x acc. obeys R (f x acc)) \<Longrightarrow> obeys R (fold_run f xs acc)"
  by (induction xs arbitrary: acc) (auto intro: obeys_pure obeys_andthen)

lemma obeys_if: "(b \<Longrightarrow> obeys R m) \<Longrightarrow> (\<not> b \<Longrightarrow> obeys R n) \<Longrightarrow> obeys R (if b then m else n)"
  by simp

lemma obeys_option:
  "(r = None \<Longrightarrow> obeys R m) \<Longrightarrow> (\<And>x. r = Some x \<Longrightarrow> obeys R (f x)) \<Longrightarrow> obeys R (case r of None \<Rightarrow> m | Some x \<Rightarrow> f x)"
  by (cases r) auto

lemma obeys_awaited:
  "(\<And>x. obeys R (f x)) \<Longrightarrow> (\<And>e. obeys R (g e)) \<Longrightarrow> obeys R h
   \<Longrightarrow> obeys R (case r of Got x \<Rightarrow> f x | Fails e \<Rightarrow> g e | Cancelled \<Rightarrow> h)"
  by (cases r) auto

lemma obeys_prod: "(\<And>a b. obeys R (f a b)) \<Longrightarrow> obeys R (case p of (a, b) \<Rightarrow> f a b)"
  by (cases p) auto

lemma obeys_list:
  "obeys R m \<Longrightarrow> (\<And>x xs. obeys R (f x xs)) \<Longrightarrow> obeys R (case ys of [] \<Rightarrow> m | x # xs \<Rightarrow> f x xs)"
  by (cases ys) auto

lemma obeys_let: "(\<And>x. obeys R (f x)) \<Longrightarrow> obeys R (let x = e in f x)"
  by (simp add: Let_def)

lemmas obeys_rules = obeys_pure obeys_cancel obeys_andthen obeys_seq obeys_only_if obeys_fold
  obeys_if obeys_option obeys_awaited obeys_prod obeys_list obeys_let

end

text \<open>
  A relation on the trail and the log. \<open>ok\<close> is what the acts of a stage have to satisfy: a status, an entry of the audit
  trail other than a release, a tool that writes no file, a question to the reviewer and an update of the message always do.
\<close>

locale run_quiet = run_preorder R for R :: "'w run_state \<Rightarrow> 'w run_state \<Rightarrow> bool" +
  fixes ok :: "act \<Rightarrow> bool"
  assumes R_quiet: "rs_trail t = rs_trail s \<Longrightarrow> rs_log t = rs_log s @ new \<Longrightarrow> list_all ok new
        \<Longrightarrow> list_all (\<lambda>a. \<forall>c n d x f. a \<noteq> Audited c n d x f) new \<Longrightarrow> R s t"
    and R_audit: "rs_trail t = snd (trail_append ctx now d action flds (rs_trail s))
        \<Longrightarrow> rs_log t = rs_log s @ [Audited ctx now d action flds] \<Longrightarrow> ok (Audited ctx now d action flds) \<Longrightarrow> R s t"
    and ok_emit: "ok (Emitted ev)" and ok_ask: "ok (Asked ev a)"
    and ok_audit: "action \<noteq> ''release'' \<Longrightarrow> ok (Audited ctx now d action flds)"
    and ok_upsert: "ok (Upserted v)"
    and ok_tool: "\<not> writes_file name kwargs \<Longrightarrow> ok (ToolCall name kwargs)"
begin

lemma obeys_outside:
  assumes "\<And>x. list_all ok (note x) \<and> list_all (\<lambda>a. \<forall>c n d y f. a \<noteq> Audited c n d y f) (note x)"
  shows "obeys R (outside f note)"
  unfolding obeys_def outside_def using assms by (auto split: prod.splits intro!: R_quiet)

lemma obeys_silent: "obeys R (outside f (\<lambda>_. []))"
  by (rule obeys_outside) simp

lemma obeys_local:
  "obeys R (add_trace l)" "obeys R (add_step st)" "obeys R (add_tool n)" "obeys R (add_tool_once n)"
  "obeys R (audit_bind ctx)"
  by (auto simp: obeys_def add_trace_def add_step_def add_tool_def add_tool_once_def audit_bind_def intro!: R_quiet [of _ _ "[]"])

lemma obeys_emit: "obeys R (emit E ev)"
  unfolding emit_def by (intro obeys_andthen obeys_outside obeys_pure) (simp add: ok_emit)

lemma obeys_status: "obeys R (status E action description finished notes)"
  unfolding status_def by (intro obeys_rules obeys_silent obeys_emit)

lemma obeys_monotonic: "obeys R (monotonic E)"
  unfolding monotonic_def by (rule obeys_silent)

lemma obeys_digest: "obeys R (digest_text t)" "obeys R (digest_json v)"
  by (simp_all add: digest_text_def digest_json_def obeys_pure)

lemma obeys_audit_ok: "(\<And>ctx now d. ok (Audited ctx now d action flds)) \<Longrightarrow> obeys R (audit E action flds)"
  unfolding obeys_def audit_def record_entry_def
  by (auto simp: Let_def split: prod.splits intro!: R_audit)

lemma obeys_audit: "action \<noteq> ''release'' \<Longrightarrow> obeys R (audit E action flds)"
  by (rule obeys_audit_ok) (rule ok_audit)

lemma obeys_audited: "action \<noteq> ''release'' \<Longrightarrow> obeys R (audited E action flds)"
  unfolding audited_def by (intro obeys_andthen obeys_audit obeys_pure)

lemma obeys_emit_source: "obeys R (emit_source E source)"
  unfolding emit_source_def by (intro obeys_only_if obeys_emit)

lemma obeys_egress: "obeys R (egress_mark E)" "obeys R (egress_since E mark)" "obeys R (trail_span first)"
  by (simp_all add: egress_mark_def egress_since_def trail_span_def obeys_silent obeys_andthen obeys_pure)

lemma obeys_tool_ok: "ok (ToolCall name kwargs) \<Longrightarrow> obeys R (use_tool E name kwargs)"
  unfolding use_tool_def
  by (intro obeys_rules obeys_outside obeys_monotonic obeys_digest obeys_audited) (auto simp: ok_audit)

lemma obeys_tool: "\<not> writes_file name kwargs \<Longrightarrow> obeys R (use_tool E name kwargs)"
  by (intro obeys_tool_ok ok_tool)

lemmas quiet_base = obeys_rules obeys_silent obeys_local obeys_emit obeys_status obeys_monotonic
  obeys_digest obeys_audit obeys_audited obeys_emit_source obeys_egress obeys_tool

lemma obeys_make_step: "obeys R (make_step E text thinking model started usage)"
  unfolding make_step_def by (intro quiet_base)

lemma obeys_read_reply: "obeys R (read_reply E c content started response)"
  unfolding read_reply_def by (intro quiet_base obeys_make_step) auto

lemma obeys_agent_content: "obeys R (agent_content E message instruction images edge)"
  unfolding agent_content_def by (intro quiet_base)

lemmas quiet_rules = quiet_base obeys_make_step

end

text \<open>Calls of a model are allowed as well.\<close>

locale run_frame = run_quiet R ok for R :: "'w run_state \<Rightarrow> 'w run_state \<Rightarrow> bool" and ok +
  assumes ok_model: "ok (ModelCall agent model)"
begin

lemma obeys_agent_call: "obeys R (agent_call E message c)"
  unfolding agent_call_def
  by (intro quiet_rules obeys_outside obeys_make_step obeys_read_reply obeys_agent_content) (auto simp: ok_model)

lemmas frame_rules = quiet_rules obeys_agent_call

end

text \<open>Tools that write a file are allowed as well; and the acts of a whole run.\<close>

locale run_writing = run_quiet R ok for R :: "'w run_state \<Rightarrow> 'w run_state \<Rightarrow> bool" and ok +
  assumes ok_write: "ok (ToolCall name kwargs)"
begin

lemma obeys_any_tool: "obeys R (use_tool E name kwargs)"
  by (rule obeys_tool_ok) (rule ok_write)

end

locale run_whole = run_frame R ok + run_writing R ok for R :: "'w run_state \<Rightarrow> 'w run_state \<Rightarrow> bool" and ok +
  assumes ok_release: "ok (Audited ctx now d ''release'' flds)"

section \<open>The relations of this program\<close>

text \<open>The log only grows, by acts that satisfy a predicate.\<close>

definition log_grows :: "(act \<Rightarrow> bool) \<Rightarrow> 'w run_state \<Rightarrow> 'w run_state \<Rightarrow> bool" where
  "log_grows P s t \<longleftrightarrow> (\<exists>new. rs_log t = rs_log s @ new \<and> list_all P new)"

text \<open>The trail is what the entries of the log make of it.\<close>

definition audit_events :: "act list \<Rightarrow> trail_event list" where
  "audit_events acts = List.map_filter (\<lambda>a. case a of Audited ctx now d action flds \<Rightarrow> Some (Append ctx now d action flds) | _ \<Rightarrow> None) acts"

definition trail_replays :: "'w run_state \<Rightarrow> 'w run_state \<Rightarrow> bool" where
  "trail_replays s t \<longleftrightarrow> (\<exists>new. rs_log t = rs_log s @ new \<and> rs_trail t = foldl (\<lambda>tr ev. trail_do ev tr) (rs_trail s) (audit_events new))"

lemma audit_events_append: "audit_events (a @ b) = audit_events a @ audit_events b"
  by (induction a) (auto simp: audit_events_def List.map_filter_def)

lemma audit_events_none: "list_all (\<lambda>a. \<forall>c n d x f. a \<noteq> Audited c n d x f) new \<Longrightarrow> audit_events new = []"
  by (induction new) (auto simp: audit_events_def List.map_filter_def split: act.splits)

lemma log_grows_trans: "log_grows P s t \<Longrightarrow> log_grows P t u \<Longrightarrow> log_grows P s u"
  by (auto simp: log_grows_def)

lemma log_grows_refl: "log_grows P s s"
  by (simp add: log_grows_def)

interpretation unreleased: run_frame "log_grows (\<lambda>a. \<not> releases a)" "\<lambda>a. \<not> releases a"
  by unfold_locales (auto simp: log_grows_refl log_grows_def)

interpretation uncalled: run_writing "log_grows (\<lambda>a. \<not> is_call a)" "\<lambda>a. \<not> is_call a"
  by unfold_locales (auto simp: log_grows_refl log_grows_def)

interpretation replayed: run_whole trail_replays "\<lambda>a. True"
proof unfold_locales
  show "trail_replays s s" for s :: "'a run_state" by (auto simp: trail_replays_def audit_events_def List.map_filter_def)
  show "trail_replays s u" if "trail_replays s t" "trail_replays t u" for s t u :: "'a run_state"
    using that by (auto simp: trail_replays_def audit_events_append)
  show "trail_replays s t" if "rs_trail t = rs_trail s" "rs_log t = rs_log s @ new"
    "list_all (\<lambda>a. \<forall>c n d x f. a \<noteq> Audited c n d x f) new" for s t :: "'a run_state" and new
    using that audit_events_none by (auto simp: trail_replays_def)
  show "trail_replays s t" if "rs_trail t = snd (trail_append ctx now d action flds (rs_trail s))"
    "rs_log t = rs_log s @ [Audited ctx now d action flds]" for s t :: "'a run_state" and ctx now d action flds
    using that by (auto simp: trail_replays_def audit_events_def List.map_filter_def)
qed auto

text \<open>The bytes of the trail are only extended.\<close>

definition trail_extends :: "'w run_state \<Rightarrow> 'w run_state \<Rightarrow> bool" where
  "trail_extends s t \<longleftrightarrow> (\<exists>more. trail_bytes (rs_trail t) = trail_bytes (rs_trail s) @ more)"

interpretation extended: run_whole trail_extends "\<lambda>a. True"
  by unfold_locales (auto simp: trail_extends_def append_extends)

section \<open>How often a model is called\<close>

definition calls :: "act list \<Rightarrow> nat" where
  "calls acts = length (filter is_call acts)"

definition bounded :: "nat \<Rightarrow> ('w, 'a) run \<Rightarrow> bool" where
  "bounded n m \<longleftrightarrow> (\<forall>s. \<exists>new. rs_log (snd (m s)) = rs_log s @ new \<and> calls new \<le> n)"

lemma calls_append [simp]: "calls (a @ b) = calls a + calls b"
  by (simp add: calls_def)

lemma bounded_quiet: "obeys (log_grows (\<lambda>a. \<not> is_call a)) m \<Longrightarrow> bounded 0 m"
  by (fastforce simp: obeys_def log_grows_def bounded_def calls_def list_all_iff filter_empty_conv)

lemma bounded_mono: "bounded n m \<Longrightarrow> n \<le> k \<Longrightarrow> bounded k m"
  unfolding bounded_def by (meson order_trans)

lemma bounded_andthen:
  assumes "bounded n m" "\<And>x. bounded k (f x)"
  shows "bounded (n + k) (andthen m f)"
  unfolding bounded_def
proof
  fix s
  obtain r t where m: "m s = (r, t)" by fastforce
  obtain new where n: "rs_log t = rs_log s @ new" "calls new \<le> n" using assms(1) m unfolding bounded_def by (metis snd_conv)
  show "\<exists>new. rs_log (snd (andthen m f s)) = rs_log s @ new \<and> calls new \<le> n + k"
  proof (cases r)
    case (Ok x)
    obtain more where "rs_log (snd (f x t)) = rs_log t @ more" "calls more \<le> k" using assms(2) unfolding bounded_def by blast
    then show ?thesis using n m Ok by (intro exI [of _ "new @ more"]) (simp add: andthen_def)
  qed (use n m in \<open>auto simp: andthen_def intro!: exI [of _ new]\<close>)
qed

lemma bounded_before:
  assumes "obeys (log_grows (\<lambda>a. \<not> is_call a)) m" "\<And>x. bounded k (f x)"
  shows "bounded k (andthen m f)"
  using bounded_andthen [OF bounded_quiet [OF assms(1)] assms(2)] by simp

lemma bounded_after:
  assumes "bounded k m" "\<And>x. obeys (log_grows (\<lambda>a. \<not> is_call a)) (f x)"
  shows "bounded k (andthen m f)"
  using bounded_andthen [OF assms(1) bounded_quiet [OF assms(2)]] by simp

lemma bounded_if: "bounded n m \<Longrightarrow> bounded n m' \<Longrightarrow> bounded n (if b then m else m')"
  by simp

lemma bounded_only_if: "bounded n m \<Longrightarrow> bounded n (only_if b m)"
  by (auto simp: only_if_def ret_def bounded_def calls_def)

lemma bounded_agent_call: "bounded 1 (agent_call E message c)"
proof -
  have "bounded 1 (outside f (\<lambda>_. [ModelCall a m]))" for f :: "'a \<Rightarrow> 'b \<times> 'a" and a m
    by (auto simp: bounded_def outside_def calls_def split: prod.splits)
  then show ?thesis unfolding agent_call_def Let_def
    by (intro bounded_before bounded_after uncalled.quiet_rules uncalled.obeys_agent_content uncalled.obeys_make_step
        uncalled.obeys_read_reply) auto
qed

lemma bounded_call:
  assumes "\<And>x. obeys (log_grows (\<lambda>a. \<not> is_call a)) (f x)"
  shows "bounded 1 (andthen (agent_call E message c) f)"
  using bounded_after [OF bounded_agent_call assms] .

lemma bounded_seq: "obeys (log_grows (\<lambda>a. \<not> is_call a)) m \<Longrightarrow> bounded k n \<Longrightarrow> bounded k (seq m n)"
  unfolding seq_def by (rule bounded_before)

lemma bounded_no_call: "obeys (log_grows (\<lambda>a. \<not> is_call a)) m \<Longrightarrow> bounded n m"
  by (rule bounded_mono [OF bounded_quiet]) simp_all

lemma bounded_option:
  "bounded n m \<Longrightarrow> (\<And>x. bounded n (f x)) \<Longrightarrow> bounded n (case r of None \<Rightarrow> m | Some x \<Rightarrow> f x)"
  by (cases r) auto

lemma bounded_prod: "(\<And>a b. bounded n (f a b)) \<Longrightarrow> bounded n (case p of (a, b) \<Rightarrow> f a b)"
  by (cases p) auto

lemmas bounded_rules = bounded_call bounded_before bounded_seq bounded_if bounded_option bounded_prod

section \<open>What a run returns\<close>

text \<open>Every value a computation can return satisfies a predicate.\<close>

definition yields :: "('a \<Rightarrow> bool) \<Rightarrow> ('w, 'a) run \<Rightarrow> bool" where
  "yields P m \<longleftrightarrow> (\<forall>s x t. m s = (Ok x, t) \<longrightarrow> P x)"

lemma yields_ret: "P x \<Longrightarrow> yields P (ret x)"
  by (simp add: yields_def ret_def)

lemma yields_andthen: "yields Q m \<Longrightarrow> (\<And>x. Q x \<Longrightarrow> yields P (f x)) \<Longrightarrow> yields P (andthen m f)"
  unfolding yields_def andthen_def by (auto split: prod.splits outcome.splits) blast

lemma yields_last: "(\<And>x. yields P (f x)) \<Longrightarrow> yields P (andthen m f)"
  by (rule yields_andthen [of "\<lambda>_. True"]) (auto simp: yields_def)

lemma yields_seq: "yields P n \<Longrightarrow> yields P (seq m n)"
  unfolding seq_def by (rule yields_last)

lemma yields_if: "(b \<Longrightarrow> yields P m) \<Longrightarrow> (\<not> b \<Longrightarrow> yields P n) \<Longrightarrow> yields P (if b then m else n)"
  by simp

lemma yields_prod: "(\<And>a b. p = (a, b) \<Longrightarrow> yields P (f a b)) \<Longrightarrow> yields P (case p of (a, b) \<Rightarrow> f a b)"
  by (cases p) auto

lemma yields_stop: "yields P (stop_with text)"
  by (simp add: yields_def stop_with_def)

lemmas yields_rules = yields_ret yields_last yields_seq yields_if yields_prod yields_stop

section \<open>A concrete run\<close>

text \<open>A small world for concrete runs: the clocks stand still, the disk works, the reviewer approves everything, one model is served.\<close>

definition demo_world :: "unit world" where
  "demo_world = \<lparr>w_monotonic = Pair 0, w_time = Pair 0, w_now = Pair \<lparr>lt_day = 1, lt_month_year = ''May 2025'', lt_clock = ''09:00'', lt_zone = ''UTC'', lt_iso = []\<rparr>,
     w_disk = Pair DiskOk, w_emit = (\<lambda>ev. Pair (Got ())), w_ask = (\<lambda>req. Pair (Got (JStr ''approve''))),
     w_complete = (\<lambda>payload. Pair (Got ROther)), w_tool = (\<lambda>name kwargs. Pair (Got [])), w_user = (\<lambda>uid. Pair (Got (Some \<lparr>us_id = ''u1'', us_name = ''Ann'', us_email = []\<rparr>))),
     w_models = (\<lambda>w. [''qwen3-1.7b'']), w_knowledge = (\<lambda>model. Pair (Got None)), w_query = (\<lambda>cs query k. Pair (Got JNull)),
     w_annotate = (\<lambda>picture fs. Pair (Got [])), w_store_image = (\<lambda>owner picture name. Pair (Got [])),
     w_upsert = (\<lambda>chat message v. Pair (Got ())), w_mark = Pair None, w_since = (\<lambda>mark. Pair None),
     w_ast = (\<lambda>source. BadSyntax), w_open_image = (\<lambda>picture. None), w_shrink = (\<lambda>picture edge. None)\<rparr>"

definition demo_env :: "json pydict \<Rightarrow> unit run_env" where
  "demo_env body = \<lparr>e_world = demo_world, e_valves = default_valves, e_body = body, e_user = [(''id'', JStr ''u1'')],
     e_metadata = [(''chat_id'', JStr ''c1''), (''message_id'', JStr ''m1''), (''session_id'', JStr ''s1'')], e_tools = [],
     e_task = [], e_emitter = True, e_event_call = True\<rparr>"

definition demo_state :: "unit run_state" where
  "demo_state = \<lparr>rs_world = (), rs_trail = new_trail None, rs_context = [], rs_trace = [], rs_steps = [], rs_tools = [], rs_log = []\<rparr>"

definition demo_body :: "json pydict" where
  "demo_body = [(''messages'', JList [JObj [(''role'', JStr ''user''), (''content'', JStr ''draft an inspection report'')]])]"
end
