(* ===== verification/Chain_Tools.thy ===== *)
theory Chain_Tools
  imports Chain_World
begin

text \<open>
  The parts of a run of the agent chain that call a tool, the vector search or the vision model before any agent
  drafts: retrieval from the knowledge bases attached to the request or the model, the SOP rule pack, the remaining-life
  calculation, the rule pack on every location of a survey, and the reading pass over an image.
\<close>

section \<open>Retrieval\<close>

text \<open>\<^verbatim>\<open>d.get(k)\<close> where the code expects a dictionary.\<close>

definition get_in :: "json \<Rightarrow> string \<Rightarrow> py_error + json" where
  "get_in v k = (case v of JObj d \<Rightarrow> Inr (jget d k) | _ \<Rightarrow> Inl AttributeError)"

definition named_collections :: "json \<Rightarrow> json \<Rightarrow> py_error + json list" where
  "named_collections names single = (case iter_items names of
      Inl e \<Rightarrow> Inl e
    | Inr ns \<Rightarrow> Inr (if ns \<noteq> [] then filter jtruthy ns else if jtruthy single then [single] else []))"

definition knowledge_collections :: "json \<Rightarrow> py_error + json list" where
  "knowledge_collections item = (case item of
      JObj it \<Rightarrow> named_collections (jget it ''collection_names'') (jor (jget it ''collection_name'') (jget it ''id''))
    | _ \<Rightarrow> Inr [])"

definition model_collections :: "'w run_env \<Rightarrow> ('w, json list) run" where
  "model_collections E =
     (let given = jget (e_metadata E) ''model'';
          model_id = (case given of JObj d \<Rightarrow> jget d ''id'' | v \<Rightarrow> v)
      in if \<not> jtruthy model_id then ret []
         else (
       andthen (outside (w_knowledge (e_world E) model_id) (\<lambda>_. [])) (\<lambda>r.
       (case r of
              Cancelled \<Rightarrow> (\<lambda>s. (Cancel, s))
            | Fails exc \<Rightarrow> ret []
            | Got None \<Rightarrow> ret []
            | Got (Some attached) \<Rightarrow> raising (case iter_items attached of
                Inl e \<Rightarrow> Inl e | Inr items \<Rightarrow> map_sum id concat (try_all knowledge_collections items))))))"

definition file_collections :: "json \<Rightarrow> py_error + json list" where
  "file_collections item = (case item of
      JObj it \<Rightarrow>
        (case get_in (jor (jget it ''data'') (JObj [])) ''collection_names'' of
           Inl e \<Rightarrow> Inl e
         | Inr names \<Rightarrow> named_collections names
             (jor (jget it ''collection_name'') (if jget it ''type'' = JStr ''collection'' then jget it ''id'' else JNull)))
    | _ \<Rightarrow> Inr [])"

text \<open>\<^verbatim>\<open>((xs[g] if g < len(xs) else None) or [None] * (i + 1))[i]\<close>.\<close>

definition nth_of :: "json \<Rightarrow> nat \<Rightarrow> nat \<Rightarrow> py_error + json" where
  "nth_of xs g i = (case xs of
      JList rows \<Rightarrow>
        (if g < length rows \<and> jtruthy (rows ! g) then
           (case rows ! g of
              JList vs \<Rightarrow> (if i < length vs then Inr (vs ! i) else Inl IndexError)
            | _ \<Rightarrow> Inl TypeError)
         else Inr JNull)
    | _ \<Rightarrow> Inr JNull)"

definition passage_of :: "json \<Rightarrow> json \<Rightarrow> nat \<times> nat \<times> json \<Rightarrow> py_error + passage list" where
  "passage_of metadatas distances = (\<lambda>(g, i, given).
     case given of
       JStr text \<Rightarrow>
         (if py_strip text = [] then Inr []
          else case (nth_of metadatas g i, nth_of distances g i) of
                 (Inl e, _) \<Rightarrow> Inl e
               | (_, Inl e) \<Rightarrow> Inl e
               | (Inr m, Inr d) \<Rightarrow>
                   (case jor m (JObj []) of
                      JObj meta \<Rightarrow> Inr [\<lparr>pa_text = py_strip text,
                          pa_name = py_str (jor (jor (jget meta ''name'') (jget meta ''source'')) (JStr ''Knowledge base'')),
                          pa_meta = meta, pa_distance = d\<rparr>]
                    | _ \<Rightarrow> Inl TypeError))
     | v \<Rightarrow> (if jtruthy v then Inl AttributeError else Inr []))"

definition indexed_texts :: "json list \<Rightarrow> py_error + (nat \<times> nat \<times> json) list" where
  "indexed_texts documents = map_sum id concat (try_all (\<lambda>(g, grp).
     map_sum id (\<lambda>ts. map (\<lambda>(i, t). (g, i, t)) (enumerate 0 ts)) (iter_items grp)) (enumerate 0 documents))"

definition passages_of :: "json \<Rightarrow> py_error + passage list" where
  "passages_of found = (case jor found (JObj []) of
      JObj d \<Rightarrow>
        (case iter_items (jget d ''documents'') of
           Inl e \<Rightarrow> Inl e
         | Inr documents \<Rightarrow> (case indexed_texts documents of
              Inl e \<Rightarrow> Inl e
            | Inr texts \<Rightarrow> map_sum id concat (try_all (passage_of (jget d ''metadatas'') (jget d ''distances'')) texts)))
    | _ \<Rightarrow> Inl AttributeError)"

text \<open>\<^verbatim>\<open>xs[:k]\<close>.\<close>

definition slice_to :: "int \<Rightarrow> 'a list \<Rightarrow> 'a list" where
  "slice_to k xs = (if 0 \<le> k then take (nat k) xs else take (length xs - nat (- k)) xs)"

definition retrieve :: "'w run_env \<Rightarrow> string \<Rightarrow> ('w, passage list \<times> bool) run" where
  "retrieve E query = (
       andthen (raising (iter_items (jget (e_metadata E) ''files''))) (\<lambda>files.
       andthen (raising (map_sum id concat (try_all file_collections files))) (\<lambda>own.
       andthen ((if own \<noteq> [] then ret own else model_collections E)) (\<lambda>collections.
       (if collections = [] then ret ([], False)
        else (
         andthen (outside (w_query (e_world E) (uniq collections) query (v_retrieval_k (e_valves E))) (\<lambda>_. [])) (\<lambda>r.
         (case r of
             Cancelled \<Rightarrow> (\<lambda>s. (Cancel, s))
           | Fails exc \<Rightarrow> ret ([], True)
           | Got found \<Rightarrow> (
           andthen (raising (passages_of found)) (\<lambda>passages.
           ret (slice_to (v_retrieval_k (e_valves E)) (relevant passages query (v_retrieval_strong_score (e_valves E))), True)))))))))))"

section \<open>The rule pack and the calculation\<close>

definition sop_check :: "'w run_env \<Rightarrow> string \<Rightarrow> string \<Rightarrow> ('w, string) run" where
  \<open>sop_check E readings round_label = (
       seq (status E ''tool'' ''TOOL: comparing readings against the SOP thresholds'' False []) (
       andthen (use_tool E ''check_sop_thresholds'' [(''readings'', JStr readings)]) (\<lambda>sop.
       (if tool_failed sop then ret []
        else (
         seq (add_tool_once ''check_sop_thresholds'') (
         seq (add_step (plain_step ''TOOL'' (''SOP threshold check'' @ round_label) ''deterministic rule pack'' sop)) (
         seq (add_trace ((''**TOOL** `check_sop_thresholds` compared the readings against the authored rule pack and cited '' @
     ''the deciding clause.''))) (
         ret sop))))))))\<close>

definition remaining_life :: "'w run_env \<Rightarrow> string \<Rightarrow> string \<Rightarrow> string \<Rightarrow> ('w, string \<times> json) run" where
  \<open>remaining_life E text sop row_basis =
     (let (years, basis) = sop_interval sop in (
       seq (status E ''tool'' ''TOOL: calculating remaining life from the thickness readings'' False []) (
       andthen (use_tool E ''calculate_remaining_life'' [(''readings'', JStr text), (''max_interval_years'', JFloat years),
          (''interval_basis'', JStr (or_text basis row_basis))]) (\<lambda>out.
       (case re_search flag_s (rx ''```4ce-calc~s*~n(.*?)~n```'') out of
           None \<Rightarrow> ret ([], JNull)
         | Some block \<Rightarrow>
             (if tool_failed out then ret ([], JNull)
              else
                let data = (case loads_text (hit_text (codes_of out) block 1) of Some v \<Rightarrow> v | None \<Rightarrow> JNull);
                    worked = py_strip (py_take (hit_start block) out @ py_drop (hit_end block) out)
                in (
         seq (add_tool_once ''calculate_remaining_life'') (
         seq (add_step (plain_step ''TOOL'' ''remaining-life calculation'' ''deterministic arithmetic'' worked)) (
         seq (add_trace ((''**TOOL** `calculate_remaining_life` worked the corrosion rate, remaining life and next '' @
     ''measurement, every step shown.''))) (
         ret (worked, data)))))))))))\<close>

fun set_interval :: "int \<Rightarrow> pyfloat \<Rightarrow> intervals \<Rightarrow> intervals" where
  "set_interval r v [] = [(r, v)]"
| "set_interval r v ((r', v') # ivs) = (if r = r' then (r, v) # ivs else (r', v') # set_interval r v ivs)"

text \<open>\<^verbatim>\<open>round(years * 12)\<close>.\<close>

definition months_in :: "pyfloat \<Rightarrow> py_error + int" where
  "months_in years = (case years of Fin x \<Rightarrow> Inr (round_even (fmul x 12)) | NegZero \<Rightarrow> Inr 0
     | Inf _ \<Rightarrow> Inl OverflowError | NaN \<Rightarrow> Inl ValueError)"

definition survey_location :: "'w run_env \<Rightarrow> survey_row \<Rightarrow> intervals \<times> string \<times> string list \<Rightarrow> ('w, intervals \<times> string \<times> string list) run" where
  \<open>survey_location E row = (\<lambda>(ivs, basis, lines). (
       andthen (use_tool E ''check_sop_thresholds'' [(''readings'', JStr (''Minimum measured wall thickness '' @ fmt_g (sr_current row)
         @ '' mm. Retirement thickness '' @ fmt_g (sr_required row) @ '' mm.''))]) (\<lambda>out.
       let (years, why) = sop_interval out in
       andthen (raising (if nonzero years then months_in years else Inr 0)) (\<lambda>months.
       ret (if nonzero years then set_interval (sr_row row) years ivs else ivs,
            if nonzero years then or_text basis why else basis,
            lines @ [''| '' @ sr_location row @ '' | '' @ fmt_fixed_float 1 (pf_sub (sr_current row) (sr_required row)) @ '' mm | ''
              @ (if nonzero years then str_int months @ '' months - '' @ why else ''no shorter interval'') @ '' |''])))))\<close>

definition survey_intervals :: "'w run_env \<Rightarrow> string \<Rightarrow> ('w, string \<times> string \<times> intervals) run" where
  \<open>survey_intervals E sheet_text =
     (let rows = survey_rows sheet_text in
      if rows = [] then ret (sheet_text, [], [])
      else (
       seq (status E ''tool'' (''TOOL: checking '' @ str_nat (length rows) @ '' locations against the SOP rule pack'') False []) (
       andthen (fold_run (survey_location E) rows ([], [], [])) (\<lambda>(ivs, basis, lines).
       seq (add_tool_once ''check_sop_thresholds'') (
       seq (add_step (plain_step ''TOOL'' ''SOP rule pack, location by location'' ''deterministic rule pack''
          (lit ''| Location | Wall margin | Interval the SOP requires |~n|---|---|---|~n'' @ join_with nl lines))) (
       seq (add_trace (''**TOOL** `check_sop_thresholds` assessed each of the survey's '' @ str_nat (length rows) @ '' locations; '' @ str_nat (length ivs)
          @ '' need a shorter interval'' @ (if basis \<noteq> [] then '' ('' @ basis @ '').'' else ''.''))) (
       ret (if ivs = [] then (sheet_text, [], []) else (with_interval_column sheet_text ivs, basis, ivs)))))))))\<close>

section \<open>The reading pass\<close>

definition reading_section :: "string \<Rightarrow> string \<Rightarrow> string \<Rightarrow> bool \<Rightarrow> string" where
  \<open>reading_section table url kind flagged =
     lit ''### Read from the image~n~n'' @ table
     @ (if url \<noteq> [] then lit ''~n~n![Each field boxed where it was read]('' @ url @ '')'' else [])
     @ lit (''~n~n*Each number marks where the vision model read that field. The boxes are approximate - on a '' @
     ''drawing one can sit beside its label - so take a value from the image, not the box. '')
     @ (if flagged then (''Orange marks a field read with less than full confidence: check it against the original before '' @
     ''relying on it.*'')
        else ''Every field was read with full confidence.*'')
     @ (if kind = ''drawing'' then lit ''~n~n*Types follow the ISA 5.1 letter code wherever it is one 4CE knows.*'' else [])\<close>

definition annotated_url :: "'w run_env \<Rightarrow> user \<Rightarrow> string \<Rightarrow> field list \<Rightarrow> ('w, string) run" where
  "annotated_url E user picture fs = (
       andthen (outside (w_annotate (e_world E) picture fs) (\<lambda>_. [])) (\<lambda>a.
       andthen (awaiting a) (\<lambda>drawn.
       andthen (outside (w_store_image (e_world E) (us_id user) drawn ''4CE_read_from_image.png'') (\<lambda>_. [])) (\<lambda>r.
       (case r of Cancelled \<Rightarrow> (\<lambda>s. (Cancel, s)) | Fails exc \<Rightarrow> ret [] | Got url \<Rightarrow> ret url)))))"

definition read_image :: "'w run_env \<Rightarrow> user \<Rightarrow> string \<Rightarrow> json pydict \<Rightarrow> string \<Rightarrow> int \<Rightarrow> ('w, reading option) run" where
  \<open>read_image E user model message kind edge =
     (let part = first_image message in (
       andthen (raising (decode_image (w_open_image (e_world E)) part)) (\<lambda>opened.
       andthen (raising (image_url_of part)) (\<lambda>url_in.
       (case (opened, part) of
           (Some pic, Some p) \<Rightarrow> (
         seq (status E ''friday'' ''FRIDAY: reading the image into fields'' False [''Read as a '' @ kind,
               if edge \<noteq> 0 then ''Sent at up to '' @ str_int edge @ '' px on its longest edge'' else ''Sent at full size'', ''Running on '' @ model]) (
         andthen (agent_call E [(''role'', JStr ''user''), (''content'', JList [p])]
               \<lparr>cl_model = model, cl_system = READER_SYSTEM, cl_instruction = READ_PROMPTS kind, cl_images = True, cl_think = False,
                cl_edge = Some edge, cl_tokens = Some (v_extraction_max_tokens (e_valves E))\<rparr>) (\<lambda>st.
         (if starts_with (sp_text st) ERR then (
           seq (add_trace (''**FRIDAY**'s reading pass failed, so FRIDAY read the image unaided.'')) (
           ret None)) else
              let dims = (pic_width pic, pic_height pic); sent = sent_size dims (Some edge) in (
           andthen (raising (parse_fields (sp_text st) kind sent)) (\<lambda>fs.
           (if fs = [] then (
             seq (add_step (labelled ''FRIDAY'' (lit ''reading pass ~u2014 no fields'') st)) (
             seq (add_trace (''**FRIDAY**'s reading pass returned no field 4CE could use, so FRIDAY read the image unaided.'')) (
             ret None))) else (
             andthen (annotated_url E user url_in fs) (\<lambda>url.
             let table = fields_table fs kind dims in
             let flagged = length (filter fd_check fs) in
             seq (add_step (labelled ''FRIDAY'' (lit ''reading pass ~u2014 '' @ count_of (length fs) ''field'')
                     (st\<lparr>sp_text := table @ lit ''~n~n**As the model returned it**~n~n```json~n'' @ py_strip (sp_text st) @ lit ''~n```''\<rparr>))) (
             seq (add_trace (''**FRIDAY** read the image as a '' @ kind @ '', sent at '' @ str_int (max (fst sent) (snd sent)) @ '' px, into ''
                     @ count_of (length fs) ''field'' @ '' in '' @ fmt_fixed 1 (sp_seconds st) @ ''s''
                     @ (if flagged \<noteq> 0 then '', '' @ str_nat flagged @ '' with less than full confidence'' else [])
                     @ ''. 4CE drew each field's box on a copy for the reviewer.'')) (
             ret (Some \<lparr>rd_kind = kind, rd_fields = fs, rd_table = table,
                     rd_section = reading_section table url kind (flagged \<noteq> 0),
                     rd_readings = (if kind \<noteq> ''drawing'' then readings_text fs else []), rd_image_url = url\<rparr>))))))))))))
         | _ \<Rightarrow> ret None)))))\<close>

section \<open>What these stages obey\<close>

context run_quiet
begin

lemma obeys_model_collections: "obeys R (model_collections E)"
  unfolding model_collections_def Let_def by (intro quiet_rules)

lemma obeys_retrieve: "obeys R (retrieve E query)"
  unfolding retrieve_def by (intro quiet_rules obeys_model_collections)

lemma obeys_sop_check: "obeys R (sop_check E readings label)"
  unfolding sop_check_def by (intro quiet_rules) (simp add: writes_file_def)

lemma obeys_remaining_life: "obeys R (remaining_life E given sop basis)"
  unfolding remaining_life_def by (intro quiet_rules) (simp add: writes_file_def)

lemma obeys_survey_location: "obeys R (survey_location E row acc)"
  unfolding survey_location_def by (intro quiet_rules) (simp add: writes_file_def)

lemma obeys_survey_intervals: "obeys R (survey_intervals E sheet)"
  unfolding survey_intervals_def by (intro quiet_rules obeys_survey_location)

lemma obeys_annotated_url: "obeys R (annotated_url E user picture fs)"
  unfolding annotated_url_def by (intro quiet_rules)

lemmas tool_rules = quiet_rules obeys_retrieve obeys_sop_check obeys_remaining_life obeys_survey_intervals

end

context run_frame
begin

lemma obeys_read_image: "obeys R (read_image E user model message kind edge)"
  unfolding read_image_def by (intro frame_rules obeys_annotated_url)

end

section \<open>A rule pack that is not attached\<close>

lemma sop_interval_none: "sop_interval [] = (Fin 0, [])"
  by code_simp

lemma absent_tool: "dict_get (e_tools E) name \<noteq> Some True \<Longrightarrow> use_tool E name kwargs = ret []"
  by (simp add: use_tool_def)

lemma absent_locations:
  assumes "dict_get (e_tools E) ''check_sop_thresholds'' \<noteq> Some True"
  shows "\<exists>lines'. fold_run (survey_location E) rows ([], [], lines) s = (Ok ([], [], lines'), s)"
proof (induction rows arbitrary: lines)
  case (Cons row rows)
  have "\<exists>line. survey_location E row ([], [], lines) = ret ([], [], lines @ [line])"
    by (simp add: survey_location_def absent_tool [OF assms] ret_andthen sop_interval_none nonzero_def raising_def) (rule exI, rule refl)
  then show ?case using Cons.IH by (auto simp: ret_andthen)
qed (simp add: ret_def)

text \<open>When the rule pack is not attached, a survey is still recorded as assessed by it: no tool is called, yet
  \<^verbatim>\<open>check_sop_thresholds\<close> is listed among the tools used, and a step and a line of the trace say that every location was
  assessed.\<close>

lemma absent_rule_pack_recorded:
  assumes "dict_get (e_tools E) ''check_sop_thresholds'' \<noteq> Some True" "survey_rows sheet \<noteq> []" "\<not> e_emitter E"
  shows "\<exists>t. survey_intervals E sheet s = (Ok (sheet, [], []), t) \<and> rs_log t = rs_log s
           \<and> ''check_sop_thresholds'' \<in> set (rs_tools t)
           \<and> last (rs_trace t) = ''**TOOL** `check_sop_thresholds` assessed each of the survey's '' @ str_nat (length (survey_rows sheet))
               @ '' locations; 0 need a shorter interval.''"
proof -
  obtain lines where f: "fold_run (survey_location E) (survey_rows sheet) ([], [], []) s = (Ok ([], [], lines), s)"
    using absent_locations [OF assms(1)] by blast
  have z: "str_nat 0 = ''0''" by code_simp
  show ?thesis using assms(2,3) f
    by (auto simp: survey_intervals_def Let_def status_def only_if_def seq_def ret_def andthen_def
        add_tool_once_def add_new_def add_step_def add_trace_def z)
qed

definition demo_sheet :: string where
  \<open>demo_sheet = lit ''| A ~u00b7 actual | B ~u00b7 treq | row |~n|---|---|---|~n| 7 | 5 | 2 |''\<close>

lemma demo_survey: "survey_rows demo_sheet \<noteq> []"
proof -
  have t: "find_table (split_lines demo_sheet) = Some (lit ''| A ~u00b7 actual | B ~u00b7 treq | row |'', [''| 7 | 5 | 2 |''])" by code_simp
  have n: "map (\<lambda>h. py_lower (re_sub no_flags (rx ''^[A-Z]{1,3} ~u00b7 '') [] h)) (table_cells (lit ''| A ~u00b7 actual | B ~u00b7 treq | row |''))
      = [''actual'', ''treq'', ''row'']" by code_simp
  have c: "column_for ''current'' [''actual'', ''treq'', ''row''] = Some 0" "column_for ''required'' [''actual'', ''treq'', ''row''] = Some 1"
    by code_simp+
  have r: "reading_at (table_cells ''| 7 | 5 | 2 |'') 0 = Some ''7''" "reading_at (table_cells ''| 7 | 5 | 2 |'') 1 = Some ''5''"
    "py_isdigit (last (table_cells ''| 7 | 5 | 2 |''))" by code_simp+
  have "survey_row_of 0 1 ''| 7 | 5 | 2 |'' \<noteq> []" using r(3) unfolding survey_row_of_def Let_def r(1,2) by simp
  then show ?thesis unfolding survey_rows_def t Let_def option.case prod.case n c by simp
qed

lemma absent_rule_pack_recorded_witness:
  "\<exists>t. survey_intervals ((demo_env demo_body)\<lparr>e_emitter := False\<rparr>) demo_sheet demo_state = (Ok (demo_sheet, [], []), t)
     \<and> rs_log t = [] \<and> ''check_sop_thresholds'' \<in> set (rs_tools t)"
proof -
  show ?thesis using demo_survey absent_rule_pack_recorded [of "(demo_env demo_body)\<lparr>e_emitter := False\<rparr>" demo_sheet demo_state]
    by (auto simp: demo_env_def dict_get_def demo_state_def)
qed
end
