(* ===== verification/Chain_Draft.thy ===== *)
theory Chain_Draft
  imports Chain_Tools
begin

text \<open>
  A run of the agent chain up to the verdict, \<^verbatim>\<open>_run_chain\<close> of \<^verbatim>\<open>4ce/functions/orchestrator.py\<close>: reading the request, retrieval, routing, the
  direct reply to small talk, what the tools and the reading pass contribute, and the rounds in which FRIDAY analyses,
  JARVIS drafts and ULTRON challenges. The local variables of the method are the records \<open>request\<close>, \<open>material\<close> and \<open>draft\<close>; each stage is a
  definition. The loop runs on fuel; \<open>rounds_fuel\<close> shows that two rounds are all it ever takes.
\<close>

section \<open>The request\<close>

record request =
  rq_started :: rat
  rq_mark :: "json option"
  rq_message :: "json pydict"
  rq_prompt :: string
  rq_has_image :: bool
  rq_user :: user
  rq_task :: task_type
  rq_signals :: "string list"
  rq_auditing :: bool
  rq_first :: json
  rq_retrieved :: string
  rq_grounding :: string
  rq_sources :: "source_doc list"
  rq_searched :: bool
  rq_model :: string
  rq_rationale :: string
  rq_candidates :: "candidate list"
  rq_agents :: "string pydict"

definition message_list :: "json pydict \<Rightarrow> py_error + json list" where
  "message_list body = (case jor (jget body ''messages'') (JList []) of
      JList ms \<Rightarrow> Inr ms | JObj _ \<Rightarrow> Inl KeyError | JStr _ \<Rightarrow> Inl AttributeError | _ \<Rightarrow> Inl TypeError)"

definition last_message :: "json list \<Rightarrow> py_error + json pydict" where
  "last_message ms = (case last ms of JObj m \<Rightarrow> Inr m | _ \<Rightarrow> Inl AttributeError)"

definition user_id :: "json pydict \<Rightarrow> py_error + json" where
  "user_id u = (case dict_get u ''id'' of Some v \<Rightarrow> Inr v | None \<Rightarrow> Inl KeyError)"

definition intake :: "'w run_env \<Rightarrow> ('w, request) run" where
  \<open>intake E =
     (if e_task E \<noteq> [] then stop_with []
      else (
       andthen (monotonic E) (\<lambda>started.
       andthen (egress_mark E) (\<lambda>mark.
       andthen (raising (message_list (e_body E))) (\<lambda>messages.
       (if messages = [] then stop_with ''No request received.''
         else (
         seq (status E ''tony'' ''TONY: reading the request'' False []) (
         andthen (raising (last_message messages)) (\<lambda>message.
         let prompt = request_text message in
         let image_in = has_image message in
         andthen (raising (user_id (e_user E))) (\<lambda>uid.
         andthen (outside (w_user (e_world E) uid) (\<lambda>_. [])) (\<lambda>r.
         andthen (awaiting r) (\<lambda>found.
         (case found of
              None \<Rightarrow> stop_with ''4CE could not resolve the requesting user.''
            | Some user \<Rightarrow>
                (let (task, signals) = classify prompt image_in in (
           seq (audit_bind [(''chat'', jget (e_metadata E) ''chat_id''), (''message'', jget (e_metadata E) ''message_id''),
                    (''user'', JStr (or_text (us_email user) (us_id user)))]) (
           andthen (digest_text prompt) (\<lambda>sealed.
           andthen (audit E ''request'' [(''task'', JStr (task_name task)), (''prompt'', JStr sealed),
                    (''chars'', JInt (int (py_len prompt))), (''image'', if image_in then JBool True else JNull)]) (\<lambda>entry.
           ret \<lparr>rq_started = started, rq_mark = mark, rq_message = message, rq_prompt = prompt, rq_has_image = image_in,
                    rq_user = user, rq_task = task, rq_signals = signals, rq_auditing = wants_audit prompt,
                    rq_first = (case entry of Some e \<Rightarrow> jget e ''seq'' | None \<Rightarrow> JNull),
                    rq_retrieved = retrieved_context messages, rq_grounding = grounding_text messages, rq_sources = [], rq_searched = False,
                    rq_model = [], rq_rationale = [], rq_candidates = [], rq_agents = []\<rparr>))))))))))))))))))\<close>

text \<open>\<^verbatim>\<open>f"{a}\n\n{b}".strip() if a else b\<close>.\<close>

definition joined :: "string \<Rightarrow> string \<Rightarrow> string" where
  "joined a b = (if a \<noteq> [] then py_strip (a @ nl2 @ b) else b)"

definition ground :: "'w run_env \<Rightarrow> request \<Rightarrow> ('w, request) run" where
  "ground E rq =
     (if rq_task rq \<in> set RETRIEVING_TASKS \<and> \<not> rq_auditing rq then (
       andthen (retrieve E (rq_prompt rq)) (\<lambda>(found, searched).
       (if found = [] then ret (rq\<lparr>rq_searched := searched\<rparr>)
         else
           let (sources, numbered) = number_sources found in (
         seq (fold_run (\<lambda>source _. emit_source E source) sources ()) (
         andthen (digest_json (JList (concat (map (\<lambda>s. map (\<lambda>p. JStr (pa_text p)) (so_passages s)) sources)))) (\<lambda>sealed.
         seq (audited E ''sources'' [(''documents'', JList (map (\<lambda>s. JStr (so_name s)) sources)), (''passages'', JStr sealed)]) (
         ret (rq\<lparr>rq_searched := searched, rq_sources := sources, rq_retrieved := joined (rq_retrieved rq) numbered,
               rq_grounding := joined (rq_grounding rq) numbered\<rparr>)))))))) else ret rq)"

definition announce :: "'w run_env \<Rightarrow> request \<Rightarrow> ('w, unit) run" where
  \<open>announce E rq =
     (let name = task_name (rq_task rq); matched = join_with '', '' (rq_signals rq) in (
       seq (status E ''tony_plan'' (''TONY: classified as '' @ py_upper name
            @ (if rq_signals rq \<noteq> [] then '' ('' @ matched @ '')'' else '' (no strong signal, defaulting)'')) False
          [''Classified as a '' @ name @ '' task'',
           if rq_signals rq \<noteq> [] then ''Matched on: '' @ matched else ''No strong signal, so the default route'',
           if rq_grounding rq \<noteq> [] then commas (int (py_len (rq_grounding rq))) @ '' characters retrieved to work from'' else []]) (
       add_trace (''**TONY** classified the request as `'' @ name @ ''` ''
          @ (if rq_signals rq \<noteq> [] then ''on signals: '' @ matched @ ''.'' else ''with no strong signal; used the default route.'')))))\<close>

section \<open>Routing\<close>

definition candidate_line :: "candidate \<Rightarrow> string" where
  \<open>candidate_line c = ''- `'' @ ca_id c @ lit ''` ~u2014 '' @ or_text (join_with '', '' (ca_capabilities c)) ''no capabilities listed''
     @ (if ca_licence c \<noteq> [] then lit '' ~u00b7 '' @ ca_licence c else []) @ lit '' ~u2014 **'' @ ca_status c @ ''**''\<close>

definition routing_text :: "request \<Rightarrow> string" where
  \<open>routing_text rq =
     ''**Task type:** `'' @ task_name (rq_task rq) @ lit ''`~n~n**Signals matched:** ''
     @ (if rq_signals rq \<noteq> [] then join_with '', '' (rq_signals rq) else lit ''none ~u2014 used the default route'')
     @ lit ''~n~n**Model selected:** `'' @ rq_model rq @ lit ''`~n~n**Reason:** '' @ rq_rationale rq
     @ lit ''~n~n**Candidates considered** (model registry):~n~n'' @ join_with nl (map candidate_line (rq_candidates rq))\<close>

definition pick_model :: "'w run_env \<Rightarrow> request \<Rightarrow> ('w, request) run" where
  \<open>pick_model E rq = (
       andthen (gets (\<lambda>s. w_models (e_world E) (rs_world s))) (\<lambda>keys.
       andthen (raising (route (e_valves E) (rq_task rq) keys (str_field (e_body E) ''model''))) (\<lambda>(chosen, rationale, cands).
       (case chosen of
          None \<Rightarrow> stop_with (''4CE could not resolve a local model for a `'' @ task_name (rq_task rq)
            @ (''` task. Check the model names in this function's Valves against the models your local server '' @
       ''actually serves.''))
        | Some model \<Rightarrow>
            (let rq' = rq\<lparr>rq_model := model, rq_rationale := rationale, rq_candidates := cands\<rparr> in (
         seq (status E ''router'' (''ROUTER: selected '' @ model @ lit '' ~u2014 '' @ rationale) False
                [''Routed to '' @ model, case rationale of [] \<Rightarrow> [] | c # r \<Rightarrow> upper_char c # r]) (
         seq (add_trace (''**ROUTER** selected `'' @ model @ lit ''` ~u2014 '' @ rationale)) (
         seq (audited E ''route'' [(''model'', JStr model)]) (
         seq (add_step (plain_step ''TONY'' ''classification and routing'' ''deterministic signal match'' (routing_text rq'))) (
         (let over = filter (\<lambda>c. ca_status c \<notin> {''chosen'', ''overridden''}) cands
               in ret (rq'\<lparr>rq_rationale := rationale @ (if over \<noteq> [] then ''; also considered ''
                    @ join_with '', '' (map (\<lambda>c. ca_id c @ '' ('' @ ca_status c @ '')'') over) else [])\<rparr>))))))))))))\<close>

definition direct_reply :: "'w run_env \<Rightarrow> request \<Rightarrow> ('w, 'a) run" where
  \<open>direct_reply E rq = (
       seq (status E ''chat'' ''Answering directly'' False []) (
       andthen (agent_call E (rq_message rq) (plain_call (rq_model rq) TONY_CHAT_SYSTEM (rq_prompt rq))) (\<lambda>reply.
       (if starts_with (sp_text reply) ERR then (
         seq (status E ''error'' ''Run failed'' True []) (
         stop_with (sp_text reply))) else (
         seq (status E ''chat'' ''Answered directly'' True []) (
         seq (add_step (labelled ''TONY'' ''direct reply'' reply)) (
         stop_with (sp_text reply @ (if v_show_trace (e_valves E) then
            lit ''~n~n*Direct reply ~u00b7 `'' @ rq_model rq @ lit ''` ~u00b7 '' @ fmt_fixed 1 (sp_seconds reply)
            @ lit ''s ~u2014 conversation needs no agent chain or approval*'' else [])))))))))\<close>

definition pick_agents :: "'w run_env \<Rightarrow> request \<Rightarrow> ('w, request) run" where
  \<open>pick_agents E rq =
     (let v = e_valves E in (
       andthen (gets (\<lambda>s. w_models (e_world E) (rs_world s))) (\<lambda>keys.
       andthen (raising (agent_model v (v_friday_model v) (rq_model rq) (available_models keys) False)) (\<lambda>friday.
       andthen (raising (agent_model v (v_jarvis_model v) (rq_model rq) (available_models keys) False)) (\<lambda>jarvis.
       andthen (raising (agent_model v (v_ultron_model v) (rq_model rq) (available_models keys) True)) (\<lambda>ultron.
       let agents = [(''FRIDAY'', friday), (''JARVIS'', jarvis), (''ULTRON'', ultron)] in
       let overrides = filter (\<lambda>(a, m). m \<noteq> rq_model rq) agents in
       seq (only_if (overrides \<noteq> []) (add_trace (''**TONY** applied per-agent model overrides: ''
          @ join_with '', '' (map (\<lambda>(a, m). a @ lit '' ~u2192 `'' @ m @ ''`'') overrides)))) (
       seq (only_if (e_tools E = []) (add_trace ((''**TONY** found no tools attached to this model, so the agents reasoned unaided. Attach the 4CE '' @
       ''tools to this model under Workspace to ground threshold checks, code execution and deliverables.'')))) (
       ret (rq\<lparr>rq_agents := agents\<rparr>)))))))))\<close>

definition agent :: "request \<Rightarrow> string \<Rightarrow> string" where
  "agent rq name = (case dict_get (rq_agents rq) name of Some m \<Rightarrow> m | None \<Rightarrow> [])"

section \<open>What the tools contribute\<close>

record material =
  mt_audit :: string
  mt_kind :: string
  mt_edge :: "int option"
  mt_reading :: "reading option"
  mt_sop :: string
  mt_sheet_name :: string
  mt_sheet_text :: string
  mt_changes :: "json list option"
  mt_calculation :: string
  mt_data :: json
  mt_intervals :: intervals
  mt_row_basis :: string

definition sovereignty_audit :: "'w run_env \<Rightarrow> request \<Rightarrow> ('w, string) run" where
  \<open>sovereignty_audit E rq =
     (if \<not> rq_auditing rq then ret []
      else (
       seq (status E ''tool'' ''TOOL: auditing the configuration and the observed egress'' False []) (
       andthen (use_tool E ''verify_sovereignty'' []) (\<lambda>found.
       (if tool_failed found then ret []
         else (
         seq (add_tool ''verify_sovereignty'') (
         seq (add_step (plain_step ''TOOL'' ''sovereignty audit'' ''configuration read and egress observation'' found)) (
         seq (add_trace ((''**TOOL** `verify_sovereignty` read the live configuration and what the workbench was observed '' @
       ''connecting to.''))) (
         ret found)))))))))\<close>

definition see_image :: "'w run_env \<Rightarrow> request \<Rightarrow> ('w, string \<times> int option \<times> reading option) run" where
  "see_image E rq =
     (if \<not> rq_has_image rq then ret ([], None, None)
      else (
       andthen (raising (decode_image (w_open_image (e_world E)) (first_image (rq_message rq)))) (\<lambda>pic.
       let kind = image_kind (rq_prompt rq) pic in
       let edge = (if kind = ''photo'' then v_vision_max_edge (e_valves E) else v_vision_page_edge (e_valves E)) in
       andthen ((if v_vision_extraction (e_valves E) then read_image E (rq_user rq) (agent rq ''FRIDAY'') (rq_message rq) kind edge
                  else ret None)) (\<lambda>found.
       ret (kind, Some edge, found)))))"

definition sop_input :: "request \<Rightarrow> reading option \<Rightarrow> string" where
  "sop_input rq r = join_with nl (filter (\<lambda>t. t \<noteq> [])
     [if rq_task rq \<in> {Document, Analysis, Vision} \<and> has_readings (rq_prompt rq) then rq_prompt rq else [],
      case r of Some x \<Rightarrow> rd_readings x | None \<Rightarrow> []])"

text \<open>The first attached sheet, with its text; both are empty when there is none or it cannot be read.\<close>

definition read_sheet :: "'w run_env \<Rightarrow> request \<Rightarrow> ('w, string \<times> string) run" where
  \<open>read_sheet E rq = (
       andthen (raising (if rq_task rq \<noteq> Chat then attached_sheets (e_metadata E) else Inr [])) (\<lambda>sheets.
       (case sheets of
          [] \<Rightarrow> ret ([], [])
        | name # _ \<Rightarrow> (
         seq (status E ''tool'' (''TOOL: reading '' @ name) False []) (
         andthen (use_tool E ''read_sheet'' [(''file'', JStr name), (''__files__'', jget (e_metadata E) ''files'')]) (\<lambda>text.
         (if \<not> tool_failed text \<and> contains text ''**Sheet'' then (
           seq (add_tool ''read_sheet'') (
           seq (add_step (plain_step ''TOOL'' (''read '' @ name) ''openpyxl, on this machine'' text)) (
           seq (add_trace (''**TOOL** `read_sheet` read `'' @ name @ ''` cell by cell, with its formulas.'')) (
           ret (name, text))))) else (
           seq (add_trace (''**TOOL** `read_sheet` could not read `'' @ name @ ''`: '' @ or_text text ''the tool is not attached'')) (
           ret ([], []))))))))))\<close>

definition calculate :: "'w run_env \<Rightarrow> request \<Rightarrow> string \<Rightarrow> string \<Rightarrow> ('w, string \<times> json \<times> intervals \<times> string) run" where
  "calculate E rq sheet_text sop =
     (if rq_task rq \<noteq> Chat \<and> wants_remaining_life (rq_prompt rq) then (
       andthen ((if sheet_text \<noteq> [] then survey_intervals E sheet_text else ret ([], [], []))) (\<lambda>(survey_text, basis, ivs).
       andthen (remaining_life E (rq_prompt rq @ (if survey_text \<noteq> [] then nl2 @ survey_text else [])) sop basis) (\<lambda>(worked, data).
       ret (worked, data, ivs, basis)))) else ret ([], JNull, [], []))"

definition gather :: "'w run_env \<Rightarrow> request \<Rightarrow> ('w, material) run" where
  "gather E rq = (
       andthen (sovereignty_audit E rq) (\<lambda>found.
       andthen (see_image E rq) (\<lambda>(kind, edge, r).
       let given = sop_input rq r in
       andthen ((if given \<noteq> [] then sop_check E given [] else ret [])) (\<lambda>sop.
       andthen (read_sheet E rq) (\<lambda>(name, text).
       andthen (calculate E rq text sop) (\<lambda>(worked, data, ivs, basis).
       ret \<lparr>mt_audit = found, mt_kind = kind, mt_edge = edge, mt_reading = r, mt_sop = sop, mt_sheet_name = name, mt_sheet_text = text,
         mt_changes = (if text \<noteq> [] \<and> wants_sheet_edit (rq_prompt rq) \<and> wants_remaining_life (rq_prompt rq)
                       then survey_changes text ivs else None),
         mt_calculation = worked, mt_data = data, mt_intervals = ivs, mt_row_basis = basis\<rparr>))))))"

section \<open>A round\<close>

record draft =
  dr_attempts :: nat
  dr_challenge :: "string option"
  dr_first :: "first_try option"
  dr_text :: string
  dr_verdict :: verdict
  dr_sop :: string
  dr_planned :: "json list option"

definition no_draft :: draft where
  "no_draft = \<lparr>dr_attempts = 0, dr_challenge = None, dr_first = None, dr_text = [], dr_verdict = basic_verdict ''n/a'' False [] None,
     dr_sop = [], dr_planned = None\<rparr>"

definition round_label :: "nat \<Rightarrow> string" where
  "round_label n = (if n = 1 then [] else '' (attempt '' @ str_nat n @ '')'')"

definition cite_rule :: "source_doc list \<Rightarrow> string" where
  \<open>cite_rule sources = lit (''~n~nThe passages above are numbered by the document they come from, like [1]. After every '' @
     ''finding that rests on a passage, put that number in square brackets straight after it - for '' @
     ''example "Leakage above 5 drops per minute requires a shutdown [1]." Use only these numbers: '')
     @ source_numbers sources @ (''. A finding the passages do not state gets no number and is labelled as an assumption. Figures '' @
     ''the request itself gives are the requester's own data: they take no number, and are not '' @
     ''assumptions.'')\<close>

definition ANSWER_SHAPE :: string where
  \<open>ANSWER_SHAPE =
     lit (''~n~nFORMAT~nOpen with the direct answer to the request in one to three plain sentences: no '' @
     ''title, no heading, and no preamble such as "Deliverable:" or "Here is". Then add only the '' @
     ''sections the request needs, as ### headings, in this order:~n### Details - the supporting '' @
     ''facts, figures and working~n### What to do - the actions, as a numbered list~n### Limits - '' @
     ''assumptions, and anything the sources do not settle~nUse short paragraphs and lists, and a '' @
     ''table only for three or more comparable rows. No horizontal rules, no closing summary and no '' @
     ''sign-off such as "End of deliverable".'')\<close>

definition friday_instruction :: "request \<Rightarrow> material \<Rightarrow> string option \<Rightarrow> string" where
  \<open>friday_instruction rq mt challenge = with_challenge (
     (''Analyse the request below. State factual findings drawn only from the supplied context and the '' @
       ''request itself, and label every assumption explicitly. Figures and readings the request gives '' @
       ''are the requester's own data: use them as given, and do not treat them as unsupported because '' @
       ''no document contains them.'')
     @ (if rq_retrieved rq \<noteq> [] then lit (''~n~nSUPPLIED CONTEXT - passages retrieved from the local knowledge base, and any standing '' @
       ''instruction for this workspace. Treat this as the supplied context and cite it where you rely '' @
       ''on it:~n'') @ rq_retrieved rq else [])
     @ (if rq_sources rq \<noteq> [] then cite_rule (rq_sources rq) else [])
     @ (if rq_searched rq \<and> rq_sources rq = [] \<and> rq_task rq = Document then NOT_FOUND else [])
     @ (if rq_has_image rq then image_rules (mt_kind mt) (mt_reading mt \<noteq> None) else [])
     @ (case mt_reading mt of Some r \<Rightarrow> lit (''~n~nREAD FROM THE IMAGE - a separate reading pass, numbered as the boxes on the annotated copy '' @
       ''the reviewer sees. A value marked check was read with less than full confidence: carry it as '' @
       ''uncertain, and never firm it up.~n'') @ rd_table r | None \<Rightarrow> [])
     @ (if mt_sheet_text mt \<noteq> [] then lit (''~n~nSPREADSHEET attached to the request, read cell by cell by read_sheet - the requester's own '' @
       ''data. Columns are headed by their letter, rows by their number, and a formula shows as its '' @
       ''value then itself:~n'') @ mt_sheet_text mt else [])
     @ (if mt_sop mt \<noteq> [] then lit (''~n~nSOP THRESHOLD ASSESSMENT of the readings in the request (deterministic rule pack; '' @
       ''authoritative - build on its verdicts and clauses, and do not recompute or question them):~n'') @ mt_sop mt else [])
     @ (if mt_calculation mt \<noteq> [] then lit (''~n~nCALCULATION of the request's thickness readings (deterministic arithmetic; authoritative - '' @
       ''quote its steps and results as they stand, and do not recompute them):~n'') @ mt_calculation mt else [])
     @ lit ''~n~nREQUEST~n'' @ rq_prompt rq) challenge\<close>

text \<open>What the tools settled, as JARVIS and ULTRON are shown it.\<close>

definition grounded :: "material \<Rightarrow> string \<Rightarrow> string" where
  \<open>grounded mt sop =
     (if mt_audit mt \<noteq> [] then lit ''~n~nSOVEREIGNTY AUDIT (read from the running configuration; authoritative)~n'' @ mt_audit mt else [])
     @ (if sop \<noteq> [] then lit ''~n~nSOP THRESHOLD ASSESSMENT (deterministic rule pack; authoritative)~n'' @ sop else [])
     @ (if mt_calculation mt \<noteq> [] then lit ''~n~nCALCULATION (deterministic arithmetic, every step shown; authoritative)''
        @ (if mt_sheet_text mt \<noteq> [] then ('' - worked by 4CE's calculation tool from the sheet's readings; the spreadsheet itself does not '' @
       ''contain these results'') else [])
        @ nl @ mt_calculation mt else [])\<close>

definition source_lines :: "source_doc list \<Rightarrow> string" where
  "source_lines sources = join_with nl (map (\<lambda>(n, s). ''['' @ str_nat n @ ''] '' @ so_name s) (enumerate 1 sources))"

definition jarvis_instruction :: "request \<Rightarrow> material \<Rightarrow> string \<Rightarrow> string \<Rightarrow> string option \<Rightarrow> string" where
  \<open>jarvis_instruction rq mt analysis known challenge =
     lit ''ORIGINAL REQUEST~n'' @ rq_prompt rq @ lit ''~n~nFRIDAY'S ANALYSIS~n'' @ analysis @ known
     @ (if rq_sources rq \<noteq> [] then lit ''~n~nSOURCES~n'' @ source_lines (rq_sources rq)
          @ lit (''~n~nKeep FRIDAY's bracketed source numbers on every claim you carry over, placed straight after '' @
       ''the claim, exactly as written - for example "The leakage limit is 5 drops per minute [1]." '' @
       ''Never add a number that is not in the list above ('') @ source_numbers (rq_sources rq)
          @ ''), and never present an unnumbered claim as coming from the documents.''
        else [])
     @ (if rq_task rq = Code then lit (''~n~nPut every line of code inside a fenced ```python block. This code will be executed. If the '' @
       ''request calls for a file - a spreadsheet, a chart, an export - write it into the directory '' @
       ''/output, which is returned to the user. Nowhere else is writable. End the program by checking '' @
       ''its own result: assert what the request's example should produce, then print it. A failed '' @
       ''assert fails the run and sends the code back to be fixed.'') else [])
     @ (case challenge of Some c \<Rightarrow> if c \<noteq> [] \<and> rq_task rq = Code then lit ''~n~nPREVIOUS ATTEMPT WAS REJECTED FOR:~n'' @ c else [] | None \<Rightarrow> [])
     @ office_guidance (office_formats (rq_prompt rq))
     @ (if mt_reading mt \<noteq> None then lit (''~n~nThe fields read from the image are appended to your deliverable by 4CE: the numbered table, '' @
       ''and the image with each field boxed. Refer to a field by its number, as #2, and do not '' @
       ''reproduce the table.'') else [])
     @ (if mt_sheet_text mt \<noteq> [] then lit (''~n~nSPREADSHEET as attached, read cell by cell - only the columns shown; nothing has been added '' @
       ''to it:~n'') @ mt_sheet_text mt else [])
     @ (if mt_changes mt \<noteq> None then lit (''~n~n4CE lists the changes it will write to a copy of the workbook after your answer, and writes '' @
       ''them only once a person approves. Do not describe the workbook, its columns or its changes, and '' @
       ''do not say anything has been added to it; report the calculation's results and what they mean.'')
        else if mt_sheet_text mt \<noteq> [] \<and> wants_sheet_edit (rq_prompt rq) then lit (''~n~nTo change the workbook, end your answer with a fenced ```4ce-sheet block holding a JSON '' @
       ''list of changes: {"column": "header", "formula": "=...{row}..."} adds a column, the formula '' @
       ''written into every data row with {row} its row number; {"cell": "G2", "formula": "=..."} or '' @
       ''{"cell": "G2", "value": ...} sets one cell. Use the column letters shown above. 4CE writes the '' @
       ''changes to a copy once a person approves them; the file itself is never changed.'')
        else [])
     @ lit (''~n~nProduce the finished deliverable the request actually asked for. Show working for any '' @
       ''calculation. Do not claim you performed an action unless it is supported by the analysis above. '' @
       ''Where a section above is marked authoritative, quote its verdicts as they stand and do not '' @
       ''recompute them.'') @ ANSWER_SHAPE\<close>

definition ultron_instruction :: "request \<Rightarrow> string \<Rightarrow> string \<Rightarrow> string" where
  \<open>ultron_instruction rq known deliverable =
     lit ''ORIGINAL REQUEST~n'' @ rq_prompt rq @ nl2
     @ (if rq_has_image rq then lit (''SOURCE NOTE: the request carried a scanned document or image. FRIDAY read it; you cannot see '' @
       ''it. The fields read from it are listed at the end of the result, numbered as the boxes the '' @
       ''reviewer checks them against. Judge internal consistency, arithmetic and whether the result '' @
       ''claims more than an extraction can support - above all, a value the table marks check stated as '' @
       ''certain. Do NOT fail it merely because you cannot inspect the source yourself.~n~n'') else [])
     @ (if known \<noteq> [] then lit (''AUTHORITATIVE FINDINGS ~u2014 produced by deterministic tools, not by a model. Treat them as '' @
       ''correct. Do not re-derive them and do not fail the result for disagreeing with them.'') @ known @ nl2 else [])
     @ lit ''RESULT TO CHALLENGE~n'' @ deliverable @ lit (''~n~nReply with PASS or FAIL on the first line. Then go through the result's claims in order and '' @
       ''give each claim exactly one line - never two lines about the same claim. Start the line with '' @
       ''OK: when the claim holds, PROBLEM: when the result contradicts itself, gets arithmetic wrong, '' @
       ''or states something neither the request nor the result gives any basis for, or UNVERIFIED: when '' @
       ''nothing supplied settles it. A difference of wording ("below" and "less than") is not a '' @
       ''problem. After the label, name the claim in a few words and say why. PROBLEM lines are your '' @
       ''reasons for a FAIL.'')\<close>

definition failed_run :: "'w run_env \<Rightarrow> string \<Rightarrow> ('w, 'a) run" where
  "failed_run E text = seq (status E ''error'' ''Run failed'' True []) (stop_with text)"

definition analyse :: "'w run_env \<Rightarrow> request \<Rightarrow> material \<Rightarrow> nat \<Rightarrow> string option \<Rightarrow> ('w, string) run" where
  \<open>analyse E rq mt attempts challenge = (
       seq (status E ''friday'' ''FRIDAY: grounding and analysing'' False
         [if rq_grounding rq \<noteq> [] then ''Reading '' @ commas (int (py_len (rq_grounding rq))) @ '' characters of retrieved passages''
          else ''No retrieved passages; working from the request alone'',
          ''Running on '' @ agent rq ''FRIDAY'', if 1 < attempts then ''Second try, with ULTRON's objections attached'' else []]) (
       andthen (agent_call E (rq_message rq) ((plain_call (agent rq ''FRIDAY'') FRIDAY_SYSTEM (friday_instruction rq mt challenge))
         \<lparr>cl_images := rq_has_image rq, cl_edge := mt_edge mt\<rparr>)) (\<lambda>friday.
       (if starts_with (sp_text friday) ERR then failed_run E (sp_text friday)
        else (
         seq (add_step (labelled ''FRIDAY'' (''analysis'' @ round_label attempts) friday)) (
         seq (add_trace (''**FRIDAY** analysed the request in '' @ fmt_fixed 1 (sp_seconds friday) @ ''s.'')) (
         ret (sp_text friday))))))))\<close>

definition round_sop :: "'w run_env \<Rightarrow> request \<Rightarrow> material \<Rightarrow> nat \<Rightarrow> string \<Rightarrow> ('w, string) run" where
  "round_sop E rq mt attempts analysis =
     (if mt_sop mt = [] \<and> rq_task rq = Vision \<and> mt_reading mt = None \<and> mt_kind mt \<noteq> ''drawing''
      then sop_check E analysis (round_label attempts) else ret (mt_sop mt))"

text \<open>The changes planned for the attached workbook, and the preview of them.\<close>

definition plan_workbook :: "'w run_env \<Rightarrow> material \<Rightarrow> json list option \<Rightarrow> string \<Rightarrow> ('w, json list option \<times> string) run" where
  \<open>plan_workbook E mt planned text =
     (if mt_sheet_name mt = [] then ret (planned, text)
      else
        let planned' = (case mt_changes mt of Some cs \<Rightarrow> Some cs | None \<Rightarrow> sheet_block text) in
        case planned' of
          None \<Rightarrow> ret (None, text)
        | Some cs \<Rightarrow> (
       andthen (use_tool E ''write_sheet'' [(''changes'', JStr (dumps_plain quoted_ascii (JList cs))), (''file'', JStr (mt_sheet_name mt)),
              (''__files__'', jget (e_metadata E) ''files''), (''__preview__'', JBool True)]) (\<lambda>preview.
       ret (Some cs, if starts_with preview ''On approval''
              then text @ lit ''~n~n### The workbook, on approval~n~n'' @ preview else text))))\<close>

definition compose :: "'w run_env \<Rightarrow> request \<Rightarrow> material \<Rightarrow> nat \<Rightarrow> string option \<Rightarrow> json list option \<Rightarrow> string \<Rightarrow> string
    \<Rightarrow> ('w, string \<times> json list option) run" where
  \<open>compose E rq mt attempts challenge planned analysis known = (
       seq (status E ''jarvis'' ''JARVIS: producing the deliverable'' False [''Running on '' @ agent rq ''JARVIS'', ''Working from FRIDAY's analysis'',
         if rq_task rq = Code then ''Its code will run in the sealed sandbox'' else [],
         if 1 < attempts then ''Second try, with ULTRON's objections attached'' else []]) (
       andthen (agent_call E (rq_message rq) (plain_call (agent rq ''JARVIS'') JARVIS_SYSTEM (jarvis_instruction rq mt analysis known challenge))) (\<lambda>jarvis.
       let checked = check_citations (sp_text jarvis) (int (length (rq_sources rq))) in
       (if starts_with checked ERR then failed_run E checked
        else (
         andthen (plan_workbook E mt planned (tidy checked)) (\<lambda>(planned', text).
         let full = text @ (case mt_reading mt of Some r \<Rightarrow> nl2 @ rd_section r | None \<Rightarrow> []) in
         seq (add_step (labelled ''JARVIS'' (''deliverable'' @ round_label attempts) jarvis)) (
         seq (add_trace (''**JARVIS** produced the deliverable in '' @ fmt_fixed 1 (sp_seconds jarvis) @ ''s.'')) (
         ret (full, planned')))))))))\<close>

definition run_code :: "'w run_env \<Rightarrow> request \<Rightarrow> nat \<Rightarrow> string \<Rightarrow> ('w, string \<times> check option) run" where
  \<open>run_code E rq attempts text =
     (if rq_task rq \<noteq> Code then ret (text, None)
      else
        let code = extract_python (w_ast (e_world E)) text in
        if code = [] then ret (text, Some (execution_check code [] (rq_prompt rq)))
        else (
       seq (status E ''tool'' ''TOOL: executing the generated code in the sandbox'' False []) (
       andthen (use_tool E ''run_python'' [(''code'', JStr code)]) (\<lambda>execution.
       (if tool_failed execution then ret (text, Some (execution_check code execution (rq_prompt rq)))
           else (
         seq (add_tool_once ''run_python'') (
         seq (add_step (plain_step ''TOOL'' (''sandboxed execution'' @ round_label attempts) ''container, no network'' execution)) (
         seq (add_trace ((''**TOOL** `run_python` executed the generated code in a network-less container and returned its '' @
       ''real output.''))) (
         ret (text @ lit ''~n~n### Sandboxed execution result~n~n'' @ execution, Some (execution_check code execution (rq_prompt rq))))))))))))\<close>

section \<open>The verdict\<close>

definition evidence_of :: "request \<Rightarrow> material \<Rightarrow> string \<Rightarrow> evidence" where
  "evidence_of rq mt sop = \<lparr>ev_sources = rq_sources rq, ev_request = rq_prompt rq, ev_clauses = sop_clauses sop,
     ev_computed = mt_calculation mt, ev_ruled = sop, ev_read = (case mt_reading mt of Some r \<Rightarrow> rd_readings r | None \<Rightarrow> [])\<rparr>"

definition all_checks :: "request \<Rightarrow> material \<Rightarrow> string \<Rightarrow> string \<Rightarrow> check option \<Rightarrow> json list option \<Rightarrow> string \<Rightarrow> check list" where
  "all_checks rq mt sop text tested planned detail =
     (case tested of Some c \<Rightarrow> [c] | None \<Rightarrow> [])
     @ (case mt_reading mt of Some r \<Rightarrow> reading_checks r | None \<Rightarrow> [])
     @ figure_checks text (evidence_of rq mt sop)
     @ verdict_checks text sop
     @ (case planned of Some cs \<Rightarrow> workbook_checks text cs | None \<Rightarrow> [])
     @ (if mt_intervals mt \<noteq> [] then interval_checks text (length (mt_intervals mt)) (mt_row_basis mt) (length (survey_rows (mt_sheet_text mt))) else [])
     @ parse_checks detail"

definition own_problem :: "check \<Rightarrow> bool" where
  "own_problem c \<longleftrightarrow> ck_by c = ''4CE'' \<and> ck_kind c = ''problem''"

definition failed_on :: "check option \<Rightarrow> check \<Rightarrow> string" where
  "failed_on tested c = (case tested of
      Some r \<Rightarrow> if ck_kind r = ''problem'' then ''execution'' else (case ck_on c of Some on \<Rightarrow> on | None \<Rightarrow> ''figure'')
    | None \<Rightarrow> (case ck_on c of Some on \<Rightarrow> on | None \<Rightarrow> ''figure''))"

definition fail_own :: "check option \<Rightarrow> check list \<Rightarrow> verdict \<Rightarrow> verdict" where
  "fail_own tested checks v =
     (let own = filter own_problem checks in
      if own \<noteq> [] \<and> vd_passed v then
        v\<lparr>vd_status := ''FAIL'', vd_passed := False, vd_failed_by := Some ''4CE'', vd_failed_on := Some (failed_on tested (hd own)),
          vd_summary := Some (clip (ck_text (hd own)) 90),
          vd_detail := join_with nl (map (\<lambda>c. ''PROBLEM: '' @ ck_text c) own) @ nl @ vd_detail v\<rparr>
      else v)"

definition is_final :: "check option \<Rightarrow> bool" where
  "is_final tested = (case tested of Some c \<Rightarrow> ck_final c | None \<Rightarrow> False)"

definition fail_unrun :: "check option \<Rightarrow> verdict \<Rightarrow> verdict" where
  "fail_unrun tested v = (case tested of
      Some c \<Rightarrow> (if ck_final c \<and> vd_passed v then
        v\<lparr>vd_status := ''FAIL'', vd_passed := False, vd_failed_by := Some ''4CE'', vd_failed_on := Some ''not executed'',
          vd_summary := Some (clip (ck_text c) 90), vd_detail := ''UNVERIFIED: '' @ ck_text c @ nl @ vd_detail v\<rparr> else v)
    | None \<Rightarrow> v)"

definition count_reservations :: "check list \<Rightarrow> verdict \<Rightarrow> verdict" where
  "count_reservations checks v = (if vd_passed v
     then v\<lparr>vd_reservations := Some (length (filter (\<lambda>c. ck_by c = ''ULTRON'' \<and> ck_kind c \<noteq> ''ok'') checks))\<rparr> else v)"

definition judge :: "request \<Rightarrow> material \<Rightarrow> string \<Rightarrow> string \<Rightarrow> check option \<Rightarrow> json list option \<Rightarrow> string \<Rightarrow> verdict" where
  "judge rq mt sop text tested planned reply =
     (let v = parse_verdict reply; checks = all_checks rq mt sop text tested planned (vd_detail v)
      in count_reservations checks (fail_unrun tested (fail_own tested checks (v\<lparr>vd_checks := Some checks, vd_cited_text := text\<rparr>))))"

definition sent_back :: "string \<Rightarrow> verdict \<Rightarrow> first_try" where
  "sent_back text v =
     (let cs = checks_of v; of_kind = (\<lambda>k. map (\<lambda>c. (ck_text c, ck_by c)) (filter (\<lambda>c. ck_kind c = k) cs));
          summary = (case vd_summary v of Some s \<Rightarrow> s | None \<Rightarrow> [])
      in \<lparr>ft_draft = text, ft_failed_by = (case vd_failed_by v of Some b \<Rightarrow> or_text b ''ULTRON'' | None \<Rightarrow> ''ULTRON''),
          ft_objections = (if of_kind ''problem'' \<noteq> [] then of_kind ''problem''
            else if of_kind ''unverified'' \<noteq> [] then of_kind ''unverified''
            else [(clip (or_text summary (vd_detail v)) 220, ''ULTRON'')])\<rparr>)"

definition challenge_of :: "verdict \<Rightarrow> string" where
  "challenge_of v =
     (let objections = map ck_text (filter (\<lambda>c. ck_kind c \<noteq> ''ok'') (parse_checks (vd_detail v)))
      in if objections \<noteq> [] then join_with nl (map (\<lambda>x. ''- '' @ x) objections) else vd_detail v)"

definition verify_draft :: "'w run_env \<Rightarrow> request \<Rightarrow> material \<Rightarrow> nat \<Rightarrow> string \<Rightarrow> string \<Rightarrow> string \<Rightarrow> check option \<Rightarrow> json list option
    \<Rightarrow> ('w, verdict) run" where
  \<open>verify_draft E rq mt attempts sop known text tested planned = (
       seq (status E ''ultron'' ''ULTRON: challenging the result'' False
         [''Checking on '' @ agent rq ''ULTRON'' @ (if agent rq ''ULTRON'' \<noteq> agent rq ''JARVIS'' then '', not the model that drafted it'' else []),
          ''Its verdict is PASS or FAIL, with reasons'']) (
       andthen (agent_call E (rq_message rq)
         ((plain_call (agent rq ''ULTRON'') ULTRON_SYSTEM (ultron_instruction rq known text))\<lparr>cl_think := False\<rparr>)) (\<lambda>ultron.
       let v = judge rq mt sop text tested planned (sp_text ultron) in
       seq (add_step (labelled ''ULTRON'' (''verification'' @ round_label attempts @ lit '' ~u2014 '' @ vd_status v) ultron)) (
       seq (add_trace (''**ULTRON** returned `'' @ vd_status v @ ''` in '' @ fmt_fixed 1 (sp_seconds ultron) @ ''s.'')) (
       ret v)))))\<close>

text \<open>One turn of the loop: the draft, and whether another turn follows.\<close>

definition round :: "'w run_env \<Rightarrow> request \<Rightarrow> material \<Rightarrow> draft \<Rightarrow> ('w, draft \<times> bool) run" where
  \<open>round E rq mt dr =
     (let attempts = dr_attempts dr + 1 in (
       andthen (analyse E rq mt attempts (dr_challenge dr)) (\<lambda>analysis.
       andthen (round_sop E rq mt attempts analysis) (\<lambda>sop.
       let known = grounded mt sop in
       andthen (compose E rq mt attempts (dr_challenge dr) (dr_planned dr) analysis known) (\<lambda>(drafted, planned).
       andthen (run_code E rq attempts drafted) (\<lambda>(text, tested).
       let dr' = dr\<lparr>dr_attempts := attempts, dr_text := text, dr_sop := sop, dr_planned := planned\<rparr> in
       (if \<not> v_enable_verification (e_valves E) then
           ret (dr'\<lparr>dr_verdict := basic_verdict ''SKIPPED'' True ''Verification disabled in Valves.'' None\<rparr>, False)
         else (
         andthen (verify_draft E rq mt attempts sop known text tested planned) (\<lambda>v.
         (if vd_passed v then (
           seq (status E ''ultron'' (''ULTRON: PASS'' @ reservations_phrase v '', with '' []) False []) (
           ret (dr'\<lparr>dr_verdict := v\<rparr>, False))) else (
           seq (status E ''ultron'' (''ULTRON: FAIL'' @ (case vd_summary v of Some s \<Rightarrow> if s \<noteq> [] then lit '' ~u2014 '' @ s else [] | None \<Rightarrow> [])) False []) (
           (if \<not> v_enable_replan (e_valves E) \<or> 1 < attempts \<or> is_final tested then (
             seq (add_trace ''**TONY** exhausted the replan budget; delivering with the failure recorded.'') (
             ret (dr'\<lparr>dr_verdict := v\<rparr>, False))) else (
             seq (status E ''tony_replan'' ''TONY: replanning after ULTRON challenge'' False [''FRIDAY and JARVIS run again with ULTRON's objections attached'']) (
             seq (add_trace (''**TONY** replanned once and re-ran FRIDAY and JARVIS with the challenge attached.'')) (
             ret (dr'\<lparr>dr_verdict := v, dr_first := Some (sent_back text v), dr_challenge := Some (challenge_of v)\<rparr>, True)))))))))))))))))\<close>

text \<open>\<^verbatim>\<open>while True\<close>, on fuel; \<open>None\<close> is a loop that ran out of it.\<close>

fun rounds :: "nat \<Rightarrow> 'w run_env \<Rightarrow> request \<Rightarrow> material \<Rightarrow> draft \<Rightarrow> ('w, draft option) run" where
  "rounds 0 E rq mt dr = ret None"
| "rounds (Suc n) E rq mt dr = andthen (round E rq mt dr) (\<lambda>(dr', again). if again then rounds n E rq mt dr' else ret (Some dr'))"

section \<open>What these stages obey\<close>

context run_quiet
begin

lemma obeys_intake: "obeys R (intake E)"
  unfolding intake_def by (intro quiet_rules obeys_audit) auto

lemma obeys_ground: "obeys R (ground E rq)"
  unfolding ground_def by (intro tool_rules) auto

lemma obeys_announce: "obeys R (announce E rq)"
  unfolding announce_def by (intro quiet_rules)

lemma obeys_pick_model: "obeys R (pick_model E rq)"
  unfolding pick_model_def by (intro quiet_rules) auto

lemma obeys_pick_agents: "obeys R (pick_agents E rq)"
  unfolding pick_agents_def by (intro quiet_rules)

lemma obeys_sovereignty_audit: "obeys R (sovereignty_audit E rq)"
  unfolding sovereignty_audit_def by (intro quiet_rules) (simp add: writes_file_def)

lemma obeys_read_sheet: "obeys R (read_sheet E rq)"
  unfolding read_sheet_def by (intro quiet_rules) (simp add: writes_file_def)

lemma obeys_calculate: "obeys R (calculate E rq sheet sop)"
  unfolding calculate_def by (intro tool_rules)

lemma obeys_failed_run: "obeys R (failed_run E answer)"
  unfolding failed_run_def by (intro quiet_rules)

lemma obeys_round_sop: "obeys R (round_sop E rq mt n analysis)"
  unfolding round_sop_def by (intro tool_rules)

lemma obeys_plan_workbook: "obeys R (plan_workbook E mt planned answer)"
  unfolding plan_workbook_def by (intro quiet_rules) (simp add: writes_file_def dict_get_def)

lemma obeys_run_code: "obeys R (run_code E rq n answer)"
  unfolding run_code_def by (intro quiet_rules) (simp add: writes_file_def)

lemmas draft_rules = tool_rules obeys_intake obeys_ground obeys_announce obeys_pick_model obeys_pick_agents obeys_sovereignty_audit
  obeys_read_sheet obeys_calculate obeys_failed_run obeys_round_sop obeys_plan_workbook obeys_run_code

end

context run_frame
begin

lemma obeys_direct_reply: "obeys R (direct_reply E rq)"
  unfolding direct_reply_def by (intro frame_rules)

lemma obeys_see_image: "obeys R (see_image E rq)"
  unfolding see_image_def by (intro frame_rules obeys_read_image)

lemma obeys_gather: "obeys R (gather E rq)"
  unfolding gather_def by (intro draft_rules obeys_see_image)

lemma obeys_analyse: "obeys R (analyse E rq mt n challenge)"
  unfolding analyse_def by (intro draft_rules obeys_agent_call)

lemma obeys_compose: "obeys R (compose E rq mt n challenge planned analysis known)"
  unfolding compose_def by (intro draft_rules obeys_agent_call)

lemma obeys_verify_draft: "obeys R (verify_draft E rq mt n sop known answer tested planned)"
  unfolding verify_draft_def by (intro draft_rules obeys_agent_call)

lemma obeys_round: "obeys R (round E rq mt dr)"
  unfolding round_def by (intro draft_rules obeys_analyse obeys_compose obeys_verify_draft)

lemma obeys_rounds: "obeys R (rounds n E rq mt dr)"
  by (induction n arbitrary: dr) (auto intro!: quiet_rules obeys_round)

end

section \<open>The loop\<close>

lemma round_again: "yields (\<lambda>(dr', again). dr_attempts dr' = dr_attempts dr + 1 \<and> (again \<longrightarrow> dr_attempts dr = 0)) (round E rq mt dr)"
  unfolding round_def Let_def by (intro yields_rules) auto

text \<open>Two rounds are enough: the loop never runs out of fuel.\<close>

lemma rounds_fuel: "yields (\<lambda>r. \<exists>dr. r = Some dr \<and> dr_attempts dr \<in> {1, 2}) (rounds 2 E rq mt no_draft)"
proof -
  have last: "yields (\<lambda>r. \<exists>dr. r = Some dr \<and> dr_attempts dr \<in> {1, 2}) (rounds 1 E rq mt dr)" if "dr_attempts dr = 1" for dr
    unfolding One_nat_def rounds.simps
    by (rule yields_andthen [OF round_again]) (use that in \<open>auto intro!: yields_ret\<close>)
  have "yields (\<lambda>r. \<exists>dr. r = Some dr \<and> dr_attempts dr \<in> {1, 2}) (rounds (Suc 1) E rq mt no_draft)"
    unfolding rounds.simps(2)
    by (rule yields_andthen [OF round_again]) (use last in \<open>auto simp: no_draft_def intro!: yields_ret\<close>)
  then show ?thesis by (simp add: numeral_2_eq_2)
qed

section \<open>Model calls\<close>

lemma bounded_read_image: "bounded 1 (read_image E user model message kind edge)"
  unfolding read_image_def Let_def
  by (intro bounded_rules uncalled.tool_rules uncalled.obeys_annotated_url bounded_no_call [OF uncalled.obeys_pure(1)])

lemma bounded_see_image: "bounded 1 (see_image E rq)"
  unfolding see_image_def Let_def
  by (intro bounded_if bounded_before [OF uncalled.obeys_pure(4)] bounded_after bounded_read_image uncalled.draft_rules
      bounded_no_call [OF uncalled.obeys_pure(1)])

lemma bounded_gather: "bounded 1 (gather E rq)"
  unfolding gather_def Let_def
  by (intro bounded_before [OF uncalled.obeys_sovereignty_audit] bounded_after bounded_see_image uncalled.draft_rules)

lemma bounded_direct_reply: "bounded 1 (direct_reply E rq)"
  unfolding direct_reply_def by (intro bounded_rules uncalled.draft_rules)

lemma bounded_analyse: "bounded 1 (analyse E rq mt n challenge)"
  unfolding analyse_def by (intro bounded_rules uncalled.draft_rules)

lemma bounded_compose: "bounded 1 (compose E rq mt n challenge planned analysis known)"
  unfolding compose_def by (intro bounded_rules uncalled.draft_rules)

lemma bounded_verify_draft: "bounded 1 (verify_draft E rq mt n sop known answer tested planned)"
  unfolding verify_draft_def by (intro bounded_rules uncalled.draft_rules)

lemma bounded_round: "bounded 3 (round E rq mt dr)"
proof -
  have "bounded (1 + (1 + 1)) (round E rq mt dr)" unfolding round_def Let_def
    by (intro bounded_andthen [OF bounded_analyse] bounded_before [OF uncalled.obeys_round_sop] bounded_andthen [OF bounded_compose]
      bounded_before [OF uncalled.obeys_run_code] bounded_prod bounded_if bounded_after [OF bounded_verify_draft]
      bounded_no_call [OF uncalled.obeys_pure(1)] uncalled.draft_rules)
  then show ?thesis by (simp add: numeral_3_eq_3)
qed

lemma bounded_rounds: "bounded (n * 3) (rounds n E rq mt dr)"
proof (induction n arbitrary: dr)
  case (Suc n)
  have "bounded (n * 3) (if again then rounds n E rq mt dr' else ret (Some dr'))" for dr' again
    by (intro bounded_if Suc.IH bounded_no_call [OF uncalled.obeys_pure(1)])
  then show ?case using bounded_andthen [OF bounded_round, of "n * 3" "\<lambda>(dr', again). if again then rounds n E rq mt dr' else ret (Some dr')" E rq mt dr]
    by (simp add: split_beta)
qed (simp add: bounded_no_call [OF uncalled.obeys_pure(1)])

section \<open>The verdict on a draft\<close>

lemma vd_passed_unrun: "vd_passed (fail_unrun tested v) \<longleftrightarrow> vd_passed v \<and> \<not> is_final tested"
  by (auto simp: fail_unrun_def is_final_def split: option.splits)

lemma vd_passed_own: "vd_passed (fail_own tested checks v) \<longleftrightarrow> vd_passed v \<and> \<not> list_ex own_problem checks"
  by (auto simp: fail_own_def Let_def list_ex_iff filter_empty_conv)

lemma judge_simps:
  "vd_passed (count_reservations checks v) = vd_passed v" "vd_checks (count_reservations checks v) = vd_checks v"
  "vd_checks (fail_unrun tested v) = vd_checks v" "vd_checks (fail_own tested checks v) = vd_checks v"
  "vd_cited_text (count_reservations checks v) = vd_cited_text v"
  "vd_cited_text (fail_unrun tested v) = vd_cited_text v" "vd_cited_text (fail_own tested checks v) = vd_cited_text v"
  by (auto simp: count_reservations_def fail_unrun_def fail_own_def Let_def split: option.splits)

text \<open>C4: a draft passes exactly when ULTRON's reply passes it, its code (if it is code) was not left unexecuted, and none of the
  checks the program makes itself - the code's execution, the fields read from the image, the figures, the rule pack's
  verdicts, the workbook, the intervals - found a problem. ULTRON cannot pass what a check contradicts, and cannot be
  overruled otherwise.\<close>

theorem judge_passes_iff:
  "vd_passed (judge rq mt sop answer tested planned reply) \<longleftrightarrow>
     vd_passed (parse_verdict reply) \<and> \<not> is_final tested
     \<and> \<not> list_ex own_problem (all_checks rq mt sop answer tested planned (vd_detail (parse_verdict reply)))"
  by (simp add: judge_def Let_def judge_simps vd_passed_unrun vd_passed_own conj_ac)

text \<open>What the verdict of a draft is: ULTRON's reply, judged on the text of that draft, or skipped when verification is off.\<close>

definition judged :: "'w run_env \<Rightarrow> request \<Rightarrow> material \<Rightarrow> draft \<Rightarrow> bool" where
  "judged E rq mt dr \<longleftrightarrow>
     (if v_enable_verification (e_valves E)
      then \<exists>tested reply. dr_verdict dr = judge rq mt (dr_sop dr) (dr_text dr) tested (dr_planned dr) reply
      else vd_status (dr_verdict dr) = ''SKIPPED'')"

lemma verify_draft_judges:
  "yields (\<lambda>v. \<exists>reply. v = judge rq mt sop answer tested planned reply) (verify_draft E rq mt n sop known answer tested planned)"
  unfolding verify_draft_def Let_def by (intro yields_rules) blast

lemma round_judged: "yields (\<lambda>(dr', again). judged E rq mt dr' \<and> (again \<longrightarrow> \<not> vd_passed (dr_verdict dr') \<and> v_enable_replan (e_valves E)))
    (round E rq mt dr)"
  unfolding round_def Let_def
  by (intro yields_last yields_if yields_prod yields_andthen [OF verify_draft_judges] yields_seq yields_ret)
    (auto simp: judged_def basic_verdict_def)

text \<open>C5: the loop of drafts ends after one or two attempts, whatever the models, the tools and the reviewer answer: with
  two rounds of fuel it never runs out. The draft it ends with carries the verdict on exactly its own text.\<close>

theorem rounds_end_judged:
  "case rounds 2 E rq mt no_draft s of
     (Ok None, t) \<Rightarrow> False
   | (Ok (Some dr), t) \<Rightarrow> dr_attempts dr \<in> {1, 2} \<and> judged E rq mt dr
   | _ \<Rightarrow> True"
proof -
  have j: "yields (\<lambda>r. r = None \<or> (\<exists>dr. r = Some dr \<and> judged E rq mt dr)) (rounds n E rq mt dr)" for n dr
  proof (induction n arbitrary: dr)
    case (Suc n)
    show ?case unfolding rounds.simps
      by (rule yields_andthen [OF round_judged]) (auto intro: Suc.IH intro!: yields_ret)
  qed (simp add: yields_ret)
  show ?thesis using j [of 2 no_draft] rounds_fuel [of E rq mt]
    by (fastforce simp: yields_def split: prod.splits outcome.splits option.splits)
qed
end
