(* ===== verification/Chain_Release.thy ===== *)
theory Chain_Release
  imports Chain_Draft
begin

text \<open>
  The rest of a run of the agent chain, from the verdict to the answer: the revision and the verdict's entry in the audit trail,
  the approval gate, what is released and in which files, the provenance under the answer; and \<^verbatim>\<open>pipe\<close>, which runs the
  chain, reports its token cost, and leaves a record behind when the run is stopped.
\<close>

section \<open>The approval gate\<close>

record gate =
  gt_approval :: string
  gt_at :: "local_time option"
  gt_waited :: rat

definition releasing :: "string \<Rightarrow> bool" where
  "releasing approval \<longleftrightarrow> approval = ''approved'' \<or> approval = ''not required''"

definition interactive :: "'w run_env \<Rightarrow> bool" where
  "interactive E \<longleftrightarrow> e_event_call E \<and> jtruthy (jget (e_metadata E) ''session_id'')"

text \<open>\<^verbatim>\<open>time.monotonic() - started - waited\<close>, and what the provenance of the run is made of.\<close>

definition run_facts :: "'w run_env \<Rightarrow> request \<Rightarrow> draft \<Rightarrow> string \<Rightarrow> rat \<Rightarrow> ('w, facts) run" where
  "run_facts E rq dr approval waited = (
       andthen (monotonic E) (\<lambda>now.
       andthen (gets rs_tools) (\<lambda>tools.
       andthen (egress_since E (rq_mark rq)) (\<lambda>seen.
       ret \<lparr>pv_task = task_name (rq_task rq), pv_signals = rq_signals rq, pv_model = rq_model rq, pv_rationale = rq_rationale rq,
         pv_verdict = dr_verdict dr, pv_approval = approval, pv_elapsed = fsub (fsub now (rq_started rq)) waited,
         pv_attempts = dr_attempts dr, pv_agents = rq_agents rq, pv_tools = tools, pv_grounding = rq_grounding rq,
         pv_sources = rq_sources rq, pv_approver = [], pv_approved_at = [], pv_fingerprint = [], pv_egress = seen, pv_audit = []\<rparr>))))"

definition show_provenance :: "'w run_env \<Rightarrow> facts \<Rightarrow> ('w, string) run" where
  "show_provenance E p = (
       andthen (outside (w_now (e_world E)) (\<lambda>_. [])) (\<lambda>now.
       gets (\<lambda>s. provenance p (rs_steps s) (v_show_model_thinking (e_valves E))
         (if v_show_trace (e_valves E) then rs_trace s else []) (lt_iso now))))"

definition withhold :: "'w run_env \<Rightarrow> request \<Rightarrow> draft \<Rightarrow> string \<Rightarrow> rat \<Rightarrow> string \<Rightarrow> ('w, 'a) run" where
  "withhold E rq dr approval waited notice = (
       andthen (run_facts E rq dr approval waited) (\<lambda>p.
       andthen (show_provenance E p) (\<lambda>below.
       stop_with (notice @ below))))"

definition approval_request :: "request \<Rightarrow> draft \<Rightarrow> json" where
  \<open>approval_request rq dr =
     (let v = dr_verdict dr in JObj [(''type'', JStr ''input''), (''data'', JObj ([
        (''title'', JStr ''Review before release''),
        (''message'', JStr (approval_message (dr_text dr) v (task_name (rq_task rq)) (rq_model rq))),
        (''placeholder'', JStr ''Type approve to release''),
        (''kind'', JStr ''4ce_approval''),
        (''draft'', JStr (py_strip (dr_text dr))),
        (''verdict'', JStr (py_upper (vd_status v))),
        (''reservations'', JInt (case vd_reservations v of Some n \<Rightarrow> int n | None \<Rightarrow> 0)),
        (''verdict_detail'', JStr (objection v)),
        (''task_type'', JStr (task_name (rq_task rq))),
        (''model_id'', JStr (rq_model rq))]
        @ review (dr_text dr) v (rq_sources rq) (dr_attempts dr)))])\<close>

definition no_answer :: "json \<Rightarrow> json option" where
  "no_answer response = (case response of
      JObj d \<Rightarrow> if jtruthy (jget d ''error'') then Some (jget d ''error'') else None | _ \<Rightarrow> None)"

definition approves :: "json \<Rightarrow> bool" where
  "approves response \<longleftrightarrow> (case response of
      JStr s \<Rightarrow> py_lower (py_strip s) = ''approve'' \<or> py_lower (py_strip s) = ''approved'' | _ \<Rightarrow> False)"

definition approver_name :: "user \<Rightarrow> string" where
  "approver_name u = or_text (us_name u) (us_email u)"

text \<open>What the gate does with the reviewer's response.\<close>

definition decide :: "'w run_env \<Rightarrow> request \<Rightarrow> draft \<Rightarrow> rat \<Rightarrow> json \<Rightarrow> ('w, gate) run" where
  \<open>decide E rq dr waited response = (case no_answer response of
      Some err \<Rightarrow> (
       seq (audited E ''approval'' [(''decision'', JStr ''not obtained''), (''reason'', JStr (py_take 120 (py_str err)))]) (
       seq (add_trace (''**HUMAN** approval was not obtained ('' @ py_str err @ ''); the result was not released.'')) (
       seq (status E ''approval'' ''No reviewer answered'' True []) (
       withhold E rq dr (lit ''not obtained ~u2014 no reviewer answered'') waited
          (lit (''### Deliverable withheld~n~nNo reviewer answered the sign-off, so 4CE has not released this '' @
       ''result. Nothing was approved or rejected; ask again to review it.~n~n''))))))
    | None \<Rightarrow>
        (if approves response then (
       seq (audited E ''approval'' [(''decision'', JStr ''approved''), (''approver'', JStr (approver_name (rq_user rq)))]) (
       andthen (outside (w_now (e_world E)) (\<lambda>_. [])) (\<lambda>now.
       seq (add_trace ''**HUMAN** approved the deliverable.'') (
       ret \<lparr>gt_approval = ''approved'', gt_at = Some now, gt_waited = waited\<rparr>)))) else (
       seq (audited E ''approval'' [(''decision'', JStr ''rejected''), (''approver'', JStr (approver_name (rq_user rq)))]) (
       seq (add_trace ''**HUMAN** rejected the deliverable; it was not released.'') (
       seq (status E ''approval'' ''Rejected by reviewer'' True []) (
       withhold E rq dr ''rejected'' waited (lit ''### Deliverable withheld~n~nThe reviewer rejected this result, so 4CE has not released it.~n~n'')))))))\<close>

definition approval_gate :: "'w run_env \<Rightarrow> request \<Rightarrow> draft \<Rightarrow> ('w, gate) run" where
  \<open>approval_gate E rq dr =
     (if \<not> v_require_approval (e_valves E) then ret \<lparr>gt_approval = ''not required'', gt_at = None, gt_waited = 0\<rparr>
      else if \<not> interactive E then (
       seq (audited E ''approval'' [(''decision'', JStr ''not obtained''), (''reason'', JStr ''no interactive session'')]) (
       seq (add_trace ((''**HUMAN** approval is required but no interactive session was available, so this result is '' @
       ''unapproved and must not be treated as released.''))) (
       ret \<lparr>gt_approval = lit ''NOT OBTAINED ~u2014 no interactive session to prompt'', gt_at = None, gt_waited = 0\<rparr>))) else (
       seq (status E ''approval'' ''Awaiting human approval'' False [''ULTRON's verdict: '' @ py_upper (vd_status (dr_verdict dr))]) (
       andthen (monotonic E) (\<lambda>asked_at.
       andthen (outside (w_ask (e_world E) (approval_request rq dr)) (\<lambda>r. [Asked (approval_request rq dr) r])) (\<lambda>r.
       andthen (awaiting r) (\<lambda>response.
       andthen (monotonic E) (\<lambda>answered.
       decide E rq dr (fsub answered asked_at) response)))))))\<close>

definition settle :: "'w run_env \<Rightarrow> draft \<Rightarrow> ('w, draft) run" where
  "settle E dr =
     (let v = dr_verdict dr;
          v' = (case dr_first dr of Some f \<Rightarrow> v\<lparr>vd_revision := Some (revision f (dr_text dr) v)\<rparr> | None \<Rightarrow> v)
      in (
       andthen (digest_text (dr_text dr)) (\<lambda>sealed.
       seq (audited E ''verdict'' [(''status'', JStr (py_upper (vd_status v'))), (''attempts'', JInt (int (dr_attempts dr))),
          (''failed_by'', case vd_failed_by v' of Some b \<Rightarrow> JStr b | None \<Rightarrow> JNull),
          (''reservations'', case vd_reservations v' of Some n \<Rightarrow> JInt (int n) | None \<Rightarrow> JNull), (''draft'', JStr sealed)]) (
       ret (dr\<lparr>dr_verdict := v'\<rparr>)))))"

section \<open>Release\<close>

text \<open>The record every file carries and the sign-off block of the report.\<close>

record filing =
  fl_record :: "(string \<times> string) list"
  fl_signoff :: "json pydict"
  fl_fingerprint :: string

definition approval_moment :: "local_time \<Rightarrow> string" where
  "approval_moment t = py_strip (str_int (lt_day t) @ '' '' @ lt_month_year t @ '', '' @ lt_clock t @ '' '' @ lt_zone t)"

definition signed_by :: "user \<Rightarrow> string" where
  "signed_by u = py_strip (approver_name u)"

definition file_record :: "'w run_env \<Rightarrow> request \<Rightarrow> draft \<Rightarrow> gate \<Rightarrow> string \<Rightarrow> ('w, filing) run" where
  \<open>file_record E rq dr g fingerprint =
     (if \<not> releasing (gt_approval g) \<or> rq_task rq = Chat then ret \<lparr>fl_record = [], fl_signoff = [], fl_fingerprint = fingerprint\<rparr>
      else (
       andthen (run_facts E rq dr (gt_approval g) (gt_waited g)) (\<lambda>p.
       andthen (trail_span (rq_first rq)) (\<lambda>placed.
       let plain = map (\<lambda>(label, value). (label, re_sub no_flags (rx ''[`*]'') [] value)) (provenance_rows p [])
              @ (if fingerprint \<noteq> [] then [(''Fingerprint'', ''SHA-256 '' @ fingerprint @ '' of the released answer'')] else [])
              @ (if placed \<noteq> [] then [(''Audit trail'', placed)] else []) in
       let v = dr_verdict dr in
       let signoff = [(''fingerprint'', JStr fingerprint), (''verification'', JStr (py_upper (vd_status v)
              @ (if 1 < dr_attempts dr then '' after '' @ str_nat (dr_attempts dr) @ '' attempts'' else []) @ reservations_phrase v '', with '' [])),
              (''models'', JStr (join_with (lit '' ~u00b7 '') (uniq (map (\<lambda>(a, m). after_slash m) (rq_agents rq)))))] in
       ret (case gt_at g of
            Some t \<Rightarrow>
              (let approver = or_text (signed_by (rq_user rq)) ''the reviewer''; moment = approval_moment t
               in \<lparr>fl_record = map (\<lambda>(label, value). (label, if label = ''Human approval'' then ''Approved by '' @ approver @ '' on '' @ moment else value)) plain,
                   fl_signoff = signoff @ [(''approved_by'', JStr approver), (''approved_at'', JStr moment)], fl_fingerprint = fingerprint\<rparr>)
          | None \<Rightarrow> \<lparr>fl_record = plain, fl_signoff = signoff, fl_fingerprint = fingerprint\<rparr>)))))\<close>

definition save_artifact :: "'w run_env \<Rightarrow> string \<times> string \<Rightarrow> string \<Rightarrow> ('w, string) run" where
  "save_artifact E = (\<lambda>(name, content) text. (
       andthen (use_tool E ''save_artifact'' [(''filename'', JStr name), (''content'', JStr content)]) (\<lambda>written.
       (if tool_failed written then ret text
        else (
         seq (add_tool_once ''save_artifact'') (
         seq (add_trace (''**TOOL** `save_artifact` wrote `'' @ name @ ''`.'')) (
         ret (text @ nl2 @ written))))))))"

definition save_artifacts :: "'w run_env \<Rightarrow> request \<Rightarrow> gate \<Rightarrow> string \<Rightarrow> ('w, string) run" where
  "save_artifacts E rq g text =
     (if rq_task rq = Chat \<or> \<not> releasing (gt_approval g) then ret text
      else (
       andthen (raising (artifacts (w_ast (e_world E)) text (document_title (rq_prompt rq)))) (\<lambda>files.
       fold_run (save_artifact E) files text)))"

definition record_json :: "(string \<times> string) list \<Rightarrow> json" where
  "record_json rows = JList (map (\<lambda>(a, b). JList [JStr a, JStr b]) rows)"

definition source_names :: "request \<Rightarrow> json" where
  "source_names rq = JList (map (\<lambda>s. JStr (so_name s)) (rq_sources rq))"

definition document_type :: "gate \<Rightarrow> json" where
  "document_type g = JStr (if gt_approval g = ''approved'' then ''Approved deliverable'' else ''Deliverable'')"

definition office_args :: "'w run_env \<Rightarrow> request \<Rightarrow> material \<Rightarrow> draft \<Rightarrow> gate \<Rightarrow> filing \<Rightarrow> string \<Rightarrow> string \<Rightarrow> json pydict" where
  \<open>office_args E rq mt dr g fi released fmt =
     (let verdicts = first_table (dr_sop dr)
      in [(''title'', JStr (document_title (rq_prompt rq))),
          (''body'', JStr (released @ (if verdicts \<noteq> [] then lit ''~n~n### SOP rule pack verdicts~n~n'' @ verdicts else []))),
          (''__user__'', JObj (e_user E)), (''__record__'', record_json (fl_record fi)), (''__sources__'', source_names rq)]
         @ (if fmt = ''pptx'' then [(''document_type'', document_type g)] else [])
         @ (if fmt = ''xlsx'' \<and> jtruthy (mt_data mt) then [(''__calculations__'', JList [mt_data mt])] else []))\<close>

definition office_file :: "'w run_env \<Rightarrow> request \<Rightarrow> material \<Rightarrow> draft \<Rightarrow> gate \<Rightarrow> filing \<Rightarrow> string \<Rightarrow> string \<Rightarrow> string \<Rightarrow> ('w, string) run" where
  \<open>office_file E rq mt dr g fi released fmt text =
     (case map_of OFFICE_TOOLS fmt of
        None \<Rightarrow> raising (Inl KeyError)
      | Some (tool, kind) \<Rightarrow> (
       seq (status E ''tool'' (''TOOL: writing the '' @ kind) False []) (
       andthen (use_tool E tool (office_args E rq mt dr g fi released fmt)) (\<lambda>made.
       (if tool_failed made then ret text
           else (
         seq (add_tool tool) (
         seq (add_trace (''**TOOL** `'' @ tool @ ''` wrote the released result as a '' @ kind @ ''.'')) (
         ret (text @ nl2 @ file_card made)))))))))\<close>

definition office_files :: "'w run_env \<Rightarrow> request \<Rightarrow> material \<Rightarrow> draft \<Rightarrow> gate \<Rightarrow> filing \<Rightarrow> string \<Rightarrow> string \<Rightarrow> ('w, string) run" where
  "office_files E rq mt dr g fi released text =
     (if releasing (gt_approval g) \<and> rq_task rq \<noteq> Chat
      then fold_run (office_file E rq mt dr g fi released) (office_formats (rq_prompt rq)) text else ret text)"

definition write_workbook :: "'w run_env \<Rightarrow> material \<Rightarrow> gate \<Rightarrow> string \<Rightarrow> string \<Rightarrow> ('w, string) run" where
  \<open>write_workbook E mt g released text =
     (if mt_sheet_name mt = [] \<or> \<not> releasing (gt_approval g) then ret text
      else case (case mt_changes mt of Some cs \<Rightarrow> Some cs | None \<Rightarrow> sheet_block released) of
        None \<Rightarrow> ret text
      | Some cs \<Rightarrow> (
       seq (status E ''tool'' (''TOOL: writing a copy of '' @ mt_sheet_name mt) False []) (
       andthen (use_tool E ''write_sheet'' [(''changes'', JStr (dumps_plain quoted_ascii (JList cs))), (''file'', JStr (mt_sheet_name mt)),
            (''__user__'', JObj (e_user E)), (''__files__'', jget (e_metadata E) ''files'')]) (\<lambda>made.
       (if starts_with made ''**Excel workbook**'' then (
         seq (add_tool ''write_sheet'') (
         seq (add_trace (''**TOOL** `write_sheet` wrote the approved changes to a copy of `'' @ mt_sheet_name mt
               @ ''` as live formulas; the file itself was not changed.'')) (
         ret (text @ nl2 @ file_card (fst (partition_at nl2 made)))))) else if made \<noteq> [] then (
         seq (add_trace (''**TOOL** `write_sheet` did not write the copy: '' @ made)) (
         ret (text @ lit ''~n~n*The workbook was not written: '' @ made @ ''*''))) else ret text)))))\<close>

definition passage_texts :: "request \<Rightarrow> string \<Rightarrow> json" where
  "passage_texts rq text =
     (let k = int (length (rq_sources rq))
      in JList (map (\<lambda>(n, s). JStr (supporting_text (join_with nl (map pa_text (so_passages s))) (cited_figures text k n)))
           (zip (map int [1..<length (rq_sources rq) + 1]) (rq_sources rq))))"

definition word_report :: "'w run_env \<Rightarrow> request \<Rightarrow> draft \<Rightarrow> gate \<Rightarrow> filing \<Rightarrow> string \<Rightarrow> ('w, string) run" where
  \<open>word_report E rq dr g fi text =
     (if \<not> (rq_task rq \<in> {Document, Vision} \<and> releasing (gt_approval g)) then ret text
      else (
       seq (status E ''tool'' ''TOOL: writing the Word deliverable'' False [''Writing a .docx of the approved result'']) (
       andthen (use_tool E ''create_word_document'' [
          (''title'', JStr (document_title (rq_prompt rq))), (''body'', JStr text), (''document_type'', document_type g),
          (''__user__'', JObj (e_user E)), (''__signoff__'', JObj (fl_signoff fi)), (''__record__'', record_json (fl_record fi)),
          (''__sources__'', source_names rq),
          (''__revision__'', case vd_revision (dr_verdict dr) of Some r \<Rightarrow> r | None \<Rightarrow> JNull),
          (''__checks__'', JList (map check_json (checks_of (dr_verdict dr)))),
          (''__passages__'', passage_texts rq text),
          (''__cited__'', JList (map JInt (cited_numbers text (int (length (rq_sources rq))))))]) (\<lambda>docx.
       (if tool_failed docx then ret text
         else (
         seq (add_tool ''create_word_document'') (
         seq (add_trace ''**TOOL** `create_word_document` wrote the released result to a .docx.'') (
         ret (text @ nl2 @ file_card docx)))))))))\<close>

text \<open>The answer, with the provenance under it.\<close>

definition final_answer :: "'w run_env \<Rightarrow> request \<Rightarrow> draft \<Rightarrow> gate \<Rightarrow> filing \<Rightarrow> string \<Rightarrow> ('w, string) run" where
  "final_answer E rq dr g fi text =
     (if \<not> v_show_reasoning (e_valves E) then ret text
      else (
       andthen (run_facts E rq dr (gt_approval g) (gt_waited g)) (\<lambda>p.
       andthen (trail_span (rq_first rq)) (\<lambda>placed.
       andthen (show_provenance E (p\<lparr>pv_approver := (if gt_at g \<noteq> None then signed_by (rq_user rq) else []),
          pv_approved_at := (case gt_at g of Some t \<Rightarrow> lt_clock t | None \<Rightarrow> []), pv_fingerprint := fl_fingerprint fi, pv_audit := placed\<rparr>)) (\<lambda>below.
       ret (text @ nl2 @ below))))))"

definition release :: "'w run_env \<Rightarrow> request \<Rightarrow> material \<Rightarrow> draft \<Rightarrow> gate \<Rightarrow> ('w, string) run" where
  "release E rq mt dr g =
     (let dr = dr\<lparr>dr_verdict := (dr_verdict dr)\<lparr>vd_cited_text := dr_text dr\<rparr>\<rparr>; released = dr_text dr in (
       andthen (raising (if releasing (gt_approval g) then digest (HStr (py_strip released)) else Inr [])) (\<lambda>fingerprint.
       andthen (save_artifacts E rq g released) (\<lambda>saved.
       andthen (file_record E rq dr g fingerprint) (\<lambda>fi.
       andthen (office_files E rq mt dr g fi released saved) (\<lambda>filed.
       andthen (write_workbook E mt g released filed) (\<lambda>copied.
       andthen (word_report E rq dr g fi copied) (\<lambda>text.
       andthen (gets rs_tools) (\<lambda>tools.
       seq (only_if (releasing (gt_approval g)) (audited E ''release''
          [(''fingerprint'', JStr fingerprint), (''tools'', JList (map JStr tools))])) (
       seq (status E ''done'' ''Complete'' True []) (
       final_answer E rq dr g fi text)))))))))))"

section \<open>The chain\<close>

definition prepare :: "'w run_env \<Rightarrow> ('w, request \<times> material) run" where
  "prepare E = (
       andthen (intake E) (\<lambda>asked.
       andthen (ground E asked) (\<lambda>rq.
       seq (announce E rq) (
       andthen (pick_model E rq) (\<lambda>routed.
       (if rq_task routed = Chat \<and> \<not> v_orchestrate_small_talk (e_valves E) then direct_reply E routed
        else (
         andthen (pick_agents E routed) (\<lambda>ready.
         andthen (gather E ready) (\<lambda>mt.
         ret (ready, mt))))))))))"

text \<open>\<open>None\<close> would be a loop out of fuel; \<open>rounds_fuel\<close> shows that there is none with two rounds.\<close>

definition run_chain :: "'w run_env \<Rightarrow> ('w, string) run" where
  "run_chain E = (
       andthen (prepare E) (\<lambda>(rq, mt).
       andthen (rounds 2 E rq mt no_draft) (\<lambda>looped.
       (case looped of
          None \<Rightarrow> ret []
        | Some dr \<Rightarrow> (
         andthen (settle E dr) (\<lambda>settled.
         andthen (approval_gate E rq settled) (\<lambda>g.
         release E rq mt settled g)))))))"

section \<open>The pipe\<close>

text \<open>\<^verbatim>\<open>except Exception: pass\<close> around an awaited call: a failure is passed over, a cancellation is not.\<close>

definition tolerant :: "('w, unit) run \<Rightarrow> ('w, unit) run" where
  "tolerant m s = (case m s of (Raise e, s') \<Rightarrow> (Ok (), s') | r \<Rightarrow> r)"

definition upsert :: "'w run_env \<Rightarrow> json \<Rightarrow> ('w, unit) run" where
  "upsert E fields_json =
     (let chat = jget (e_metadata E) ''chat_id''; message = jget (e_metadata E) ''message_id''
      in if \<not> jtruthy chat \<or> \<not> jtruthy message then ret ()
         else tolerant (
       andthen (outside (w_upsert (e_world E) (py_str chat) (py_str message) fields_json) (\<lambda>_. [Upserted fields_json])) (\<lambda>r.
       awaiting r)))"

definition report_usage :: "'w run_env \<Rightarrow> ('w, unit) run" where
  "report_usage E = (
       andthen (gets rs_steps) (\<lambda>steps.
       andthen (raising (usage_total steps)) (\<lambda>usage.
       only_if (usage \<noteq> []) (upsert E (JObj [(''usage'', JObj usage)])))))"

definition record_stop :: "'w run_env \<Rightarrow> ('w, unit) run" where
  "record_stop E = (
       andthen (gets (\<lambda>s. stop_text (rs_trace s) (rs_steps s))) (\<lambda>content.
       seq (only_if (e_emitter E) (tolerant (
         seq (status E ''stopped'' ''Stopped by reviewer'' True []) (
         emit E (JObj [(''type'', JStr ''replace''), (''data'', JObj [(''content'', JStr content)])]))))) (
       upsert E (JObj [(''content'', JStr content), (''done'', JBool True)]))))"

definition record_stopped_turn :: "'w run_env \<Rightarrow> ('w, unit) run" where
  "record_stopped_turn E = seq (record_stop E) (report_usage E)"

text \<open>A returned text is the answer whether the chain ended early or at its end. A run cancelled anywhere, the report of its
  cost included, writes its record under a shield, and the cancellation is raised again.\<close>

definition returned :: "('w, string) run \<Rightarrow> ('w, string) run" where
  "returned m s = (case m s of (Return text, s') \<Rightarrow> (Ok text, s') | r \<Rightarrow> r)"

definition pipe :: "'w run_env \<Rightarrow> ('w, string) run" where
  "pipe E s = (case andthen (returned (run_chain E)) (\<lambda>answer. seq (report_usage E) (ret answer)) s of
      (Cancel, s') \<Rightarrow> (case record_stopped_turn E s' of
          (Raise e, s'') \<Rightarrow> (Raise e, s'') | (_, s'') \<Rightarrow> (Cancel, s''))
    | r \<Rightarrow> r)"

section \<open>What these stages obey\<close>

context run_preorder
begin

lemma obeys_tolerant: "obeys R m \<Longrightarrow> obeys R (tolerant m)"
  unfolding obeys_def tolerant_def by (auto split: prod.splits outcome.splits) (metis snd_conv)+

lemma obeys_returned: "obeys R m \<Longrightarrow> obeys R (returned m)"
  unfolding obeys_def returned_def by (auto split: prod.splits outcome.splits) (metis snd_conv)+

end

context run_quiet
begin

lemma obeys_run_facts: "obeys R (run_facts E rq dr approval waited)"
  unfolding run_facts_def by (intro quiet_rules)

lemma obeys_show_provenance: "obeys R (show_provenance E p)"
  unfolding show_provenance_def by (intro quiet_rules)

lemma obeys_withhold: "obeys R (withhold E rq dr approval waited notice)"
  unfolding withhold_def by (intro quiet_rules obeys_run_facts obeys_show_provenance)

lemma obeys_decide: "obeys R (decide E rq dr waited response)"
  unfolding decide_def by (intro quiet_rules obeys_withhold) auto

lemma obeys_approval_gate: "obeys R (approval_gate E rq dr)"
  unfolding approval_gate_def by (intro quiet_rules obeys_outside obeys_decide) (auto simp: ok_ask)

lemma obeys_settle: "obeys R (settle E dr)"
  unfolding settle_def by (intro quiet_rules) auto

lemma obeys_file_record: "obeys R (file_record E rq dr g fingerprint)"
  unfolding file_record_def by (intro quiet_rules obeys_run_facts)

lemma obeys_final_answer: "obeys R (final_answer E rq dr g fi answer)"
  unfolding final_answer_def by (intro quiet_rules obeys_run_facts obeys_show_provenance)

text \<open>Nothing is written and no release is recorded when the gate did not let the draft through.\<close>

lemma obeys_withheld:
  assumes "\<not> releasing (gt_approval g)"
  shows "obeys R (release E rq mt dr g)"
  unfolding release_def save_artifacts_def office_files_def write_workbook_def word_report_def
  using assms by (intro quiet_rules obeys_file_record obeys_final_answer) auto

lemma obeys_upsert: "obeys R (upsert E v)"
  unfolding upsert_def Let_def by (intro quiet_rules obeys_tolerant obeys_outside) (simp add: ok_upsert)

lemma obeys_report_usage: "obeys R (report_usage E)"
  unfolding report_usage_def by (intro quiet_rules obeys_upsert)

lemma obeys_record_stopped_turn: "obeys R (record_stopped_turn E)"
  unfolding record_stopped_turn_def record_stop_def by (intro quiet_rules obeys_tolerant obeys_upsert obeys_report_usage)

text \<open>A whole run of \<^verbatim>\<open>pipe\<close>, once its chain is settled.\<close>

lemma obeys_pipe:
  assumes "obeys R (run_chain E)"
  shows "obeys R (pipe E)"
proof -
  let ?m = "andthen (returned (run_chain E)) (\<lambda>answer. seq (report_usage E) (ret answer))"
  have m: "obeys R ?m" by (intro quiet_rules obeys_returned obeys_report_usage assms)
  show ?thesis unfolding obeys_def
  proof
    fix s
    obtain r t where r: "?m s = (r, t)" by fastforce
    obtain r' t' where r': "record_stopped_turn E t = (r', t')" by fastforce
    have "R s t" "R t t'" using m obeys_record_stopped_turn [of E] r r' unfolding obeys_def by (metis snd_conv)+
    moreover from this have "R s t'" using R_trans by blast
    ultimately show "R s (snd (pipe E s))" by (cases r; cases r') (simp_all add: pipe_def r r')
  qed
qed

lemmas release_rules = draft_rules obeys_settle obeys_approval_gate obeys_file_record obeys_final_answer

end

context run_writing
begin

lemma obeys_save_artifacts: "obeys R (save_artifacts E rq g answer)"
proof -
  have "obeys R (save_artifact E p answer)" for p answer
    by (cases p) (simp add: save_artifact_def, intro quiet_rules obeys_any_tool)
  then show ?thesis unfolding save_artifacts_def by (intro quiet_rules)
qed

lemma obeys_office_files: "obeys R (office_files E rq mt dr g fi released answer)"
  unfolding office_files_def office_file_def by (intro quiet_rules obeys_any_tool)

lemma obeys_write_workbook: "obeys R (write_workbook E mt g released answer)"
  unfolding write_workbook_def by (intro quiet_rules obeys_any_tool)

lemma obeys_word_report: "obeys R (word_report E rq dr g fi answer)"
  unfolding word_report_def by (intro quiet_rules obeys_any_tool)

lemma obeys_release:
  assumes "\<And>ctx now d tools fingerprint. digest (HStr (py_strip (dr_text dr))) = Inr fingerprint
      \<Longrightarrow> ok (Audited ctx now d ''release'' [(''fingerprint'', JStr fingerprint), (''tools'', JList (map JStr tools))])"
  shows "obeys R (release E rq mt dr g)"
proof (cases "releasing (gt_approval g)")
  case True
  show ?thesis
  proof (cases "digest (HStr (py_strip (dr_text dr)))")
    case (Inl e)
    then show ?thesis using True by (simp add: release_def Let_def raising_def obeys_def andthen_def R_refl)
  next
    case (Inr fingerprint)
    then have rel: "obeys R (audited E ''release'' [(''fingerprint'', JStr fingerprint), (''tools'', JList (map JStr tools))])" for tools
      unfolding audited_def by (intro obeys_andthen obeys_audit_ok obeys_pure assms)
    show ?thesis using True Inr unfolding release_def Let_def
      by (simp add: raising_def ret_andthen)
        (intro rel obeys_andthen obeys_seq obeys_only_if obeys_save_artifacts obeys_file_record obeys_office_files
          obeys_write_workbook obeys_word_report obeys_pure obeys_status obeys_final_answer)
  qed
qed (rule obeys_withheld)

end

context run_frame
begin

lemma obeys_prepare: "obeys R (prepare E)"
  unfolding prepare_def by (intro draft_rules obeys_direct_reply obeys_gather)

lemma obeys_chain:
  assumes "\<And>rq mt dr. obeys R (andthen (approval_gate E rq dr) (\<lambda>g. release E rq mt dr g))"
  shows "obeys R (run_chain E)"
  unfolding run_chain_def by (intro obeys_andthen [OF obeys_prepare] obeys_andthen [OF obeys_rounds] obeys_andthen [OF obeys_settle]
      obeys_prod obeys_option obeys_pure assms)

end

context run_whole
begin

lemma obeys_run: "obeys R (pipe E)"
  by (intro obeys_pipe obeys_chain obeys_andthen [OF obeys_approval_gate] obeys_release ok_release)

end

section \<open>The approval gate\<close>

text \<open>What a prompt to the reviewer shows as the draft; what an answer of the reviewer approves; and whether an entry of the
  audit trail is the release of a given draft.\<close>

definition shown_draft :: "json \<Rightarrow> string option" where
  "shown_draft req = (case req of
      JObj r \<Rightarrow> (case jget r ''data'' of
        JObj d \<Rightarrow> (case jget d ''draft'' of JStr t \<Rightarrow> Some t | _ \<Rightarrow> None) | _ \<Rightarrow> None) | _ \<Rightarrow> None)"

fun approval_of :: "act \<Rightarrow> string option" where
  "approval_of (Asked req (Got answer)) = (if approves answer then shown_draft req else None)"
| "approval_of _ = None"

fun seals :: "string \<Rightarrow> act \<Rightarrow> bool" where
  "seals draft (Audited ctx now d action flds) = (case digest (HStr draft) of
      Inr fingerprint \<Rightarrow> dict_get flds ''fingerprint'' = Some (JStr fingerprint) | Inl _ \<Rightarrow> False)"
| "seals draft _ = True"

text \<open>Every file that is written and every release that is recorded comes after the approval of a draft, and the release
  carries the fingerprint of that draft.\<close>

definition cleared :: "act list \<Rightarrow> act \<Rightarrow> bool" where
  "cleared earlier a \<longleftrightarrow> \<not> releases a \<or> list_ex (\<lambda>b. case approval_of b of Some draft \<Rightarrow> seals draft a | None \<Rightarrow> False) earlier"

definition gated :: "act list \<Rightarrow> bool" where
  "gated acts \<longleftrightarrow> list_all (\<lambda>i. cleared (take i acts) (acts ! i)) [0..<length acts]"

lemma gated_nth: "gated acts \<longleftrightarrow> (\<forall>i<length acts. cleared (take i acts) (acts ! i))"
  by (auto simp: gated_def list_all_iff)

lemma cleared_mono: "cleared a x \<Longrightarrow> set a \<subseteq> set b \<Longrightarrow> cleared b x"
  unfolding cleared_def list_ex_iff by blast

lemma gated_append: "gated (a @ b) \<longleftrightarrow> gated a \<and> (\<forall>i<length b. cleared (a @ take i b) (b ! i))"
proof -
  have "(\<forall>i<length a + length b. P i) \<longleftrightarrow> (\<forall>i<length a. P i) \<and> (\<forall>i<length b. P (length a + i))" for P :: "nat \<Rightarrow> bool"
    by (auto, metis add_diff_inverse_nat nat_add_left_cancel_less)
  then show ?thesis by (simp add: gated_nth nth_append)
qed

lemma gated_trans: "gated a \<Longrightarrow> gated b \<Longrightarrow> gated (a @ b)"
  unfolding gated_append by (auto simp: gated_nth intro: cleared_mono)

lemma gated_unreleased: "list_all (\<lambda>a. \<not> releases a) acts \<Longrightarrow> gated acts"
  by (auto simp: gated_nth cleared_def list_all_length)

definition log_gated :: "'w run_state \<Rightarrow> 'w run_state \<Rightarrow> bool" where
  "log_gated s t \<longleftrightarrow> (\<exists>new. rs_log t = rs_log s @ new \<and> gated new)"

lemma log_gated_refl: "log_gated s s"
  by (simp add: log_gated_def gated_nth)

lemma log_gated_trans: "log_gated s t \<Longrightarrow> log_gated t u \<Longrightarrow> log_gated s u"
  by (auto simp: log_gated_def intro: gated_trans)

interpretation guarded: run_frame log_gated "\<lambda>a. \<not> releases a"
  by unfold_locales
    (auto simp: log_gated_refl log_gated_def intro: log_gated_trans gated_trans gated_unreleased)

interpretation sealing: run_writing "log_grows (\<lambda>a. releases a \<longrightarrow> seals draft a)" "\<lambda>a. releases a \<longrightarrow> seals draft a" for draft
  by unfold_locales (auto simp: log_grows_refl log_grows_def)

lemma andthen_Ok: "andthen m f s = (Ok y, u) \<longleftrightarrow> (\<exists>x t. m s = (Ok x, t) \<and> f x t = (Ok y, u))"
  by (auto simp: andthen_def split: prod.splits outcome.splits)

lemma outside_Ok: "outside f note s = (Ok x, t) \<longleftrightarrow> (\<exists>w. f (rs_world s) = (x, w) \<and> t = s\<lparr>rs_world := w, rs_log := rs_log s @ note x\<rparr>)"
  by (auto simp: outside_def split: prod.splits)

lemma awaiting_Ok: "awaiting r s = (Ok x, t) \<longleftrightarrow> r = Got x \<and> t = s"
  by (auto simp: awaiting_def split: awaited.splits)

lemma log_step: "obeys (log_grows P) m \<Longrightarrow> m s = (x, t) \<Longrightarrow> \<exists>new. rs_log t = rs_log s @ new \<and> list_all P new"
  unfolding obeys_def log_grows_def by (metis snd_conv)

lemma shown_request: "shown_draft (approval_request rq dr) = Some (py_strip (dr_text dr))"
  by (simp add: shown_draft_def approval_request_def Let_def jget_def dict_get_def)

lemma decide_approves: "decide E rq dr waited response s = (Ok g, t) \<Longrightarrow> approves response"
  by (auto simp: decide_def withhold_def seq_def andthen_Ok stop_with_def split: option.splits if_splits)

text \<open>When the gate lets a draft through, the reviewer was shown that draft and approved it.\<close>

lemma gate_approved:
  assumes gate: "approval_gate E rq dr s = (Ok g, t)" and "v_require_approval (e_valves E)" "releasing (gt_approval g)"
  shows "\<exists>new. rs_log t = rs_log s @ new \<and> list_all (\<lambda>a. \<not> releases a) new
           \<and> list_ex (\<lambda>a. approval_of a = Some (py_strip (dr_text dr))) new"
proof (cases "interactive E")
  case False
  then have "gt_approval g = lit ''NOT OBTAINED ~u2014 no interactive session to prompt''"
    using gate assms(2) by (auto simp: approval_gate_def seq_def andthen_Ok ret_def)
  moreover have "\<not> releasing (lit ''NOT OBTAINED ~u2014 no interactive session to prompt'')" by code_simp
  ultimately show ?thesis using assms(3) by simp
next
  case True
  define req where "req = approval_request rq dr"
  obtain s1 asked s2 response w answered s4 where st: "status E ''approval'' ''Awaiting human approval'' False
        [''ULTRON's verdict: '' @ py_upper (vd_status (dr_verdict dr))] s = (Ok (), s1)"
    and m: "monotonic E s1 = (Ok asked, s2)" 
    and a: "monotonic E (s2\<lparr>rs_world := w, rs_log := rs_log s2 @ [Asked req (Got response)]\<rparr>) = (Ok answered, s4)" and d: "decide E rq dr (fsub answered asked) response s4 = (Ok g, t)"
    using gate assms(2) True
    by (auto simp: approval_gate_def seq_def andthen_Ok outside_Ok awaiting_Ok req_def)
  have "\<exists>n1. rs_log s1 = rs_log s @ n1 \<and> list_all (\<lambda>a. \<not> releases a) n1" by (rule log_step [OF unreleased.obeys_status st])
  moreover have "\<exists>n2. rs_log s2 = rs_log s1 @ n2 \<and> list_all (\<lambda>a. \<not> releases a) n2" by (rule log_step [OF unreleased.obeys_monotonic m])
  moreover have "\<exists>n3. rs_log s4 = (rs_log s2 @ [Asked req (Got response)]) @ n3 \<and> list_all (\<lambda>a. \<not> releases a) n3" using log_step [OF unreleased.obeys_monotonic a] by simp
  moreover have "\<exists>n4. rs_log t = rs_log s4 @ n4 \<and> list_all (\<lambda>a. \<not> releases a) n4" by (rule log_step [OF unreleased.obeys_decide d])
  moreover have "approval_of (Asked req (Got response)) = Some (py_strip (dr_text dr))"
    using decide_approves [OF d] by (simp add: req_def shown_request)
  ultimately show ?thesis by (elim exE conjE) (simp del: approval_of.simps)
qed

lemma gated_release:
  assumes "list_all (\<lambda>a. \<not> releases a) a" "list_ex (\<lambda>x. approval_of x = Some draft) a"
    and "list_all (\<lambda>x. releases x \<longrightarrow> seals draft x) b"
  shows "gated (a @ b)"
proof -
  have "cleared (a @ take i b) (b ! i)" if "i < length b" for i
    using that assms(2,3) by (force simp: cleared_def list_ex_iff list_all_length)
  then show ?thesis using gated_unreleased [OF assms(1)] by (simp add: gated_append)
qed

lemma gate_then_release:
  assumes "v_require_approval (e_valves E)"
  shows "obeys log_gated (andthen (approval_gate E rq dr) (\<lambda>g. release E rq mt dr g))"
  unfolding obeys_def
proof
  fix s
  obtain r t where gate: "approval_gate E rq dr s = (r, t)" by fastforce
  show "log_gated s (snd (andthen (approval_gate E rq dr) (\<lambda>g. release E rq mt dr g) s))"
  proof (cases "\<exists>g. r = Ok g \<and> releasing (gt_approval g)")
    case True
    then obtain g where g: "r = Ok g" "releasing (gt_approval g)" by blast
    obtain new where n: "rs_log t = rs_log s @ new" "list_all (\<lambda>a. \<not> releases a) new"
      "list_ex (\<lambda>a. approval_of a = Some (py_strip (dr_text dr))) new" using gate_approved gate g assms by metis
    have "obeys (log_grows (\<lambda>a. releases a \<longrightarrow> seals (py_strip (dr_text dr)) a)) (release E rq mt dr g)"
      by (rule sealing.obeys_release) (simp add: dict_get_def)
    then obtain more where "rs_log (snd (release E rq mt dr g t)) = rs_log t @ more"
      "list_all (\<lambda>a. releases a \<longrightarrow> seals (py_strip (dr_text dr)) a) more" unfolding obeys_def log_grows_def by blast
    then show ?thesis using n gate g(1) gated_release by (auto simp: log_gated_def andthen_def)
  next
    case False
    then have "obeys log_gated (release E rq mt dr g)" if "r = Ok g" for g using that guarded.obeys_withheld by blast
    moreover have "log_gated s t" using guarded.obeys_approval_gate gate unfolding obeys_def by (metis snd_conv)
    ultimately show ?thesis using gate by (cases r) (auto simp: andthen_def obeys_def intro: log_gated_trans)
  qed
qed


text \<open>A small world for concrete runs: the clocks stand still, the disk works, the reviewer approves everything, one model is served.\<close>

definition demo_world :: "unit world" where
  "demo_world = \<lparr>w_monotonic = Pair 0, w_time = Pair 0, w_now = Pair \<lparr>lt_day = 1, lt_month_year = ''May 2025'', lt_clock = ''09:00'', lt_zone = ''UTC'', lt_iso = []\<rparr>,
     w_disk = Pair DiskOk, w_emit = (\<lambda>ev. Pair (Got ())), w_ask = (\<lambda>req. Pair (Got (JStr ''approve''))),
     w_complete = (\<lambda>payload. Pair (Got ROther)), w_tool = (\<lambda>name kwargs. Pair (Got [])), w_user = (\<lambda>uid. Pair (Got (Some \<lparr>us_id = ''u1'', us_name = ''Ann'', us_email = []\<rparr>))),
     w_models = (\<lambda>w. [''qwen3-1.7b'']), w_knowledge = (\<lambda>model. Pair (Got None)), w_query = (\<lambda>cs query k. Pair (Got JNull)),
     w_annotate = (\<lambda>picture fs. Pair (Got [])), w_store_image = (\<lambda>owner picture name. Pair (Got [])),
     w_upsert = (\<lambda>chat message v. Pair (Got ())), w_mark = Pair None, w_since = (\<lambda>mark. Pair None),
     w_ast = (\<lambda>source. BadSyntax), w_open_image = (\<lambda>picture. None), w_shrink = (\<lambda>picture edge. None)\<rparr>"

definition demo_env :: "json pydict \<Rightarrow> unit run_env" where
  "demo_env body = \<lparr>e_world = demo_world, e_valves = default_valves, e_body = body, e_user = [(''id'', JStr ''u1'')],
     e_metadata = [(''chat_id'', JStr ''c1''), (''message_id'', JStr ''m1''), (''session_id'', JStr ''s1'')], e_tools = [],
     e_task = [], e_emitter = True, e_event_call = True\<rparr>"

definition demo_state :: "unit run_state" where
  "demo_state = \<lparr>rs_world = (), rs_trail = new_trail None, rs_context = [], rs_trace = [], rs_steps = [], rs_tools = [], rs_log = []\<rparr>"

definition demo_body :: "json pydict" where
  "demo_body = [(''messages'', JList [JObj [(''role'', JStr ''user''), (''content'', JStr ''draft an inspection report'')]])]"


text \<open>The gate can open: a reviewer who is asked and approves lets the draft through, and \<open>gated\<close> can fail.\<close>

lemma gated_examples:
  "gated [Asked (JObj [(''data'', JObj [(''draft'', JStr ''x'')])]) (Got (JStr '' Approve '')), ToolCall ''save_artifact'' []]"
  "\<not> gated [Asked (JObj [(''data'', JObj [(''draft'', JStr ''x'')])]) (Got (JStr ''no'')), ToolCall ''save_artifact'' []]"
  by code_simp+

section \<open>What a run costs\<close>

lemma bounded_prepare: "bounded 1 (prepare E)"
  unfolding prepare_def
  by (intro bounded_before [OF uncalled.obeys_intake] bounded_before [OF uncalled.obeys_ground] bounded_seq uncalled.obeys_announce
      bounded_before [OF uncalled.obeys_pick_model] bounded_if bounded_direct_reply bounded_before [OF uncalled.obeys_pick_agents]
      bounded_after [OF bounded_gather] uncalled.obeys_pure)

lemma bounded_run_chain: "bounded (1 + 2 * 3) (run_chain E)"
  unfolding run_chain_def
  by (intro bounded_andthen [OF bounded_prepare] bounded_prod bounded_after [OF bounded_rounds] uncalled.obeys_option
      uncalled.obeys_pure uncalled.obeys_andthen [OF uncalled.obeys_settle] uncalled.obeys_andthen [OF uncalled.obeys_approval_gate]
      uncalled.obeys_release) simp


section \<open>The audit trail of a run\<close>


section \<open>A stopped run\<close>

text \<open>What writing the record of a stopped run leaves alone: the trace and the steps; the log only grows.\<close>

definition keeps_story :: "'w run_state \<Rightarrow> 'w run_state \<Rightarrow> bool" where
  "keeps_story s t \<longleftrightarrow> rs_trace t = rs_trace s \<and> rs_steps t = rs_steps s \<and> (\<exists>new. rs_log t = rs_log s @ new)"

interpretation story: run_preorder keeps_story
  by unfold_locales (auto simp: keeps_story_def)

lemma story_outside: "obeys keeps_story (outside f note)"
  by (auto simp: obeys_def outside_def keeps_story_def split: prod.splits)

lemma story_emit: "obeys keeps_story (emit E ev)"
  unfolding emit_def by (intro story.obeys_rules story_outside)

lemma story_status: "obeys keeps_story (status E action description finished notes)"
  unfolding status_def by (intro story.obeys_rules story_outside story_emit)

lemma story_upsert: "obeys keeps_story (upsert E v)"
  unfolding upsert_def Let_def by (intro story.obeys_rules story.obeys_tolerant story_outside)

lemma story_usage: "obeys keeps_story (report_usage E)"
  unfolding report_usage_def by (intro story.obeys_rules story_upsert)

text \<open>A call that returns or raises.\<close>

definition settles :: "('w, unit) run \<Rightarrow> bool" where
  "settles m \<longleftrightarrow> (\<forall>s. \<exists>t. m s = (Ok (), t) \<or> (\<exists>e. m s = (Raise e, t)))"

lemma settles_emit:
  assumes "\<And>ev w. fst (w_emit (e_world E) ev w) \<noteq> Cancelled"
  shows "settles (emit E ev)"
  unfolding settles_def
proof
  fix s
  show "\<exists>t. emit E ev s = (Ok (), t) \<or> (\<exists>e. emit E ev s = (Raise e, t))"
    using assms [of ev "rs_world s"]
    by (cases "w_emit (e_world E) ev (rs_world s)"; cases "fst (w_emit (e_world E) ev (rs_world s))")
      (auto simp: emit_def andthen_def outside_def awaiting_def)
qed

lemma settles_seq:
  assumes "settles m" "settles n"
  shows "settles (seq m n)"
  unfolding settles_def
proof
  fix s
  obtain t where "m s = (Ok (), t) \<or> (\<exists>e. m s = (Raise e, t))" using assms(1) unfolding settles_def by blast
  then show "\<exists>t. seq m n s = (Ok (), t) \<or> (\<exists>e. seq m n s = (Raise e, t))"
    using assms(2) by (auto simp: seq_def andthen_def settles_def)
qed

lemma settles_status:
  assumes "\<And>ev w. fst (w_emit (e_world E) ev w) \<noteq> Cancelled"
  shows "settles (status E action description finished notes)"
  using settles_emit [of E, OF assms] unfolding status_def settles_def
  by (auto simp: only_if_def andthen_def outside_def ret_def Let_def split: prod.splits)

lemma settles_tolerant: "settles m \<Longrightarrow> \<exists>t. tolerant m s = (Ok (), t)"
  unfolding settles_def by (drule spec [of _ s]) (auto simp: tolerant_def)

lemma story_stepI: "obeys keeps_story m \<Longrightarrow> m s = (x, t) \<Longrightarrow> keeps_story s t"
  unfolding obeys_def by (metis snd_conv)

lemma upsert_logs:
  assumes "jtruthy (jget (e_metadata E) ''chat_id'')" "jtruthy (jget (e_metadata E) ''message_id'')"
  shows "\<exists>new. rs_log (snd (upsert E v s)) = rs_log s @ [Upserted v] @ new"
  using assms by (auto simp: upsert_def tolerant_def andthen_def outside_def awaiting_def split: prod.splits outcome.splits awaited.splits)

text \<open>The record of a stopped run reaches the stored message.\<close>

lemma record_stop_logs:
  assumes "jtruthy (jget (e_metadata E) ''chat_id'')" "jtruthy (jget (e_metadata E) ''message_id'')"
    and "\<And>ev w. fst (w_emit (e_world E) ev w) \<noteq> Cancelled"
  shows "Upserted (JObj [(''content'', JStr (stop_text (rs_trace s) (rs_steps s))), (''done'', JBool True)]) \<in> set (rs_log (snd (record_stop E s)))"
proof -
  define content where "content = stop_text (rs_trace s) (rs_steps s)"
  let ?told = "only_if (e_emitter E) (tolerant (seq (status E ''stopped'' ''Stopped by reviewer'' True [])
      (emit E (JObj [(''type'', JStr ''replace''), (''data'', JObj [(''content'', JStr content)])]))))"
  have "settles (seq (status E ''stopped'' ''Stopped by reviewer'' True [])
      (emit E (JObj [(''type'', JStr ''replace''), (''data'', JObj [(''content'', JStr content)])])))"
    by (intro settles_seq settles_status settles_emit assms(3))
  then have "\<exists>t. ?told s = (Ok (), t)" using settles_tolerant by (cases "e_emitter E") (simp_all add: only_if_def ret_def)
  then obtain t where t: "?told s = (Ok (), t)" ..
  have "record_stop E s = upsert E (JObj [(''content'', JStr content), (''done'', JBool True)]) t"
    using t by (simp add: record_stop_def andthen_def [of "gets _"] gets_def content_def seq_def andthen_def [of "only_if _ _"])
  then show ?thesis using upsert_logs [OF assms(1,2)] by (metis append_Cons content_def in_set_conv_decomp append.assoc)
qed


text \<open>A run that is cancelled while the reader of the user table is awaited.\<close>

definition stopping_env :: "unit run_env" where
  "stopping_env = (demo_env demo_body)\<lparr>e_emitter := False, e_world := demo_world\<lparr>w_user := (\<lambda>uid. Pair Cancelled)\<rparr>\<rparr>"


text \<open>The record of a stopped run always opens with the sentence that nothing was released and nothing was approved, also when
  the run is stopped after the reviewer approved the draft and files were written.\<close>

lemma stop_record_denies_approval:
  "starts_with (stop_text trace steps) (''### Stopped'' @ nl2
     @ ''The run was stopped before it produced a deliverable. Nothing was released and nothing was approved.'')"
proof -
  have e: "nl2 = nl @ nl" by (simp add: nl2_def nl_def)
  have j: "starts_with (join_with nl ([a, [], c] @ xs)) (a @ nl2 @ c)" for a c xs by (cases xs) (simp_all add: e starts_with_iff)
  have c: "''The run was stopped before it produced a deliverable. Nothing was released and nothing was '' @ ''approved.''
      = ''The run was stopped before it produced a deliverable. Nothing was released and nothing was approved.''" by simp
  show ?thesis unfolding stop_text_def Let_def c by (rule j)
qed

section \<open>Small talk\<close>

text \<open>C18: a request classified as chat never enters the drafting loop, the approval gate or the release unless the valve for
  it is set: the preparation of the run ends with the direct reply.\<close>

theorem small_talk_answered_directly:
  "case prepare E s of (Ok (rq, mt), t) \<Rightarrow> \<not> (rq_task rq = Chat \<and> \<not> v_orchestrate_small_talk (e_valves E)) | _ \<Rightarrow> True"
proof -
  have agents: "yields (\<lambda>rq'. rq_task rq' = rq_task rq) (pick_agents E rq)" for rq
    unfolding pick_agents_def Let_def by (intro yields_rules) simp
  have direct: "yields P (direct_reply E rq)" for P :: "request \<times> material \<Rightarrow> bool" and rq
    unfolding direct_reply_def by (intro yields_rules)
  have "yields (\<lambda>(rq, mt). \<not> (rq_task rq = Chat \<and> \<not> v_orchestrate_small_talk (e_valves E))) (prepare E)"
    unfolding prepare_def
    by (intro yields_last yields_seq yields_if direct yields_andthen [OF agents] yields_ret) auto
  then show ?thesis by (auto simp: yields_def split: prod.splits outcome.splits)
qed
end
