(* ===== verification/Py_Float_Ops.thy ===== *)
theory Py_Float_Ops
  imports Survey
begin

text \<open>
  Arithmetic and comparison of Python floats beside the subtraction of the theory Survey: infinities, not-a-number and
  the signed zeros included. A comparison with not-a-number is false. Division is defined where Python does not raise.
\<close>

definition pf_negative :: "pyfloat \<Rightarrow> bool" where
  "pf_negative v = (case v of Fin x \<Rightarrow> x < 0 | NegZero \<Rightarrow> True | Inf neg \<Rightarrow> neg | NaN \<Rightarrow> False)"

fun pf_value :: "pyfloat \<Rightarrow> rat" where
  "pf_value (Fin x) = x"
| "pf_value v = 0"

fun pf_lt :: "pyfloat \<Rightarrow> pyfloat \<Rightarrow> bool" where
  "pf_lt NaN b = False"
| "pf_lt a NaN = False"
| "pf_lt (Inf m) (Inf n) = (m \<and> \<not> n)"
| "pf_lt (Inf m) b = m"
| "pf_lt a (Inf n) = (\<not> n)"
| "pf_lt a b = (pf_value a < pf_value b)"

fun pf_le :: "pyfloat \<Rightarrow> pyfloat \<Rightarrow> bool" where
  "pf_le NaN b = False"
| "pf_le a NaN = False"
| "pf_le a b = (\<not> pf_lt b a)"

definition pf_eq :: "pyfloat \<Rightarrow> pyfloat \<Rightarrow> bool" where
  "pf_eq a b \<longleftrightarrow> pf_le a b \<and> pf_le b a"

text \<open>A product or quotient with its sign: rounding may end in a zero or an infinity.\<close>

definition pf_mul :: "pyfloat \<Rightarrow> pyfloat \<Rightarrow> pyfloat" where
  "pf_mul a b =
     (let neg = (pf_negative a \<noteq> pf_negative b) in
      case (a, b) of
        (NaN, _) \<Rightarrow> NaN | (_, NaN) \<Rightarrow> NaN
      | (Inf _, Inf _) \<Rightarrow> Inf neg
      | (Inf _, v) \<Rightarrow> (if nonzero v then Inf neg else NaN)
      | (v, Inf _) \<Rightarrow> (if nonzero v then Inf neg else NaN)
      | _ \<Rightarrow> float_of neg \<bar>pf_value a * pf_value b\<bar>)"

definition pf_div :: "pyfloat \<Rightarrow> pyfloat \<Rightarrow> pyfloat" where
  "pf_div a b =
     (let neg = (pf_negative a \<noteq> pf_negative b) in
      case (a, b) of
        (NaN, _) \<Rightarrow> NaN | (_, NaN) \<Rightarrow> NaN
      | (Inf _, Inf _) \<Rightarrow> NaN
      | (Inf _, _) \<Rightarrow> Inf neg
      | (_, Inf _) \<Rightarrow> (if neg then NegZero else Fin 0)
      | _ \<Rightarrow> float_of neg \<bar>pf_value a / pf_value b\<bar>)"

text \<open>A sum is the difference with the negated second term.\<close>

definition pf_add :: "pyfloat \<Rightarrow> pyfloat \<Rightarrow> pyfloat" where
  "pf_add a b = pf_sub a (case b of Fin x \<Rightarrow> if x = 0 then NegZero else Fin (- x) | NegZero \<Rightarrow> Fin 0 | Inf n \<Rightarrow> Inf (\<not> n) | NaN \<Rightarrow> NaN)"

definition pf_abs :: "pyfloat \<Rightarrow> pyfloat" where
  "pf_abs v = (case v of Fin x \<Rightarrow> Fin \<bar>x\<bar> | NegZero \<Rightarrow> Fin 0 | Inf _ \<Rightarrow> Inf False | NaN \<Rightarrow> NaN)"

text \<open>\<^verbatim>\<open>min(a, b)\<close>, \<^verbatim>\<open>round(x)\<close>, \<^verbatim>\<open>float(n)\<close> and \<^verbatim>\<open>x.is_integer()\<close>.\<close>

definition pf_min :: "pyfloat \<Rightarrow> pyfloat \<Rightarrow> pyfloat" where
  "pf_min a b = (if pf_lt b a then b else a)"

definition pf_max :: "pyfloat \<Rightarrow> pyfloat \<Rightarrow> pyfloat" where
  "pf_max a b = (if pf_lt a b then b else a)"

definition pf_round :: "pyfloat \<Rightarrow> py_error + int" where
  "pf_round v = (case v of Fin x \<Rightarrow> Inr (round_even x) | NegZero \<Rightarrow> Inr 0 | Inf _ \<Rightarrow> Inl OverflowError | NaN \<Rightarrow> Inl ValueError)"

definition pf_of_int :: "int \<Rightarrow> pyfloat" where
  "pf_of_int n = float_of (n < 0) (of_int \<bar>n\<bar>)"

definition pf_is_integer :: "pyfloat \<Rightarrow> bool" where
  "pf_is_integer v = (case v of Fin x \<Rightarrow> of_int \<lfloor>x\<rfloor> = x | NegZero \<Rightarrow> True | _ \<Rightarrow> False)"

section \<open>Facts\<close>

lemma pf_min_le: "a \<noteq> NaN \<Longrightarrow> b \<noteq> NaN \<Longrightarrow> pf_le (pf_min a b) a \<and> pf_le (pf_min a b) b"
  by (cases a; cases b) (auto simp: pf_min_def)

lemma pf_le_trans: "pf_le a b \<Longrightarrow> pf_le b c \<Longrightarrow> pf_le a c"
  by (cases a; cases b; cases c) (auto split: if_splits)

lemma pf_lt_le: "pf_lt a b \<Longrightarrow> pf_le a b"
  by (cases a; cases b) auto

lemma pf_le_total: "a \<noteq> NaN \<Longrightarrow> b \<noteq> NaN \<Longrightarrow> pf_le a b \<or> pf_lt b a"
  by (cases a; cases b) auto

lemma float_of_nonneg: "0 \<le> x \<Longrightarrow> pf_le (Fin 0) (float_of False x) \<and> float_of False x \<noteq> NaN"
  by (auto simp: float_of_def Let_def fl_nonneg not_less)

text \<open>The difference of two doubles is positive exactly when the first is larger, in spite of the rounding.\<close>

lemma pf_sub_pos:
  assumes "is_double x" "is_double y"
  shows "pf_lt (Fin 0) (pf_sub (Fin x) (Fin y)) \<longleftrightarrow> y < x"
proof (cases "overflow_at \<le> \<bar>x - y\<bar>")
  case True
  have "0 < overflow_at" by (simp add: overflow_at_pos)
  then show ?thesis using True by (auto simp: pf_sub_def)
next
  case False
  then show ?thesis using fsub_pos_iff [OF assms] by (simp add: pf_sub_def fsub_def)
qed

text \<open>Whole numbers of at most 53 bits are exact.\<close>

lemma small_below_overflow: "x \<le> 2 ^ 53 \<Longrightarrow> x < overflow_at"
proof -
  have "(2::rat) ^ 53 = 2 powi 53" by (simp add: power_int_def)
  also have "\<dots> < 2 powi 970" by (simp only: pow2_less_iff)
  also have "(2::rat) powi 970 \<le> overflow_at"
  proof -
    have "(2::rat) powi 970 * 2 = 2 powi (970 + 1)" by (subst pow2_add) simp
    also have "\<dots> \<le> 2 powi 1024" by (simp only: pow2_le_iff)
    finally show ?thesis by (simp add: overflow_at_def)
  qed
  finally show "x \<le> 2 ^ 53 \<Longrightarrow> x < overflow_at" by linarith
qed

lemma float_of_small: "(numeral n :: rat) \<le> 2 ^ 53 \<Longrightarrow> float_of False (numeral n) = Fin (numeral n)"
  using small_below_overflow [of "numeral n"] fl_of_int [of "numeral n"] by (simp add: float_of_def Let_def not_le)

lemma float_of_one: "float_of False 1 = Fin 1"
  using small_below_overflow [of 1] fl_of_int [of 1] by (simp add: float_of_def Let_def not_le)

lemma pf_sub_small: "\<bar>x - y\<bar> \<le> 2 ^ 53 \<Longrightarrow> x - y = of_int k \<Longrightarrow> pf_sub (Fin x) (Fin y) = Fin (x - y)"
  using small_below_overflow [of "\<bar>x - y\<bar>"] fl_of_int [of k] by (simp add: pf_sub_def not_le)

end
