(* ===== verification/Remaining_Life.thy ===== *)
theory Remaining_Life
  imports Py_Float_Ops Provenance
begin

text \<open>
  The remaining-life calculation, \<^verbatim>\<open>4ce/tools/calculations.py\<close>: reading the thicknesses of a request from a sentence or a
  survey table, the corrosion rate, the remaining life and the next measurement of each location, and the worked
  report with its machine-readable block. Numbers are Python floats; formatting a reading too large for a float
  raises. The status events are returned beside the text. Case is mapped in ASCII, Latin-1, Greek and Cyrillic.
\<close>

section \<open>Reading the request\<close>

definition WORDS :: "(string \<times> int) list" where
  "WORDS = [(''one'', 1), (''two'', 2), (''three'', 3), (''four'', 4), (''five'', 5), (''six'', 6), (''seven'', 7), (''eight'', 8),
     (''nine'', 9), (''ten'', 10), (''twelve'', 12), (''fifteen'', 15), (''twenty'', 20)]"

definition PATTERNS :: "(string \<times> re list) list" where
  \<open>PATTERNS = [
     (''previous'', [rx (''(?:previous|prior|earlier|original|initial|last|baseline)~s+(?:wall~s+)?thickness[^0-9~n]{0,30}('' @
     ''~d+(?:~.~d+)?)~s*mm''),
       rx ''(~d+(?:~.~d+)?)~s*mm~s+(?:~w+~s+){0,3}(?:previously|before|originally|at the last inspection)'']),
     (''current'', [rx (''(?:current|present|measured|actual|latest|now|minimum '' @
     ''measured)~s+(?:wall~s+)?thickness[^0-9~n]{0,30}(~d+(?:~.~d+)?)~s*mm''),
       rx ''(?:now|today|currently)~s+(?:~w+~s+){0,2}(~d+(?:~.~d+)?)~s*mm'']),
     (''required'', [rx (''(?:required|retirement|minimum required|minimum '' @
     ''allowable|min(?:imum)?~.?~s+required|t[_~s-]?req(?:uired)?)~s*(?:wall~s+)?(?:thickness)?[^0-9~n]'' @
     ''{0,30}(~d+(?:~.~d+)?)~s*mm'')]),
     (''years'', [rx (''(~d+(?:~.~d+)?|one|two|three|four|five|six|seven|eight|nine|ten|twelve|fifteen|twenty)~s*(?:year'' @
     ''s?|yrs?)~s+(?:ago|apart|earlier|before|between|of service|in service)''),
       rx (''(?:over|after|interval of|in the '' @
     ''last|across|within)~s+(~d+(?:~.~d+)?|one|two|three|four|five|six|seven|eight|nine|ten|twelve|fif'' @
     ''teen|twenty)~s*(?:years?|yrs?)'')]),
     (''max_interval'', [rx (''(?:maximum|max~.?|code)~s+(?:inspection~s+)?interval[^0-9~n]{0,25}(~d+(?:~.~d+)?|one|two|three|f'' @
     ''our|five|six|seven|eight|nine|ten|twelve|fifteen|twenty)~s*(?:years?|yrs?)'')])]\<close>

definition COLUMNS :: "(string \<times> string list) list" where
  \<open>COLUMNS = [
     (''max_interval'', [''sop interval'', ''max interval'', ''maximum interval'']),
     (''previous'', [''previous'', ''prev'', ''prior'', ''original'', ''initial'', ''baseline'', ''last'']),
     (''current'', [''current'', ''measured'', ''actual'', ''latest'', ''present'']),
     (''required'', [''required'', ''retirement'', ''t_req'', ''treq'', ''minimum allowable'', ''min required'']),
     (''years'', [''years'', ''interval'', ''yrs'', lit ''~u0394t'', ''delta t''])]\<close>

text \<open>\<^verbatim>\<open>s.lower()\<close> beyond ASCII.\<close>

definition lower_code :: "int \<Rightarrow> int" where
  "lower_code c =
     (if 65 \<le> c \<and> c \<le> 90 \<or> 192 \<le> c \<and> c \<le> 222 \<and> c \<noteq> 215 \<or> 913 \<le> c \<and> c \<le> 939 \<and> c \<noteq> 930 \<or> 1040 \<le> c \<and> c \<le> 1071 then c + 32
      else if 1024 \<le> c \<and> c \<le> 1039 then c + 80 else c)"

definition lower_text :: "string \<Rightarrow> string" where
  "lower_text s = text_of (map lower_code (codes_of s))"

definition number :: "string \<Rightarrow> pyfloat" where
  "number t = (case map_of WORDS (lower_text t) of Some n \<Rightarrow> pf_of_int n | None \<Rightarrow> float_text t)"

fun find_first :: "re list \<Rightarrow> string \<Rightarrow> pyfloat option" where
  "find_first [] t = None"
| "find_first (r # rs) t = (case search_group flag_i r 1 t of Some g \<Rightarrow> Some (number g) | None \<Rightarrow> find_first rs t)"

definition find_quantity :: "string \<Rightarrow> string \<Rightarrow> pyfloat option" where
  "find_quantity key t = (case map_of PATTERNS key of Some rs \<Rightarrow> find_first rs t | None \<Rightarrow> None)"

text \<open>A location of the request. The years of a table row may be missing, and an interval of its own may be given.\<close>

record reading_row =
  rr_location :: string
  rr_previous :: pyfloat
  rr_current :: pyfloat
  rr_required :: pyfloat
  rr_years :: "pyfloat option"
  rr_own :: "pyfloat option"

definition bar_cells :: "string \<Rightarrow> string list" where
  "bar_cells line = map py_strip (split_on (CHR ''|'') (strip_if (\<lambda>c. c = CHR ''|'') line))"

text \<open>The columns of a header: for each quantity the first column that names it and is not taken yet.\<close>

definition take_column :: "string list \<Rightarrow> nat pydict \<Rightarrow> string \<times> string list \<Rightarrow> nat pydict" where
  "take_column header columns = (\<lambda>(key, ws).
     case find (\<lambda>(n, name). n \<notin> snd ` set columns \<and> list_ex (contains name) ws) (enumerate 0 header) of
       Some (n, name) \<Rightarrow> dict_set key n columns
     | None \<Rightarrow> columns)"

definition table_columns :: "string list \<Rightarrow> nat pydict" where
  "table_columns header = foldl (take_column header) [] COLUMNS"

definition cell_number :: "nat pydict \<Rightarrow> string list \<Rightarrow> string \<Rightarrow> pyfloat option" where
  \<open>cell_number columns cells key = (case dict_get columns key of
      Some n \<Rightarrow> (if n < length cells then map_option float_text (search_group no_flags (rx ''(~d+(?:~.~d+)?)'') 1 (cells ! n)) else None)
    | None \<Rightarrow> None)\<close>

definition table_row :: "nat pydict \<Rightarrow> string list \<Rightarrow> reading_row list" where
  \<open>table_row columns cells =
     (case (cell_number columns cells ''previous'', cell_number columns cells ''current'', cell_number columns cells ''required'') of
        (Some p, Some c, Some q) \<Rightarrow>
          (let label = (case find (\<lambda>(n, cell). n \<notin> snd ` set columns \<and> cell \<noteq> []) (enumerate 0 cells) of
               Some (n, cell) \<Rightarrow> cell | None \<Rightarrow> [])
           in [\<lparr>rr_location = re_sub no_flags (rx ''[*_`]'') [] label, rr_previous = p, rr_current = c, rr_required = q,
                rr_years = cell_number columns cells ''years'', rr_own = cell_number columns cells ''max_interval''\<rparr>])
      | _ \<Rightarrow> [])\<close>

fun parse_table :: "string list \<Rightarrow> reading_row list" where
  \<open>parse_table (a # b # ls) =
     (if starts_with a ''|'' \<and> re_match no_flags (rx ''^~|?~s*:?-{2,}'') b \<noteq> None then
        let columns = table_columns (map lower_text (bar_cells a));
            rows = (if list_all (\<lambda>k. dict_get columns k \<noteq> None) [''previous'', ''current'', ''required'']
                    then concat (map (\<lambda>line. table_row columns (bar_cells line)) (takeWhile (\<lambda>line. starts_with line ''|'') ls))
                    else [])
        in if rows \<noteq> [] then rows else parse_table (b # ls)
      else parse_table (b # ls))\<close>
| "parse_table ls = []"

definition sentence_row :: "string \<Rightarrow> reading_row list" where
  "sentence_row t =
     (case (find_quantity ''previous'' t, find_quantity ''current'' t, find_quantity ''required'' t, find_quantity ''years'' t) of
        (Some p, Some c, Some q, Some y) \<Rightarrow>
          [\<lparr>rr_location = [], rr_previous = p, rr_current = c, rr_required = q, rr_years = Some y, rr_own = None\<rparr>]
      | _ \<Rightarrow> [])"

text \<open>A table without years takes the years the text states; a row that has neither is left out.\<close>

definition with_years :: "pyfloat option \<Rightarrow> reading_row list \<Rightarrow> reading_row list" where
  "with_years years rows =
     map (\<lambda>r. if rr_years r = None then r\<lparr>rr_years := years\<rparr> else r) (filter (\<lambda>r. rr_years r \<noteq> None \<or> years \<noteq> None) rows)"

definition parse_request :: "string \<Rightarrow> reading_row list \<times> pyfloat option" where
  "parse_request t =
     (let rows = parse_table (map py_strip (split_lines t))
      in (if rows = [] then sentence_row t else with_years (find_quantity ''years'' t) rows, find_quantity ''max_interval'' t))"

section \<open>The calculation\<close>

definition FIT :: string where "FIT = ''FIT FOR CONTINUED SERVICE''"
definition NO_LOSS :: string where "NO_LOSS = ''NO MEASURABLE WALL LOSS''"
definition AT_LIMIT :: string where "AT_LIMIT = ''AT OR BELOW REQUIRED THICKNESS''"

record life_result =
  lr_row :: reading_row
  lr_years :: pyfloat
  lr_max :: "pyfloat option"
  lr_rate :: "pyfloat option"
  lr_life :: "pyfloat option"
  lr_next :: "pyfloat option"
  lr_verdict :: string
  lr_basis :: string

text \<open>\<^verbatim>\<open>if max_interval\<close>: neither missing nor zero.\<close>

definition limits :: "pyfloat option \<Rightarrow> bool" where
  "limits v = (case v of Some m \<Rightarrow> nonzero m | None \<Rightarrow> False)"

definition row_life :: "reading_row \<Rightarrow> pyfloat \<Rightarrow> pyfloat option \<Rightarrow> string \<Rightarrow> life_result" where
  "row_life row years max_interval basis =
     (let cur = rr_current row; req = rr_required row;
          rate = (if nonzero years then Some (pf_div (pf_sub (rr_previous row) cur) years) else None);
          result = \<lparr>lr_row = row, lr_years = years, lr_max = max_interval, lr_rate = rate, lr_life = None, lr_next = max_interval,
                    lr_verdict = NO_LOSS, lr_basis = basis\<rparr>
      in if pf_le cur req then result\<lparr>lr_life := Some (Fin 0), lr_next := Some (Fin 0), lr_verdict := AT_LIMIT\<rparr>
         else case rate of
           None \<Rightarrow> result
         | Some r \<Rightarrow>
             (if pf_le r (Fin 0) then result
              else let life = pf_div (pf_sub cur req) r; half = pf_div life (Fin 2)
                   in result\<lparr>lr_life := Some life,
                        lr_next := Some (case max_interval of Some m \<Rightarrow> (if nonzero m then pf_min half m else half) | None \<Rightarrow> half),
                        lr_verdict := FIT\<rparr>))"

definition stricter :: "pyfloat \<Rightarrow> pyfloat option \<Rightarrow> bool" where
  "stricter own interval \<longleftrightarrow> pf_lt (Fin 0) own \<and> (case interval of None \<Rightarrow> True | Some i \<Rightarrow> pf_lt own i)"

text \<open>A location with an interval of its own takes the shorter one.\<close>

definition located :: "pyfloat option \<Rightarrow> string \<Rightarrow> string \<Rightarrow> reading_row \<Rightarrow> life_result" where
  "located interval basis interval_basis row =
     (let years = (case rr_years row of Some y \<Rightarrow> y | None \<Rightarrow> Fin 0); bare = row\<lparr>rr_own := None\<rparr> in
      case rr_own row of
        Some own \<Rightarrow> (if stricter own interval then row_life bare years (Some own) (or_text interval_basis ''the interval set for it'')
                     else row_life bare years interval basis)
      | None \<Rightarrow> row_life bare years interval basis)"

section \<open>The report\<close>

definition mm :: "pyfloat \<Rightarrow> py_error + string" where
  "mm v = map_sum id (\<lambda>n. if pf_lt (pf_abs (pf_sub (pf_mul v (Fin 10)) (pf_of_int n))) (Fin (fl (1 / 10 ^ 9)))
      then fmt_fixed_float 1 v @ '' mm'' else fmt_fixed_float 2 v @ '' mm'') (pf_round (pf_mul v (Fin 10)))"

definition yr :: "pyfloat \<Rightarrow> nat \<Rightarrow> string" where
  "yr v places = fmt_fixed_float places v @ '' year'' @ (if pf_lt (pf_abs (pf_sub v (Fin 1))) (Fin (fl (1 / 10 ^ 9))) then [] else ''s'')"

definition say_when :: "pyfloat \<Rightarrow> py_error + string" where
  "say_when years =
     (if pf_lt years (Fin 1)
      then map_sum id (\<lambda>months. str_int months @ '' month'' @ (if months = 1 then [] else ''s'')) (pf_round (pf_mul years (Fin 12)))
      else Inr (yr years 1))"

text \<open>The texts of several readings; the first that cannot be formatted raises.\<close>

definition texts :: "(py_error + string) list \<Rightarrow> (string list \<Rightarrow> string) \<Rightarrow> py_error + string" where
  "texts parts f = map_sum id f (try_all id parts)"

definition years_text :: "pyfloat \<Rightarrow> string" where
  "years_text y = yr y (if pf_is_integer y then 0 else 1)"

definition inputs_step :: "life_result \<Rightarrow> py_error + string" where
  \<open>inputs_step r = texts [mm (rr_previous (lr_row r)), mm (rr_current (lr_row r)), mm (rr_required (lr_row r))] (\<lambda>ts.
     ''**Inputs.** Previous thickness t_prev = '' @ ts ! 0 @ lit '' ~u00b7 current thickness t_act = '' @ ts ! 1
     @ lit '' ~u00b7 required thickness t_req = '' @ ts ! 2 @ lit '' ~u00b7 interval ~u0394t = '' @ years_text (lr_years r))\<close>

definition rate_step :: "life_result \<Rightarrow> pyfloat \<Rightarrow> py_error + string" where
  \<open>rate_step r rate = texts [mm (rr_previous (lr_row r)), mm (rr_current (lr_row r))] (\<lambda>ts.
     lit ''**Step 1 - corrosion rate.** CR = (t_prev - t_act) ~u00f7 ~u0394t = ('' @ ts ! 0 @ '' - '' @ ts ! 1 @ lit '') ~u00f7 '' @ years_text (lr_years r)
     @ '' = **'' @ fmt_fixed_float 3 rate @ '' mm/year**'')\<close>

definition limit_steps :: "life_result \<Rightarrow> (py_error + string) list" where
  \<open>limit_steps r = [texts [mm (rr_current (lr_row r)), mm (rr_required (lr_row r))] (\<lambda>ts.
       ''**Step 2 - remaining life.** t_act '' @ ts ! 0 @ '' is at or below t_req '' @ ts ! 1 @ '': **no remaining life**.''),
     Inr (''**Result.** At or below the required thickness: remove from service or assess fitness for '' @
     ''service before further operation.'')]\<close>

definition no_loss_steps :: "(py_error + string) list" where
  \<open>no_loss_steps = [Inr (''**Step 2 - remaining life.** The rate is zero or negative - no measurable wall loss over the '' @
     ''interval - so remaining life is not limited by corrosion on this data.''),
     Inr ''**Result.** Fit for continued service; re-measure at the code's normal interval.'']\<close>

definition fit_steps :: "life_result \<Rightarrow> pyfloat \<Rightarrow> pyfloat \<Rightarrow> pyfloat \<Rightarrow> (py_error + string) list" where
  \<open>fit_steps r rate life due =
     (let half = pf_div life (Fin 2)
      in [texts [mm (rr_current (lr_row r)), mm (rr_required (lr_row r))] (\<lambda>ts.
            lit ''**Step 2 - remaining life.** RL = (t_act - t_req) ~u00f7 CR = ('' @ ts ! 0 @ '' - '' @ ts ! 1 @ lit '') ~u00f7 ''
            @ fmt_fixed_float 3 rate @ '' mm/year = **'' @ yr life 1 @ ''**''),
          (case lr_max r of
             Some m \<Rightarrow> (if nonzero m then texts [say_when m, say_when due] (\<lambda>ts.
                 lit ''**Step 3 - next thickness measurement.** The lesser of RL ~u00f7 2 ('' @ yr half 1 @ '') and '' @ lr_basis r @ '' ('' @ ts ! 0
                 @ '') = **'' @ ts ! 1 @ ''**'')
               else Inr (lit ''**Step 3 - next thickness measurement.** Within RL ~u00f7 2 = **'' @ yr half 1
                 @ ''**, and not later than the code's maximum interval for this piping class (not supplied).''))
           | None \<Rightarrow> Inr (lit ''**Step 3 - next thickness measurement.** Within RL ~u00f7 2 = **'' @ yr half 1
                 @ ''**, and not later than the code's maximum interval for this piping class (not supplied).'')),
          texts [say_when due] (\<lambda>ts. ''**Result.** Fit for continued service; measure the thickness again within '' @ ts ! 0
            @ (if limits (lr_max r) then [] else '', subject to the code maximum'') @ ''.'')])\<close>

definition steps_of :: "life_result \<Rightarrow> py_error + string list" where
  \<open>steps_of r = try_all id (inputs_step r # (case lr_rate r of
      None \<Rightarrow> [Inr ''The interval between readings is zero, so no rate can be calculated.'']
    | Some rate \<Rightarrow> rate_step r rate #
        (if lr_verdict r = AT_LIMIT then limit_steps r
         else if lr_verdict r = NO_LOSS then no_loss_steps
         else case (lr_life r, lr_next r) of
             (Some life, Some due) \<Rightarrow> fit_steps r rate life due
           | _ \<Rightarrow> [Inl TypeError])))\<close>

definition or_dash :: "nat \<Rightarrow> pyfloat option \<Rightarrow> string" where
  "or_dash places v = (case v of None \<Rightarrow> ''-'' | Some x \<Rightarrow> fmt_fixed_float places x)"

definition result_line :: "life_result \<Rightarrow> string" where
  "result_line r = ''| '' @ or_text (rr_location (lr_row r)) ''-'' @ '' | '' @ fmt_g (rr_previous (lr_row r)) @ '' | '' @ fmt_g (rr_current (lr_row r))
     @ '' | '' @ fmt_g (rr_required (lr_row r)) @ '' | '' @ fmt_g (lr_years r) @ '' | '' @ or_dash 3 (lr_rate r) @ '' | '' @ or_dash 1 (lr_life r)
     @ '' | '' @ or_dash 1 (lr_next r) @ '' | '' @ lr_verdict r @ '' |''"

definition life_key :: "life_result \<Rightarrow> pyfloat" where
  "life_key r = (case lr_life r of None \<Rightarrow> Inf False | Some l \<Rightarrow> l)"

text \<open>\<^verbatim>\<open>min(results, key=...)\<close>: the first of the least.\<close>

definition governing :: "life_result list \<Rightarrow> life_result" where
  "governing rs = foldl (\<lambda>best r. if pf_lt (life_key r) (life_key best) then r else best) (hd rs) (tl rs)"

definition opt_float :: "pyfloat option \<Rightarrow> json" where
  "opt_float v = (case v of Some x \<Rightarrow> JFloat x | None \<Rightarrow> JNull)"

definition same_interval :: "pyfloat option \<Rightarrow> pyfloat option \<Rightarrow> bool" where
  "same_interval a b = (case (a, b) of (None, None) \<Rightarrow> True | (Some x, Some y) \<Rightarrow> pf_eq x y | _ \<Rightarrow> False)"

definition row_data :: "pyfloat option \<Rightarrow> life_result \<Rightarrow> json" where
  "row_data interval r = JObj ([(''location'', JStr (rr_location (lr_row r))), (''previous'', JFloat (rr_previous (lr_row r))),
     (''current'', JFloat (rr_current (lr_row r))), (''required'', JFloat (rr_required (lr_row r))), (''years'', JFloat (lr_years r))]
     @ (if same_interval (lr_max r) interval then [] else [(''max_interval'', opt_float (lr_max r))]))"

definition report_data :: "life_result list \<Rightarrow> pyfloat option \<Rightarrow> string \<Rightarrow> json" where
  "report_data results interval basis = JObj [(''kind'', JStr ''remaining_life''), (''max_interval'', opt_float interval),
     (''basis'', JStr (if limits interval then basis else [])), (''rows'', JList (map (row_data interval) results))]"

definition report_life :: "life_result list \<Rightarrow> pyfloat option \<Rightarrow> string \<Rightarrow> py_error + string" where
  \<open>report_life results interval basis =
     (let opening = [''## Remaining life - thickness method'', [],
            (''*Deterministic arithmetic on this machine: every step shown, units carried. The method is the '' @
     ''thickness-based one common in piping inspection codes such as API 570.*''), []];
          table = (if 1 < length results then
             [lit (''| Location | t_prev (mm) | t_act (mm) | t_req (mm) | ~u0394t (years) | CR (mm/year) | RL '' @
     ''(years) | Next measurement (years) | Verdict |''),
              ''|---|---|---|---|---|---|---|---|---|''] @ map result_line results
             @ [[], ''### Governing location: '' @ or_text (rr_location (lr_row (governing results))) ''as given'', []] else [])
      in map_sum id (\<lambda>worked. replace_all (nl2 @ ''|'') (nl @ ''|'') (join_with nl2 (opening @ table @ worked))
             @ lit ''~n~n```4ce-calc~n'' @ dumps_plain quoted_ascii (report_data results interval basis) @ lit ''~n```'')
           (steps_of (if 1 < length results then governing results else hd results)))\<close>

section \<open>The tool\<close>

definition calc_status :: "string \<Rightarrow> bool \<Rightarrow> json" where
  "calc_status description finished = JObj [(''type'', JStr ''status''), (''data'', JObj [(''action'', JStr ''calculation''),
     (''description'', JStr description), (''done'', JBool finished)])]"

text \<open>The interval that applies to the request as a whole, and what sets it.\<close>

definition overall_interval :: "pyfloat \<Rightarrow> pyfloat option \<Rightarrow> pyfloat \<Rightarrow> string \<Rightarrow> pyfloat option \<times> string" where
  "overall_interval default_max stated max_years interval_basis =
     (let interval = (if stated = None \<and> pf_lt (Fin 0) default_max then Some default_max else stated)
      in if stricter max_years interval then (Some max_years, or_text interval_basis ''the stated maximum'') else (interval, ''the code maximum''))"

definition calculate_remaining_life :: "pyfloat \<Rightarrow> string \<Rightarrow> pyfloat \<Rightarrow> string \<Rightarrow> json list \<times> (py_error + string)" where
  \<open>calculate_remaining_life default_max readings max_years interval_basis =
     (let (rows, stated) = parse_request readings;
          (interval, basis) = overall_interval default_max stated max_years interval_basis;
          results = map (located interval basis interval_basis) rows
      in if rows = [] then
           ([calc_status ''Calculating remaining life from the thickness readings'' False, calc_status ''Not enough readings to calculate'' True],
            Inr (''Remaining life could not be calculated: it needs a previous and a current wall thickness, the '' @
     ''required (retirement) thickness, all in mm, and the years between the two readings.''))
         else
           ([calc_status ''Calculating remaining life from the thickness readings'' False,
             calc_status (''Remaining life calculated for '' @ str_nat (length results) @ '' location'' @ (if length results = 1 then [] else ''s'')) True],
            report_life results interval basis))\<close>

section \<open>What the calculation promises\<close>

lemma row_life_fit:
  assumes "lr_verdict (row_life row years m basis) = FIT"
  shows "\<exists>life. lr_life (row_life row years m basis) = Some life
    \<and> lr_next (row_life row years m basis) = Some (case m of Some i \<Rightarrow> (if nonzero i then pf_min (pf_div life (Fin 2)) i else pf_div life (Fin 2))
        | None \<Rightarrow> pf_div life (Fin 2))"
proof -
  have "FIT \<noteq> NO_LOSS" "FIT \<noteq> AT_LIMIT" by (simp_all add: FIT_def NO_LOSS_def AT_LIMIT_def)
  then show ?thesis using assms by (auto simp: row_life_def Let_def split: if_splits option.splits)
qed

lemma half_not_nan: "life \<noteq> NaN \<Longrightarrow> pf_div life (Fin 2) \<noteq> NaN"
  by (cases life) (auto simp: pf_div_def float_of_def Let_def)

text \<open>The next measurement is no later than half the remaining life and than the interval it was worked with.\<close>

lemma row_life_due:
  assumes "lr_verdict (row_life row years m basis) = FIT" "lr_life (row_life row years m basis) \<noteq> Some NaN" "m \<noteq> Some NaN"
  shows "\<exists>life due. lr_life (row_life row years m basis) = Some life \<and> lr_next (row_life row years m basis) = Some due
    \<and> pf_le due (pf_div life (Fin 2)) \<and> (\<forall>i. m = Some i \<and> pf_lt (Fin 0) i \<longrightarrow> pf_le due i)"
proof -
  obtain life where l: "lr_life (row_life row years m basis) = Some life"
    "lr_next (row_life row years m basis) = Some (case m of Some i \<Rightarrow> (if nonzero i then pf_min (pf_div life (Fin 2)) i else pf_div life (Fin 2))
        | None \<Rightarrow> pf_div life (Fin 2))" using row_life_fit [OF assms(1)] by blast
  have h: "pf_div life (Fin 2) \<noteq> NaN" using half_not_nan l(1) assms(2) by simp
  have refl: "pf_le v v" if "v \<noteq> NaN" for v using that by (cases v) auto
  have pos: "nonzero i" if "pf_lt (Fin 0) i" for i using that by (auto simp: nonzero_def)
  show ?thesis
  proof (cases m)
    case None
    then show ?thesis using l refl [OF h] by auto
  next
    case (Some i)
    then have "pf_le (pf_min (pf_div life (Fin 2)) i) (pf_div life (Fin 2)) \<and> pf_le (pf_min (pf_div life (Fin 2)) i) i"
      using pf_min_le [OF h] assms(3) by blast
    then show ?thesis using l Some refl [OF h] pos by auto
  qed
qed

text \<open>C28: the next measurement of a location that is fit for service is due no later than half its remaining life, than the interval that
  applies to the whole request, and than the interval set for that location itself, whichever is the shortest.\<close>

theorem next_measurement_bounded:
  assumes "r = located interval basis why row" "lr_verdict r = FIT" "lr_life r \<noteq> Some NaN" "rr_own row \<noteq> Some NaN"
    and positive: "\<And>i. interval = Some i \<Longrightarrow> pf_lt (Fin 0) i"
  shows "\<exists>life due. lr_life r = Some life \<and> lr_next r = Some due \<and> pf_le due (pf_div life (Fin 2))
    \<and> (\<forall>i. interval = Some i \<longrightarrow> pf_le due i)
    \<and> (\<forall>own. rr_own row = Some own \<and> pf_lt (Fin 0) own \<longrightarrow> pf_le due own)"
proof -
  define years where "years = (case rr_years row of Some y \<Rightarrow> y | None \<Rightarrow> Fin 0)"
  define bare where "bare = row\<lparr>rr_own := None\<rparr>"
  show ?thesis
  proof (cases "\<exists>own. rr_own row = Some own \<and> stricter own interval")
    case True
    then obtain own where own: "rr_own row = Some own" "stricter own interval" by blast
    then have r: "r = row_life bare years (Some own) (or_text why ''the interval set for it'')"
      using assms(1) by (simp add: located_def Let_def years_def bare_def)
    have "interval = Some i \<Longrightarrow> pf_le own i" for i using own(2) pf_lt_le by (auto simp: stricter_def)
    then show ?thesis using row_life_due [OF assms(2,3) [unfolded r]] own assms(4) pf_le_trans unfolding r
      by (auto simp: stricter_def)
  next
    case False
    then have r: "r = row_life bare years interval basis"
      using assms(1) by (auto simp: located_def Let_def years_def bare_def split: option.splits)
    have "\<exists>i. interval = Some i \<and> pf_lt (Fin 0) i \<and> pf_le i own" if o: "rr_own row = Some own" "pf_lt (Fin 0) own" for own
    proof -
      obtain i where i: "interval = Some i" "\<not> pf_lt own i" using False o by (cases interval) (auto simp: stricter_def)
      then have "pf_lt (Fin 0) i" "i \<noteq> NaN" using positive by (blast, auto)
      then show ?thesis using i(1) pf_le_total [of i own] i(2) assms(4) o(1) by blast
    qed
    note shorter = this
    have "interval \<noteq> Some NaN" using positive by fastforce
    from row_life_due [OF assms(2,3) [unfolded r] this, folded r]
    obtain life due where d: "lr_life r = Some life" "lr_next r = Some due" "pf_le due (pf_div life (Fin 2))"
      "\<And>i. interval = Some i \<Longrightarrow> pf_lt (Fin 0) i \<Longrightarrow> pf_le due i" by auto
    have "pf_le due own" if "rr_own row = Some own" "pf_lt (Fin 0) own" for own
      using shorter [OF that] d(4) pf_le_trans by blast
    then show ?thesis using d positive by blast
  qed
qed

definition demo_row :: reading_row where
  "demo_row = \<lparr>rr_location = ''N1'', rr_previous = Fin 12, rr_current = Fin 10, rr_required = Fin 6, rr_years = Some (Fin 2), rr_own = Some (Fin 1)\<rparr>"

lemma demo_life:
  "located m basis why demo_row = (let i = (if stricter (Fin 1) m then Some (Fin 1) else m) in
     row_life (demo_row\<lparr>rr_own := None\<rparr>) (Fin 2) i (if stricter (Fin 1) m then or_text why ''the interval set for it'' else basis))"
  "lr_life (row_life (demo_row\<lparr>rr_own := None\<rparr>) (Fin 2) i b) = Some (Fin 4)" "lr_verdict (row_life (demo_row\<lparr>rr_own := None\<rparr>) (Fin 2) i b) = FIT"
proof -
  have s: "pf_sub (Fin 12) (Fin 10) = Fin 2" "pf_sub (Fin 10) (Fin 6) = Fin 4"
    using pf_sub_small [of 12 10 2] pf_sub_small [of 10 6 4] by simp_all
  have d: "pf_div (Fin 2) (Fin 2) = Fin 1" "pf_div (Fin 4) (Fin 1) = Fin 4"
    by (simp_all add: pf_div_def pf_negative_def float_of_one float_of_small)
  show "located m basis why demo_row = (let i = (if stricter (Fin 1) m then Some (Fin 1) else m) in
     row_life (demo_row\<lparr>rr_own := None\<rparr>) (Fin 2) i (if stricter (Fin 1) m then or_text why ''the interval set for it'' else basis))"
    by (simp add: located_def demo_row_def Let_def)
  show "lr_life (row_life (demo_row\<lparr>rr_own := None\<rparr>) (Fin 2) i b) = Some (Fin 4)" "lr_verdict (row_life (demo_row\<lparr>rr_own := None\<rparr>) (Fin 2) i b) = FIT"
    by (simp_all add: row_life_def demo_row_def s d nonzero_def Let_def)
qed

theorem next_measurement_bounded_witness:
  "\<exists>life due. lr_life (located (Some (Fin 5)) ''the code maximum'' [] demo_row) = Some life
     \<and> lr_next (located (Some (Fin 5)) ''the code maximum'' [] demo_row) = Some due \<and> pf_le due (Fin 5) \<and> pf_le due (Fin 1)"
  using next_measurement_bounded [of _ "Some (Fin 5)" "''the code maximum''" "[]" demo_row]
  by (auto simp: demo_life Let_def) (auto simp: demo_row_def)

lemma governing_min:
  "life_key r \<noteq> NaN \<Longrightarrow> list_all (\<lambda>r. life_key r \<noteq> NaN) rs \<Longrightarrow>
     let g = foldl (\<lambda>best r. if pf_lt (life_key r) (life_key best) then r else best) r rs
     in g \<in> set (r # rs) \<and> list_all (\<lambda>x. pf_le (life_key g) (life_key x)) (r # rs)"
proof (induction rs arbitrary: r)
  case Nil
  then show ?case by (cases "life_key r") auto
next
  case (Cons a rs)
  let ?b = "if pf_lt (life_key a) (life_key r) then a else r"
  have "life_key ?b \<noteq> NaN" using Cons.prems by simp
  from Cons.IH [OF this] Cons.prems
  have IH: "let g = foldl (\<lambda>best r. if pf_lt (life_key r) (life_key best) then r else best) ?b rs
     in g \<in> set (?b # rs) \<and> list_all (\<lambda>x. pf_le (life_key g) (life_key x)) (?b # rs)" by simp
  have "pf_le (life_key ?b) (life_key r)" "pf_le (life_key ?b) (life_key a)"
    using Cons.prems pf_le_total [of "life_key r" "life_key a"] pf_le_total [of "life_key a" "life_key a"] pf_le_total [of "life_key r" "life_key r"]
    by (auto intro: pf_lt_le)
  show ?case using IH \<open>pf_le (life_key ?b) (life_key r)\<close> \<open>pf_le (life_key ?b) (life_key a)\<close>
    by (auto simp: Let_def intro: pf_le_trans)
qed

text \<open>The location a survey's report works out in full is one of its locations, and none of the others has a shorter remaining life.\<close>

lemma governing_is_least:
  assumes "results \<noteq> []" "list_all (\<lambda>r. lr_life r \<noteq> Some NaN) results"
  shows "governing results \<in> set results \<and> list_all (\<lambda>r. pf_le (life_key (governing results)) (life_key r)) results"
proof -
  have "list_all (\<lambda>r. life_key r \<noteq> NaN) results" using assms(2) by (auto simp: list_all_iff life_key_def split: option.splits)
  then show ?thesis using assms(1) governing_min [of "hd results" "tl results"] by (cases results) (auto simp: governing_def Let_def)
qed

lemma governing_is_least_witness:
  "pf_le (life_key (governing [located None [] [] demo_row])) (life_key (located None [] [] demo_row))"
proof -
  have "lr_life (located None [] [] demo_row) = Some (Fin 4)" by (simp add: demo_life Let_def)
  then show ?thesis using conjunct2 [OF governing_is_least [of "[located None [] [] demo_row]"]] by simp
qed

text \<open>A column headed with the letter delta is never taken for the years, although the table of column names lists it: the header is
  lowered before it is compared, and the name is not.\<close>

lemma delta_header_unmatched:
  "table_columns (map lower_text [lit ''~u0394t'']) = [] \<and> table_columns (map lower_text [''Delta t'']) = [(''years'', 0)]"
  by code_simp

end
