(* ===== verification/Rule_Pack.thy ===== *)
theory Rule_Pack
  imports Py_Float_Ops Provenance
begin

text \<open>
  The SOP threshold check, \<^verbatim>\<open>4ce/tools/sop_check.py\<close>: an authored rule pack is applied to the text of an inspection report, and every
  rule gives a finding with its clause, verdict and disposition. The built-in pack is written out. A pack of the valve
  is a value of the same types, or the reason why it could not be read; a pattern of it has no group, or captures a number in its first group. The
  status events are returned beside the text.
\<close>

section \<open>Rules\<close>

definition DISPOSITIONS :: "string list" where
  "DISPOSITIONS = [''FIT FOR SERVICE'', ''FIT FOR SERVICE WITH CONDITIONS'', ''NOT FIT FOR START'', ''REMOVE FROM SERVICE'']"

definition MEASUREMENT :: re where
  \<open>MEASUREMENT = rx ''~d+(?:~.~d+)?~s*(?:mm/s|degrees?~s*C|deg~s*C|~u00b0~s*C|bar|mm|kPa|psi|rpm|Hz|%|drops?)~b''\<close>

text \<open>What a rule says of a reading. An empty text is a key that is not there.\<close>

record outcome_rule =
  or_verdict :: string
  or_clause :: string
  or_disposition :: string
  or_action :: string

record band =
  bd_below :: "pyfloat option"
  bd_max :: "pyfloat option"
  bd_outcome :: outcome_rule

record secondary =
  sd_below :: pyfloat
  sd_clause :: string
  sd_action :: string

datatype rule_kind =
    Bands "re list" "band list"
  | Categorical "re list" "(re list \<times> string) option" "outcome_rule pydict"
  | Margin "re list" "re list" outcome_rule outcome_rule "secondary option"
  | Presence "re list" outcome_rule outcome_rule
  | Unsupported string

record rule =
  ru_parameter :: string
  ru_unit :: string
  ru_limit :: string
  ru_kind :: rule_kind

record rule_pack =
  rp_sop :: string
  rp_rules :: "rule list"

definition DEFAULT_RULE_PACK :: rule_pack where
  \<open>DEFAULT_RULE_PACK = \<lparr>rp_sop = ''SOP-MEC-014'', rp_rules = [
     \<lparr>ru_parameter = ''Seal leakage'', ru_unit = ''drops/min'', ru_limit = ''below 5 drops/min'',
      ru_kind = Bands [rx ''(~d+(?:~.~d+)?)~s*(?:to|-|~u2013|~u2014)~s*(~d+(?:~.~d+)?)~s*drops?~s*(?:per|/)~s*min'',
         rx ''(~d+(?:~.~d+)?)~s*drops?~s*(?:per|/)~s*min'']
        [\<lparr>bd_below = Some (Fin 5), bd_max = None, bd_outcome = \<lparr>or_verdict = ''PASS'', or_clause = ''2.1'', or_disposition = ''FIT FOR SERVICE'', or_action = []\<rparr>\<rparr>,
         \<lparr>bd_below = None, bd_max = Some (Fin 20), bd_outcome = \<lparr>or_verdict = ''REVIEW'', or_clause = ''2.2'', or_disposition = ''FIT FOR SERVICE WITH CONDITIONS'', or_action = (''Continued operation requires the area supervisor's written concurrence. Schedule seal '' @
     ''replacement within 30 days.'')\<rparr>\<rparr>,
         \<lparr>bd_below = None, bd_max = None, bd_outcome = \<lparr>or_verdict = ''FAIL'', or_clause = ''2.3'', or_disposition = ''REMOVE FROM SERVICE'', or_action = ''Seal leakage is above 20 drops per minute. Remove the equipment from service immediately.''\<rparr>\<rparr>]\<rparr>,
     \<lparr>ru_parameter = ''Seal atomisation / spray'', ru_unit = [], ru_limit = ''no atomised or visible spray'',
      ru_kind = Presence [rx ''atomis(?:ed|ing|ation)'',
         rx ''atomiz(?:ed|ing|ation)'',
         rx ''visible spray'',
         rx ''spray(?:ing)?~s+from~s+the~s+seal'']
        \<lparr>or_verdict = ''FAIL'', or_clause = ''2.3'', or_disposition = ''REMOVE FROM SERVICE'', or_action = ''Atomised or visible spray observed. Remove the equipment from service immediately.''\<rparr>
        \<lparr>or_verdict = ''PASS'', or_clause = ''2.3'', or_disposition = ''FIT FOR SERVICE'', or_action = []\<rparr>\<rparr>,
     \<lparr>ru_parameter = ''Vibration (ISO 10816)'', ru_unit = [], ru_limit = ''Zone A or B'',
      ru_kind = Categorical [rx ''zone~s*([A-D])~b'']
        (Some ([rx ''(~d+(?:~.~d+)?)~s*mm~s*/~s*s''], (''{value} mm/s was given, but this SOP states vibration as ISO 10816 zones, whose boundaries '' @
     ''depend on the machine class - state the zone to have it assessed'')))
        [(''A'', \<lparr>or_verdict = ''PASS'', or_clause = ''3.1'', or_disposition = ''FIT FOR SERVICE'', or_action = []\<rparr>),
         (''B'', \<lparr>or_verdict = ''PASS'', or_clause = ''3.1'', or_disposition = ''FIT FOR SERVICE'', or_action = []\<rparr>),
         (''C'', \<lparr>or_verdict = ''REVIEW'', or_clause = ''3.2'', or_disposition = ''FIT FOR SERVICE WITH CONDITIONS'', or_action = ''Zone C permits operation for a limited period only. Raise a maintenance notification.''\<rparr>),
         (''D'', \<lparr>or_verdict = ''FAIL'', or_clause = ''3.3'', or_disposition = ''REMOVE FROM SERVICE'', or_action = ''Zone D is not acceptable. Remove the equipment from service.''\<rparr>)]\<rparr>,
     \<lparr>ru_parameter = ''Wall thickness'', ru_unit = ''mm'', ru_limit = ''above the retirement thickness'',
      ru_kind = Margin [rx ''minimum measured wall thickness[^0-9]{0,40}(~d+(?:~.~d+)?)~s*mm'',
         rx ''measured wall thickness[^0-9]{0,40}(~d+(?:~.~d+)?)~s*mm'',
         rx ''(?:current|present|actual|latest)~s+(?:wall~s+)?thickness[^0-9]{0,40}(~d+(?:~.~d+)?)~s*mm'',
         rx ''(?<!previous )(?<!prior )(?<!original )wall thickness[^0-9]{0,40}(~d+(?:~.~d+)?)~s*mm'']
        [rx ''retirement thickness[^0-9]{0,40}(~d+(?:~.~d+)?)~s*mm'',
         rx (''(?:required|minimum required|minimum '' @
     ''allowable)~s+(?:wall~s+)?thickness[^0-9]{0,40}(~d+(?:~.~d+)?)~s*mm'')]
        \<lparr>or_verdict = ''PASS'', or_clause = ''4.1'', or_disposition = ''FIT FOR SERVICE'', or_action = []\<rparr>
        \<lparr>or_verdict = ''FAIL'', or_clause = ''4.1'', or_disposition = ''REMOVE FROM SERVICE'', or_action = (''Minimum measured wall thickness is at or below the retirement thickness. Remove the equipment '' @
     ''from service.'')\<rparr>
        (Some \<lparr>sd_below = Fin 2, sd_clause = ''4.2'', sd_action = ''Remaining wall thickness margin is below 2.0 mm. Shorten the inspection interval to six months.''\<rparr>)\<rparr>,
     \<lparr>ru_parameter = ''Coupling guard'', ru_unit = [], ru_limit = ''no coupling guard fastener missing'',
      ru_kind = Presence [rx (''(?:coupling~s+)?guard[^.~n]{0,60}(?:fastener|bolt|screw|nut|fixing)s?[^.~n]{0,40}missing[^.~n]{0'' @
     '',30}''),
         rx ''missing[^.~n]{0,30}(?:coupling~s+)?guard~s+(?:fastener|bolt|screw|nut|fixing)s?'']
        \<lparr>or_verdict = ''FAIL'', or_clause = ''5.1'', or_disposition = ''NOT FIT FOR START'', or_action = ''Rectify the missing coupling guard fastener before the next start.''\<rparr>
        \<lparr>or_verdict = ''PASS'', or_clause = ''5.1'', or_disposition = ''FIT FOR SERVICE'', or_action = []\<rparr>\<rparr>]\<rparr>\<close>

section \<open>Findings\<close>

record finding =
  fn_parameter :: string
  fn_measured :: string
  fn_limit :: string
  fn_clause :: string
  fn_verdict :: string
  fn_disposition :: string
  fn_actions :: "(string \<times> string) list"

type_synonym span = "nat \<times> nat"

definition first_clause :: "rule_kind \<Rightarrow> string" where
  "first_clause kind =
     (let clauses = (case kind of
          Bands ps bs \<Rightarrow> map (\<lambda>b. or_clause (bd_outcome b)) bs
        | Categorical ps u cs \<Rightarrow> map (\<lambda>(k, c). or_clause c) cs
        | Margin ps qs good bad sd \<Rightarrow> [or_clause good]
        | Presence ps defect clear \<Rightarrow> [or_clause defect, or_clause clear]
        | Unsupported t \<Rightarrow> [])
      in case filter (\<lambda>c. c \<noteq> []) clauses of c # _ \<Rightarrow> c | [] \<Rightarrow> [])"

definition no_data :: "rule \<Rightarrow> string \<Rightarrow> finding" where
  "no_data r detail = \<lparr>fn_parameter = ru_parameter r, fn_measured = (if detail \<noteq> [] then ''not found ('' @ detail @ '')'' else ''not found''),
     fn_limit = or_text (ru_limit r) ''-'', fn_clause = first_clause (ru_kind r), fn_verdict = ''NO DATA'',
     fn_disposition = ''FIT FOR SERVICE'', fn_actions = []\<rparr>"

definition finding_of :: "rule \<Rightarrow> string \<Rightarrow> outcome_rule \<Rightarrow> string \<Rightarrow> finding" where
  "finding_of r measured oc limit =
     (let verdict = or_text (or_verdict oc) ''NO DATA''
      in \<lparr>fn_parameter = ru_parameter r, fn_measured = or_text measured ''-'', fn_limit = or_text limit (or_text (ru_limit r) ''-''),
          fn_clause = or_clause oc, fn_verdict = verdict, fn_disposition = or_text (or_disposition oc) ''FIT FOR SERVICE'',
          fn_actions = (if or_action oc \<noteq> [] \<and> verdict \<noteq> ''PASS'' then [(or_clause oc, or_action oc)] else [])\<rparr>)"

fun first_match :: "re list \<Rightarrow> string \<Rightarrow> re_hit option" where
  "first_match [] t = None"
| "first_match (r # rs) t = (case re_search flag_i r t of Some h \<Rightarrow> Some h | None \<Rightarrow> first_match rs t)"

definition span_of :: "re_hit \<Rightarrow> span" where
  "span_of h = (hit_start h, hit_end h)"

text \<open>\<^verbatim>\<open>[float(g) for g in match.groups() if g is not None]\<close>.\<close>

definition group_values :: "string \<Rightarrow> re_hit \<Rightarrow> pyfloat list" where
  "group_values t h =
     (let n = fold max (map fst (hit_groups h)) 0
      in map float_text (List.map_filter (hit_group (codes_of t) h) [1..<n + 1]))"

definition in_band :: "pyfloat \<Rightarrow> band \<Rightarrow> bool" where
  "in_band v b = (case bd_below b of
      Some x \<Rightarrow> pf_lt v x
    | None \<Rightarrow> (case bd_max b of Some x \<Rightarrow> pf_le v x | None \<Rightarrow> True))"

section \<open>Assessing\<close>

text \<open>A range is assessed at its worse end.\<close>

definition assess_band :: "rule \<Rightarrow> re list \<Rightarrow> band list \<Rightarrow> string \<Rightarrow> py_error + finding \<times> span list" where
  "assess_band r ps bands t = (case first_match ps t of
      None \<Rightarrow> Inr (no_data r [], [])
    | Some h \<Rightarrow>
        (case group_values t h of
           [] \<Rightarrow> Inl ValueError
         | x # xs \<Rightarrow>
             (let value = foldl pf_max x xs; measured = py_strip (join_with '' to '' (map fmt_g (x # xs)) @ '' '' @ ru_unit r)
              in Inr (case find (in_band value) bands of
                   Some b \<Rightarrow> (finding_of r measured (bd_outcome b) (ru_limit r), [span_of h])
                 | None \<Rightarrow> (no_data r ''no band matched'', [span_of h])))))"

definition unconverted :: "(re list \<times> string) option \<Rightarrow> string \<Rightarrow> string" where
  "unconverted u t = (case u of
      None \<Rightarrow> []
    | Some (ps, note) \<Rightarrow> (case first_match ps t of
        None \<Rightarrow> []
      | Some h \<Rightarrow> replace_all ''{value}'' (hit_text (codes_of t) h 1) note))"

definition assess_categorical :: "rule \<Rightarrow> re list \<Rightarrow> (re list \<times> string) option \<Rightarrow> outcome_rule pydict \<Rightarrow> string \<Rightarrow> finding \<times> span list" where
  "assess_categorical r ps u cases t =
     (case first_match ps t of
        None \<Rightarrow> (no_data r (unconverted u t), [])
      | Some h \<Rightarrow> (case hit_group (codes_of t) h 1 of
          None \<Rightarrow> (no_data r (unconverted u t), [])
        | Some g \<Rightarrow>
            (let key = py_upper (py_strip g) in
             case dict_get cases key of
               None \<Rightarrow> (no_data r (CHR 0x27 # key @ [CHR 0x27] @ '' is not a recognised class''), [span_of h])
             | Some c \<Rightarrow> (finding_of r (py_strip (hit_text (codes_of t) h 0)) c (ru_limit r), [span_of h]))))"

definition margin_finding :: "rule \<Rightarrow> outcome_rule \<Rightarrow> outcome_rule \<Rightarrow> secondary option \<Rightarrow> pyfloat \<Rightarrow> pyfloat \<Rightarrow> finding" where
  "margin_finding r good bad sd measured reference =
     (let margin = pf_sub measured reference; unit = ru_unit r;
          display = py_strip (fmt_g measured @ '' '' @ unit @ '' ('' @ fmt_g margin @ '' '' @ unit @ '' margin)'');
          limit = py_strip (''above '' @ fmt_g reference @ '' '' @ unit @ '' retirement'');
          found = finding_of r display (if pf_lt (Fin 0) margin then good else bad) limit
      in case sd of
           Some s \<Rightarrow> (if pf_lt (Fin 0) margin \<and> pf_lt margin (sd_below s)
                      then found\<lparr>fn_actions := fn_actions found @ [(sd_clause s, sd_action s)]\<rparr> else found)
         | None \<Rightarrow> found)"

definition assess_margin :: "rule \<Rightarrow> re list \<Rightarrow> re list \<Rightarrow> outcome_rule \<Rightarrow> outcome_rule \<Rightarrow> secondary option \<Rightarrow> string \<Rightarrow> py_error + finding \<times> span list" where
  "assess_margin r ps qs good bad sd t = (case (first_match ps t, first_match qs t) of
      (Some h, Some k) \<Rightarrow>
        (case (hit_group (codes_of t) h 1, hit_group (codes_of t) k 1) of
           (Some a, Some b) \<Rightarrow> Inr (margin_finding r good bad sd (float_text a) (float_text b), [span_of h, span_of k])
         | _ \<Rightarrow> Inl IndexError)
    | _ \<Rightarrow> Inr (no_data r ''measured and retirement thickness are both required'', []))"

definition DENIED_BEFORE :: re where
  \<open>DENIED_BEFORE = rx ''~b(?:no|not|nil|without)~s+(?:~w+~s+){0,2}$''\<close>

definition DENIED_WITHIN :: re where
  \<open>DENIED_WITHIN = rx ''~b(?:none|nothing|not|no)~s+missing~b''\<close>

definition denied :: "string \<Rightarrow> re_hit \<Rightarrow> bool" where
  "denied t h \<longleftrightarrow> found_in flag_i DENIED_BEFORE (text_of (slice_codes (codes_of t) (hit_start h - 30) (hit_start h)))
     \<or> found_in flag_i DENIED_WITHIN (hit_text (codes_of t) h 0)"

definition assess_presence :: "rule \<Rightarrow> re list \<Rightarrow> outcome_rule \<Rightarrow> outcome_rule \<Rightarrow> string \<Rightarrow> finding \<times> span list" where
  "assess_presence r ps defect clear t =
     (case find (\<lambda>h. \<not> denied t h) (concat (map (\<lambda>p. re_finditer flag_i p t) ps)) of
        Some h \<Rightarrow> (finding_of r (py_strip (hit_text (codes_of t) h 0)) defect (ru_limit r), [span_of h])
      | None \<Rightarrow> (finding_of r ''not reported'' clear (ru_limit r), []))"

definition assess :: "rule \<Rightarrow> string \<Rightarrow> py_error + finding \<times> span list" where
  "assess r t = (case ru_kind r of
      Bands ps bands \<Rightarrow> assess_band r ps bands t
    | Categorical ps u cases \<Rightarrow> Inr (assess_categorical r ps u cases t)
    | Margin ps qs good bad sd \<Rightarrow> assess_margin r ps qs good bad sd t
    | Presence ps defect clear \<Rightarrow> Inr (assess_presence r ps defect clear t)
    | Unsupported kind \<Rightarrow> Inr (no_data r (''unsupported rule type '' @ [CHR 0x27] @ kind @ [CHR 0x27]), []))"

section \<open>Readings no rule covers\<close>

text \<open>\<^verbatim>\<open>text.splitlines(keepends=True)\<close>.\<close>

function keep_lines :: "string \<Rightarrow> string list" where
  "keep_lines s =
     (if s = [] then []
      else let line = takeWhile (\<lambda>c. \<not> line_end c) s; rest = dropWhile (\<lambda>c. \<not> line_end c) s in
        case rest of
          [] \<Rightarrow> [line]
        | c # r \<Rightarrow> (if c = CHR 0x0D \<and> starts_with r [CHR 0x0A] then (line @ [c, CHR 0x0A]) # keep_lines (tl r)
                     else (line @ [c]) # keep_lines r))"
  by pat_completeness auto
termination
proof (relation "measure length")
  fix s c r line rest
  assume "rest = dropWhile (\<lambda>c. \<not> line_end c) s" "rest = (c::char) # r"
  then have l: "length (c # r) \<le> length s" by (metis length_dropWhile_le)
  show "(tl r, s) \<in> measure length" using l by simp
  show "(r, s) \<in> measure length" using l by simp
qed simp

declare keep_lines.simps [simp del]

definition overlaps :: "nat \<Rightarrow> nat \<Rightarrow> span \<Rightarrow> bool" where
  "overlaps start stop = (\<lambda>(s, e). s < stop \<and> start < e)"

definition shorten :: "string \<Rightarrow> string" where
  "shorten s = (if py_len s \<le> 120 then s else py_take 117 s @ ''...'')"

definition measures :: "string \<Rightarrow> bool" where
  "measures line \<longleftrightarrow> py_strip line \<noteq> [] \<and> found_in flag_i MEASUREMENT (py_strip line)"

fun unassessed_from :: "nat \<Rightarrow> span list \<Rightarrow> string list \<Rightarrow> string list" where
  "unassessed_from offset spans [] = []"
| "unassessed_from offset spans (line # ls) =
     (let stop = offset + py_len line
      in (if measures line \<and> \<not> list_ex (overlaps offset stop) spans then [shorten (py_strip line)] else [])
         @ unassessed_from stop spans ls)"

definition unassessed_lines :: "string \<Rightarrow> span list \<Rightarrow> string list" where
  "unassessed_lines t spans = unassessed_from 0 spans (keep_lines t)"

section \<open>The assessment\<close>

fun position :: "'a list \<Rightarrow> 'a \<Rightarrow> nat" where
  "position [] x = 0"
| "position (y # ys) x = (if x = y then 0 else Suc (position ys x))"

definition severity :: "string \<Rightarrow> nat" where
  "severity d = position DISPOSITIONS d"

text \<open>\<^verbatim>\<open>max((d for d in ds if d in DISPOSITIONS), key=DISPOSITIONS.index, default=...)\<close>.\<close>

definition worst :: "string list \<Rightarrow> string" where
  "worst ds = (case filter (\<lambda>d. d \<in> set DISPOSITIONS) ds of
      [] \<Rightarrow> ''FIT FOR SERVICE''
    | d # rest \<Rightarrow> foldl (\<lambda>best x. if severity best < severity x then x else best) d rest)"

record assessment =
  as_findings :: "finding list"
  as_unassessed :: "string list"
  as_disposition :: string
  as_incomplete :: bool
  as_clear :: bool

definition with_verdict :: "string \<Rightarrow> finding list \<Rightarrow> finding list" where
  "with_verdict v fs = filter (\<lambda>f. fn_verdict f = v) fs"

definition assess_all :: "bool \<Rightarrow> rule list \<Rightarrow> string \<Rightarrow> py_error + assessment" where
  "assess_all block_missing rules t = map_sum id (\<lambda>found.
     let fs = map fst found; spans = concat (map snd found);
         failures = with_verdict ''FAIL'' fs; reviews = with_verdict ''REVIEW'' fs; missing = with_verdict ''NO DATA'' fs;
         incomplete = (missing \<noteq> [] \<and> block_missing)
     in \<lparr>as_findings = fs, as_unassessed = unassessed_lines t spans,
         as_disposition = (if incomplete \<and> failures = [] then ''ASSESSMENT INCOMPLETE'' else worst (map fn_disposition fs)),
         as_incomplete = incomplete, as_clear = (failures = [] \<and> reviews = [] \<and> \<not> incomplete)\<rparr>)
     (try_all (\<lambda>r. assess r t) rules)"

section \<open>The report\<close>

definition headline :: "finding list \<Rightarrow> string" where
  "headline fs =
     (let assessed = length fs - length (with_verdict ''NO DATA'' fs); failures = length (with_verdict ''FAIL'' fs);
          reviews = length (with_verdict ''REVIEW'' fs); missing = length (with_verdict ''NO DATA'' fs)
      in join_with '' '' ([''**'' @ str_int (int assessed - int failures - int reviews) @ '' of '' @ str_nat assessed @ '' assessed parameters within limits.**'']
           @ (if failures \<noteq> 0 then [str_nat failures @ '' outside limits.''] else [])
           @ (if reviews \<noteq> 0 then [str_nat reviews @ '' requires review.''] else [])
           @ (if missing \<noteq> 0 then [str_nat missing @ '' could not be assessed.''] else [])))"

definition finding_line :: "finding \<Rightarrow> string" where
  \<open>finding_line f = ''| '' @ fn_parameter f @ '' | '' @ fn_measured f @ '' | '' @ fn_limit f @ '' | ''
     @ (if fn_clause f \<noteq> [] then lit ''~u00a7'' @ fn_clause f else ''-'') @ '' | '' @ fn_verdict f @ '' |''\<close>

text \<open>\<^verbatim>\<open>measured[len("not found ("):-1]\<close> when the reading says why it was not found.\<close>

definition missing_line :: "string \<Rightarrow> finding \<Rightarrow> string" where
  \<open>missing_line sop f =
     (let detail = (if starts_with (fn_measured f) ''not found ('' then butlast (drop 11 (fn_measured f)) else [])
      in ''- **'' @ fn_parameter f @ ''** - '' @ (if detail \<noteq> [] then detail @ ''. '' else ''no reading found in the material supplied. '')
         @ sop @ lit '' ~u00a7'' @ fn_clause f @ '' could not be applied.'')\<close>

definition sop_report :: "string \<Rightarrow> assessment \<Rightarrow> string" where
  \<open>sop_report sop a =
     (let fs = as_findings a; required = concat (map fn_actions fs); missing = with_verdict ''NO DATA'' fs;
          blocked = (as_incomplete a \<and> with_verdict ''FAIL'' fs = [])
      in join_with nl (
        [''## SOP assessment - '' @ sop @ '' - '' @ (if as_clear a then ''PASS'' else ''ATTENTION REQUIRED''), [], headline fs, [],
         ''| Parameter | Measured | Acceptance limit | Clause | Verdict |'', ''|---|---|---|---|---|'']
        @ map finding_line fs
        @ (if required \<noteq> [] then [[], ''### Required actions'', []] @ map (\<lambda>(clause, action). lit ''- **~u00a7'' @ clause @ ''** - '' @ action) required else [])
        @ (if missing \<noteq> [] then [[], ''### Not measured'', []] @ map (missing_line sop) missing else [])
        @ (if as_unassessed a \<noteq> [] then [[], ''### Readings outside this SOP'', []] @ map (\<lambda>l. ''- '' @ l) (as_unassessed a)
             @ [lit ''~nThese carry a measurement but match no rule in '' @ sop
                @ ''. They were **not** assessed. Check them against the SOP that governs them.''] else [])
        @ [[], ''**Disposition: '' @ as_disposition a @ ''**'']
        @ (if blocked then [lit (''~n> One or more thresholds could not be applied because the reading was absent. The assessment '' @
     ''is treated as blocking rather than passing: supply the missing measurements and re-run before '' @
     ''releasing the equipment.'')] else [])
        @ [lit ''~n*Assessed against '' @ sop @ ('' only, and only for the parameters in its rule pack. Every comparison above is arithmetic '' @
     ''performed on this machine against an authored threshold - no model judged whether a value was '' @
     ''acceptable. Defect checks such as guarding infer from what the report states; a defect that was '' @
     ''never inspected for cannot be detected here.*'')]))\<close>

section \<open>The tool\<close>

record sop_valves =
  sv_pack :: "string + rule_pack"
  sv_block_missing :: bool

definition default_sop_valves :: sop_valves where
  "default_sop_valves = \<lparr>sv_pack = Inr DEFAULT_RULE_PACK, sv_block_missing = True\<rparr>"

definition sop_status :: "string \<Rightarrow> bool \<Rightarrow> json" where
  "sop_status description finished = JObj [(''type'', JStr ''status''), (''data'', JObj [(''action'', JStr ''sop_check''),
     (''description'', JStr description), (''done'', JBool finished)])]"

definition within_limits :: "string \<Rightarrow> finding list \<Rightarrow> string" where
  "within_limits sop fs =
     (let assessed = length fs - length (with_verdict ''NO DATA'' fs)
      in sop @ '': '' @ str_int (int assessed - int (length (with_verdict ''FAIL'' fs)) - int (length (with_verdict ''REVIEW'' fs)))
         @ ''/'' @ str_nat assessed @ '' parameters within limits'')"

definition check_sop_thresholds :: "sop_valves \<Rightarrow> string \<Rightarrow> json list \<times> (py_error + string)" where
  \<open>check_sop_thresholds v readings =
     (let t = py_strip readings; opening = sop_status ''Assessing readings against SOP thresholds'' False in
      if t = [] then ([opening, sop_status ''No readings supplied'' True],
        Inr (''No readings were supplied, so nothing was assessed. Pass the measurements from the inspection '' @
     ''report - including units - and the assessment will run against the SOP thresholds.''))
      else case sv_pack v of
        Inl why \<Rightarrow> ([opening, sop_status ''Rule pack is invalid'' True],
          Inr (''The SOP rule pack could not be read: '' @ why @ lit (''~n~nNo assessment was performed. Fix the `rule_pack` valve, or clear it to fall back to the '' @
     ''built-in SOP-MEC-014 pack. It is not safe to guess at thresholds.'')))
      | Inr pack \<Rightarrow> (case assess_all (sv_block_missing v) (rp_rules pack) t of
          Inl e \<Rightarrow> ([opening], Inl e)
        | Inr a \<Rightarrow> ([opening, sop_status (within_limits (or_text (rp_sop pack) ''SOP'') (as_findings a)) True],
            Inr (sop_report (or_text (rp_sop pack) ''SOP'') a))))\<close>


section \<open>What a finding can say\<close>

text \<open>The outcomes a rule is written with.\<close>

definition outcomes :: "rule \<Rightarrow> outcome_rule list" where
  "outcomes r = (case ru_kind r of
      Bands ps bands \<Rightarrow> map bd_outcome bands
    | Categorical ps u cases \<Rightarrow> map snd cases
    | Margin ps qs good bad sd \<Rightarrow> [good, bad]
    | Presence ps defect clear \<Rightarrow> [defect, clear]
    | Unsupported k \<Rightarrow> [])"

definition graded :: "outcome_rule \<Rightarrow> finding \<Rightarrow> bool" where
  "graded oc f \<longleftrightarrow> fn_verdict f = or_text (or_verdict oc) ''NO DATA'' \<and> fn_disposition f = or_text (or_disposition oc) ''FIT FOR SERVICE''"

definition unread :: "finding \<Rightarrow> bool" where
  "unread f \<longleftrightarrow> fn_verdict f = ''NO DATA'' \<and> fn_disposition f = ''FIT FOR SERVICE''"

lemma unread_no_data [simp]: "unread (no_data r d)"
  by (simp add: unread_def no_data_def)

lemma graded_finding_of [simp]: "graded oc (finding_of r m oc l)"
  by (simp add: graded_def finding_of_def Let_def)

lemma dict_get_mem: "dict_get d k = Some v \<Longrightarrow> v \<in> snd ` set d"
  by (force simp: dict_get_def dest: map_of_SomeD)

lemma graded_margin: "graded good (margin_finding r good bad sd x y) \<or> graded bad (margin_finding r good bad sd x y)"
proof -
  have "graded oc (f\<lparr>fn_actions := as\<rparr>) = graded oc f" for oc f as by (simp add: graded_def)
  then show ?thesis by (cases "pf_lt (Fin 0) (pf_sub x y)") (auto simp: margin_finding_def Let_def split: option.splits)
qed

lemma assess_graded:
  assumes "assess r t = Inr (f, sp)"
  shows "unread f \<or> list_ex (\<lambda>oc. graded oc f) (outcomes r)"
proof (cases "ru_kind r")
  case (Bands ps bands)
  show ?thesis
  proof (cases "unread f")
    case False
    then obtain v b where "find (in_band v) bands = Some b" "graded (bd_outcome b) f"
      using assms by (auto simp: assess_def Bands assess_band_def Let_def split: option.splits list.splits)
    then show ?thesis by (auto simp: outcomes_def Bands list_ex_iff find_Some_iff)
  qed simp
next
  case (Categorical ps u cases)
  show ?thesis
  proof (cases "unread f")
    case False
    then obtain k c where "dict_get cases k = Some c" "graded c f"
      using assms by (auto simp: assess_def Categorical assess_categorical_def Let_def split: option.splits)
    then show ?thesis using dict_get_mem by (fastforce simp: outcomes_def Categorical list_ex_iff)
  qed simp
next
  case (Margin ps qs good bad sd)
  then show ?thesis using assms graded_margin
    by (fastforce simp: assess_def assess_margin_def outcomes_def split: option.splits)
next
  case (Presence ps defect clear)
  then show ?thesis using assms
    by (auto simp: assess_def assess_presence_def outcomes_def split: option.splits)
qed (use assms in \<open>auto simp: assess_def\<close>)

lemma assess_parameter: "assess r t = Inr (f, sp) \<Longrightarrow> fn_parameter f = ru_parameter r"
  by (auto simp: assess_def assess_band_def assess_categorical_def assess_margin_def assess_presence_def margin_finding_def
        finding_of_def no_data_def Let_def split: rule_kind.splits option.splits list.splits if_splits prod.splits)

lemma assess_all_findings:
  assumes "assess_all b rules t = Inr a"
  shows "list_all2 (\<lambda>r f. fn_parameter f = ru_parameter r \<and> (unread f \<or> list_ex (\<lambda>oc. graded oc f) (outcomes r))) rules (as_findings a)"
proof -
  obtain found where found: "try_all (\<lambda>r. assess r t) rules = Inr found" "as_findings a = map fst found"
    using assms by (cases "try_all (\<lambda>r. assess r t) rules") (auto simp: assess_all_def Let_def)
  show ?thesis unfolding found(2) list_all2_map2
    by (rule list_all2_mono [OF conjunct2 [OF try_all_Inr [OF found(1)]]]) (metis assess_graded assess_parameter prod.collapse)
qed

section \<open>The worst disposition\<close>

lemma position_inj: "x \<in> set xs \<Longrightarrow> y \<in> set xs \<Longrightarrow> position xs x = position xs y \<Longrightarrow> x = y"
  by (induction xs) (auto split: if_splits)

lemma fold_worst:
  fixes ds :: "string list"
  defines "up \<equiv> \<lambda>best x. if severity best < severity x then x else best"
  shows "severity d \<le> severity (foldl up d ds) \<and> (\<forall>x\<in>set ds. severity x \<le> severity (foldl up d ds))
    \<and> foldl up d ds \<in> insert d (set ds)"
proof (induction ds arbitrary: d)
  case (Cons x ds)
  have "severity d \<le> severity (up d x)" "severity x \<le> severity (up d x)" "up d x \<in> {d, x}" by (auto simp: up_def)
  then show ?case using Cons [of "up d x"] by (auto intro: order_trans)
qed simp

lemma worst_bound:
  assumes "d \<in> set ds" "d \<in> set DISPOSITIONS"
  shows "severity d \<le> severity (worst ds)"
proof -
  have d: "d \<in> set (filter (\<lambda>d. d \<in> set DISPOSITIONS) ds)" using assms by simp
  then obtain e rest where e: "filter (\<lambda>d. d \<in> set DISPOSITIONS) ds = e # rest" by (metis list.exhaust list.set(1) empty_iff)
  show ?thesis using d fold_worst [of e rest] by (auto simp: worst_def e)
qed

lemma worst_mem: "worst ds = ''FIT FOR SERVICE'' \<or> worst ds \<in> set ds"
proof (cases "filter (\<lambda>d. d \<in> set DISPOSITIONS) ds")
  case Nil
  then show ?thesis by (simp add: worst_def)
next
  case (Cons d rest)
  have "set (d # rest) \<subseteq> set ds" unfolding Cons [symmetric] by auto
  then show ?thesis using fold_worst [of d rest] by (auto simp: worst_def Cons)
qed


lemma worst_listed: "worst ds \<in> set DISPOSITIONS"
proof (cases "filter (\<lambda>d. d \<in> set DISPOSITIONS) ds")
  case Nil
  then show ?thesis by (simp add: worst_def DISPOSITIONS_def)
next
  case (Cons d rest)
  have "set (d # rest) \<subseteq> set DISPOSITIONS" unfolding Cons [symmetric] by auto
  then show ?thesis using fold_worst [of d rest] by (auto simp: worst_def Cons)
qed

section \<open>The built-in pack\<close>

lemma first_match_in: "first_match ps t = Some h \<Longrightarrow> \<exists>p. p \<in> set ps \<and> re_search flag_i p t = Some h"
  by (induction ps) (auto split: option.splits)

lemma first_match_captures:
  assumes "first_match ps t = Some h" "list_all (captures n) ps"
  obtains g where "hit_group cs h n = Some g"
  using first_match_in [OF assms(1)] assms(2) re_search_captures by (metis list_all_iff)

lemma fold_max_ge: "x \<in> set xs \<Longrightarrow> x \<le> fold max xs (b :: nat)"
proof (induction xs arbitrary: b)
  case (Cons y xs)
  have "b \<le> fold max xs b" for xs :: "nat list" and b by (induction xs arbitrary: b) (auto intro: order_trans [OF max.cobounded2])
  from this [of "max y b" xs] show ?case using Cons by auto
qed simp

lemma group_values_nonempty:
  assumes "hit_group (codes_of t) h 1 = Some g"
  shows "group_values t h \<noteq> []"
proof -
  have "1 \<in> set (map fst (hit_groups h))" using assms by (force simp: hit_group_def dest: map_of_SomeD)
  then have "1 \<in> set [1..<fold max (map fst (hit_groups h)) 0 + 1]" using fold_max_ge by fastforce
  then have "g \<in> set (List.map_filter (hit_group (codes_of t) h) [1..<fold max (map fst (hit_groups h)) 0 + 1])"
    using assms by (force simp: List.map_filter_def)
  then show ?thesis by (auto simp: group_values_def Let_def simp del: upt_Suc)
qed

text \<open>A rule whose patterns always capture a first group does not raise.\<close>

definition readable :: "rule \<Rightarrow> bool" where
  "readable r = (case ru_kind r of
      Bands ps bands \<Rightarrow> list_all (captures 1) ps
    | Margin ps qs good bad sd \<Rightarrow> list_all (captures 1) (ps @ qs)
    | _ \<Rightarrow> True)"

lemma readable_total: "readable r \<Longrightarrow> \<exists>y. assess r t = Inr y"
proof (cases "ru_kind r")
  case (Bands ps bands)
  assume "readable r"
  then have c: "list_all (captures 1) ps" by (simp add: readable_def Bands)
  have "group_values t h \<noteq> []" if "first_match ps t = Some h" for h
    by (rule first_match_captures [OF that c]) (rule group_values_nonempty)
  then show ?thesis by (auto simp: assess_def Bands assess_band_def Let_def split: option.splits list.splits)
next
  case (Margin ps qs good bad sd)
  assume "readable r"
  then have c: "list_all (captures 1) ps" "list_all (captures 1) qs" by (simp_all add: readable_def Margin)
  show ?thesis
  proof (cases "first_match ps t = None \<or> first_match qs t = None")
    case False
    then obtain h k where hk: "first_match ps t = Some h" "first_match qs t = Some k" by auto
    obtain a b where "hit_group (codes_of t) h 1 = Some a" "hit_group (codes_of t) k 1 = Some b"
      using first_match_captures [OF hk(1) c(1)] first_match_captures [OF hk(2) c(2)] by metis
    then show ?thesis by (simp add: assess_def Margin assess_margin_def hk)
  qed (auto simp: assess_def Margin assess_margin_def split: option.splits)
qed (auto simp: assess_def)

lemma default_readable: "list_all readable (rp_rules DEFAULT_RULE_PACK)"
  by code_simp

text \<open>An outcome passes with no condition, or it is a review or failure with a worse disposition.\<close>

definition sound_outcome :: "outcome_rule \<Rightarrow> bool" where
  "sound_outcome oc \<longleftrightarrow>
     or_verdict oc = ''PASS'' \<and> or_disposition oc = ''FIT FOR SERVICE''
   \<or> or_verdict oc \<in> set [''REVIEW'', ''FAIL''] \<and> or_disposition oc \<in> set (tl DISPOSITIONS)"

lemma default_sound: "list_all (\<lambda>r. list_all sound_outcome (outcomes r)) (rp_rules DEFAULT_RULE_PACK)"
  by code_simp

definition sound_finding :: "finding \<Rightarrow> bool" where
  "sound_finding f \<longleftrightarrow>
     fn_verdict f \<in> set [''PASS'', ''NO DATA''] \<and> fn_disposition f = ''FIT FOR SERVICE''
   \<or> fn_verdict f \<in> set [''REVIEW'', ''FAIL''] \<and> fn_disposition f \<in> set (tl DISPOSITIONS)"

lemma sound_graded: "sound_outcome oc \<Longrightarrow> graded oc f \<Longrightarrow> sound_finding f"
  by (auto simp: sound_outcome_def graded_def sound_finding_def or_text_def DISPOSITIONS_def)

lemma sound_unread: "unread f \<Longrightarrow> sound_finding f"
  by (simp add: unread_def sound_finding_def)

lemma sound_findings:
  assumes "assess_all b rules t = Inr a" "list_all (\<lambda>r. list_all sound_outcome (outcomes r)) rules"
  shows "list_all sound_finding (as_findings a)"
proof -
  have "list_all2 (\<lambda>r f. sound_finding f) rules (as_findings a)"
    by (rule list.rel_mono_strong [OF assess_all_findings [OF assms(1)]])
      (use assms(2) sound_graded sound_unread in \<open>fastforce simp: list_all_iff list_ex_iff\<close>)
  then show ?thesis by (auto simp: list_all2_conv_all_nth list_all_length)
qed


section \<open>What the check promises\<close>

lemma with_verdict_empty: "with_verdict v fs = [] \<longleftrightarrow> list_all (\<lambda>f. fn_verdict f \<noteq> v) fs"
  by (auto simp: with_verdict_def filter_empty_conv list_all_iff)

lemma all_pass_fit:
  assumes "list_all sound_finding fs"
  shows "list_all (\<lambda>f. fn_verdict f = ''PASS'') fs \<longleftrightarrow>
    with_verdict ''FAIL'' fs = [] \<and> with_verdict ''REVIEW'' fs = [] \<and> with_verdict ''NO DATA'' fs = []"
  using assms unfolding with_verdict_empty by (fastforce simp: list_all_iff sound_finding_def)

lemma worst_fit:
  assumes "list_all sound_finding fs"
  shows "worst (map fn_disposition fs) = ''FIT FOR SERVICE'' \<longleftrightarrow>
    with_verdict ''FAIL'' fs = [] \<and> with_verdict ''REVIEW'' fs = []"
proof
  assume w: "worst (map fn_disposition fs) = ''FIT FOR SERVICE''"
  have "fn_verdict f \<noteq> ''FAIL'' \<and> fn_verdict f \<noteq> ''REVIEW''" if f: "f \<in> set fs" for f
  proof (rule ccontr)
    assume "\<not> ?thesis"
    then have "fn_disposition f \<in> set (tl DISPOSITIONS)" using assms f by (auto simp: list_all_iff sound_finding_def)
    then have "fn_disposition f \<in> set DISPOSITIONS" "0 < severity (fn_disposition f)"
      by (auto simp: DISPOSITIONS_def severity_def)
    then show False using worst_bound [of "fn_disposition f" "map fn_disposition fs"] f w
      by (auto simp: severity_def DISPOSITIONS_def)
  qed
  then show "with_verdict ''FAIL'' fs = [] \<and> with_verdict ''REVIEW'' fs = []" by (auto simp: with_verdict_empty list_all_iff)
next
  assume "with_verdict ''FAIL'' fs = [] \<and> with_verdict ''REVIEW'' fs = []"
  then have "\<forall>d\<in>set (map fn_disposition fs). d = ''FIT FOR SERVICE''"
    using assms unfolding with_verdict_empty by (fastforce simp: list_all_iff sound_finding_def)
  then show "worst (map fn_disposition fs) = ''FIT FOR SERVICE''" using worst_mem by blast
qed





text \<open>C40: The wall thickness rule: for two thicknesses that are doubles, the finding takes the outcome of a good margin
  exactly when the measured thickness is larger than the retirement thickness, however small the difference, and
  the built-in rule then says PASS.\<close>

theorem wall_margin_exact:
  assumes "is_double x" "is_double y"
  shows "list_all (\<lambda>r. case ru_kind r of
      Margin ps qs good bad sd \<Rightarrow> fn_verdict (margin_finding r good bad sd (Fin x) (Fin y)) = (if y < x then ''PASS'' else ''FAIL'')
    | _ \<Rightarrow> True) (rp_rules DEFAULT_RULE_PACK)"
proof -
  have "fn_verdict (margin_finding r good bad sd (Fin x) (Fin y)) = (if y < x then or_text (or_verdict good) ''NO DATA'' else or_text (or_verdict bad) ''NO DATA'')"
    for r good bad sd
    by (auto simp: margin_finding_def finding_of_def Let_def pf_sub_pos [OF assms] split: option.splits)
  then show ?thesis by (simp add: DEFAULT_RULE_PACK_def or_text_def)
qed

theorem wall_margin_exact_witness:
  "list_all (\<lambda>r. case ru_kind r of
      Margin ps qs good bad sd \<Rightarrow> fn_verdict (margin_finding r good bad sd (Fin 9) (Fin 8)) = ''PASS''
    | _ \<Rightarrow> True) (rp_rules DEFAULT_RULE_PACK)"
proof -
  have "is_double 9" "is_double 8" using fl_of_int [of 9] fl_of_int [of 8] by (simp_all add: is_double_def)
  from wall_margin_exact [OF this] show ?thesis by (simp cong: rule_kind.case_cong)
qed

text \<open>Where the \<open>i\<close>th line starts, in characters.\<close>

definition line_start :: "string list \<Rightarrow> nat \<Rightarrow> nat" where
  "line_start ls i = sum_list (map py_len (take i ls))"

definition left_over :: "nat \<Rightarrow> span list \<Rightarrow> string list \<Rightarrow> nat \<Rightarrow> bool" where
  "left_over offset spans ls i \<longleftrightarrow> measures (ls ! i)
     \<and> \<not> list_ex (overlaps (offset + line_start ls i) (offset + line_start ls (Suc i))) spans"

lemma left_over_Suc [simp]: "left_over offset spans (l # ls) (Suc i) = left_over (offset + py_len l) spans ls i"
  by (simp add: left_over_def line_start_def add.assoc)

lemma unassessed_from_eq:
  "unassessed_from offset spans ls = map (\<lambda>i. shorten (py_strip (ls ! i))) (filter (left_over offset spans ls) [0..<length ls])"
proof (induction ls arbitrary: offset)
  case (Cons l ls)
  have "[0..<length (l # ls)] = 0 # map Suc [0..<length ls]" by (simp add: map_Suc_upt upt_conv_Cons del: upt_Suc)
  then have "filter (left_over offset spans (l # ls)) [0..<length (l # ls)]
      = (if left_over offset spans (l # ls) 0 then [0] else [])
        @ map Suc (filter (left_over (offset + py_len l) spans ls) [0..<length ls])"
    by (simp add: filter_map comp_def del: upt_Suc)
  moreover have "left_over offset spans (l # ls) 0 \<longleftrightarrow> measures l \<and> \<not> list_ex (overlaps offset (offset + py_len l)) spans"
    by (simp add: left_over_def line_start_def)
  ultimately show ?case using Cons by (simp add: Let_def comp_def del: upt_Suc)
qed simp

lemma concat_keep_lines: "concat (keep_lines s) = s"
proof (induction s rule: keep_lines.induct)
  case (1 s)
  let ?p = "\<lambda>c. \<not> line_end c"
  show ?case
  proof (cases "dropWhile ?p s")
    case Nil
    have "takeWhile ?p s = s" using takeWhile_dropWhile_id [of ?p s] Nil by simp
    then show ?thesis by (subst keep_lines.simps) (simp only: Let_def Nil list.case, simp)
  next
    case (Cons c r)
    then have s: "s \<noteq> []" "takeWhile ?p s @ c # r = s" using takeWhile_dropWhile_id [of ?p s] by auto
    have crlf: "[CHR 0x0A] @ tl r = r" if "starts_with r [CHR 0x0A]"
      using that by (cases r) auto
    show ?thesis
    proof (cases "c = CHR 0x0D \<and> starts_with r [CHR 0x0A]")
      case True
      have "concat (keep_lines (tl r)) = tl r" using "1.IH"(1) s(1) Cons True by simp
      then show ?thesis using s crlf True Cons by (subst keep_lines.simps) (simp add: Let_def)
    next
      case False
      have "concat (keep_lines r) = r" using "1.IH"(2) s(1) Cons False by simp
      then show ?thesis using s False Cons by (subst keep_lines.simps) (auto simp: Let_def)
    qed
  qed
qed


end
