(* ===== verification/Py_Date.thy ===== *)
theory Py_Date
  imports Artifacts
begin

text \<open>
  Python's \<^verbatim>\<open>datetime.date\<close>: validity, the ordinal of a date and the date of an ordinal as the library computes them,
  order, differences and the addition of days. Dates of the years 1 to 9999 are ordered as their ordinals, and an
  ordinal is that of its date.
\<close>

section \<open>Dates and ordinals\<close>

record pydate =
  dt_year :: int
  dt_month :: int
  dt_day :: int

definition is_leap :: "int \<Rightarrow> bool" where
  "is_leap y \<longleftrightarrow> y mod 4 = 0 \<and> (y mod 100 \<noteq> 0 \<or> y mod 400 = 0)"

definition month_days :: "bool \<Rightarrow> int \<Rightarrow> int" where
  "month_days leap m = (if m = 2 then if leap then 29 else 28 else if m \<in> {4, 6, 9, 11} then 30 else 31)"

definition days_before_month :: "bool \<Rightarrow> int \<Rightarrow> int" where
  "days_before_month leap m = [0, 31, 59, 90, 120, 151, 181, 212, 243, 273, 304, 334] ! nat (m - 1) + (if 2 < m \<and> leap then 1 else 0)"

definition days_before_year :: "int \<Rightarrow> int" where
  "days_before_year y = (y - 1) * 365 + (y - 1) div 4 - (y - 1) div 100 + (y - 1) div 400"

definition date_ordinal :: "pydate \<Rightarrow> int" where
  "date_ordinal d = days_before_year (dt_year d) + days_before_month (is_leap (dt_year d)) (dt_month d) + dt_day d"

definition date_ok :: "pydate \<Rightarrow> bool" where
  "date_ok d \<longleftrightarrow> 1 \<le> dt_year d \<and> dt_year d \<le> 9999 \<and> 1 \<le> dt_month d \<and> dt_month d \<le> 12
     \<and> 1 \<le> dt_day d \<and> dt_day d \<le> month_days (is_leap (dt_year d)) (dt_month d)"

text \<open>\<^verbatim>\<open>date(year, month, day)\<close>; \<open>None\<close> is its \<^verbatim>\<open>ValueError\<close>.\<close>

definition new_date :: "int \<Rightarrow> int \<Rightarrow> int \<Rightarrow> pydate option" where
  "new_date y m d = (let x = \<lparr>dt_year = y, dt_month = m, dt_day = d\<rparr> in if date_ok x then Some x else None)"

text \<open>The month and day of a day of the year, counted from zero.\<close>

definition month_and_day :: "bool \<Rightarrow> int \<Rightarrow> int \<times> int" where
  "month_and_day leap n =
     (let month = (n + 50) div 32; preceding = days_before_month leap month
      in if n < preceding then (month - 1, n - (preceding - month_days leap (month - 1)) + 1) else (month, n - preceding + 1))"

definition date_of_ordinal :: "int \<Rightarrow> pydate" where
  "date_of_ordinal ordinal =
     (let n = ordinal - 1; n400 = n div 146097; n = n mod 146097; n100 = n div 36524; n = n mod 36524;
          n4 = n div 1461; n = n mod 1461; n1 = n div 365; n = n mod 365;
          year = n400 * 400 + 1 + n100 * 100 + n4 * 4 + n1
      in if n1 = 4 \<or> n100 = 4 then \<lparr>dt_year = year - 1, dt_month = 12, dt_day = 31\<rparr>
         else case month_and_day (n1 = 3 \<and> (n4 \<noteq> 24 \<or> n100 = 3)) n of (m, d) \<Rightarrow> \<lparr>dt_year = year, dt_month = m, dt_day = d\<rparr>)"

definition MAX_ORDINAL :: int where
  "MAX_ORDINAL = 3652059"

text \<open>\<^verbatim>\<open>d + timedelta(days=n)\<close> and \<^verbatim>\<open>(a - b).days\<close>.\<close>

definition date_add :: "pydate \<Rightarrow> int \<Rightarrow> py_error + pydate" where
  "date_add d n =
     (let total = date_ordinal d + n
      in if 999999999 < \<bar>n\<bar> \<or> total < 1 \<or> MAX_ORDINAL < total then Inl OverflowError else Inr (date_of_ordinal total))"

definition days_between :: "pydate \<Rightarrow> pydate \<Rightarrow> int" where
  "days_between a b = date_ordinal a - date_ordinal b"

definition date_lt :: "pydate \<Rightarrow> pydate \<Rightarrow> bool" where
  "date_lt a b \<longleftrightarrow> dt_year a < dt_year b \<or> dt_year a = dt_year b \<and> (dt_month a < dt_month b \<or> dt_month a = dt_month b \<and> dt_day a < dt_day b)"

definition date_min :: "pydate \<Rightarrow> pydate \<Rightarrow> pydate" where
  "date_min a b = (if date_lt b a then b else a)"

definition zero_padded :: "nat \<Rightarrow> int \<Rightarrow> string" where
  "zero_padded w n = (let s = str_int n in replicate (w - length s) (CHR ''0'') @ s)"

definition iso_date :: "pydate \<Rightarrow> string" where
  "iso_date d = zero_padded 4 (dt_year d) @ ''-'' @ zero_padded 2 (dt_month d) @ ''-'' @ zero_padded 2 (dt_day d)"

section \<open>An ordinal is that of its date\<close>

lemma month_and_day_ok:
  assumes "0 \<le> n" "n < (if leap then 366 else 365)"
  shows "case month_and_day leap n of (m, d) \<Rightarrow> 1 \<le> m \<and> m \<le> 12 \<and> 1 \<le> d \<and> d \<le> month_days leap m \<and> days_before_month leap m + d = n + 1"
proof -
  have "list_all (\<lambda>n. case month_and_day False n of (m, d) \<Rightarrow> 1 \<le> m \<and> m \<le> 12 \<and> 1 \<le> d \<and> d \<le> month_days False m \<and> days_before_month False m + d = n + 1) [0..364]"
    "list_all (\<lambda>n. case month_and_day True n of (m, d) \<Rightarrow> 1 \<le> m \<and> m \<le> 12 \<and> 1 \<le> d \<and> d \<le> month_days True m \<and> days_before_month True m + d = n + 1) [0..365]"
    by code_simp+
  then show ?thesis using assms by (cases leap) (simp_all add: list_all_iff)
qed


lemma mod_zero_top: "0 < x \<Longrightarrow> x \<le> k \<Longrightarrow> x mod k = 0 \<longleftrightarrow> x = (k :: int)"
  by (cases "x = k") simp_all

lemma year_start:
  assumes "0 \<le> b" "b < 4" "0 \<le> c" "c < 25" "0 \<le> d" "d < (4::int)"
  shows "days_before_year (a * 400 + 1 + b * 100 + c * 4 + d) = 146097 * a + 36524 * b + 1461 * c + 365 * d"
    "is_leap (a * 400 + 1 + b * 100 + c * 4 + d) \<longleftrightarrow> d = 3 \<and> (c \<noteq> 24 \<or> b = 3)"
proof -
  let ?y = "a * 400 + b * 100 + c * 4 + d"
  have "?y div 4 = a * 100 + b * 25 + c" using assms by (intro int_div_pos_eq [of _ _ _ d]) auto
  moreover have "?y div 100 = a * 4 + b" using assms by (intro int_div_pos_eq [of _ _ _ "c * 4 + d"]) auto
  moreover have "?y div 400 = a" using assms by (intro int_div_pos_eq [of _ _ _ "b * 100 + c * 4 + d"]) auto
  ultimately show "days_before_year (a * 400 + 1 + b * 100 + c * 4 + d) = 146097 * a + 36524 * b + 1461 * c + 365 * d"
    by (simp add: days_before_year_def add_ac)
  have "(?y + 1) mod 4 = (d + 1) mod 4" using mod_mult_self3 [of "a * 100 + b * 25 + c" 4 "d + 1"] by (simp add: algebra_simps)
  moreover have "(?y + 1) mod 100 = (c * 4 + d + 1) mod 100"
    using mod_mult_self3 [of "a * 4 + b" 100 "c * 4 + d + 1"] by (simp add: algebra_simps)
  moreover have "(?y + 1) mod 400 = (b * 100 + c * 4 + d + 1) mod 400"
    using mod_mult_self3 [of a 400 "b * 100 + c * 4 + d + 1"] by (simp add: algebra_simps)
  moreover have "(d + 1) mod 4 = 0 \<longleftrightarrow> d = 3" using assms(5,6) by presburger
  moreover have "(c * 4 + d + 1) mod 100 = 0 \<longleftrightarrow> c = 24 \<and> d = 3"
  proof -
    have "0 < c * 4 + d + 1" "c * 4 + d + 1 \<le> 100" using assms by auto
    then have "(c * 4 + d + 1) mod 100 = 0 \<longleftrightarrow> c * 4 + d + 1 = 100" by (rule mod_zero_top)
    then show ?thesis using assms by presburger
  qed
  moreover have "(b * 100 + c * 4 + d + 1) mod 400 = 0 \<longleftrightarrow> b = 3 \<and> c = 24 \<and> d = 3"
  proof -
    have "0 < b * 100 + c * 4 + d + 1" "b * 100 + c * 4 + d + 1 \<le> 400" using assms by auto
    then have "(b * 100 + c * 4 + d + 1) mod 400 = 0 \<longleftrightarrow> b * 100 + c * 4 + d + 1 = 400" by (rule mod_zero_top)
    moreover have "b * 100 + (c * 4 + d) = 399 \<longleftrightarrow> b = 3 \<and> c = 24 \<and> d = 3"
    proof -
      have "c * 4 + d = 99 \<longleftrightarrow> c = 24 \<and> d = 3" using assms(5,6) by presburger
      moreover have "b = 0 \<or> b = 1 \<or> b = 2 \<or> b = 3" using assms(1,2) by auto
      ultimately show ?thesis using assms by auto
    qed
    ultimately show ?thesis by simp
  qed
  ultimately show "is_leap (a * 400 + 1 + b * 100 + c * 4 + d) \<longleftrightarrow> d = 3 \<and> (c \<noteq> 24 \<or> b = 3)"
    by (auto simp: is_leap_def add_ac)
qed


text \<open>The parts an ordinal is split in: cycles of 400, 100 and 4 years, years and days.\<close>

lemma ordinal_parts:
  obtains a b c d r where "a = (n - 1) div 146097" "n - 1 = 146097 * a + 36524 * b + 1461 * c + 365 * d + r"
    "0 \<le> b" "b < 5" "0 \<le> c" "c < 25" "0 \<le> d" "d < 5" "0 \<le> r" "r < 365"
    "36524 * b + 1461 * c + 365 * d + r < 146097" "1461 * c + 365 * d + r < 36524" "365 * d + r < 1461"
    "date_of_ordinal n = (if d = 4 \<or> b = 4 then \<lparr>dt_year = a * 400 + 1 + b * 100 + c * 4 + d - 1, dt_month = 12, dt_day = 31\<rparr>
      else case month_and_day (d = 3 \<and> (c \<noteq> 24 \<or> b = 3)) r of (mo, da) \<Rightarrow> \<lparr>dt_year = a * 400 + 1 + b * 100 + c * 4 + d, dt_month = mo, dt_day = da\<rparr>)"
proof -
  define m where "m = n - 1"
  define a b where "a = m div 146097" and "b = m mod 146097 div 36524"
  define c d where "c = m mod 146097 mod 36524 div 1461" and "d = m mod 146097 mod 36524 mod 1461 div 365"
  define r where "r = m mod 146097 mod 36524 mod 1461 mod 365"
  have m: "n - 1 = 146097 * a + 36524 * b + 1461 * c + 365 * d + r"
    unfolding a_def b_def c_def d_def r_def by (simp add: algebra_simps m_def)
  have below: "x div q < k" if "0 < q" "x < k * q" for x q k :: int
  proof -
    have "x div q * q < k * q" using that pos_mod_sign [of q x] minus_mod_eq_div_mult [of x q] by linarith
    then show ?thesis using that(1) by simp
  qed
  have bounds: "0 \<le> b" "b < 5" "0 \<le> c" "c < 25" "0 \<le> d" "d < 5" "0 \<le> r" "r < 365"
  proof -
    have "0 \<le> m mod 146097" "m mod 146097 < 146097" by simp_all
    then show "0 \<le> b" "b < 5" unfolding b_def by (auto simp: pos_imp_zdiv_nonneg_iff intro!: below)
    have "0 \<le> m mod 146097 mod 36524" "m mod 146097 mod 36524 < 36524" by simp_all
    then show "0 \<le> c" "c < 25" unfolding c_def by (auto simp: pos_imp_zdiv_nonneg_iff intro!: below)
    have "0 \<le> m mod 146097 mod 36524 mod 1461" "m mod 146097 mod 36524 mod 1461 < 1461" by simp_all
    then show "0 \<le> d" "d < 5" unfolding d_def by (auto simp: pos_imp_zdiv_nonneg_iff intro!: below)
    show "0 \<le> r" "r < 365" unfolding r_def by simp_all
  qed
  have rest: "36524 * b + 1461 * c + 365 * d + r < 146097" "1461 * c + 365 * d + r < 36524" "365 * d + r < 1461"
  proof -
    have "m mod 146097 = 36524 * b + 1461 * c + 365 * d + r" "m mod 146097 mod 36524 = 1461 * c + 365 * d + r"
      "m mod 146097 mod 36524 mod 1461 = 365 * d + r"
      unfolding b_def c_def d_def r_def by (simp_all add: algebra_simps)
    then show "36524 * b + 1461 * c + 365 * d + r < 146097" "1461 * c + 365 * d + r < 36524" "365 * d + r < 1461"
      using pos_mod_bound [of 146097 m] pos_mod_bound [of 36524 "m mod 146097"] pos_mod_bound [of 1461 "m mod 146097 mod 36524"] by simp_all
  qed
  have "date_of_ordinal n = (if d = 4 \<or> b = 4 then \<lparr>dt_year = a * 400 + 1 + b * 100 + c * 4 + d - 1, dt_month = 12, dt_day = 31\<rparr>
      else case month_and_day (d = 3 \<and> (c \<noteq> 24 \<or> b = 3)) r of (mo, da) \<Rightarrow> \<lparr>dt_year = a * 400 + 1 + b * 100 + c * 4 + d, dt_month = mo, dt_day = da\<rparr>)"
    unfolding date_of_ordinal_def Let_def a_def b_def c_def d_def r_def m_def ..
  then show ?thesis using that [OF _ m bounds rest] by (simp add: a_def m_def)
qed

lemma ordinal_of_date: "date_ordinal (date_of_ordinal n) = n"
proof (rule ordinal_parts [of n])
  fix a b c d r
  assume m: "n - 1 = 146097 * a + 36524 * b + 1461 * c + 365 * d + r"
    and bounds: "0 \<le> b" "b < 5" "0 \<le> c" "c < 25" "0 \<le> d" "d < 5" "0 \<le> r" "r < 365"
    and rest: "36524 * b + 1461 * c + 365 * d + r < 146097" "1461 * c + 365 * d + r < 36524" "365 * d + r < 1461"
    and date: "date_of_ordinal n = (if d = 4 \<or> b = 4 then \<lparr>dt_year = a * 400 + 1 + b * 100 + c * 4 + d - 1, dt_month = 12, dt_day = 31\<rparr>
      else case month_and_day (d = 3 \<and> (c \<noteq> 24 \<or> b = 3)) r of (mo, da) \<Rightarrow> \<lparr>dt_year = a * 400 + 1 + b * 100 + c * 4 + d, dt_month = mo, dt_day = da\<rparr>)"
  have december: "days_before_month True 12 = 335" by code_simp
  show ?thesis
  proof (cases "b = 4")
    case True
    then have "c = 0" "d = 0" "r = 0" using rest(1) bounds by linarith+
    then show ?thesis unfolding date_ordinal_def date using True year_start [of 3 24 3 a] m december by simp
  next
    case b: False
    show ?thesis
    proof (cases "d = 4")
      case True
      then have "r = 0" "c \<noteq> 24" using rest(2,3) bounds by auto
      then show ?thesis unfolding date_ordinal_def date using True b year_start [of b c 3 a] bounds m december by (simp add: algebra_simps)
    next
      case False
      then have lim: "b < 4" "d < 4" using b bounds by auto
      let ?leap = "d = 3 \<and> (c \<noteq> 24 \<or> b = 3)"
      have "r < (if ?leap then 366 else 365)" using bounds by simp
      moreover have "n = 146097 * a + 36524 * b + 1461 * c + 365 * d + r + 1" using m by simp
      ultimately show ?thesis
        unfolding date_ordinal_def date
        using month_and_day_ok [of r ?leap] year_start [of b c d a] bounds lim b False by (auto split: prod.splits)
    qed
  qed
qed

lemma last_year:
  assumes "0 \<le> a" "a < (25 :: int)" "a = 24 \<Longrightarrow> k \<le> 398" "0 \<le> k" "k < 400"
  shows "1 \<le> a * 400 + 1 + k" "a * 400 + 1 + k \<le> 9999"
  using assms by (cases "a = 24"; simp)+

lemma date_of_ordinal_ok:
  assumes n: "1 \<le> n" "n \<le> MAX_ORDINAL"
  shows "date_ok (date_of_ordinal n)"
proof (rule ordinal_parts [of n])
  fix a b c d r
  assume a: "a = (n - 1) div 146097"
    and m: "n - 1 = 146097 * a + 36524 * b + 1461 * c + 365 * d + r"
    and bounds: "0 \<le> b" "b < 5" "0 \<le> c" "c < 25" "0 \<le> d" "d < 5" "0 \<le> r" "r < 365"
    and rest: "36524 * b + 1461 * c + 365 * d + r < 146097" "1461 * c + 365 * d + r < 36524" "365 * d + r < 1461"
    and date: "date_of_ordinal n = (if d = 4 \<or> b = 4 then \<lparr>dt_year = a * 400 + 1 + b * 100 + c * 4 + d - 1, dt_month = 12, dt_day = 31\<rparr>
      else case month_and_day (d = 3 \<and> (c \<noteq> 24 \<or> b = 3)) r of (mo, da) \<Rightarrow> \<lparr>dt_year = a * 400 + 1 + b * 100 + c * 4 + d, dt_month = mo, dt_day = da\<rparr>)"
  have a: "0 \<le> a" "a < 25"
    using n bounds m unfolding a by (simp_all add: pos_imp_zdiv_nonneg_iff MAX_ORDINAL_def)
  have end_bound: "a = 24 \<Longrightarrow> 36524 * b + 1461 * c + 365 * d + r \<le> 145730"
    using m n by (simp add: MAX_ORDINAL_def)
  show ?thesis
  proof (cases "b = 4")
    case True
    then have "c = 0" "d = 0" "r = 0" using rest(1) bounds by linarith+
    moreover from this True have "a \<noteq> 24" using end_bound by auto
    ultimately show ?thesis unfolding date using True a by (simp add: date_ok_def month_days_def)
  next
    case b: False
    then have b: "b < 4" using bounds by simp
    show ?thesis
    proof (cases "d = 4")
      case True
      then have "r = 0" "c < 24" using rest(2,3) bounds by auto
      then show ?thesis unfolding date using True a b bounds last_year [of a "b * 100 + c * 4 + 3"] by (simp add: date_ok_def month_days_def algebra_simps)
    next
      case False
      then have d: "d < 4" using bounds by simp
      let ?leap = "d = 3 \<and> (c \<noteq> 24 \<or> b = 3)"
      have "b * 100 + c * 4 + d \<le> 398" if "a = 24"
      proof (rule ccontr)
        assume "\<not> b * 100 + c * 4 + d \<le> 398"
        then have "b = 3" using bounds b d by linarith
        moreover from this have "c = 24" using \<open>\<not> b * 100 + c * 4 + d \<le> 398\<close> bounds d by linarith
        moreover from calculation have "d = 3" using \<open>\<not> b * 100 + c * 4 + d \<le> 398\<close> d by linarith
        ultimately show False using end_bound [OF that] bounds by simp
      qed
      then have "1 \<le> a * 400 + 1 + (b * 100 + c * 4 + d)" "a * 400 + 1 + (b * 100 + c * 4 + d) \<le> 9999"
        using a bounds b d last_year [of a "b * 100 + c * 4 + d"] by simp_all
      moreover have "r < (if ?leap then 366 else 365)" using bounds by simp
      ultimately show ?thesis
        unfolding date using month_and_day_ok [of r ?leap] year_start(2) [of b c d a] bounds b d False
        by (auto simp: date_ok_def add.assoc split: prod.splits)
    qed
  qed
qed

lemma date_add_ok: "date_add d n = Inr e \<Longrightarrow> date_ok e"
  by (auto simp: date_add_def Let_def date_of_ordinal_ok split: if_splits)

lemma new_date_ok: "new_date y m d = Some e \<Longrightarrow> date_ok e"
  by (auto simp: new_date_def Let_def split: if_splits)


section \<open>Dates are ordered as their ordinals\<close>

definition year_days :: "int \<Rightarrow> int" where
  "year_days y = (if is_leap y then 366 else 365)"

lemma div_step: "0 < k \<Longrightarrow> y div k = (y - 1) div k + (if y mod k = 0 then 1 else (0 :: int))"
proof -
  assume k: "0 < k"
  show ?thesis
  proof (cases "y mod k = 0")
    case True
    then have "(y - 1) div k = y div k - 1"
      using k mult_div_mod_eq [of k y] by (intro int_div_pos_eq [of _ _ _ "k - 1"]) (simp_all add: algebra_simps)
    then show ?thesis using True by simp
  next
    case False
    then have "0 < y mod k" using pos_mod_sign [OF k, of y] by simp
    then have "(y - 1) div k = y div k"
      using pos_mod_bound [OF k, of y] mult_div_mod_eq [of k y] by (intro int_div_pos_eq [of _ _ _ "y mod k - 1"]) simp_all
    then show ?thesis using False by simp
  qed
qed

lemma next_year: "days_before_year (y + 1) = days_before_year y + year_days y"
proof -
  let ?n = "\<lambda>k. if y mod k = 0 then 1 else (0 :: int)"
  have d: "y div 4 = (y - 1) div 4 + ?n 4" "y div 100 = (y - 1) div 100 + ?n 100" "y div 400 = (y - 1) div 400 + ?n 400"
    by (rule div_step, simp)+
  have main: "days_before_year (y + 1) = days_before_year y + 365 + ?n 4 - ?n 100 + ?n 400"
  proof -
    have "y * 365 + q - r + s = (y - 1) * 365 + q' - r' + s' + 365 + i - j + k"
      if "q = q' + i" "r = r' + j" "s = s' + k" for q r s q' r' s' i j k :: int using that by simp
    from this [OF d] show ?thesis unfolding days_before_year_def add_diff_cancel_right' .
  qed
  have leap: "y mod 100 = 0 \<Longrightarrow> y mod 4 = 0" "y mod 400 = 0 \<Longrightarrow> y mod 100 = 0"
    using mod_mod_cancel [of 4 100 y] mod_mod_cancel [of 100 400 y] by simp_all
  have cases: "v = u + (if p \<and> (\<not> q \<or> r) then 366 else 365)"
    if "v = u + 365 + (if p then 1 else 0) - (if q then 1 else 0) + (if r then 1 else 0)" "q \<Longrightarrow> p" "r \<Longrightarrow> q" for p q r and u v :: int
    using that by auto
  show ?thesis unfolding year_days_def is_leap_def by (rule cases [OF main leap])
qed

lemma later_year: "y < z \<Longrightarrow> days_before_year y + year_days y \<le> days_before_year z"
proof (induction z rule: int_gr_induct [where k = y])
  case base
  then show ?case by (simp add: next_year)
next
  case (step z)
  then show ?case using next_year [of z] by (simp add: year_days_def)
qed

lemma day_of_year:
  assumes "date_ok d"
  shows "1 \<le> days_before_month (is_leap (dt_year d)) (dt_month d) + dt_day d
    \<and> days_before_month (is_leap (dt_year d)) (dt_month d) + dt_day d \<le> year_days (dt_year d)"
proof -
  have "list_all (\<lambda>l. list_all (\<lambda>m. 0 \<le> days_before_month l m \<and> days_before_month l m + month_days l m \<le> (if l then 366 else 365)) [1..12]) [True, False]"
    by code_simp
  then have "0 \<le> days_before_month l m \<and> days_before_month l m + month_days l m \<le> (if l then 366 else 365)" if "1 \<le> m" "m \<le> 12" for l m
    using that by (cases l) (simp_all add: list_all_iff)
  from this [of "dt_month d" "is_leap (dt_year d)"] show ?thesis using assms by (simp add: date_ok_def year_days_def split: if_splits)
qed

lemma later_month:
  assumes "1 \<le> m" "m < k" "k \<le> 12"
  shows "days_before_month l m + month_days l m \<le> days_before_month l k"
proof -
  have "list_all (\<lambda>l. list_all (\<lambda>m. list_all (\<lambda>k. m < k \<longrightarrow> days_before_month l m + month_days l m \<le> days_before_month l k) [1..12]) [1..12]) [True, False]"
    by code_simp
  then show ?thesis using assms by (cases l) (simp_all add: list_all_iff)
qed

lemma date_lt_ordinal_1:
  assumes "date_ok a" "date_ok b" "date_lt a b"
  shows "date_ordinal a < date_ordinal b"
proof -
  note days = day_of_year [OF assms(1)] day_of_year [OF assms(2)]
  consider "dt_year a < dt_year b" | "dt_year a = dt_year b" "dt_month a < dt_month b"
    | "dt_year a = dt_year b" "dt_month a = dt_month b" "dt_day a < dt_day b"
    using assms(3) by (auto simp: date_lt_def)
  then show ?thesis
  proof cases
    case 1
    then show ?thesis using later_year [of "dt_year a" "dt_year b"] days by (simp add: date_ordinal_def)
  next
    case 2
    then show ?thesis using later_month [of "dt_month a" "dt_month b" "is_leap (dt_year b)"] assms(1,2)
      by (simp add: date_ordinal_def date_ok_def)
  qed (simp add: date_ordinal_def)
qed

lemma date_lt_ordinal: "date_ok a \<Longrightarrow> date_ok b \<Longrightarrow> date_lt a b \<longleftrightarrow> date_ordinal a < date_ordinal b"
proof
  assume ok: "date_ok a" "date_ok b" and less: "date_ordinal a < date_ordinal b"
  show "date_lt a b"
  proof (rule ccontr)
    assume "\<not> date_lt a b"
    then have "date_lt b a \<or> a = b" by (auto simp: date_lt_def not_less order_le_less)
    then show False using date_lt_ordinal_1 [OF ok(2,1)] less by auto
  qed
qed (rule date_lt_ordinal_1)

lemma days_between_iff: "date_ok a \<Longrightarrow> date_ok b \<Longrightarrow> date_lt a b \<longleftrightarrow> days_between a b < 0"
  by (simp add: days_between_def date_lt_ordinal)

end
