(* ===== verification/Calibration.thy ===== *)
theory Calibration
  imports Py_Date Py_Float_Ops
begin

text \<open>
  The calibration check, \<^verbatim>\<open>4ce/tools/calibration.py\<close>: a register is read from a table or a sentence to instruments, each
  is placed in time against its due date and its as-found error compared with its tolerance, and the rows give a
  disposition and a report. Patterns and words are matched with ASCII case; the two forms of the letter omega and the
  ohm sign are written out. Numbers are doubles; today's date is an argument, and status events are returned beside the text.
\<close>

section \<open>Reading dates, intervals and quantities\<close>

definition MONTHS :: "(string \<times> int) list" where
  "MONTHS = [(''january'', 1), (''february'', 2), (''march'', 3), (''april'', 4), (''may'', 5), (''june'', 6), (''july'', 7),
     (''august'', 8), (''september'', 9), (''october'', 10), (''november'', 11), (''december'', 12),
     (''jan'', 1), (''feb'', 2), (''mar'', 3), (''apr'', 4), (''jun'', 6), (''jul'', 7), (''aug'', 8), (''sep'', 9), (''oct'', 10),
     (''nov'', 11), (''dec'', 12), (''sept'', 9)]"

definition DATE_TOKEN :: string where
  \<open>DATE_TOKEN = (''(?:~d{4}[-/.]~d{1,2}[-/.]~d{1,2}|~d{1,2}[-/.]~d{1,2}[-/.]~d{2,4}|~d{1,2}~s+[A-Za-z]{3,9}~.?~s+~d'' @
     ''{4}|[A-Za-z]{3,9}~.?~s+~d{1,2},?~s+~d{4})'')\<close>

definition UNIT :: string where
  \<open>UNIT = ''%~s*(?:of~s*)?(?:fs|span|full[~s-]?scale)?'' @ ''|~u00b0~s*[cfk]'' @ ''|deg(?:rees)?~s*[cfk]~b'' @ ''|mm~s*/~s*s|mm~b''
     @ ''|mbar~b|bar~b|psig~b|psia~b|psi~b'' @ ''|(?:k|m|M)?(?:~u03c9|~u03a9|~u2126|ohms?)~b'' @ ''|kpa~b|mpa~b|hpa~b|~bpa~b''
     @ ''|~bma~b|~bmv~b|~bv~b|~bhz~b|rpm~b'' @ ''|~bK~b''\<close>

definition QUANTITY :: string where
  \<open>QUANTITY = ''([+-]?)~s*(~d+(?:~.~d+)?)~s*('' @ UNIT @ '')''\<close>

definition INTERVAL :: re where
  \<open>INTERVAL = rx (''(~d+(?:~.~d+)?)~s*-?~s*(months?|mo~b|years?|yrs?|weeks?|days?|annual|annually|yearly|quarterly|s'' @
     ''emi[~s-]?annual|monthly)'')\<close>

definition squeeze :: "string \<Rightarrow> string" where
  \<open>squeeze s = re_sub no_flags (rx ''~s+'') '' '' s\<close>

definition make_date :: "int \<Rightarrow> int option \<Rightarrow> int \<Rightarrow> pydate option" where
  "make_date year month day = (case month of
      None \<Rightarrow> None
    | Some m \<Rightarrow> if m = 0 then None else new_date year m day)"

text \<open>The three groups of a date in one of its four forms.\<close>

definition date_parts :: "re \<Rightarrow> string \<Rightarrow> (string \<times> string \<times> string) option" where
  "date_parts r s = map_option (\<lambda>h. (hit_text (codes_of s) h 1, hit_text (codes_of s) h 2, hit_text (codes_of s) h 3)) (re_match no_flags r s)"

definition numeric_date :: "bool \<Rightarrow> int \<Rightarrow> int \<Rightarrow> int \<Rightarrow> pydate option" where
  "numeric_date day_first one two given =
     (let year = (if given < 100 then given + 2000 else given)
      in if day_first \<and> two \<le> 12 then make_date year (Some two) one
         else if 12 < one \<and> two \<le> 12 then make_date year (Some two) one
         else make_date year (Some one) two)"

definition parse_date :: "bool \<Rightarrow> string \<Rightarrow> pydate option" where
  \<open>parse_date day_first s =
     (let v = filter (\<lambda>c. c \<noteq> CHR '','') (squeeze (py_strip s)) in
      if v = [] then None
      else case date_parts (rx ''^(~d{4})[-/.](~d{1,2})[-/.](~d{1,2})$'') v of
        Some (y, m, d) \<Rightarrow> make_date (int_of_digits y) (Some (int_of_digits m)) (int_of_digits d)
      | None \<Rightarrow>
      case date_parts (rx ''^(~d{1,2})[-/.](~d{1,2})[-/.](~d{2,4})$'') v of
        Some (a, b, y) \<Rightarrow> numeric_date day_first (int_of_digits a) (int_of_digits b) (int_of_digits y)
      | None \<Rightarrow>
      case date_parts (rx ''^(~d{1,2})~s+([A-Za-z]+)~.?~s+(~d{4})$'') v of
        Some (d, m, y) \<Rightarrow> make_date (int_of_digits y) (map_of MONTHS (py_lower m)) (int_of_digits d)
      | None \<Rightarrow>
      case date_parts (rx ''^([A-Za-z]+)~.?~s+(~d{1,2})~s+(~d{4})$'') v of
        Some (m, d, y) \<Rightarrow> make_date (int_of_digits y) (map_of MONTHS (py_lower m)) (int_of_digits d)
      | None \<Rightarrow> None)\<close>

definition dates_in :: "bool \<Rightarrow> string \<Rightarrow> pydate list" where
  "dates_in day_first s = List.map_filter (parse_date day_first) (re_findall no_flags (rx DATE_TOKEN) 0 s)"

definition first_date :: "bool \<Rightarrow> string \<Rightarrow> pydate option" where
  "first_date day_first s = (case dates_in day_first s of d # _ \<Rightarrow> Some d | [] \<Rightarrow> None)"

text \<open>The words of an interval, longest first, each with the pattern that finds it as a word of its own.\<close>

definition INTERVAL_WORDS :: "(re \<times> int \<times> int) list" where
  \<open>INTERVAL_WORDS = [(rx ''(?<![~w-])semi-annual(?![~w-])'', 6, 0), (rx ''(?<![~w-])semi annual(?![~w-])'', 6, 0), (rx ''(?<![~w-])quarterly(?![~w-])'', 3, 0),
     (rx ''(?<![~w-])annually(?![~w-])'', 12, 0), (rx ''(?<![~w-])monthly(?![~w-])'', 1, 0), (rx ''(?<![~w-])annual(?![~w-])'', 12, 0), (rx ''(?<![~w-])yearly(?![~w-])'', 12, 0)]\<close>

definition stated_interval :: "string \<Rightarrow> pyfloat \<Rightarrow> py_error + (int \<times> int) option" where
  "stated_interval unit amount =
     (if starts_with unit ''year'' \<or> starts_with unit ''yr'' then map_sum id (\<lambda>n. Some (n, 0)) (pf_round (pf_mul amount (Fin 12)))
      else if starts_with unit ''week'' then map_sum id (\<lambda>n. Some (0, n)) (pf_round (pf_mul amount (Fin 7)))
      else if starts_with unit ''day'' then map_sum id (\<lambda>n. Some (0, n)) (pf_round amount)
      else map_sum id (\<lambda>n. Some (n, 0)) (pf_round amount))"

definition parse_interval :: "string \<Rightarrow> py_error + (int \<times> int) option" where
  \<open>parse_interval s =
     (let v = py_strip s; lowered = squeeze (py_lower v) in
      if v = [] then Inr None
      else case find (\<lambda>(r, months, days). found_in no_flags r lowered) INTERVAL_WORDS of
        Some (r, months, days) \<Rightarrow> Inr (Some (months, days))
      | None \<Rightarrow>
      case re_search flag_i INTERVAL lowered of
        Some h \<Rightarrow> stated_interval (hit_text (codes_of lowered) h 2) (float_text (hit_text (codes_of lowered) h 1))
      | None \<Rightarrow>
        if re_match no_flags (rx ''~d+(?:~.~d+)?~Z'') v \<noteq> None then map_sum id (\<lambda>n. Some (n, 0)) (pf_round (float_text v)) else Inr None)\<close>

definition UNIT_KINDS :: "(string \<times> string) list" where
  "UNIT_KINDS = [(''mm'', ''mm''), (''bar'', ''bar''), (''mbar'', ''mbar''), (''pa'', ''Pa''), (''hpa'', ''hPa''),
     (''kpa'', ''kPa''), (''mpa'', ''MPa''), (''psi'', ''psi''), (''psig'', ''psig''), (''psia'', ''psia''),
     (''ma'', ''mA''), (''mv'', ''mV''), (''v'', ''V''), (''hz'', ''Hz''), (''rpm'', ''rpm'')]"

definition ohm_prefix :: "string \<Rightarrow> string option" where
  \<open>ohm_prefix unit = match_group flag_i (rx ''([kKmM]?)(?:~u03c9|~u03a9|~u2126|ohms?)~Z'') 1 unit\<close>

definition named_kind :: "string \<Rightarrow> string \<Rightarrow> string" where
  \<open>named_kind unit lower =
     (if lower \<in> set [''k'', lit ''~u00b0k'', ''degk'', ''degreek'', ''degreesk''] then ''K''
      else case ohm_prefix unit of
        Some p \<Rightarrow> (if p = [] then ''Ohm'' else if p = ''m'' then ''mOhm'' else if p = ''M'' then ''MOhm'' else ''kOhm'')
      | None \<Rightarrow> if lower = ''mm/s'' then ''mm/s'' else case map_of UNIT_KINDS lower of Some k \<Rightarrow> k | None \<Rightarrow> unit)\<close>

definition unit_kind :: "string \<Rightarrow> string" where
  \<open>unit_kind raw =
     (let unit = re_sub no_flags (rx ''~s+'') [] (py_strip raw); lower = py_lower unit in
      if starts_with lower ''%'' then ''percent''
      else if (starts_with lower (lit ''~u00b0'') \<or> starts_with lower ''deg'') \<and> ends_with lower ''c'' then lit ''~u00b0C''
      else if (starts_with lower (lit ''~u00b0'') \<or> starts_with lower ''deg'') \<and> ends_with lower ''f'' then lit ''~u00b0F''
      else if (starts_with lower (lit ''~u00b0'') \<or> starts_with lower ''deg'') \<and> ends_with lower ''k'' then ''K''
      else named_kind unit lower)\<close>

type_synonym quantity = "pyfloat \<times> string"

definition parse_quantity :: "string \<Rightarrow> quantity option" where
  "parse_quantity s = (case re_search flag_i (rx QUANTITY) s of
      None \<Rightarrow> None
    | Some h \<Rightarrow>
        (let part = hit_text (codes_of s) h
         in Some (pf_mul (if part 1 = ''-'' then Fin (-1) else Fin 1) (float_text (part 2)), unit_kind (part 3))))"

definition quantity_text :: "quantity \<Rightarrow> string" where
  "quantity_text q = (if pf_lt (Fin 0) (fst q) then ''+'' else []) @ fmt_g (fst q) @ '' '' @ snd q"


section \<open>The register\<close>

definition CAL_COLUMNS :: "(string \<times> string list) list" where
  "CAL_COLUMNS = [
     (''instrument'', [''instrument'', ''instrument tag'', ''tag no'', ''tag'', ''device'', ''gauge'',
        ''transmitter'', ''asset id'', ''asset'', ''id'']),
     (''parameter'', [''parameter'', ''service'', ''measurement'', ''function'', ''variable'']),
     (''last_cal'', [''last calibration date'', ''last calibration'', ''last cal date'', ''last cal'',
        ''calibration date'', ''calibrated on'', ''calibrated'', ''cal date'']),
     (''interval'', [''recalibration interval'', ''calibration interval'', ''interval'', ''period'',
        ''frequency'', ''recalibration'']),
     (''due'', [''next calibration date'', ''next calibration'', ''next cal date'', ''next cal'',
        ''calibration due date'', ''calibration due'', ''valid until'', ''due date'',
        ''due'', ''expiry date'', ''expiry'', ''expires'']),
     (''tolerance'', [''acceptance tolerance'', ''tolerance'', ''accuracy'', ''acceptance'', ''permitted'', ''limit'']),
     (''as_found'', [''as found error'', ''as found'', ''found error'', ''error'']),
     (''as_left'', [''as left error'', ''as left'']),
     (''uncertainty'', [''measurement uncertainty'', ''reference uncertainty'', ''uncertainty'', ''tur'']),
     (''certificate'', [''certificate no'', ''certificate'', ''cert no'', ''cert'', ''report''])]"

definition HEADER_REJECTS :: "re list" where
  \<open>HEADER_REJECTS = [rx ''~bref~b'', rx ''~breference~b'', rx ''~bstandard~b'', rx ''~bmanufacturer~b'', rx ''~bmodel~b'', rx ''~bserial~b'', rx ''~bcertificate~b'', rx ''~breport~b'']\<close>

record instrument =
  in_tag :: string
  in_parameter :: string
  in_last_cal :: "pydate option"
  in_due :: "pydate option"
  in_interval :: "(int \<times> int) option"
  in_tolerance :: "quantity option"
  in_tolerance_text :: string
  in_as_found :: "quantity option"
  in_as_found_text :: string
  in_as_left :: "quantity option"
  in_as_left_text :: string
  in_uncertainty :: "quantity option"
  in_uncertainty_text :: string
  in_certificate :: string
  in_notes :: "string list"
  in_unreadable :: "string list"

definition is_separator :: "string \<Rightarrow> bool" where
  \<open>is_separator line \<longleftrightarrow> re_match no_flags (rx ''^~|?~s*:?-{2,}'') (py_strip line) \<noteq> None\<close>

definition normalise_header :: "string \<Rightarrow> string" where
  \<open>normalise_header v =
     py_strip (squeeze (re_sub no_flags (rx ''[^a-z0-9]+'') '' '' (map (\<lambda>c. if c = CHR ''-'' then CHR '' '' else c) (py_lower v))))\<close>

type_synonym rank = "nat \<times> nat \<times> nat"

definition header_rank :: "string \<Rightarrow> string \<Rightarrow> rank option" where
  "header_rank header phrase =
     (let n = length (words_of phrase); l = py_len phrase in
      if header = phrase then Some (3, n, l)
      else if starts_with header (phrase @ '' '') \<or> ends_with header ('' '' @ phrase) then Some (2, n, l)
      else if contains ('' '' @ header @ '' '') ('' '' @ phrase @ '' '') then Some (1, n, l)
      else None)"

definition rank_less :: "rank \<Rightarrow> rank \<Rightarrow> bool" where
  "rank_less = (\<lambda>(a, b, c) (d, e, f). a < d \<or> a = d \<and> (b < e \<or> b = e \<and> c < f))"

definition better_rank :: "rank option \<Rightarrow> rank option \<Rightarrow> rank option" where
  "better_rank best new = (case (best, new) of
      (_, None) \<Rightarrow> best
    | (None, Some r) \<Rightarrow> Some r
    | (Some b, Some r) \<Rightarrow> if rank_less b r then Some r else Some b)"

type_synonym column_match = "rank \<times> string \<times> nat"

definition match_of :: "string \<Rightarrow> string list \<Rightarrow> nat \<times> string \<Rightarrow> column_match list" where
  "match_of key phrases = (\<lambda>(position, name).
     if key = ''instrument'' \<and> list_ex (\<lambda>r. found_in no_flags r name) HEADER_REJECTS then []
     else case foldl (\<lambda>best phrase. better_rank best (header_rank name phrase)) None phrases of
       None \<Rightarrow> [] | Some r \<Rightarrow> [(r, key, position)])"

definition column_matches :: "string list \<Rightarrow> column_match list" where
  "column_matches header = concat (map (\<lambda>(key, phrases). concat (map (match_of key phrases) (enumerate 0 header))) CAL_COLUMNS)"

text \<open>\<^verbatim>\<open>sort(key=..., reverse=True)\<close>: best first, equals in their order.\<close>

fun insert_match :: "column_match \<Rightarrow> column_match list \<Rightarrow> column_match list" where
  "insert_match c [] = [c]"
| "insert_match c (x # xs) = (if rank_less (fst c) (fst x) then x # insert_match c xs else c # x # xs)"

definition assign_column :: "nat pydict \<Rightarrow> column_match \<Rightarrow> nat pydict" where
  "assign_column columns = (\<lambda>(r, key, position).
     if dict_get columns key \<noteq> None \<or> position \<in> set (map snd columns) then columns else dict_set key position columns)"

definition match_columns :: "string list \<Rightarrow> nat pydict" where
  "match_columns header = foldl assign_column [] (foldr insert_match (column_matches header) [])"

definition bar_parts :: "string \<Rightarrow> string list" where
  "bar_parts line = split_on (CHR ''|'') (strip_if (\<lambda>c. c = CHR ''|'') line)"

definition cell_at :: "nat pydict \<Rightarrow> string list \<Rightarrow> string \<Rightarrow> string" where
  "cell_at columns cells key = (case dict_get columns key of
      Some n \<Rightarrow> if n < length cells then py_strip (cells ! n) else []
    | None \<Rightarrow> [])"

definition quote :: "string \<Rightarrow> string" where
  "quote s = CHR 0x27 # s @ [CHR 0x27]"

definition no_columns :: "nat \<Rightarrow> py_error + string + 'a" where
  "no_columns index = Inr (Inl (''line '' @ str_nat (index + 1)
     @ '': table skipped - it has no instrument column and calibration date or due date.''))"

definition unread_note :: "string \<Rightarrow> bool \<Rightarrow> string \<Rightarrow> string list" where
  "unread_note said missing note = (if said \<noteq> [] \<and> missing then [note] else [])"

definition default_interval :: "(int \<times> int) option \<Rightarrow> pydate option \<Rightarrow> int \<Rightarrow> (int \<times> int) option" where
  "default_interval interval due months = (if interval = None \<and> due = None \<and> 0 < months then Some (months, 0) else interval)"

definition instrument_from_cells :: "bool \<Rightarrow> int \<Rightarrow> string \<Rightarrow> string list \<Rightarrow> nat pydict \<Rightarrow> py_error + instrument" where
  "instrument_from_cells day_first months tag cells columns =
     (let cell = cell_at columns cells; last = first_date day_first (cell ''last_cal''); due = first_date day_first (cell ''due'')
      in map_sum id (\<lambda>interval.
        \<lparr>in_tag = tag, in_parameter = cell ''parameter'', in_last_cal = last, in_due = due,
         in_interval = default_interval interval due months,
         in_tolerance = parse_quantity (cell ''tolerance''), in_tolerance_text = cell ''tolerance'',
         in_as_found = parse_quantity (cell ''as_found''), in_as_found_text = cell ''as_found'',
         in_as_left = parse_quantity (cell ''as_left''), in_as_left_text = cell ''as_left'',
         in_uncertainty = parse_quantity (cell ''uncertainty''), in_uncertainty_text = cell ''uncertainty'',
         in_certificate = cell ''certificate'',
         in_notes =
           unread_note (cell ''last_cal'') (last = None)
             (tag @ '': the last calibration date '' @ quote (cell ''last_cal'') @ '' could not be read; give a real date.'')
           @ unread_note (cell ''due'') (due = None) (tag @ '': the due date '' @ quote (cell ''due'') @ '' could not be read; give a real date.'')
           @ unread_note (cell ''interval'') (interval = None)
             (tag @ '': the interval '' @ quote (cell ''interval'') @ '' could not be read; state it in months or days.''),
         in_unreadable = unread_note (cell ''last_cal'') (last = None) ''last calibration date''
           @ unread_note (cell ''due'') (due = None) ''due date''\<rparr>)
        (parse_interval (cell ''interval'')))"

text \<open>A row of a table: an instrument, or the reason why it was skipped. Line numbers count from one.\<close>

type_synonym register_line = "string + instrument"

definition register_row :: "bool \<Rightarrow> int \<Rightarrow> nat pydict \<Rightarrow> nat \<Rightarrow> nat \<Rightarrow> string \<Rightarrow> py_error + register_line" where
  \<open>register_row day_first months columns column position line =
     (let cells = map py_strip (bar_parts line) in
      if length cells \<le> column
      then Inr (Inl (''line '' @ str_nat (position + 1) @ '': '' @ str_nat (length cells) @ '' cell(s), but the instrument column is '' @ str_nat (column + 1) @ ''.''))
      else let tag = py_strip (re_sub no_flags (rx ''[*_`]'') [] (cells ! column)) in
        if tag = [] \<or> re_match no_flags (rx ''[-: ]+~Z'') tag \<noteq> None
        then Inr (Inl (''line '' @ str_nat (position + 1) @ '': no instrument tag.''))
        else map_sum id Inr (instrument_from_cells day_first months tag cells columns))\<close>

text \<open>The rows of one table, and the place where the scan goes on with the lines left there.\<close>

fun register_rows :: "(nat \<Rightarrow> string \<Rightarrow> py_error + register_line) \<Rightarrow> nat \<Rightarrow> string list \<Rightarrow> (py_error + register_line) list \<times> nat \<times> string list" where
  "register_rows row position [] = ([], position, [])"
| "register_rows row position (raw # rest) =
     (let line = py_strip raw in
      if line = [] then register_rows row (position + 1) rest
      else if \<not> starts_with line ''|'' then ([], position, raw # rest)
      else if rest \<noteq> [] \<and> is_separator (hd rest) then ([], position, raw # rest)
      else case register_rows row (position + 1) rest of (rows, next, left) \<Rightarrow> (row position line # rows, next, left))"

lemma register_rows_shorter: "length (snd (snd (register_rows row position ls))) \<le> length ls"
proof (induction ls arbitrary: position)
  case (Cons raw rest)
  from Cons [of "position + 1"] show ?case by (auto simp: Let_def split: prod.splits)
qed simp

record register_scan =
  rs_table :: bool
  rs_lines :: "(py_error + register_line) list"

definition table_header :: "string \<Rightarrow> nat pydict" where
  "table_header line = match_columns (map normalise_header (bar_parts (py_strip line)))"

function scan_tables :: "bool \<Rightarrow> int \<Rightarrow> nat \<Rightarrow> string list \<Rightarrow> register_scan" where
  "scan_tables day_first months index (title # sep # rest) =
     (if starts_with (py_strip title) ''|'' \<and> is_separator sep
      then let columns = table_header title in
        (case dict_get columns ''instrument'' of
           Some column \<Rightarrow>
             if dict_get columns ''last_cal'' \<noteq> None \<or> dict_get columns ''due'' \<noteq> None
             then (case register_rows (register_row day_first months columns column) (index + 2) rest of
               (rows, next, left) \<Rightarrow> \<lparr>rs_table = True, rs_lines = rows @ rs_lines (scan_tables day_first months next left)\<rparr>)
             else \<lparr>rs_table = True, rs_lines = no_columns index # rs_lines (scan_tables day_first months (index + 1) (sep # rest))\<rparr>
         | None \<Rightarrow> \<lparr>rs_table = True, rs_lines = no_columns index # rs_lines (scan_tables day_first months (index + 1) (sep # rest))\<rparr>)
      else scan_tables day_first months (index + 1) (sep # rest))"
| "scan_tables day_first months index [] = \<lparr>rs_table = False, rs_lines = []\<rparr>"
| "scan_tables day_first months index [line] = \<lparr>rs_table = False, rs_lines = []\<rparr>"
  by pat_completeness auto
termination
proof (relation "measure (\<lambda>(d, m, i, ls). length ls)")
  fix day_first months index title sep rest columns column rows x y after left
  assume "(rows, y) = register_rows (register_row day_first months columns column) (index + 2) rest" "(after, left) = y"
  then have "length left \<le> length rest" using register_rows_shorter by (metis snd_conv)
  then show "((day_first, months, after, left), day_first, months, index, title # sep # rest) \<in> measure (\<lambda>(d, m, i, ls). length ls)" by simp
qed auto


section \<open>One instrument in a sentence\<close>

definition labelled_date :: "bool \<Rightarrow> string \<Rightarrow> string \<Rightarrow> pydate option" where
  \<open>labelled_date day_first label t =
     (case re_search flag_i (rx (label @ ''~s*(?:on|date)?~s*[:=]?~s*'' @ DATE_TOKEN)) t of
        None \<Rightarrow> None
      | Some h \<Rightarrow>
          (let said = hit_text (codes_of t) h 0 in
           case search_group no_flags (rx DATE_TOKEN) 0 said of None \<Rightarrow> None | Some token \<Rightarrow> parse_date day_first token))\<close>

definition labelled_quantity :: "string \<Rightarrow> string \<Rightarrow> string" where
  \<open>labelled_quantity label t =
     (case re_search flag_i (rx (''('' @ label @ ''~s*(?:error)?~s*[:=]?~s*(?:~u00b1|~+/-)?~s*'' @ QUANTITY @ '')'')) t of
        None \<Rightarrow> []
      | Some h \<Rightarrow>
          (case search_group flag_i (rx (''(?:~u00b1|~+/-)?~s*'' @ QUANTITY)) 0 (hit_text (codes_of t) h 1) of
             None \<Rightarrow> [] | Some q \<Rightarrow> py_strip q))\<close>

definition prose_tag :: "string \<Rightarrow> string" where
  \<open>prose_tag t =
     (let tag = (case search_group flag_i (rx (''(?:instrument|tag|device|gauge|transmitter|sensor)~s*(?:id|no~.?|number|#)?~s*[:=]?~s*([A-Z]{1,4'' @
     ''}[- ]?~d{1,4}[A-Z]?)'')) 1 t of
          Some g \<Rightarrow> re_sub no_flags (rx ''~s+'') ''-'' (py_upper (py_strip g))
        | None \<Rightarrow> (case search_group no_flags (rx ''~b([A-Z]{1,4}-~d{1,4}[A-Z]?)~b'') 1 t of Some g \<Rightarrow> g | None \<Rightarrow> ''instrument''))
      in if CHR ''-'' \<notin> set tag \<and> re_match no_flags (rx ''[A-Z]{1,4}~d{1,4}[A-Z]?~Z'') tag \<noteq> None
         then re_sub_with no_flags (rx ''^([A-Z]{1,4})(~d)'') (\<lambda>cs h. hit_text cs h 1 @ ''-'' @ hit_text cs h 2) tag
         else tag)\<close>

definition parse_prose :: "bool \<Rightarrow> int \<Rightarrow> string \<Rightarrow> py_error + instrument option" where
  \<open>parse_prose day_first months t =
     (let dates = dates_in day_first t;
          last = labelled_date day_first (''(?:last~s+calibrated|last~s+calibration|calibrated~s+on|cal~.?~s*date)'') t;
          due = labelled_date day_first (''(?:next~s+calibration|calibration~s+due|~bdue~b|expires?)'') t;
          tol = labelled_quantity (''tol(?:erance)?'') t; found = labelled_quantity (''as[~s-]?found(?:~s+error)?'') t;
          left = labelled_quantity (''as[~s-]?left(?:~s+error)?'') t; unc = labelled_quantity (''(?:reference~s+)?uncertainty'') t
      in map_sum id (\<lambda>stated.
        let interval = default_interval stated due months;
            unlabelled = (last = None \<and> due = None);
            last_cal = (if unlabelled \<and> length dates = 1 \<and> interval \<noteq> None then Some (hd dates) else last)
        in if unlabelled \<and> last_cal = None then None
           else Some \<lparr>in_tag = prose_tag t,
             in_parameter = (case search_group flag_i (rx ''(?:parameter|measures|measuring|service|function)~s*[:=]?~s*([A-Za-z][^,;.~n]{1,40})'') 1 t of
                 Some g \<Rightarrow> py_strip g | None \<Rightarrow> []),
             in_last_cal = last_cal, in_due = due, in_interval = interval,
             in_tolerance = parse_quantity tol, in_tolerance_text = tol, in_as_found = parse_quantity found, in_as_found_text = found,
             in_as_left = parse_quantity left, in_as_left_text = left, in_uncertainty = parse_quantity unc, in_uncertainty_text = unc,
             in_certificate = (case search_group flag_i (rx ''cert(?:ificate)?~s*(?:no~.?|number|#)?~s*[:=]?~s*([A-Z0-9][A-Z0-9/-]{2,})'') 1 t of
                 Some g \<Rightarrow> g | None \<Rightarrow> []),
             in_notes = [], in_unreadable = []\<rparr>)
        (parse_interval t))\<close>

record register_parse =
  rg_instruments :: "instrument list"
  rg_skipped :: "string list"
  rg_rows_read :: nat
  rg_table :: bool

definition parse_table_report :: "bool \<Rightarrow> int \<Rightarrow> string \<Rightarrow> py_error + register_parse" where
  "parse_table_report day_first months t =
     (let scan = scan_tables day_first months 0 (split_lines t)
      in map_sum id (\<lambda>ls.
        let found = List.map_filter (case_sum (\<lambda>_. None) Some) ls
        in \<lparr>rg_instruments = found, rg_skipped = List.map_filter (case_sum Some (\<lambda>_. None)) ls,
            rg_rows_read = length found, rg_table = rs_table scan\<rparr>)
        (try_all id (rs_lines scan)))"

definition parse_register_report :: "bool \<Rightarrow> int \<Rightarrow> string \<Rightarrow> py_error + register_parse" where
  "parse_register_report day_first months t = (case parse_table_report day_first months t of
      Inl e \<Rightarrow> Inl e
    | Inr report \<Rightarrow>
        if rg_instruments report \<noteq> [] \<or> rg_table report then Inr report
        else map_sum id (\<lambda>prose. case prose of
            Some x \<Rightarrow> \<lparr>rg_instruments = [x], rg_skipped = [], rg_rows_read = 0, rg_table = False\<rparr>
          | None \<Rightarrow> report) (parse_prose day_first months t))"

definition parse_register :: "bool \<Rightarrow> int \<Rightarrow> string \<Rightarrow> py_error + instrument list" where
  "parse_register day_first months t = map_sum id rg_instruments (parse_register_report day_first months t)"

definition parse_register_table :: "bool \<Rightarrow> int \<Rightarrow> string \<Rightarrow> py_error + instrument list" where
  "parse_register_table day_first months t = map_sum id rg_instruments (parse_table_report day_first months t)"

section \<open>Assessing an instrument\<close>

datatype cal_status = VALID | DUE_SOON | PAST_DUE_GRACE | OVERDUE | NO_DATA | CAL_AFTER_READING

datatype tolerance_verdict = NOT_RECORDED | IN_TOLERANCE | OUT_OF_TOLERANCE | NO_TOLERANCE | NOT_COMPARABLE | UNREADABLE

record cal_valves =
  cv_due_soon_days :: int
  cv_grace_days :: int
  cv_default_interval_months :: int
  cv_day_first :: bool
  cv_tur_min :: pyfloat

definition default_cal_valves :: cal_valves where
  "default_cal_valves = \<lparr>cv_due_soon_days = 30, cv_grace_days = 0, cv_default_interval_months = 0, cv_day_first = True, cv_tur_min = Fin 4\<rparr>"

text \<open>A due date computed from an interval: the same day of the later month, or the last day it has.\<close>

definition add_offset :: "pydate \<Rightarrow> int \<Rightarrow> int \<Rightarrow> py_error + pydate" where
  "add_offset start months days =
     (let month0 = dt_month start - 1 + months; year = dt_year start + month0 div 12; month = month0 mod 12 + 1
      in case new_date year month (min (dt_day start) (month_days (is_leap year) month)) of
           None \<Rightarrow> Inl (if year < - (2 ^ 31) \<or> 2 ^ 31 \<le> year then OverflowError else ValueError)
         | Some d \<Rightarrow> date_add d days)"

definition computed_due :: "instrument \<Rightarrow> py_error + pydate option" where
  "computed_due x = (case (in_last_cal x, in_interval x) of
      (Some calibrated, Some (months, days)) \<Rightarrow> map_sum id Some (add_offset calibrated months days)
    | _ \<Rightarrow> Inr None)"

definition disagree :: "pydate option \<Rightarrow> pydate option \<Rightarrow> bool" where
  "disagree stated computed = (case (stated, computed) of (Some a, Some b) \<Rightarrow> 1 < \<bar>days_between a b\<bar> | _ \<Rightarrow> False)"

definition chosen_due :: "pydate option \<Rightarrow> pydate option \<Rightarrow> pydate option" where
  "chosen_due stated computed = (case (stated, computed) of
      (Some a, Some b) \<Rightarrow> Some (if disagree stated computed then date_min a b else a)
    | (Some a, None) \<Rightarrow> Some a
    | (None, c) \<Rightarrow> c)"

definition due_notes :: "string \<Rightarrow> pydate option \<Rightarrow> pydate option \<Rightarrow> string list" where
  \<open>due_notes tag stated computed = (case (stated, computed) of
      (Some a, Some b) \<Rightarrow> if disagree stated computed
        then [tag @ '': the register's due date '' @ iso_date a @ '' is '' @ str_int \<bar>days_between a b\<bar> @ '' days from the date its interval gives ('' @ iso_date b
              @ ''). One of the two is wrong and the register should be corrected.'']
        else []
    | _ \<Rightarrow> [])\<close>

text \<open>\<^verbatim>\<open>dict.fromkeys\<close>: each text once, in the order of its first occurrence.\<close>

definition remdups_first :: "string list \<Rightarrow> string list" where
  "remdups_first xs = rev (remdups (rev xs))"

record placement =
  pl_status :: cal_status
  pl_text :: string
  pl_action :: string
  pl_days :: "int option"

definition place :: "cal_valves \<Rightarrow> string list \<Rightarrow> pydate \<Rightarrow> pydate option \<Rightarrow> placement" where
  \<open>place v unreadable when due = (case due of
      None \<Rightarrow> \<lparr>pl_status = NO_DATA, pl_text = ''NO DATA'',
        pl_action = (if unreadable \<noteq> [] then ''Supply a readable '' @ join_with '' and '' (remdups_first unreadable) @ '' before relying on a reading.''
          else ''Record the last calibration date and interval, or the due date, before relying on a reading.''), pl_days = None\<rparr>
    | Some d \<Rightarrow>
        (let days = days_between d when; grace = max 0 (cv_grace_days v) in
         if days < - grace
         then \<lparr>pl_status = OVERDUE, pl_text = ''OVERDUE ('' @ str_int \<bar>days\<bar> @ '' d past)'',
           pl_action = ''Remove from service and recalibrate. Readings taken after '' @ iso_date d @ '' have no calibration behind them.'', pl_days = Some days\<rparr>
         else if days < 0
         then \<lparr>pl_status = PAST_DUE_GRACE, pl_text = ''PAST DUE ('' @ str_int \<bar>days\<bar> @ '' d, in grace)'',
           pl_action = ''Calibration expired '' @ iso_date d @ ''. Authorise and record the extension, and recalibrate before the next reading.'', pl_days = Some days\<rparr>
         else if days \<le> max 0 (cv_due_soon_days v)
         then \<lparr>pl_status = DUE_SOON, pl_text = ''DUE SOON ('' @ str_int days @ '' d)'',
           pl_action = ''Schedule recalibration before '' @ iso_date d @ ''.'', pl_days = Some days\<rparr>
         else \<lparr>pl_status = VALID, pl_text = ''VALID ('' @ str_int days @ '' d)'', pl_action = [], pl_days = Some days\<rparr>))\<close>

definition after_reading :: "pydate option \<Rightarrow> pydate \<Rightarrow> placement \<Rightarrow> placement" where
  \<open>after_reading calibrated when pl = (case calibrated of
      None \<Rightarrow> pl
    | Some l \<Rightarrow> if \<not> date_lt when l then pl
        else pl\<lparr>pl_status := CAL_AFTER_READING,
           pl_text := ''CAL AFTER READING (last cal '' @ iso_date l @ '', '' @ str_int (days_between l when) @ '' d after)'',
           pl_action := ''Supply the previous calibration, the one in force on '' @ iso_date when @ ''; the '' @ iso_date l
             @ '' calibration was performed after the reading and cannot show what was valid then.''\<rparr>)\<close>

definition also_do :: "string \<Rightarrow> string \<Rightarrow> string" where
  "also_do action further = (if action \<noteq> [] then action @ '' '' else []) @ further"


text \<open>What the checks below work on.\<close>

record working =
  wk_text :: string
  wk_found :: string
  wk_verdict :: tolerance_verdict
  wk_action :: string
  wk_doubt :: string
  wk_notes :: "string list"

definition found_text :: "instrument \<Rightarrow> string" where
  "found_text x = (case in_as_found x of
      Some q \<Rightarrow> or_text (in_as_found_text x) (quantity_text q)
    | None \<Rightarrow> or_text (in_as_found_text x) ''not recorded'')"

definition unreadable_values :: "instrument \<Rightarrow> (string \<times> string) list" where
  "unreadable_values x =
     (if in_as_found_text x \<noteq> [] \<and> in_as_found x = None then [(''as-found error'', in_as_found_text x)] else [])
     @ (if in_tolerance_text x \<noteq> [] \<and> in_tolerance x = None then [(''tolerance'', in_tolerance_text x)] else [])"

text \<open>\<^verbatim>\<open>abs(value) > abs(limit) + 1e-9\<close>.\<close>

definition beyond :: "pyfloat \<Rightarrow> pyfloat \<Rightarrow> bool" where
  "beyond v limit \<longleftrightarrow> pf_lt (pf_add (pf_abs limit) (float_of False (1 / 10 ^ 9))) (pf_abs v)"

definition inside_limit :: "pyfloat \<Rightarrow> pyfloat \<Rightarrow> bool" where
  "inside_limit v limit \<longleftrightarrow> pf_le (pf_abs v) (pf_add (pf_abs limit) (float_of False (1 / 10 ^ 9)))"

definition doubt_window :: "instrument \<Rightarrow> string \<Rightarrow> string" where
  \<open>doubt_window x found = ''as-found '' @ found @ '' against '' @ in_tolerance_text x
     @ ''; the doubtful window runs from the previous in-tolerance calibration (date not in this register) ''
     @ (case in_last_cal x of
          Some d \<Rightarrow> ''up to the as-found calibration on '' @ iso_date d
        | None \<Rightarrow> ''up to the as-found calibration (date not in this register)'')
     @ ''. Supply that previous date to bound the impact assessment.''\<close>

definition as_left_check :: "instrument \<Rightarrow> quantity \<Rightarrow> working \<Rightarrow> working" where
  \<open>as_left_check x limit w = (case in_as_left x of
      None \<Rightarrow> w
    | Some q \<Rightarrow>
        (let said = or_text (in_as_left_text x) (quantity_text q) in
         if snd q = snd limit \<and> inside_limit (fst q) (fst limit)
         then (if wk_verdict w = IN_TOLERANCE \<and> wk_action w = []
               then w\<lparr>wk_action := ''Return to service: as-left is within tolerance.''\<rparr>
               else w\<lparr>wk_notes := wk_notes w @ [in_tag x @ '': as-left '' @ said
                 @ '' is within tolerance, so it may return to service once the results above are dispositioned.'']\<rparr>)
         else w\<lparr>wk_notes := wk_notes w @ [in_tag x @ '': as-left '' @ said
           @ '' is not shown within tolerance, so it has not been returned to service by this record.'']\<rparr>))\<close>

definition compare_found :: "instrument \<Rightarrow> quantity \<Rightarrow> quantity \<Rightarrow> working \<Rightarrow> working" where
  \<open>compare_found x found limit w =
     (if snd found \<noteq> snd limit
      then w\<lparr>wk_verdict := NOT_COMPARABLE,
        wk_action := also_do (wk_action w) ''State the tolerance and the as-found error in the same unit so the acceptance can be checked.'',
        wk_notes := wk_notes w @ [in_tag x @ '': the tolerance is in '' @ snd limit @ '' and the as-found error in '' @ snd found
          @ ''. They cannot be compared - state both in the same unit, or the acceptance check cannot be made.'']\<rparr>
      else if beyond (fst found) (fst limit)
      then as_left_check x limit (w\<lparr>wk_verdict := OUT_OF_TOLERANCE, wk_doubt := doubt_window x (wk_found w)\<rparr>)
      else as_left_check x limit (w\<lparr>wk_verdict := IN_TOLERANCE\<rparr>))\<close>

definition check_tolerance :: "instrument \<Rightarrow> working \<Rightarrow> working" where
  \<open>check_tolerance x w =
     (if unreadable_values x \<noteq> []
      then w\<lparr>wk_verdict := UNREADABLE, wk_found := wk_found w @ '' (unreadable)'', wk_text := wk_text w @ '', UNREADABLE'',
        wk_notes := wk_notes w @ map (\<lambda>(name, raw). in_tag x @ '': the '' @ name @ '' '' @ quote raw
          @ lit ('' could not be read; give a number with a recognised unit (for example ~u00b10.5% FS or ~u00b12 '' @
     ''~u00b0C).'')) (unreadable_values x),
        wk_action := also_do (wk_action w) ''State the as-found error and the tolerance with recognised units so the acceptance can be checked.''\<rparr>
      else case (in_as_found x, in_tolerance x) of
        (Some found, None) \<Rightarrow> w\<lparr>wk_verdict := NO_TOLERANCE, wk_found := wk_found w @ '' (no tolerance to compare)'',
          wk_action := also_do (wk_action w) ''Record the acceptance tolerance so the as-found result can be checked.''\<rparr>
      | (Some found, Some limit) \<Rightarrow> compare_found x found limit w
      | _ \<Rightarrow> w)\<close>

definition uncertainty_notes :: "cal_valves \<Rightarrow> instrument \<Rightarrow> string list" where
  \<open>uncertainty_notes v x =
     (if in_uncertainty_text x \<noteq> [] \<and> in_uncertainty x = None
      then [in_tag x @ '': the reference uncertainty '' @ quote (in_uncertainty_text x) @ '' could not be read, so the TUR was not computed.'']
      else case (in_uncertainty x, in_tolerance x) of
        (Some (u, kind), Some (limit, limit_kind)) \<Rightarrow>
          (if kind \<noteq> limit_kind
           then [in_tag x @ '': the uncertainty is in '' @ kind @ '' and the tolerance in '' @ limit_kind
             @ ''; the TUR cannot be compared until both are in the same unit.'']
           else if \<not> nonzero u
           then [in_tag x @ ('': the reference standard's uncertainty is zero, so the TUR cannot be computed; a '' @
     ''zero-uncertainty reference cannot prove the tolerance.'')]
           else let ratio = pf_div (pf_abs limit) (pf_abs u) in
             if pf_lt ratio (cv_tur_min v)
             then [in_tag x @ '': the reference standard's uncertainty is '' @ fmt_fixed_float 1 ratio @ '':1 against the tolerance, below the ''
               @ fmt_g (cv_tur_min v) @ '':1 a calibration should hold. The pass or fail is weaker than it looks.'']
             else [])
      | _ \<Rightarrow> [])\<close>

definition limit_text :: "instrument \<Rightarrow> string" where
  "limit_text x = or_text (in_tolerance_text x) (case in_tolerance x of Some q \<Rightarrow> quantity_text q | None \<Rightarrow> [])"

definition conclude :: "instrument \<Rightarrow> cal_status \<Rightarrow> working \<Rightarrow> working" where
  \<open>conclude x status w = (case wk_verdict w of
      OUT_OF_TOLERANCE \<Rightarrow> w\<lparr>wk_text := (if status \<noteq> OVERDUE then wk_text w @ '', as-found OOT'' else wk_text w),
        wk_found := wk_found w @ '' (outside '' @ limit_text x @ '')'',
        wk_action := also_do (wk_action w) (if status = OVERDUE
          then ''Raise an out-of-tolerance record and assess every result produced since the last in-tolerance check.''
          else ''Raise an out-of-tolerance record, remove the instrument from service, and assess every result produced since the last in-tolerance check.'')\<rparr>
    | IN_TOLERANCE \<Rightarrow> w\<lparr>wk_found := wk_found w @ '' (within '' @ limit_text x @ '')''\<rparr>
    | NOT_COMPARABLE \<Rightarrow> w\<lparr>wk_found := wk_found w @ '' (tolerance in a different unit)''\<rparr>
    | _ \<Rightarrow> w)\<close>

record cal_row =
  cr_tag :: string
  cr_parameter :: string
  cr_last_cal :: "pydate option"
  cr_due :: "pydate option"
  cr_status :: cal_status
  cr_text :: string
  cr_found :: string
  cr_verdict :: tolerance_verdict
  cr_action :: string
  cr_doubt :: string
  cr_notes :: "string list"
  cr_days :: "int option"
  cr_unreadable :: "string list"

definition lapse_doubt :: "cal_status \<Rightarrow> pydate option \<Rightarrow> pydate \<Rightarrow> string \<Rightarrow> string" where
  \<open>lapse_doubt status due when doubt = (case due of
      Some d \<Rightarrow> if status = OVERDUE \<and> doubt = []
        then ''no calibration was current between '' @ iso_date d @ '' and '' @ iso_date when @ '', so any reading taken in that window has no calibration behind it.''
        else doubt
    | None \<Rightarrow> doubt)\<close>

definition assess_instrument :: "cal_valves \<Rightarrow> pydate \<Rightarrow> instrument \<Rightarrow> py_error + cal_row" where
  "assess_instrument v when x = map_sum id (\<lambda>computed.
     let due = chosen_due (in_due x) computed;
         pl = after_reading (in_last_cal x) when (place v (in_unreadable x) when due);
         w0 = \<lparr>wk_text = pl_text pl, wk_found = found_text x, wk_verdict = NOT_RECORDED, wk_action = pl_action pl, wk_doubt = [],
               wk_notes = in_notes x @ due_notes (in_tag x) (in_due x) computed\<rparr>;
         w1 = check_tolerance x w0;
         w2 = w1\<lparr>wk_doubt := lapse_doubt (pl_status pl) due when (wk_doubt w1), wk_notes := wk_notes w1 @ uncertainty_notes v x\<rparr>;
         w3 = conclude x (pl_status pl) w2
     in \<lparr>cr_tag = in_tag x, cr_parameter = in_parameter x, cr_last_cal = in_last_cal x, cr_due = due, cr_status = pl_status pl,
         cr_text = wk_text w3, cr_found = wk_found w3, cr_verdict = wk_verdict w3, cr_action = wk_action w3, cr_doubt = wk_doubt w3,
         cr_notes = wk_notes w3, cr_days = pl_days pl, cr_unreadable = in_unreadable x\<rparr>) (computed_due x)"

section \<open>The check\<close>

definition unproven :: "cal_row \<Rightarrow> bool" where
  "unproven r \<longleftrightarrow> cr_verdict r \<in> {NO_TOLERANCE, NOT_COMPARABLE, UNREADABLE}"

definition due_soon :: "cal_row \<Rightarrow> bool" where
  "due_soon r \<longleftrightarrow> cr_status r \<in> {DUE_SOON, PAST_DUE_GRACE}"

definition current :: "cal_row \<Rightarrow> bool" where
  "current r \<longleftrightarrow> cr_status r \<in> {VALID, DUE_SOON} \<and> cr_verdict r \<in> {NOT_RECORDED, IN_TOLERANCE}"

definition with_status :: "cal_status \<Rightarrow> cal_row list \<Rightarrow> cal_row list" where
  "with_status st rows = filter (\<lambda>r. cr_status r = st) rows"

definition out_of_tolerance :: "cal_row list \<Rightarrow> cal_row list" where
  "out_of_tolerance rows = filter (\<lambda>r. cr_verdict r = OUT_OF_TOLERANCE) rows"

definition unreadable_dates :: "cal_row list \<Rightarrow> cal_row list" where
  "unreadable_dates rows = filter (\<lambda>r. cr_unreadable r \<noteq> []) rows"

definition cal_disposition :: "string list \<Rightarrow> cal_row list \<Rightarrow> string" where
  "cal_disposition skipped rows =
     (if out_of_tolerance rows \<noteq> [] then ''OUT OF TOLERANCE - RESULTS IN DOUBT''
      else if with_status OVERDUE rows \<noteq> [] then ''OUT OF CALIBRATION - RESULTS IN DOUBT''
      else if with_status NO_DATA rows \<noteq> [] \<or> filter unproven rows \<noteq> [] \<or> with_status CAL_AFTER_READING rows \<noteq> []
        \<or> unreadable_dates rows \<noteq> [] \<or> skipped \<noteq> [] then ''CHECK INCOMPLETE''
      else if filter due_soon rows \<noteq> [] then ''CALIBRATION DUE''
      else ''ALL CURRENT'')"

definition counted :: "nat \<Rightarrow> string \<Rightarrow> string list" where
  "counted n what = (if n \<noteq> 0 then [str_nat n @ what] else [])"

definition plural_s :: "nat \<Rightarrow> string" where
  "plural_s n = (if n \<noteq> 1 then ''s'' else [])"

definition cal_headline :: "string list \<Rightarrow> cal_row list \<Rightarrow> string" where
  "cal_headline skipped rows =
     (let oot = length (out_of_tolerance rows);
          parts = counted oot ('' instrument'' @ plural_s oot @ '' out of tolerance'')
            @ counted (length (with_status OVERDUE rows)) '' out of calibration''
            @ counted (length (with_status NO_DATA rows)) '' with no calibration date''
            @ counted (length (filter unproven rows)) '' with an as-found result that cannot be checked''
            @ counted (length (with_status CAL_AFTER_READING rows)) '' calibrated after the reading date''
            @ counted (length (unreadable_dates rows)) '' with an unreadable date''
            @ counted (length skipped) ('' register row'' @ plural_s (length skipped) @ '' skipped'')
            @ counted (length (filter due_soon rows)) '' due for recalibration''
      in if parts = [] then ''No calibration problems for the '' @ str_nat (length rows) @ '' instrument'' @ plural_s (length rows) @ '' assessed.''
         else ''**Attention required:** '' @ join_with ''; '' parts @ ''.'')"

definition iso_or_dash :: "pydate option \<Rightarrow> string" where
  "iso_or_dash d = (case d of Some x \<Rightarrow> iso_date x | None \<Rightarrow> ''-'')"

definition row_line :: "cal_row \<Rightarrow> string" where
  "row_line r = ''| '' @ cr_tag r @ '' | '' @ or_text (cr_parameter r) ''-'' @ '' | '' @ iso_or_dash (cr_last_cal r) @ '' | '' @ iso_or_dash (cr_due r)
     @ '' | '' @ cr_text r @ '' | '' @ cr_found r @ '' | '' @ cr_action r @ '' |''"

definition skip_report :: "register_parse \<Rightarrow> string" where
  "skip_report g = ''**'' @ str_nat (rg_rows_read g) @ '' rows read, '' @ str_nat (length (rg_skipped g)) @ '' skipped.**''"

text \<open>The results in doubt: an instrument is named once, the first time it has a doubt.\<close>

fun doubt_lines :: "string list \<Rightarrow> cal_row list \<Rightarrow> string list" where
  "doubt_lines seen [] = []"
| "doubt_lines seen (r # rs) =
     (if cr_tag r \<in> set seen \<or> cr_doubt r = [] then doubt_lines seen rs
      else (''- **'' @ cr_tag r @ ''** - '' @ cr_doubt r) # doubt_lines (cr_tag r # seen) rs)"

definition headed :: "string \<Rightarrow> string list \<Rightarrow> string list" where
  "headed title ls = (if ls \<noteq> [] then [[], title, []] @ ls else [])"

definition cal_report :: "cal_valves \<Rightarrow> pydate \<Rightarrow> register_parse \<Rightarrow> cal_row list \<Rightarrow> string" where
  \<open>cal_report v when g rows =
     (let oot = out_of_tolerance rows; overdue = with_status OVERDUE rows
      in join_with nl (
        [''## Calibration check - as of '' @ iso_date when, [], cal_headline (rg_skipped g) rows, [],
         ''| Instrument | Parameter | Last cal | Due | Status | As-found | Action |'', ''|---|---|---|---|---|---|---|'']
        @ map row_line rows
        @ (if rg_table g then [[], skip_report g] @ (if rg_skipped g \<noteq> [] then [] # map (\<lambda>why. ''- '' @ why) (rg_skipped g) else []) else [])
        @ headed ''### Required actions'' (map (\<lambda>r. ''- **'' @ cr_tag r @ ''** - '' @ cr_action r) (filter (\<lambda>r. cr_action r \<noteq> []) rows))
        @ (if oot \<noteq> [] \<or> overdue \<noteq> [] then [[], ''### Results in doubt'', []] @ doubt_lines [] (oot @ overdue) else [])
        @ headed ''### Register notes'' (map (\<lambda>n. ''- '' @ n) (concat (map cr_notes rows)))
        @ [[], ''**Disposition: '' @ cal_disposition (rg_skipped g) rows @ ''**'']
        @ (if oot \<noteq> [] then [lit (''~n> An as-found error outside tolerance means the instrument was wrong while its calibration '' @
     ''was still current. The results it produced inside the look-back windows above cannot be '' @
     ''released on their own evidence; an out-of-tolerance record and an impact assessment are '' @
     ''required before they are used again.'')]
           else if overdue \<noteq> [] then [lit (''~n> A lapsed calibration is not a finding about the instrument's accuracy - nothing has been '' @
     ''measured to show it wrong. It is a finding about the evidence: readings taken after the due '' @
     ''date have no calibration behind them and cannot be relied on until the instrument is '' @
     ''recalibrated.'')]
           else [])
        @ (if with_status NO_DATA rows \<noteq> [] then [lit (''~n> One or more instruments could not be placed in time, so this is not an all-clear. Supply '' @
     ''the missing last-calibration date or interval and re-run before releasing the readings.'')] else [])
        @ (if cv_grace_days v \<noteq> 0 then [lit ''~n*An extension of up to '' @ str_int (cv_grace_days v) @ ('' days past the due date is allowed by the configuration. A reading inside that window is '' @
     ''reported as PAST DUE (GRACE), not valid, and the extension must be authorised and recorded.*'')] else [])
        @ [lit ''~n*Assessed at '' @ iso_date when @ ('' against the dates and tolerances supplied. Due dates are the stated due date, or the last '' @
     ''calibration plus the stated interval. The comparison is arithmetic performed on this machine - '' @
     ''no model judged whether an instrument was in tolerance. An in-date instrument can still fail '' @
     ''as-found; a current sticker does not prove the readings were right.*'')]))\<close>

definition cal_emit :: "string \<Rightarrow> bool \<Rightarrow> json" where
  "cal_emit description finished = JObj [(''type'', JStr ''status''), (''data'', JObj [(''action'', JStr ''calibration''),
     (''description'', JStr description), (''done'', JBool finished)])]"

definition assessment_date :: "cal_valves \<Rightarrow> pydate \<Rightarrow> string \<Rightarrow> pydate option" where
  "assessment_date v today as_of = (if py_strip as_of = [] then Some today else parse_date (cv_day_first v) (py_strip as_of))"

definition check_calibration :: "cal_valves \<Rightarrow> pydate \<Rightarrow> string \<Rightarrow> string \<Rightarrow> json list \<times> (py_error + string)" where
  \<open>check_calibration v today register as_of =
     (let t = py_strip register; opening = cal_emit ''Checking instrument calibration'' False in
      if t = [] then ([opening, cal_emit ''No register supplied'' True],
        Inr (''No calibration register was supplied, so no instrument was checked. Pass the register as a '' @
     ''table with the instrument, its last calibration date (or due date) and, where known, its '' @
     ''interval, tolerance and as-found error.''))
      else case assessment_date v today as_of of
        None \<Rightarrow> ([opening, cal_emit ''Assessment date could not be read'' True],
          Inr (''The assessment date `'' @ as_of @ (''` could not be read. Give it as YYYY-MM-DD, DD/MM/YYYY or "14 March 2026". Nothing was '' @
     ''assessed, because the wrong date would make every validity answer wrong.'')))
      | Some when \<Rightarrow> (case parse_register_report (cv_day_first v) (cv_default_interval_months v) t of
          Inl e \<Rightarrow> ([opening], Inl e)
        | Inr g \<Rightarrow>
            if rg_instruments g = [] then ([opening, cal_emit ''No instruments found'' True],
              Inr ((''No instruments could be read from that. Supply a table whose first line is a heading with an '' @
     ''instrument column and a calibration-date or due-date column, and one row per instrument - for '' @
     ''example: `| Instrument | Parameter | Last cal | Interval | Tolerance | As-found |`. Nothing was '' @
     ''assessed rather than guessing which column meant what.'')
                @ (if rg_table g then nl @ nl @ skip_report g else [])))
            else (case try_all (assess_instrument v when) (rg_instruments g) of
              Inl e \<Rightarrow> ([opening], Inl e)
            | Inr rows \<Rightarrow> ([opening, cal_emit (str_nat (length (filter current rows)) @ ''/'' @ str_nat (length rows) @ '' instruments current'') True],
                Inr (cal_report v when g rows)))))\<close>

section \<open>The columns of a register\<close>

lemma rank_less_order: "\<not> rank_less a a" "\<not> rank_less a b \<Longrightarrow> \<not> rank_less b c \<Longrightarrow> \<not> rank_less a c" "rank_less a b \<Longrightarrow> \<not> rank_less b a"
  by (auto simp: rank_less_def split: prod.splits)

lemma set_insert_match [simp]: "set (insert_match c cs) = insert c (set cs)"
  by (induction cs) auto

lemma insert_match_sorted:
  "sorted_wrt (\<lambda>a b. \<not> rank_less (fst a) (fst b)) cs \<Longrightarrow> sorted_wrt (\<lambda>a b. \<not> rank_less (fst a) (fst b)) (insert_match c cs)"
proof (induction cs)
  case (Cons x xs)
  show ?case
  proof (cases "rank_less (fst c) (fst x)")
    case True
    then show ?thesis using Cons by (simp add: rank_less_order(3))
  next
    case False
    then show ?thesis using Cons.prems by (simp add: rank_less_order(2) [OF False])
  qed
qed simp

lemma matches_sorted:
  "set (foldr insert_match cs []) = set cs" "sorted_wrt (\<lambda>a b. \<not> rank_less (fst a) (fst b)) (foldr insert_match cs [])"
  by (induction cs) (simp_all add: insert_match_sorted)

lemma no_key: "dict_get d k = None \<longleftrightarrow> k \<notin> fst ` set d"
  by (auto simp: dict_get_def map_of_eq_None_iff)

lemma assign_column_cases:
  "assign_column columns (r, key, position) =
     (if key \<in> fst ` set columns \<or> position \<in> snd ` set columns then columns else columns @ [(key, position)])"
proof (cases "key \<in> fst ` set columns")
  case True
  then show ?thesis by (auto simp: assign_column_def no_key)
next
  case False
  moreover from this have "dict_set key position columns = columns @ [(key, position)]" by (simp add: dict_set_absent no_key)
  ultimately show ?thesis by (auto simp: assign_column_def no_key)
qed

lemma assigned_kept: "set columns \<subseteq> set (foldl assign_column columns cs)"
proof (induction cs arbitrary: columns)
  case (Cons c cs)
  from Cons [of "assign_column columns c"] show ?case by (cases c) (auto simp: assign_column_cases split: if_splits)
qed simp

lemma assigned_once:
  "distinct (map fst columns) \<Longrightarrow> distinct (map snd columns) \<Longrightarrow>
   distinct (map fst (foldl assign_column columns cs)) \<and> distinct (map snd (foldl assign_column columns cs))"
proof (induction cs arbitrary: columns)
  case (Cons c cs)
  show ?case using Cons.prems by (cases c) (auto simp: assign_column_cases intro!: Cons.IH [THEN conjunct1] Cons.IH [THEN conjunct2])
qed simp

lemma assigned_from: "(k, p) \<in> set (foldl assign_column columns cs) \<Longrightarrow> (k, p) \<in> set columns \<or> (\<exists>r. (r, k, p) \<in> set cs)"
proof (induction cs arbitrary: columns)
  case (Cons c cs)
  have "(k, p) \<in> set (assign_column columns c) \<or> (\<exists>r. (r, k, p) \<in> set cs)" using Cons.IH Cons.prems by simp
  moreover have "(k, p) \<in> set columns \<or> (fst c, k, p) = c" if "(k, p) \<in> set (assign_column columns c)"
    using that by (cases c) (auto simp: assign_column_cases split: if_splits)
  ultimately show ?case using list.set_intros by metis
qed simp

lemma assigned_blocks:
  assumes "sorted_wrt (\<lambda>a b. \<not> rank_less (fst a) (fst b)) cs" "set cs \<subseteq> S"
    "\<forall>(k, p)\<in>set columns. \<exists>r. (r, k, p) \<in> S \<and> (\<forall>c\<in>set cs. \<not> rank_less r (fst c))" "(r', k', p') \<in> set cs"
  shows "\<exists>r k p. (k, p) \<in> set (foldl assign_column columns cs) \<and> (r, k, p) \<in> S \<and> \<not> rank_less r r' \<and> (k = k' \<or> p = p')"
  using assms
proof (induction cs arbitrary: columns)
  case (Cons c cs)
  obtain r k p where c: "c = (r, k, p)" by (cases c)
  let ?new = "assign_column columns c"
  show ?case
  proof (cases "(r', k', p') \<in> set cs")
    case True
    have "\<exists>r k p. (k, p) \<in> set (foldl assign_column ?new cs) \<and> (r, k, p) \<in> S \<and> \<not> rank_less r r' \<and> (k = k' \<or> p = p')"
    proof (rule Cons.IH)
      show "\<forall>(k, p)\<in>set ?new. \<exists>r. (r, k, p) \<in> S \<and> (\<forall>c\<in>set cs. \<not> rank_less r (fst c))"
      proof
        fix e assume e: "e \<in> set ?new"
        show "case e of (k, p) \<Rightarrow> \<exists>r. (r, k, p) \<in> S \<and> (\<forall>c\<in>set cs. \<not> rank_less r (fst c))"
        proof (cases "e \<in> set columns")
          case True
          then show ?thesis using Cons.prems(3) by fastforce
        next
          case False
          then have "e = (k, p)" using e by (auto simp: c assign_column_cases split: if_splits)
          moreover have "(r, k, p) \<in> S \<and> (\<forall>c\<in>set cs. \<not> rank_less r (fst c))" using Cons.prems(1,2) by (simp add: c)
          ultimately show ?thesis by (simp only: prod.case) (rule exI)
        qed
      qed
    qed (use Cons.prems True in auto)
    then show ?thesis by simp
  next
    case False
    then have same: "r' = r" "k' = k" "p' = p" using Cons.prems(4) c by auto
    have "(k, p) \<in> set (foldl assign_column columns (c # cs))" if "k \<notin> fst ` set columns" "p \<notin> snd ` set columns"
      using that assigned_kept [of ?new cs] by (simp add: c assign_column_cases)
    moreover have "\<exists>r1 k1 p1. (k1, p1) \<in> set (foldl assign_column columns (c # cs)) \<and> (r1, k1, p1) \<in> S \<and> \<not> rank_less r1 r \<and> (k1 = k \<or> p1 = p)"
      if e: "(k1, p1) \<in> set columns" "k1 = k \<or> p1 = p" for k1 p1
    proof -
      obtain r1 where "(r1, k1, p1) \<in> S" "\<not> rank_less r1 r" using Cons.prems(3) e(1) c by fastforce
      then show ?thesis using e assigned_kept [of columns "c # cs"] by blast
    qed
    moreover have "(r, k, p) \<in> S" using Cons.prems(2) by (simp add: c)
    moreover have "\<exists>k1 p1. (k1, p1) \<in> set columns \<and> (k1 = k \<or> p1 = p)" if "k \<in> fst ` set columns \<or> p \<in> snd ` set columns"
      using that by force
    ultimately show ?thesis unfolding same using rank_less_order(1) [of r] by blast
  qed
qed simp

lemma match_bounds:
  assumes "(r, k, p) \<in> set (column_matches header)"
  shows "k \<in> fst ` set CAL_COLUMNS" "p < length header"
    "k = ''instrument'' \<Longrightarrow> \<not> list_ex (\<lambda>w. found_in no_flags w (header ! p)) HEADER_REJECTS"
proof -
  obtain k0 phrases p0 name where k0: "(k0, phrases) \<in> set CAL_COLUMNS" "(p0, name) \<in> set (enumerate 0 header)"
    "(r, k, p) \<in> set (match_of k0 phrases (p0, name))"
    using assms unfolding column_matches_def by auto
  moreover from k0(3) have "k0 = k" "p0 = p" by (auto simp: match_of_def split: if_splits option.splits)
  ultimately have "(k, phrases) \<in> set CAL_COLUMNS" "(p, name) \<in> set (enumerate 0 header)" "(r, k, p) \<in> set (match_of k phrases (p, name))"
    by simp_all
  then show "k \<in> fst ` set CAL_COLUMNS" "p < length header"
    "k = ''instrument'' \<Longrightarrow> \<not> list_ex (\<lambda>w. found_in no_flags w (header ! p)) HEADER_REJECTS"
    by (force simp: in_set_enumerate_eq match_of_def split: if_splits)+
qed

text \<open>C32: The columns of a register table are matched one to one: no key and no heading is used twice, every key is a known
  one and every position a heading, the instrument column is never one that names a reference, a maker, a certificate or
  the like, and the most specific match comes first: whenever a heading fits a key, that key or that heading has been
  given to a match at least as specific.
\<close>

theorem columns_matched:
  "distinct (map fst (match_columns header)) \<and> distinct (map snd (match_columns header))
   \<and> list_all (\<lambda>(k, p). k \<in> fst ` set CAL_COLUMNS \<and> p < length header
       \<and> \<not> (k = ''instrument'' \<and> list_ex (\<lambda>w. found_in no_flags w (header ! p)) HEADER_REJECTS)) (match_columns header)
   \<and> list_all (\<lambda>(r', k', p'). \<exists>r k p. (k, p) \<in> set (match_columns header) \<and> (r, k, p) \<in> set (column_matches header)
       \<and> \<not> rank_less r r' \<and> (k = k' \<or> p = p')) (column_matches header)"
proof (intro conjI)
  let ?cs = "foldr insert_match (column_matches header) []"
  show "distinct (map fst (match_columns header))" "distinct (map snd (match_columns header))"
    unfolding match_columns_def using assigned_once [of "[]" ?cs] by simp_all
  show "list_all (\<lambda>(k, p). k \<in> fst ` set CAL_COLUMNS \<and> p < length header
       \<and> \<not> (k = ''instrument'' \<and> list_ex (\<lambda>w. found_in no_flags w (header ! p)) HEADER_REJECTS)) (match_columns header)"
    unfolding list_all_iff
  proof clarify
    fix k p assume "(k, p) \<in> set (match_columns header)"
    then obtain r where "(r, k, p) \<in> set (column_matches header)"
      using assigned_from [of k p "[]" ?cs] by (auto simp: match_columns_def matches_sorted)
    from match_bounds [OF this] show "k \<in> fst ` set CAL_COLUMNS \<and> p < length header
      \<and> \<not> (k = ''instrument'' \<and> list_ex (\<lambda>w. found_in no_flags w (header ! p)) HEADER_REJECTS)" by blast
  qed
  show "list_all (\<lambda>(r', k', p'). \<exists>r k p. (k, p) \<in> set (match_columns header) \<and> (r, k, p) \<in> set (column_matches header)
       \<and> \<not> rank_less r r' \<and> (k = k' \<or> p = p')) (column_matches header)"
    unfolding list_all_iff
  proof clarify
    fix r1 r2 r3 k' p' assume "((r1, r2, r3), k', p') \<in> set (column_matches header)"
    then show "\<exists>r k p. (k, p) \<in> set (match_columns header) \<and> (r, k, p) \<in> set (column_matches header) \<and> \<not> rank_less r (r1, r2, r3) \<and> (k = k' \<or> p = p')"
      unfolding match_columns_def by (intro assigned_blocks) (simp_all add: matches_sorted)
  qed
qed


section \<open>The rows of a table\<close>

lemma rows_accounted:
  "register_rows row position ls = (rows, after, left) \<Longrightarrow>
   \<exists>taken. ls = taken @ left \<and> after = position + length taken
     \<and> rows = map (\<lambda>(i, l). row i (py_strip l)) (filter (\<lambda>(i, l). py_strip l \<noteq> []) (enumerate position taken))
     \<and> list_all (\<lambda>l. py_strip l = [] \<or> starts_with (py_strip l) ''|'') taken
     \<and> (left = [] \<or> py_strip (hd left) \<noteq> [] \<and> (\<not> starts_with (py_strip (hd left)) ''|'' \<or> tl left \<noteq> [] \<and> is_separator (hd (tl left))))"
proof (induction ls arbitrary: position rows)
  case Nil
  then show ?case by simp
next
  case (Cons raw rest)
  let ?line = "py_strip raw"
  show ?case
  proof (cases "?line = []")
    case True
    then have "register_rows row (position + 1) rest = (rows, after, left)" using Cons.prems by simp
    from Cons.IH [OF this] obtain taken where "rest = taken @ left" "after = position + 1 + length taken"
      "rows = map (\<lambda>(i, l). row i (py_strip l)) (filter (\<lambda>(i, l). py_strip l \<noteq> []) (enumerate (position + 1) taken))"
      "list_all (\<lambda>l. py_strip l = [] \<or> starts_with (py_strip l) ''|'') taken"
      "left = [] \<or> py_strip (hd left) \<noteq> [] \<and> (\<not> starts_with (py_strip (hd left)) ''|'' \<or> tl left \<noteq> [] \<and> is_separator (hd (tl left)))"
      by blast
    then show ?thesis using True by (intro exI [of _ "raw # taken"]) simp
  next
    case False
    show ?thesis
    proof (cases "\<not> starts_with ?line ''|'' \<or> rest \<noteq> [] \<and> is_separator (hd rest)")
      case True
      then have "rows = []" "after = position" "left = raw # rest" using Cons.prems False by (auto simp: Let_def split: if_splits)
      then show ?thesis using True False by simp
    next
      case more: False
      then obtain rows' where "register_rows row (position + 1) rest = (rows', after, left)" and rows: "rows = row position ?line # rows'"
        using Cons.prems False by (auto simp: Let_def split: prod.splits)
      from Cons.IH [OF this(1)] obtain taken where "rest = taken @ left" "after = position + 1 + length taken"
        "rows' = map (\<lambda>(i, l). row i (py_strip l)) (filter (\<lambda>(i, l). py_strip l \<noteq> []) (enumerate (position + 1) taken))"
        "list_all (\<lambda>l. py_strip l = [] \<or> starts_with (py_strip l) ''|'') taken"
        "left = [] \<or> py_strip (hd left) \<noteq> [] \<and> (\<not> starts_with (py_strip (hd left)) ''|'' \<or> tl left \<noteq> [] \<and> is_separator (hd (tl left)))"
        by blast
      then show ?thesis using rows False more by (intro exI [of _ "raw # taken"]) simp
    qed
  qed
qed


section \<open>Dates in a register\<close>

definition dates_ok :: "instrument \<Rightarrow> bool" where
  "dates_ok x \<longleftrightarrow> (\<forall>d. in_last_cal x = Some d \<or> in_due x = Some d \<longrightarrow> date_ok d)"

lemma make_date_ok: "make_date y m d = Some e \<Longrightarrow> date_ok e"
  by (auto simp: make_date_def intro: new_date_ok split: option.splits if_splits)

lemma parse_date_ok: "parse_date df s = Some d \<Longrightarrow> date_ok d"
  by (auto simp: parse_date_def numeric_date_def Let_def intro: make_date_ok split: option.splits if_splits)

lemma dates_in_ok: "d \<in> set (dates_in df s) \<Longrightarrow> date_ok d"
  by (auto simp: dates_in_def List.map_filter_def intro: parse_date_ok)

lemma first_date_ok: "first_date df s = Some d \<Longrightarrow> date_ok d"
  using dates_in_ok [of d df s] by (auto simp: first_date_def split: list.splits)

lemma labelled_date_ok: "labelled_date df l s = Some d \<Longrightarrow> date_ok d"
  by (auto simp: labelled_date_def Let_def intro: parse_date_ok split: option.splits)

lemma cells_dates_ok: "instrument_from_cells df months tag cells columns = Inr x \<Longrightarrow> dates_ok x"
  by (cases "parse_interval (cell_at columns cells ''interval'')")
    (auto simp: instrument_from_cells_def Let_def dates_ok_def intro: first_date_ok)

lemma row_dates_ok: "register_row df months columns column i line = Inr (Inr x) \<Longrightarrow> dates_ok x"
proof -
  assume "register_row df months columns column i line = Inr (Inr x)"
  then obtain tag cells where "map_sum id Inr (instrument_from_cells df months tag cells columns) = (Inr (Inr x) :: py_error + register_line)"
    unfolding register_row_def by (auto simp: Let_def split: if_splits)
  then show "dates_ok x"
    by (cases "instrument_from_cells df months tag cells columns") (auto intro: cells_dates_ok)
qed

lemma no_columns_skips [simp]: "no_columns i \<noteq> Inr (Inr x)" "Inr (Inr x) \<noteq> no_columns i"
  by (simp_all add: no_columns_def)

lemma scan_dates_ok: "Inr (Inr x) \<in> set (rs_lines (scan_tables df months i ls)) \<Longrightarrow> dates_ok x"
proof (induction df months i ls rule: scan_tables.induct)
  case (1 df months index title sep rest)
  note IH = 1
  show ?case
  proof (cases "starts_with (py_strip title) ''|'' \<and> is_separator sep")
    case False
    then show ?thesis using IH(4) [OF False] IH(5) [unfolded scan_tables.simps if_not_P [OF False]] by blast
  next
    case True
    show ?thesis
    proof (cases "dict_get (table_header title) ''instrument''")
      case None
      then show ?thesis using IH(1) [OF True refl None] IH(5) [unfolded scan_tables.simps if_P [OF True]] None by (auto simp: Let_def)
    next
      case (Some column)
      show ?thesis
      proof (cases "dict_get (table_header title) ''last_cal'' \<noteq> None \<or> dict_get (table_header title) ''due'' \<noteq> None")
        case False
        then show ?thesis using IH(3) [OF True refl Some False] IH(5) [unfolded scan_tables.simps if_P [OF True]] Some by (auto simp: Let_def)
      next
        case cols: True
        obtain rows after left where rows: "register_rows (register_row df months (table_header title) column) (index + 2) rest = (rows, after, left)"
          by (metis prod_cases3)
        have "Inr (Inr x) \<in> set rows \<or> Inr (Inr x) \<in> set (rs_lines (scan_tables df months after left))"
          using IH(5) [unfolded scan_tables.simps if_P [OF True]] Some cols rows by (auto simp: Let_def)
        moreover have "dates_ok x" if "Inr (Inr x) \<in> set rows"
          using that rows_accounted [OF rows] by (auto intro: row_dates_ok [OF sym])
        ultimately show ?thesis using IH(2) [OF True refl Some cols rows [symmetric] refl] by blast
      qed
    qed
  qed
qed simp_all

lemma prose_dates_ok: "parse_prose df months t = Inr (Some x) \<Longrightarrow> dates_ok x"
proof (cases "parse_interval t")
  case (Inr stated)
  have "date_ok (hd (dates_in df t))" if "length (dates_in df t) = 1"
    using that dates_in_ok [of "hd (dates_in df t)" df t] by (cases "dates_in df t") auto
  moreover assume "parse_prose df months t = Inr (Some x)"
  ultimately show ?thesis using Inr
    by (auto simp: parse_prose_def Let_def dates_ok_def intro: labelled_date_ok split: if_splits)
qed (simp add: parse_prose_def Let_def)

lemma try_all_id: "try_all id xs = Inr ys \<Longrightarrow> xs = map Inr ys"
  by (induction xs arbitrary: ys) (auto split: sum.splits)

lemma register_dates_ok:
  assumes "parse_register_report df months t = Inr g" "x \<in> set (rg_instruments g)"
  shows "dates_ok x"
proof -
  have tables: "dates_ok x" if report: "parse_table_report df months t = Inr h" "x \<in> set (rg_instruments h)" for h
  proof -
    obtain ls where "try_all id (rs_lines (scan_tables df months 0 (split_lines t))) = Inr ls" "Inr x \<in> set ls"
      using report unfolding parse_table_report_def Let_def
      by (cases "try_all id (rs_lines (scan_tables df months 0 (split_lines t)))") (auto simp: List.map_filter_def split: sum.splits)
    then have "Inr (Inr x) \<in> set (rs_lines (scan_tables df months 0 (split_lines t)))"
      using try_all_id by fastforce
    then show ?thesis by (rule scan_dates_ok)
  qed
  obtain h where h: "parse_table_report df months t = Inr h"
    using assms(1) by (auto simp: parse_register_report_def split: sum.splits)
  show ?thesis
  proof (cases "rg_instruments h \<noteq> [] \<or> rg_table h")
    case True
    then show ?thesis using assms h tables by (simp add: parse_register_report_def)
  next
    case False
    then obtain p where "parse_prose df months t = Inr p" "case p of Some y \<Rightarrow> x = y | None \<Rightarrow> x \<in> set (rg_instruments h)"
      using assms h by (cases "parse_prose df months t") (auto simp: parse_register_report_def split: option.splits)
    then show ?thesis using False by (auto split: option.splits intro: prose_dates_ok)
  qed
qed

section \<open>What the check answers\<close>

lemma date_lt_asym: "date_lt a b \<Longrightarrow> \<not> date_lt b a"
  by (auto simp: date_lt_def)

lemma chosen_due_stated: "chosen_due (Some a) computed = Some d \<Longrightarrow> \<not> date_lt a d"
  by (auto simp: chosen_due_def date_min_def dest: date_lt_asym split: option.splits if_splits)

lemma chosen_due_computed:
  assumes "chosen_due stated (Some b) = Some d" "date_ok b" "\<And>a. stated = Some a \<Longrightarrow> date_ok a"
  shows "days_between d b \<le> 1"
proof (cases stated)
  case None
  then show ?thesis using assms(1) by (simp add: chosen_due_def days_between_def)
next
  case (Some a)
  then show ?thesis using assms days_between_iff [of b a]
    by (auto simp: chosen_due_def disagree_def date_min_def days_between_def split: if_splits)
qed

lemma add_offset_ok: "add_offset l months days = Inr b \<Longrightarrow> date_ok b"
  by (auto simp: add_offset_def Let_def intro: date_add_ok split: option.splits if_splits)

lemma computed_due_ok: "computed_due x = Inr c \<Longrightarrow> c = Some b \<Longrightarrow> date_ok b"
  by (auto simp: computed_due_def map_sum_def intro: add_offset_ok split: option.splits sum.splits)

lemma assess_row:
  assumes "assess_instrument v when x = Inr r"
  obtains c pl w where "computed_due x = Inr c" "cr_due r = chosen_due (in_due x) c"
    "pl = after_reading (in_last_cal x) when (place v (in_unreadable x) when (cr_due r))"
    "cr_status r = pl_status pl" "wk_verdict w = NOT_RECORDED" "cr_verdict r = wk_verdict (check_tolerance x w)"
    "cr_unreadable r = in_unreadable x" "cr_tag r = in_tag x" "cr_doubt r = lapse_doubt (cr_status r) (cr_due r) when (wk_doubt (check_tolerance x w))"
proof -
  have verdict: "wk_verdict (conclude x st w) = wk_verdict w" "wk_doubt (conclude x st w) = wk_doubt w" for st w
    by (simp_all add: conclude_def split: tolerance_verdict.splits)
  obtain c where "computed_due x = Inr c" using assms by (cases "computed_due x") (auto simp: assess_instrument_def)
  then show ?thesis using assms by (intro that) (auto simp: assess_instrument_def Let_def verdict)
qed

lemma as_left_verdict [simp]: "wk_verdict (as_left_check x limit w) = wk_verdict w"
  by (simp add: as_left_check_def Let_def split: option.splits)

lemma tolerance_cases:
  "wk_verdict (check_tolerance x w) =
     (if unreadable_values x \<noteq> [] then UNREADABLE
      else case (in_as_found x, in_tolerance x) of
        (Some f, None) \<Rightarrow> NO_TOLERANCE
      | (Some f, Some l) \<Rightarrow> if snd f \<noteq> snd l then NOT_COMPARABLE else if beyond (fst f) (fst l) then OUT_OF_TOLERANCE else IN_TOLERANCE
      | _ \<Rightarrow> wk_verdict w)"
  by (auto simp: check_tolerance_def compare_found_def split: option.splits)

definition earned :: "cal_valves \<Rightarrow> pydate \<Rightarrow> instrument \<Rightarrow> bool" where
  "earned v when x \<longleftrightarrow> in_unreadable x = [] \<and> unreadable_values x = []
     \<and> (\<exists>c d. computed_due x = Inr c \<and> chosen_due (in_due x) c = Some d \<and> max 0 (cv_due_soon_days v) < days_between d when)
     \<and> (\<forall>l. in_last_cal x = Some l \<longrightarrow> \<not> date_lt when l)
     \<and> (\<forall>f. in_as_found x = Some f \<longrightarrow> (\<exists>l. in_tolerance x = Some l \<and> snd f = snd l \<and> \<not> beyond (fst f) (fst l)))"

lemma row_current:
  assumes "assess_instrument v when x = Inr r"
  shows "earned v when x \<longleftrightarrow> cr_status r = VALID \<and> cr_verdict r \<in> {NOT_RECORDED, IN_TOLERANCE} \<and> cr_unreadable r = []"
proof -
  obtain c pl w where row: "computed_due x = Inr c" "cr_due r = chosen_due (in_due x) c"
    "pl = after_reading (in_last_cal x) when (place v (in_unreadable x) when (cr_due r))"
    "cr_status r = pl_status pl" "wk_verdict w = NOT_RECORDED" "cr_verdict r = wk_verdict (check_tolerance x w)"
    "cr_unreadable r = in_unreadable x"
    using assms by (rule assess_row)
  have "cr_status r = VALID \<longleftrightarrow> (\<exists>d. cr_due r = Some d \<and> max 0 (cv_due_soon_days v) < days_between d when)
      \<and> (\<forall>l. in_last_cal x = Some l \<longrightarrow> \<not> date_lt when l)"
    unfolding row(4) row(3) by (auto simp: after_reading_def place_def Let_def split: option.splits)
  moreover have "cr_verdict r \<in> {NOT_RECORDED, IN_TOLERANCE} \<longleftrightarrow> unreadable_values x = []
      \<and> (\<forall>f. in_as_found x = Some f \<longrightarrow> (\<exists>l. in_tolerance x = Some l \<and> snd f = snd l \<and> \<not> beyond (fst f) (fst l)))"
    unfolding row(6) tolerance_cases by (auto simp: row(5) split: option.splits)
  ultimately show ?thesis unfolding earned_def using row by auto
qed

lemma all_current_rows:
  "cal_disposition skipped rows = ''ALL CURRENT'' \<longleftrightarrow>
     skipped = [] \<and> (\<forall>r\<in>set rows. cr_status r = VALID \<and> cr_verdict r \<in> {NOT_RECORDED, IN_TOLERANCE} \<and> cr_unreadable r = [])"
proof -
  have st: "s = VALID \<longleftrightarrow> s \<noteq> OVERDUE \<and> s \<noteq> NO_DATA \<and> s \<noteq> CAL_AFTER_READING \<and> s \<noteq> DUE_SOON \<and> s \<noteq> PAST_DUE_GRACE" for s
    by (cases s) auto
  have vd: "w \<in> {NOT_RECORDED, IN_TOLERANCE} \<longleftrightarrow> w \<noteq> OUT_OF_TOLERANCE \<and> w \<notin> {NO_TOLERANCE, NOT_COMPARABLE, UNREADABLE}" for w
    by (cases w) auto
  have "cal_disposition skipped rows = ''ALL CURRENT'' \<longleftrightarrow> out_of_tolerance rows = [] \<and> with_status OVERDUE rows = [] \<and> with_status NO_DATA rows = []
      \<and> filter unproven rows = [] \<and> with_status CAL_AFTER_READING rows = [] \<and> unreadable_dates rows = [] \<and> skipped = [] \<and> filter due_soon rows = []"
    unfolding cal_disposition_def by auto
  then show ?thesis
    unfolding st vd by (auto simp: out_of_tolerance_def with_status_def unproven_def unreadable_dates_def due_soon_def filter_empty_conv)
qed


lemma no_error_within: "\<not> beyond (Fin 0) (Fin x)"
proof -
  let ?e = "float_of False (1 / 10 ^ 9)"
  have "?e = Fin t \<Longrightarrow> 0 \<le> t" "?e \<noteq> NaN" "?e \<noteq> NegZero" "?e \<noteq> Inf True" for t
    using float_of_nonneg [of "1 / 10 ^ 9"] by (auto simp: float_of_def Let_def split: if_splits)
  then show ?thesis
    by (cases ?e) (auto simp: beyond_def pf_abs_def pf_add_def pf_sub_def not_less fl_nonneg split: if_splits)
qed

definition sample_instrument :: "pydate \<Rightarrow> instrument" where
  "sample_instrument due = \<lparr>in_tag = ''PT-101'', in_parameter = ''pressure'', in_last_cal = new_date 2026 1 10, in_due = Some due,
     in_interval = None, in_tolerance = Some (Fin 2, ''bar''), in_tolerance_text = ''2 bar'',
     in_as_found = Some (Fin 0, ''bar''), in_as_found_text = [], in_as_left = None, in_as_left_text = [],
     in_uncertainty = None, in_uncertainty_text = [], in_certificate = [], in_notes = [], in_unreadable = []\<rparr>"

definition sample_day :: "int \<Rightarrow> int \<Rightarrow> int \<Rightarrow> pydate" where
  "sample_day y m d = \<lparr>dt_year = y, dt_month = m, dt_day = d\<rparr>"

lemma sample_assessed: "\<exists>rows. try_all (assess_instrument default_cal_valves when) [sample_instrument due] = Inr rows"
  by (simp add: assess_instrument_def computed_due_def sample_instrument_def split: option.splits)


text \<open>The due date that can be defended: never later than the stated one, nor by more than a day than the computed one.\<close>

definition defended :: "instrument \<Rightarrow> pydate option \<Rightarrow> bool" where
  "defended x due = (case due of
      None \<Rightarrow> in_due x = None \<and> (in_last_cal x = None \<or> in_interval x = None)
    | Some d \<Rightarrow> (case in_due x of Some a \<Rightarrow> \<not> date_lt a d | None \<Rightarrow> True)
        \<and> (case computed_due x of Inr (Some b) \<Rightarrow> days_between d b \<le> 1 | _ \<Rightarrow> True))"

text \<open>C31: Whatever register is read, its instruments carry real calendar dates, and the due date an instrument is assessed
  against can be defended: it is never later than the stated date nor more than a day after the date its interval gives,
  and it is missing only where neither can be had.
\<close>

theorem due_date_defended:
  "case parse_register_report df months t of Inl e \<Rightarrow> True
   | Inr g \<Rightarrow> list_all (\<lambda>x. dates_ok x \<and> (case assess_instrument v when x of Inl e \<Rightarrow> True | Inr r \<Rightarrow> defended x (cr_due r))) (rg_instruments g)"
proof -
  have "defended x (cr_due r)" if "dates_ok x" "assess_instrument v when x = Inr r" for x r
  proof -
    note ok = that(1) and run = that(2)
    obtain c where c: "computed_due x = Inr c" "cr_due r = chosen_due (in_due x) c" by (rule assess_row [OF run])
    show ?thesis
    proof (cases "cr_due r")
      case None
      then have "in_due x = None" "c = None" using c(2) by (auto simp: chosen_due_def split: option.splits if_splits)
      then show ?thesis using None c(1) by (auto simp: defended_def computed_due_def map_sum_def split: option.splits sum.splits)
    next
      case (Some d)
      have "days_between d b \<le> 1" if "c = Some b" for b
      proof (rule chosen_due_computed [of "in_due x"])
        show "chosen_due (in_due x) (Some b) = Some d" using c(2) Some that by simp
        show "date_ok b" using c(1) that by (rule computed_due_ok)
      qed (use ok in \<open>simp add: dates_ok_def\<close>)
      then show ?thesis using Some c chosen_due_stated by (auto simp: defended_def split: option.splits)
    qed
  qed
  then show ?thesis
    using register_dates_ok [of df months t] by (auto simp: list_all_iff split: sum.splits)
qed

section \<open>Results in doubt\<close>

lemma try_all_mem: "try_all f xs = Inr ys \<Longrightarrow> y \<in> set ys \<Longrightarrow> \<exists>x\<in>set xs. f x = Inr y"
  by (induction xs arbitrary: ys) (auto split: sum.splits)

lemma doubt_lines_name:
  "r \<in> set rows \<Longrightarrow> cr_doubt r \<noteq> [] \<Longrightarrow> cr_tag r \<in> set seen
     \<or> (\<exists>r'\<in>set rows. cr_tag r' = cr_tag r \<and> cr_doubt r' \<noteq> [] \<and> ''- **'' @ cr_tag r' @ ''** - '' @ cr_doubt r' \<in> set (doubt_lines seen rows))"
proof (induction seen rows rule: doubt_lines.induct)
  case (2 seen x rows)
  show ?case
  proof (cases "cr_tag x \<in> set seen \<or> cr_doubt x = []")
    case True
    then show ?thesis using 2 by auto
  next
    case False
    then show ?thesis using 2 by (cases "cr_tag r = cr_tag x") auto
  qed
qed simp

lemma out_doubted:
  assumes "wk_verdict (check_tolerance x w) = OUT_OF_TOLERANCE" "wk_verdict w = NOT_RECORDED"
  shows "wk_doubt (check_tolerance x w) \<noteq> []"
proof -
  have kept: "wk_doubt (as_left_check x l w) = wk_doubt w" for l w
    by (simp add: as_left_check_def Let_def split: option.splits)
  show ?thesis using assms
    by (auto simp: check_tolerance_def compare_found_def kept doubt_window_def split: option.splits if_splits)
qed

lemma doubted:
  assumes "assess_instrument v when x = Inr r" "cr_verdict r = OUT_OF_TOLERANCE \<or> cr_status r = OVERDUE"
  shows "cr_doubt r \<noteq> []"
proof -
  obtain pl w where row: "pl = after_reading (in_last_cal x) when (place v (in_unreadable x) when (cr_due r))"
    "cr_status r = pl_status pl" "wk_verdict w = NOT_RECORDED" "cr_verdict r = wk_verdict (check_tolerance x w)"
    "cr_doubt r = lapse_doubt (cr_status r) (cr_due r) when (wk_doubt (check_tolerance x w))"
    using assms(1) by (rule assess_row)
  have "cr_due r \<noteq> None" if "cr_status r = OVERDUE"
    using that unfolding row(1,2) by (auto simp: after_reading_def place_def split: option.splits if_splits)
  then show ?thesis using assms(2) out_doubted [OF _ row(3)] row(4) unfolding row(5)
    by (auto simp: lapse_doubt_def split: option.splits if_splits)
qed

text \<open>No result in doubt is dropped: every instrument assessed as out of tolerance or overdue is named under the results
  in doubt, with the reason of a row of that instrument which is itself in doubt.
\<close>

lemma doubts_named:
  assumes "try_all (assess_instrument v when) xs = Inr rows" "r \<in> set rows" "cr_verdict r = OUT_OF_TOLERANCE \<or> cr_status r = OVERDUE"
  shows "\<exists>r'\<in>set rows. cr_tag r' = cr_tag r \<and> cr_doubt r' \<noteq> []
    \<and> ''- **'' @ cr_tag r' @ ''** - '' @ cr_doubt r' \<in> set (doubt_lines [] (out_of_tolerance rows @ with_status OVERDUE rows))"
proof -
  obtain x where "assess_instrument v when x = Inr r"
    using try_all_mem [OF assms(1,2)] by blast
  then have "cr_doubt r \<noteq> []" using assms(3) by (rule doubted)
  moreover have "r \<in> set (out_of_tolerance rows @ with_status OVERDUE rows)"
    using assms(2,3) by (auto simp: out_of_tolerance_def with_status_def)
  ultimately show ?thesis
    using doubt_lines_name [of r "out_of_tolerance rows @ with_status OVERDUE rows" "[]"]
    by (auto simp: out_of_tolerance_def with_status_def)
qed

lemma doubts_named_witness:
  "\<exists>rows. try_all (assess_instrument default_cal_valves (sample_day 2026 3 14)) [sample_instrument (sample_day 2026 3 1)] = Inr rows
     \<and> (\<exists>r'\<in>set rows. cr_tag r' = ''PT-101'' \<and> ''- **PT-101** - '' @ cr_doubt r' \<in> set (doubt_lines [] (out_of_tolerance rows @ with_status OVERDUE rows)))"
proof -
  let ?x = "sample_instrument (sample_day 2026 3 1)"
  obtain rows where rows: "try_all (assess_instrument default_cal_valves (sample_day 2026 3 14)) [?x] = Inr rows"
    using sample_assessed by blast
  then obtain r where r: "rows = [r]" "assess_instrument default_cal_valves (sample_day 2026 3 14) ?x = Inr r"
    by (auto split: sum.splits)
  obtain c pl w where row: "computed_due ?x = Inr c" "cr_due r = chosen_due (in_due ?x) c"
    "pl = after_reading (in_last_cal ?x) (sample_day 2026 3 14) (place default_cal_valves (in_unreadable ?x) (sample_day 2026 3 14) (cr_due r))"
    "cr_status r = pl_status pl" "cr_tag r = in_tag ?x"
    by (rule assess_row [OF r(2)])
  have "days_between (sample_day 2026 3 1) (sample_day 2026 3 14) = -13" "new_date 2026 1 10 = Some (sample_day 2026 1 10)"
    "\<not> date_lt (sample_day 2026 3 14) (sample_day 2026 1 10)" by code_simp+
  then have "cr_status r = OVERDUE" using row(1-4)
    by (simp add: sample_instrument_def computed_due_def chosen_due_def after_reading_def place_def default_cal_valves_def)
  then show ?thesis using doubts_named [OF rows, of r] r(1) rows row(5) by (simp add: sample_instrument_def)
qed

end
