(* ===== verification/Ip_Address.thy ===== *)
theory Ip_Address
  imports Artifacts
begin

text \<open>
  What the program uses of Python's \<^verbatim>\<open>ipaddress\<close> and \<^verbatim>\<open>urllib.parse\<close> (as of Python 3.11.10): addresses are read
  to the integer they stand for and compared with the networks of the special-purpose registries, and a URL is split
  to its scheme, host and port. Unicode normalisation of a host that is not ASCII is a parameter.
\<close>

section \<open>Reading addresses\<close>

definition parse_octet :: "string \<Rightarrow> int option" where
  "parse_octet s =
     (let n = int_of_digits s
      in if s \<noteq> [] \<and> list_all is_digit s \<and> length s \<le> 3 \<and> (s = ''0'' \<or> hd s \<noteq> CHR ''0'') \<and> n \<le> 255 then Some n else None)"

fun all_some :: "'a option list \<Rightarrow> 'a list option" where
  "all_some [] = Some []"
| "all_some (x # xs) = (case (x, all_some xs) of (Some y, Some ys) \<Rightarrow> Some (y # ys) | _ \<Rightarrow> None)"

definition of_base :: "int \<Rightarrow> int list \<Rightarrow> int" where
  "of_base b ds = foldl (\<lambda>n d. n * b + d) 0 ds"

definition parse_ipv4 :: "string \<Rightarrow> int option" where
  "parse_ipv4 s =
     (let octets = split_on (CHR ''.'') s
      in if length octets = 4 then map_option (of_base 256) (all_some (map parse_octet octets)) else None)"

definition hextet_digit :: "char \<Rightarrow> bool" where
  "hextet_digit c \<longleftrightarrow> is_digit c \<or> c \<in> set ''abcdefABCDEF''"

definition hextet_val :: "char \<Rightarrow> int" where
  "hextet_val c = (if is_digit c then code_of c - 48 else code_of (lower_char c) - 87)"

definition parse_hextet :: "string \<Rightarrow> int option" where
  "parse_hextet s = (if s \<noteq> [] \<and> list_all hextet_digit s \<and> length s \<le> 4 then Some (of_base 16 (map hextet_val s)) else None)"

text \<open>\<^verbatim>\<open>'%x' % n\<close>.\<close>

function hex_text :: "int \<Rightarrow> string" where
  "hex_text n = (if n < 16 then [''0123456789abcdef'' ! nat n] else hex_text (n div 16) @ [''0123456789abcdef'' ! nat (n mod 16)])"
  by pat_completeness auto
termination by (relation "measure nat") auto

declare hex_text.simps [simp del]

text \<open>The last part may be written as an IPv4 address.\<close>

definition dotted_suffix :: "string list \<Rightarrow> string list option" where
  "dotted_suffix parts =
     (if CHR ''.'' \<in> set (last parts)
      then map_option (\<lambda>n. butlast parts @ [hex_text (n div 65536), hex_text (n mod 65536)]) (parse_ipv4 (last parts))
      else Some parts)"

text \<open>How many parts stand before and after the double colon, and how many it stands for.\<close>

definition colon_layout :: "string list \<Rightarrow> (nat \<times> nat \<times> nat) option" where
  "colon_layout parts =
     (let n = length parts in
      case filter (\<lambda>i. parts ! i = []) [1..<n - 1] of
        [] \<Rightarrow> (if n \<noteq> 8 \<or> hd parts = [] \<or> last parts = [] then None else Some (8, 0, 0))
      | [k] \<Rightarrow>
          (let hi = (if hd parts = [] then k - 1 else k);
               lo = (if last parts = [] then n - k - 2 else n - k - 1)
           in if hd parts = [] \<and> hi \<noteq> 0 \<or> last parts = [] \<and> lo \<noteq> 0 \<or> 8 \<le> hi + lo then None
              else Some (hi, lo, 8 - (hi + lo)))
      | _ \<Rightarrow> None)"

definition parse_hextets :: "string list \<Rightarrow> int option" where
  "parse_hextets parts = (if 9 < length parts then None else case colon_layout parts of
      None \<Rightarrow> None
    | Some (hi, lo, skipped) \<Rightarrow>
        (case (all_some (map parse_hextet (take hi parts)), all_some (map parse_hextet (drop (length parts - lo) parts))) of
           (Some upper, Some lower) \<Rightarrow> Some (of_base 65536 (upper @ replicate skipped 0 @ lower))
         | _ \<Rightarrow> None))"

definition parse_ipv6 :: "string \<Rightarrow> int option" where
  "parse_ipv6 s =
     (let (text, zoned, zone) = partition_at ''%'' s; parts = split_on (CHR '':'') text in
      if CHR ''/'' \<in> set s \<or> zoned \<and> (zone = [] \<or> CHR ''%'' \<in> set zone) \<or> length parts < 3 then None
      else case dotted_suffix parts of None \<Rightarrow> None | Some ps \<Rightarrow> parse_hextets ps)"

datatype ip = V4 int | V6 int

text \<open>\<^verbatim>\<open>ipaddress.ip_address(s)\<close>; \<open>None\<close> is its \<^verbatim>\<open>ValueError\<close>.\<close>

definition ip_address :: "string \<Rightarrow> ip option" where
  "ip_address s = (case parse_ipv4 s of Some n \<Rightarrow> Some (V4 n) | None \<Rightarrow> map_option V6 (parse_ipv6 s))"

section \<open>Special-purpose networks\<close>

type_synonym network = "int \<times> nat"

definition net4 :: "int list \<Rightarrow> nat \<Rightarrow> network" where
  "net4 octets p = (of_base 256 octets, 32 - p)"

definition net6 :: "int list \<Rightarrow> nat \<Rightarrow> network" where
  "net6 hextets p = (of_base 65536 (hextets @ replicate (8 - length hextets) 0), 128 - p)"

text \<open>A network is its first address and the number of its host bits.\<close>

definition in_network :: "int \<Rightarrow> network \<Rightarrow> bool" where
  "in_network a net = (case net of (base, host) \<Rightarrow> a div 2 ^ host = base div 2 ^ host)"

definition PRIVATE4 :: "network list" where
  "PRIVATE4 = [net4 [0, 0, 0, 0] 8, net4 [10, 0, 0, 0] 8, net4 [127, 0, 0, 0] 8, net4 [169, 254, 0, 0] 16, net4 [172, 16, 0, 0] 12,
     net4 [192, 0, 0, 0] 24, net4 [192, 0, 0, 170] 31, net4 [192, 0, 2, 0] 24, net4 [192, 168, 0, 0] 16, net4 [198, 18, 0, 0] 15,
     net4 [198, 51, 100, 0] 24, net4 [203, 0, 113, 0] 24, net4 [240, 0, 0, 0] 4, net4 [255, 255, 255, 255] 32]"

definition PUBLIC4 :: "network list" where
  "PUBLIC4 = [net4 [192, 0, 0, 9] 32, net4 [192, 0, 0, 10] 32]"

definition PRIVATE6 :: "network list" where
  "PRIVATE6 = [net6 [0, 0, 0, 0, 0, 0, 0, 1] 128, net6 [] 128, net6 [0, 0, 0, 0, 0, 0xFFFF] 96, net6 [0x64, 0xFF9B, 1] 48, net6 [0x100] 64,
     net6 [0x2001] 23, net6 [0x2001, 0xDB8] 32, net6 [0x2002] 16, net6 [0xFC00] 7, net6 [0xFE80] 10]"

definition PUBLIC6 :: "network list" where
  "PUBLIC6 = [net6 [0x2001, 1, 0, 0, 0, 0, 0, 1] 128, net6 [0x2001, 1, 0, 0, 0, 0, 0, 2] 128, net6 [0x2001, 3] 32, net6 [0x2001, 4, 0x112] 48,
     net6 [0x2001, 0x20] 28, net6 [0x2001, 0x30] 28]"

definition is_loopback :: "ip \<Rightarrow> bool" where
  "is_loopback a = (case a of V4 n \<Rightarrow> in_network n (net4 [127, 0, 0, 0] 8) | V6 n \<Rightarrow> n = 1)"

definition is_unspecified :: "ip \<Rightarrow> bool" where
  "is_unspecified a = (case a of V4 n \<Rightarrow> n = 0 | V6 n \<Rightarrow> n = 0)"

definition is_link_local :: "ip \<Rightarrow> bool" where
  "is_link_local a = (case a of V4 n \<Rightarrow> in_network n (net4 [169, 254, 0, 0] 16) | V6 n \<Rightarrow> in_network n (net6 [0xFE80] 10))"

definition is_multicast :: "ip \<Rightarrow> bool" where
  "is_multicast a = (case a of V4 n \<Rightarrow> in_network n (net4 [224, 0, 0, 0] 4) | V6 n \<Rightarrow> in_network n (net6 [0xFF00] 8))"

definition ipv4_mapped :: "ip \<Rightarrow> ip option" where
  "ipv4_mapped a = (case a of V4 n \<Rightarrow> None | V6 n \<Rightarrow> if n div 2 ^ 32 = 0xFFFF then Some (V4 (n mod 2 ^ 32)) else None)"

fun is_private :: "ip \<Rightarrow> bool" where
  "is_private (V4 n) = (list_ex (in_network n) PRIVATE4 \<and> \<not> list_ex (in_network n) PUBLIC4)"
| "is_private (V6 n) =
     (if n div 2 ^ 32 = 0xFFFF
      then list_ex (in_network (n mod 2 ^ 32)) PRIVATE4 \<and> \<not> list_ex (in_network (n mod 2 ^ 32)) PUBLIC4
      else list_ex (in_network n) PRIVATE6 \<and> \<not> list_ex (in_network n) PUBLIC6)"

section \<open>Splitting a URL\<close>

record split_url =
  su_scheme :: string
  su_netloc :: string

definition scheme_char :: "char \<Rightarrow> bool" where
  "scheme_char c \<longleftrightarrow> is_digit c \<or> is_upper c \<or> is_lower c \<or> c \<in> set ''+-.''"

definition split_scheme :: "string \<Rightarrow> string \<times> string" where
  "split_scheme url = (case partition_at '':'' url of
      (s, found, rest) \<Rightarrow>
        if found \<and> s \<noteq> [] \<and> (is_upper (hd s) \<or> is_lower (hd s)) \<and> list_all scheme_char s then (py_lower s, rest) else ([], url))"

definition bracketed_host_ok :: "string \<Rightarrow> bool" where
  \<open>bracketed_host_ok h =
     (if starts_with h ''v'' then re_match no_flags (rx ''~Av[a-fA-F0-9]+~..+~Z'') h \<noteq> None
      else case ip_address h of Some (V6 _) \<Rightarrow> True | _ \<Rightarrow> False)\<close>

definition netloc_ok :: "(string \<Rightarrow> string) \<Rightarrow> string \<Rightarrow> bool" where
  "netloc_ok nfkc netloc =
     (let plain = filter (\<lambda>c. c \<notin> set ''@:#?'') netloc in
      list_all (\<lambda>c. code_of c < 128) netloc \<or> nfkc plain = plain \<or> list_all (\<lambda>c. c \<notin> set (nfkc plain)) ''/?#@:'')"

text \<open>\<^verbatim>\<open>urlparse(url)\<close> up to the parts the program reads; a malformed host raises \<^verbatim>\<open>ValueError\<close>.\<close>

definition urlparse :: "(string \<Rightarrow> string) \<Rightarrow> string \<Rightarrow> py_error + split_url" where
  "urlparse nfkc url =
     (let cleaned = filter (\<lambda>c. c \<notin> {CHR 0x09, CHR 0x0A, CHR 0x0D}) (dropWhile (\<lambda>c. code_of c \<le> 32) url);
          (scheme, rest) = split_scheme cleaned;
          netloc = (if starts_with rest ''//'' then takeWhile (\<lambda>c. c \<notin> set ''/?#'') (drop 2 rest) else []);
          opened = (CHR ''['' \<in> set netloc); closed = (CHR '']'' \<in> set netloc);
          bracketed = fst (partition_at '']'' (snd (snd (partition_at ''['' netloc))))
      in if opened \<noteq> closed \<or> opened \<and> \<not> bracketed_host_ok bracketed \<or> \<not> netloc_ok nfkc netloc then Inl ValueError
         else Inr \<lparr>su_scheme = scheme, su_netloc = netloc\<rparr>)"

definition after_last :: "char \<Rightarrow> string \<Rightarrow> string" where
  "after_last c s = last (split_on c s)"

definition hostinfo :: "split_url \<Rightarrow> string \<times> string" where
  "hostinfo u =
     (let info = after_last (CHR ''@'') (su_netloc u) in
      case partition_at ''['' info of (_, opened, bracketed) \<Rightarrow>
        if opened then (case partition_at '']'' bracketed of (host, _, rest) \<Rightarrow> (host, snd (snd (partition_at '':'' rest))))
        else (case partition_at '':'' info of (host, _, port) \<Rightarrow> (host, port)))"

text \<open>\<^verbatim>\<open>parsed.hostname or ""\<close>; \<open>None\<close> of the port is no port given.\<close>

definition url_hostname :: "split_url \<Rightarrow> string" where
  "url_hostname u = (case partition_at ''%'' (fst (hostinfo u)) of
      (host, zoned, zone) \<Rightarrow> py_lower host @ (if zoned then ''%'' else []) @ zone)"

definition url_port :: "split_url \<Rightarrow> py_error + int option" where
  "url_port u =
     (let port = snd (hostinfo u) in
      if port = [] then Inr None
      else if \<not> list_all is_digit port \<or> 65535 < int_of_digits port then Inl ValueError
      else Inr (Some (int_of_digits port)))"


section \<open>Dotted addresses\<close>

definition dotted :: "int \<Rightarrow> int \<Rightarrow> int \<Rightarrow> int \<Rightarrow> string" where
  "dotted a b c d = str_int a @ ''.'' @ str_int b @ ''.'' @ str_int c @ ''.'' @ str_int d"

definition quad :: "int \<Rightarrow> int \<Rightarrow> int \<Rightarrow> int \<Rightarrow> int" where
  "quad a b c d = of_base 256 [a, b, c, d]"

definition octet :: "int \<Rightarrow> bool" where
  "octet n \<longleftrightarrow> 0 \<le> n \<and> n < 256"

lemma not_digit [simp]: "\<not> is_digit (CHR '':'')" "\<not> is_digit (CHR ''-'')" "\<not> is_digit (CHR ''.'')" "\<not> is_digit (CHR ''%'')" "\<not> is_digit (CHR ''/'')"
  by code_simp+

lemma str_octet:
  assumes "octet n"
  shows "list_all is_digit (str_int n) \<and> parse_octet (str_int n) = Some n"
proof -
  have "list_all (\<lambda>n. list_all is_digit (str_int n) \<and> parse_octet (str_int n) = Some n) [0..255]" by code_simp
  then show ?thesis using assms by (auto simp: list_all_iff octet_def)
qed

lemma digits_without: "list_all is_digit s \<Longrightarrow> \<not> is_digit c \<Longrightarrow> c \<notin> set s"
  by (auto simp: list_all_iff)

lemma split_dotted:
  assumes "octet a" "octet b" "octet c" "octet d"
  shows "split_on (CHR ''.'') (dotted a b c d) = [str_int a, str_int b, str_int c, str_int d]"
proof -
  have "CHR ''.'' \<notin> set (str_int n)" if "octet n" for n using str_octet [OF that] digits_without by simp
  then show ?thesis using assms by (simp add: dotted_def split_on_append_sep split_on_no_sep)
qed

lemma parse_dotted:
  assumes "octet a" "octet b" "octet c" "octet d"
  shows "parse_ipv4 (dotted a b c d) = Some (quad a b c d)"
  using str_octet assms by (simp add: parse_ipv4_def split_dotted quad_def)

lemma dotted_chars:
  assumes "octet a" "octet b" "octet c" "octet d" "\<not> is_digit x" "x \<noteq> CHR ''.''"
  shows "x \<notin> set (dotted a b c d)"
  using str_octet assms digits_without by (auto simp: dotted_def)

lemma quad_eq: "quad a b c d = a * 16777216 + b * 65536 + c * 256 + d"
  by (simp add: quad_def of_base_def)

lemma quad_div:
  assumes "octet a" "octet b" "octet c" "octet d"
  shows "quad a b c d div 2 ^ 24 = a" "quad a b c d div 2 ^ 16 = a * 256 + b" "quad a b c d div 2 ^ 8 = a * 65536 + b * 256 + c"
    "quad a b c d div 2 ^ 20 = (a * 256 + b) div 16" "quad a b c d div 2 ^ 17 = (a * 256 + b) div 2" "quad a b c d div 2 ^ 28 = a div 16"
proof -
  let ?q = "quad a b c d"
  show a: "?q div 2 ^ 24 = a" by (rule int_div_pos_eq [of _ _ _ "b * 65536 + c * 256 + d"]) (use assms in \<open>auto simp: quad_eq octet_def\<close>)
  show b: "?q div 2 ^ 16 = a * 256 + b" by (rule int_div_pos_eq [of _ _ _ "c * 256 + d"]) (use assms in \<open>auto simp: quad_eq octet_def\<close>)
  show "?q div 2 ^ 8 = a * 65536 + b * 256 + c" by (rule int_div_pos_eq [of _ _ _ d]) (use assms in \<open>auto simp: quad_eq octet_def\<close>)
  have "?q div 2 ^ (m + n) = ?q div 2 ^ m div 2 ^ n" for m n by (simp add: power_add zdiv_zmult2_eq)
  from this [of 16 4] this [of 16 1] this [of 24 4]
  show "?q div 2 ^ 20 = (a * 256 + b) div 16" "?q div 2 ^ 17 = (a * 256 + b) div 2" "?q div 2 ^ 28 = a div 16"
    unfolding a b by simp_all
qed


text \<open>The special-purpose networks by their octets.\<close>

definition private_octets :: "int \<Rightarrow> int \<Rightarrow> int \<Rightarrow> int \<Rightarrow> bool" where
  "private_octets a b c d \<longleftrightarrow> a \<in> {0, 10, 127} \<or> 240 \<le> a \<or> a = 169 \<and> b = 254 \<or> a = 172 \<and> 16 \<le> b \<and> b \<le> 31
     \<or> a = 192 \<and> b = 0 \<and> c = 0 \<and> d \<notin> {9, 10} \<or> a = 192 \<and> b = 0 \<and> c = 2 \<or> a = 192 \<and> b = 168
     \<or> a = 198 \<and> b \<in> {18, 19} \<or> a = 198 \<and> b = 51 \<and> c = 100 \<or> a = 203 \<and> b = 0 \<and> c = 113"

lemma base_eq: "octet b \<Longrightarrow> octet m \<Longrightarrow> a * 256 + b = n * 256 + m \<longleftrightarrow> a = n \<and> b = m"
proof
  assume o: "octet b" "octet m" and eq: "a * 256 + b = n * 256 + m"
  have "(x * 256 + y) mod 256 = y" if "octet y" for x y using that by (simp add: octet_def)
  from this [OF o(1), of a] this [OF o(2), of n] eq have "b = m" by simp
  with eq show "a = n \<and> b = m" by simp
qed simp

lemma octet_0 [simp]: "octet 0"
  by (simp add: octet_def)

lemma net4_quad: "net4 [n, m, k, j] p = (quad n m k j, 32 - p)"
  by (simp add: net4_def quad_def)

lemma in_net8:
  assumes "octet a" "octet b" "octet c" "octet d" "octet n"
  shows "in_network (quad a b c d) (net4 [n, 0, 0, 0] 8) \<longleftrightarrow> a = n"
  using quad_div(1) [of a b c d] quad_div(1) [of n 0 0 0] assms by (simp add: in_network_def net4_quad)

lemma in_net16:
  assumes "octet a" "octet b" "octet c" "octet d" "octet n" "octet m"
  shows "in_network (quad a b c d) (net4 [n, m, 0, 0] 16) \<longleftrightarrow> a = n \<and> b = m"
  using quad_div(2) [of a b c d] quad_div(2) [of n m 0 0] assms by (simp add: in_network_def net4_quad base_eq)

lemma in_net24:
  assumes "octet a" "octet b" "octet c" "octet d" "octet n" "octet m" "octet k"
  shows "in_network (quad a b c d) (net4 [n, m, k, 0] 24) \<longleftrightarrow> a = n \<and> b = m \<and> c = k"
proof -
  have "(a * 256 + b) * 256 + c = (n * 256 + m) * 256 + k \<longleftrightarrow> a = n \<and> b = m \<and> c = k"
    using assms by (simp only: base_eq) simp
  then show ?thesis using quad_div(3) [of a b c d] quad_div(3) [of n m k 0] assms by (simp add: in_network_def net4_quad mult.commute)
qed

lemma in_net32:
  assumes "octet a" "octet b" "octet c" "octet d" "octet n" "octet m" "octet k" "octet j"
  shows "in_network (quad a b c d) (net4 [n, m, k, j] 32) \<longleftrightarrow> a = n \<and> b = m \<and> c = k \<and> d = j"
proof -
  have "((a * 256 + b) * 256 + c) * 256 + d = ((n * 256 + m) * 256 + k) * 256 + j \<longleftrightarrow> a = n \<and> b = m \<and> c = k \<and> d = j"
    using assms by (simp only: base_eq) simp
  then show ?thesis by (simp add: in_network_def net4_quad quad_def of_base_def)
qed

lemma in_net_other:
  assumes "octet a" "octet b" "octet c" "octet d"
  shows "in_network (quad a b c d) (net4 [172, 16, 0, 0] 12) \<longleftrightarrow> a = 172 \<and> 16 \<le> b \<and> b \<le> 31"
    "in_network (quad a b c d) (net4 [198, 18, 0, 0] 15) \<longleftrightarrow> a = 198 \<and> b \<in> {18, 19}"
    "in_network (quad a b c d) (net4 [240, 0, 0, 0] 4) \<longleftrightarrow> 240 \<le> a"
    "in_network (quad a b c d) (net4 [224, 0, 0, 0] 4) \<longleftrightarrow> 224 \<le> a \<and> a < 240"
proof -
  have "(a * 256 + b) div 16 = 2753 \<longleftrightarrow> a = 172 \<and> 16 \<le> b \<and> b \<le> 31" 
  proof -
    have "y div 16 = 2753 \<longleftrightarrow> 44048 \<le> y \<and> y < 44064" for y :: int by presburger
    then show ?thesis using assms(1,2) unfolding octet_def by presburger
  qed
  then show "in_network (quad a b c d) (net4 [172, 16, 0, 0] 12) \<longleftrightarrow> a = 172 \<and> 16 \<le> b \<and> b \<le> 31"
    using quad_div(4) [OF assms] by (simp add: in_network_def net4_def of_base_def)
  have "(a * 256 + b) div 2 = 25353 \<longleftrightarrow> a = 198 \<and> b \<in> {18, 19}" 
  proof -
    have "y div 2 = 25353 \<longleftrightarrow> y = 50706 \<or> y = 50707" for y :: int by presburger
    then show ?thesis using assms(1,2) base_eq [of b 18 a 198] base_eq [of b 19 a 198] by (auto simp: octet_def)
  qed
  then show "in_network (quad a b c d) (net4 [198, 18, 0, 0] 15) \<longleftrightarrow> a = 198 \<and> b \<in> {18, 19}"
    using quad_div(5) [OF assms] by (simp add: in_network_def net4_def of_base_def)
  have "a div 16 = 15 \<longleftrightarrow> 240 \<le> a" "a div 16 = 14 \<longleftrightarrow> 224 \<le> a \<and> a < 240" using assms(1) unfolding octet_def by presburger+
  then show "in_network (quad a b c d) (net4 [240, 0, 0, 0] 4) \<longleftrightarrow> 240 \<le> a"
    "in_network (quad a b c d) (net4 [224, 0, 0, 0] 4) \<longleftrightarrow> 224 \<le> a \<and> a < 240"
    using quad_div(6) [OF assms] by (simp_all add: in_network_def net4_def of_base_def)
qed

lemma private_quad:
  assumes o: "octet a" "octet b" "octet c" "octet d"
  shows "is_private (V4 (quad a b c d)) \<longleftrightarrow> private_octets a b c d"
proof -
  have oct: "octet (numeral n) \<longleftrightarrow> (numeral n :: int) < 256" for n by (simp add: octet_def)
  have "in_network (quad a b c d) (net4 [192, 0, 0, 170] 31) \<Longrightarrow> in_network (quad a b c d) (net4 [192, 0, 0, 0] 24)"
  proof -
    have "?thesis" if "quad a b c d div 2 = 1610612821"
    proof -
      have "quad a b c d div 2 ^ 8 = quad a b c d div 2 div 2 ^ 7" by (simp add: zdiv_zmult2_eq [symmetric])
      then show ?thesis using that by (simp add: in_network_def net4_def of_base_def)
    qed
    then show "in_network (quad a b c d) (net4 [192, 0, 0, 170] 31) \<Longrightarrow> in_network (quad a b c d) (net4 [192, 0, 0, 0] 24)"
      by (simp add: in_network_def net4_def of_base_def)
  qed
  then have odd: "in_network (quad a b c d) (net4 [192, 0, 0, 170] 31) \<Longrightarrow> a = 192 \<and> b = 0 \<and> c = 0"
    using in_net24 [OF o, of 192 0 0] by (simp add: oct)
  define N where "N \<longleftrightarrow> in_network (quad a b c d) (net4 [192, 0, 0, 170] 31)"
  note nets = in_net8 [OF o, of 0, simplified oct octet_0, simplified] in_net8 [OF o, of 10, unfolded oct, simplified]
    in_net8 [OF o, of 127, unfolded oct, simplified] in_net16 [OF o, of 169 254, unfolded oct, simplified]
    in_net16 [OF o, of 192 168, unfolded oct, simplified] in_net24 [OF o, of 192 0 0, unfolded oct, simplified]
    in_net24 [OF o, of 192 0 2, unfolded oct, simplified] in_net24 [OF o, of 198 51 100, unfolded oct, simplified]
    in_net24 [OF o, of 203 0 113, unfolded oct, simplified] in_net32 [OF o, of 255 255 255 255, unfolded oct, simplified]
  have priv: "list_ex (in_network (quad a b c d)) PRIVATE4 \<longleftrightarrow> a = 0 \<or> a = 10 \<or> a = 127 \<or> a = 169 \<and> b = 254 \<or> a = 172 \<and> 16 \<le> b \<and> b \<le> 31
      \<or> a = 192 \<and> b = 0 \<and> c = 0 \<or> N \<or> a = 192 \<and> b = 0 \<and> c = 2 \<or> a = 192 \<and> b = 168 \<or> a = 198 \<and> b \<in> {18, 19}
      \<or> a = 198 \<and> b = 51 \<and> c = 100 \<or> a = 203 \<and> b = 0 \<and> c = 113 \<or> 240 \<le> a \<or> a = 255 \<and> b = 255 \<and> c = 255 \<and> d = 255"
    unfolding PRIVATE4_def
    by (simp only: list_ex_Nil_iff list_ex_Cons_iff nets in_net_other [OF o] N_def [symmetric] simp_thms)
  have pub: "list_ex (in_network (quad a b c d)) PUBLIC4 \<longleftrightarrow> a = 192 \<and> b = 0 \<and> c = 0 \<and> (d = 9 \<or> d = 10)"
    by (auto simp: PUBLIC4_def in_net32 [OF o] oct)
  show ?thesis
  proof (cases "a = 192 \<and> b = 0 \<and> c = 0")
    case True
    then show ?thesis unfolding is_private.simps priv pub private_octets_def by simp
  next
    case False
    moreover have "\<not> N" using False odd unfolding N_def by blast
    moreover have "240 \<le> a \<or> a = 255 \<and> b = 255 \<and> c = 255 \<and> d = 255 \<longleftrightarrow> 240 \<le> a" by auto
    ultimately show ?thesis unfolding is_private.simps priv pub private_octets_def by (simp only: insert_iff empty_iff simp_thms) argo
  qed
qed


section \<open>IPv4 addresses written as IPv6\<close>

lemma of_base_snoc: "of_base b (ds @ [d]) = of_base b ds * b + d"
  by (simp add: of_base_def)

lemma hex_digits: "list_all (\<lambda>n. hextet_digit (''0123456789abcdef'' ! nat n) \<and> hextet_val (''0123456789abcdef'' ! nat n) = n) [0..15]"
  by code_simp

lemma hex_text_value: "0 \<le> n \<Longrightarrow> list_all hextet_digit (hex_text n) \<and> hex_text n \<noteq> [] \<and> of_base 16 (map hextet_val (hex_text n)) = n"
proof (induction n rule: hex_text.induct)
  case (1 n)
  have digit: "hextet_digit (''0123456789abcdef'' ! nat m) \<and> hextet_val (''0123456789abcdef'' ! nat m) = m" if "0 \<le> m" "m < 16" for m
    using hex_digits that by (auto simp: list_all_iff)
  show ?case
  proof (cases "n < 16")
    case True
    then show ?thesis using digit [of n] "1.prems" by (subst (1 2 3) hex_text.simps) (simp add: of_base_def)
  next
    case False
    then have "list_all hextet_digit (hex_text (n div 16)) \<and> of_base 16 (map hextet_val (hex_text (n div 16))) = n div 16"
      using "1.IH" "1.prems" by simp
    then show ?thesis using False digit [of "n mod 16"] by (subst (1 2 3) hex_text.simps) (simp add: of_base_snoc)
  qed
qed

lemma hex_text_length: "0 \<le> n \<Longrightarrow> n < 16 ^ Suc k \<Longrightarrow> length (hex_text n) \<le> Suc k"
proof (induction k arbitrary: n)
  case 0
  then show ?case by (simp add: hex_text.simps [of n])
next
  case (Suc k)
  have "n div 16 < 16 ^ Suc k" using Suc.prems by (simp add: div_less_iff_less_mult mult.commute)
  then show ?case using Suc.IH [of "n div 16"] Suc.prems(1) by (simp add: hex_text.simps [of n])
qed

lemma parse_hex_text: "0 \<le> n \<Longrightarrow> n < 65536 \<Longrightarrow> parse_hextet (hex_text n) = Some n"
  using hex_text_value [of n] hex_text_length [of n 3] by (simp add: parse_hextet_def)

lemma partition_absent: "c \<notin> set s \<Longrightarrow> partition_at [c] s = (s, False, [])"
  by (induction s) auto

lemma parse_mapped:
  assumes o: "octet a" "octet b" "octet c" "octet d"
  shows "ip_address (''::ffff:'' @ dotted a b c d) = Some (V6 (0xFFFF * 2 ^ 32 + quad a b c d))"
proof -
  let ?q = "quad a b c d"
  have q: "0 \<le> ?q" "?q < 4294967296" using o by (auto simp: quad_eq octet_def)
  have colon: "CHR '':'' \<notin> set (dotted a b c d)" "CHR ''%'' \<notin> set (dotted a b c d)" "CHR ''/'' \<notin> set (dotted a b c d)"
    using dotted_chars [OF o] by simp_all
  have four: "parse_ipv4 (''::ffff:'' @ dotted a b c d) = None"
  proof -
    have "split_on (CHR ''.'') (''::ffff:'' @ dotted a b c d) = [''::ffff:'' @ str_int a, str_int b, str_int c, str_int d]"
      using split_dotted [OF o] by simp
    then show ?thesis by (simp add: parse_ipv4_def parse_octet_def)
  qed
  have parts: "split_on (CHR '':'') (''::ffff:'' @ dotted a b c d) = [[], [], ''ffff'', dotted a b c d]"
    using split_on_no_sep [OF colon(1)] by simp
  have dot: "CHR ''.'' \<in> set (dotted a b c d)" by (simp add: dotted_def)
  let ?hi = "hex_text (?q div 65536)" and ?lo = "hex_text (?q mod 65536)"
  have six: "dotted_suffix [[], [], ''ffff'', dotted a b c d] = Some [[], [], ''ffff'', ?hi, ?lo]"
    using dot by (simp add: dotted_suffix_def parse_dotted [OF o])
  have h: "?hi \<noteq> []" "?lo \<noteq> []" "parse_hextet ?hi = Some (?q div 65536)" "parse_hextet ?lo = Some (?q mod 65536)"
    using hex_text_value [of "?q div 65536"] hex_text_value [of "?q mod 65536"] parse_hex_text [of "?q div 65536"]
      parse_hex_text [of "?q mod 65536"] q by auto
  have "[1..<4] = [1, 2, 3 :: nat]" by code_simp
  then have "colon_layout [[], [], ''ffff'', ?hi, ?lo] = Some (0, 3, 5)" using h by (simp add: colon_layout_def Let_def)
  moreover have "parse_hextet ''ffff'' = Some 65535" by code_simp
  ultimately have "parse_hextets [[], [], ''ffff'', ?hi, ?lo] = Some (of_base 65536 [0, 0, 0, 0, 0, 65535, ?q div 65536, ?q mod 65536])"
    using h by (simp add: parse_hextets_def numeral_eq_Suc)
  also have "of_base 65536 [0, 0, 0, 0, 0, 65535, ?q div 65536, ?q mod 65536] = 0xFFFF * 2 ^ 32 + ?q"
    by (simp add: of_base_def)
  finally have "parse_hextets [[], [], ''ffff'', ?hi, ?lo] = Some (0xFFFF * 2 ^ 32 + ?q)" .
  moreover have "partition_at ''%'' t = (t, False, [])" "CHR ''/'' \<notin> set t" if "t = ''::ffff:'' @ dotted a b c d" for t
    by (rule partition_absent) (use colon that in simp_all)
  ultimately have "parse_ipv6 t = Some (0xFFFF * 2 ^ 32 + ?q)" "parse_ipv4 t = None" if "t = ''::ffff:'' @ dotted a b c d" for t
    using that parts six four by (simp_all only: parse_ipv6_def) simp
  then show ?thesis by (simp only: ip_address_def) simp
qed

end
