(* ===== verification/Egress.thy ===== *)
theory Egress
  imports Ip_Address Py_Float_Ops "HOL-Library.AList" "HOL-Library.Char_ord" "HOL-Library.List_Lexorder"
begin

text \<open>
  The egress watch, \<^verbatim>\<open>backend/open_webui/utils/fource_egress.py\<close>: which processes belong to the workbench, where each of
  their connections goes, and the counters a run is judged by. What \<^verbatim>\<open>psutil\<close> answers is an argument: the sockets, and
  per process a tree of its descendants with the answers its methods give (\<open>None\<close> is \<^verbatim>\<open>psutil.Error\<close>). The two threads
  meet at the lock, so every block under the lock is one action of the state machine below, and what the sampler holds
  between two blocks is its phase. A Python set of process ids is a list without duplicates.
\<close>

section \<open>Where an address is\<close>

definition classify_address :: "string \<Rightarrow> string" where
  "classify_address text = (case ip_address (fst (partition_at ''%'' text)) of
      None \<Rightarrow> ''external''
    | Some found \<Rightarrow>
        (let address = (case ipv4_mapped found of Some v4 \<Rightarrow> v4 | None \<Rightarrow> found)
         in if is_loopback address \<or> is_unspecified address then ''local''
            else if is_private address \<or> is_link_local address \<or> is_multicast address then ''lan''
            else ''external''))"

section \<open>Processes\<close>

definition BROWSERS :: "string list" where
  "BROWSERS = [''brave.exe'', ''chrome.exe'', ''msedge.exe'', ''firefox.exe'', ''opera.exe'', ''vivaldi.exe'',
     ''iexplore.exe'', ''arc.exe'', ''brave'', ''brave browser'', ''chrome'', ''chromium'',
     ''google chrome'', ''firefox'', ''opera'', ''vivaldi'', ''safari'', ''microsoft edge'']"

text \<open>\<open>met_name\<close> is the answer of \<^verbatim>\<open>name()\<close> while the family is gathered, \<open>own_name\<close> the answer when its members are listed.\<close>

datatype process = Process (proc_pid: int) (met_name: "string option") (own_name: "string option") (exe_path: "string option")
  (children: "process list option")

text \<open>What \<^verbatim>\<open>parent()\<close> answers, and so on upwards.\<close>

datatype above = ParentError | NoParent | Parent process above

type_synonym process_table = "int \<Rightarrow> (process \<times> above) option"

fun descendants :: "process \<Rightarrow> (int \<times> string) list \<Rightarrow> process list \<times> (int \<times> string) list"
and descend_each :: "process list \<Rightarrow> (int \<times> string) list \<Rightarrow> process list \<times> (int \<times> string) list" where
  "descendants (Process pid m n x kids) excluded = (case kids of None \<Rightarrow> ([], excluded) | Some cs \<Rightarrow> descend_each cs excluded)"
| "descend_each [] excluded = ([], excluded)"
| "descend_each (c # cs) excluded = (case met_name c of
      None \<Rightarrow> descend_each cs excluded
    | Some name \<Rightarrow>
        if py_lower name \<in> set BROWSERS then descend_each cs (AList.update (proc_pid c) name excluded)
        else let (below, excluded1) = descendants c excluded; (rest, excluded2) = descend_each cs excluded1
             in (c # below @ rest, excluded2))"

fun climb :: "string \<Rightarrow> process \<Rightarrow> above \<Rightarrow> process option" where
  "climb name head ParentError = None"
| "climb name head NoParent = Some head"
| "climb name head (Parent p up) = (case met_name p of
      None \<Rightarrow> None
    | Some other \<Rightarrow> if other \<noteq> name then Some head else climb name p up)"

definition list_member :: "(int \<times> string \<times> string) list \<Rightarrow> process \<Rightarrow> (int \<times> string \<times> string) list" where
  "list_member found p = (case own_name p of
      None \<Rightarrow> found
    | Some name \<Rightarrow> AList.update (proc_pid p) (name, case exe_path p of Some x \<Rightarrow> x | None \<Rightarrow> []) found)"

definition family :: "process_table \<Rightarrow> int \<Rightarrow> (int \<times> string \<times> string) list \<times> (int \<times> string) list" where
  "family table pid = (case table pid of
      None \<Rightarrow> ([], [])
    | Some (start, up) \<Rightarrow> (case met_name start of
        None \<Rightarrow> ([], [])
      | Some name \<Rightarrow> (case climb name start up of
          None \<Rightarrow> ([], [])
        | Some head \<Rightarrow> (case descendants head [] of (below, excluded) \<Rightarrow> (foldl list_member [] (head # below), excluded)))))"

section \<open>State\<close>

record address =
  ad_ip :: string
  ad_port :: int

definition endpoint :: "address option \<Rightarrow> string" where
  "endpoint a = (case a of
      None \<Rightarrow> []
    | Some a \<Rightarrow> (if CHR '':'' \<in> set (ad_ip a) then ''['' @ ad_ip a @ '']'' else ad_ip a) @ '':'' @ str_int (ad_port a))"

record conn =
  cn_pid :: "int option"
  cn_laddr :: "address option"
  cn_raddr :: "address option"
  cn_status :: string

record member =
  mb_name :: string
  mb_exe :: string
  mb_role :: string
  mb_listening :: "int list"

record event =
  ev_first :: pyfloat
  ev_last :: pyfloat
  ev_process :: string
  ev_pid :: int
  ev_role :: string
  ev_remote :: string
  ev_direction :: string
  ev_state :: string
  ev_flows :: nat

record live_row =
  lv_process :: string
  lv_pid :: int
  lv_role :: string
  lv_local :: string
  lv_remote :: string
  lv_state :: string
  lv_kind :: string
  lv_direction :: string

record canary_record =
  cy_at :: pyfloat
  cy_target :: string
  cy_outcome :: string
  cy_detail :: string
  cy_ms :: int

type_synonym flow_key = "int \<times> string \<times> string"
type_synonym event_key = "int \<times> string \<times> int"
type_synonym event_dict = "(event_key \<times> event) list"

record egress_config =
  ec_interval_ms :: int
  ec_frontend_port :: int
  ec_canary_target :: string
  ec_own_pid :: int

definition SCOPE_REFRESH_SECONDS :: pyfloat where
  "SCOPE_REFRESH_SECONDS = Fin 5"

definition CANARY_TIMEOUT :: pyfloat where
  "CANARY_TIMEOUT = Fin 3"

definition FLOW_MEMORY_SECONDS :: pyfloat where
  "FLOW_MEMORY_SECONDS = Fin 600"

definition EVENT_LIMIT :: nat where
  "EVENT_LIMIT = 200"

definition LIVE_LIMIT :: nat where
  "LIVE_LIMIT = 60"

record egress_watch =
  eg_alive :: bool
  eg_stop :: bool
  eg_per_process :: bool
  eg_model_ports :: "int set"
  eg_expected :: "(string \<times> int) set"
  eg_scope :: "(int \<times> member) list"
  eg_excluded :: "(int \<times> string \<times> string) list"
  eg_scope_at :: pyfloat
  eg_generation :: nat
  eg_since :: pyfloat
  eg_samples :: nat
  eg_last_sample :: pyfloat
  eg_error :: string
  eg_flows :: "nat pydict"
  eg_seen :: "(flow_key \<times> pyfloat) list"
  eg_events :: "event_dict pydict"
  eg_live :: "live_row list"
  eg_canaries :: "canary_record list"
  eg_canary :: "(string \<times> int \<times> pyfloat) option"

definition NO_FLOWS :: "nat pydict" where
  "NO_FLOWS = [(''local'', 0), (''lan_in'', 0), (''lan_expected'', 0), (''lan_out'', 0), (''external'', 0), (''canary'', 0)]"

definition egress_clear :: "pyfloat \<Rightarrow> egress_watch \<Rightarrow> egress_watch" where
  "egress_clear now w = w\<lparr>eg_since := now, eg_samples := 0, eg_last_sample := Fin 0, eg_error := [], eg_flows := NO_FLOWS, eg_seen := [],
     eg_events := [(''external'', []), (''lan_out'', [])], eg_live := [], eg_canaries := [], eg_canary := None\<rparr>"

definition new_watch :: "pyfloat \<Rightarrow> egress_watch" where
  "new_watch now = egress_clear now \<lparr>eg_alive = False, eg_stop = False, eg_per_process = False, eg_model_ports = {}, eg_expected = {},
     eg_scope = [], eg_excluded = [], eg_scope_at = Fin 0, eg_generation = 0, eg_since = now, eg_samples = 0, eg_last_sample = Fin 0,
     eg_error = [], eg_flows = [], eg_seen = [], eg_events = [], eg_live = [], eg_canaries = [], eg_canary = None\<rparr>"

section \<open>Operations\<close>

definition egress_start :: "egress_watch \<Rightarrow> egress_watch" where
  "egress_start w = (if eg_alive w then w else w\<lparr>eg_stop := False, eg_alive := True\<rparr>)"

definition egress_stop :: "egress_watch \<Rightarrow> egress_watch" where
  "egress_stop w = w\<lparr>eg_stop := True\<rparr>"

definition egress_reset :: "pyfloat \<Rightarrow> egress_watch \<Rightarrow> egress_watch" where
  "egress_reset now w = egress_clear now (w\<lparr>eg_generation := eg_generation w + 1\<rparr>)"

text \<open>One configured endpoint: a port of this machine, an expected destination, or neither.\<close>

definition endpoint_of :: "(string \<Rightarrow> string) \<Rightarrow> string \<Rightarrow> py_error + (int set \<times> (string \<times> int) set)" where
  "endpoint_of nfkc url =
     (if py_strip url = [] then Inr ({}, {})
      else case urlparse nfkc (if contains url ''://'' then url else ''http://'' @ url) of
        Inl e \<Rightarrow> Inl e
      | Inr parsed \<Rightarrow>
          (let host = url_hostname parsed in
           case url_port parsed of
             Inl _ \<Rightarrow> Inr ({}, {})
           | Inr given \<Rightarrow>
               (let port = (case given of Some p \<Rightarrow> if p \<noteq> 0 then p else if su_scheme parsed = ''https'' then 443 else 80
                              | None \<Rightarrow> if su_scheme parsed = ''https'' then 443 else 80)
                in if py_lower host \<in> set [''localhost'', ''host.docker.internal''] \<or> classify_address (py_lower host) = ''local'' then Inr ({port}, {})
                   else if classify_address (py_lower host) = ''lan'' then Inr ({}, {(py_lower host, port)})
                   else Inr ({}, {}))))"

definition set_endpoints :: "(string \<Rightarrow> string) \<Rightarrow> string list \<Rightarrow> egress_watch \<Rightarrow> py_error + egress_watch" where
  "set_endpoints nfkc urls w = map_sum id (\<lambda>found.
     let ports = \<Union> (set (map fst found)); expected = \<Union> (set (map snd found))
     in w\<lparr>eg_model_ports := ports, eg_expected := expected, eg_scope_at := (if ports \<noteq> eg_model_ports w then Fin 0 else eg_scope_at w)\<rparr>)
     (try_all (endpoint_of nfkc) urls)"

section \<open>Scope\<close>

text \<open>The sockets as \<^verbatim>\<open>psutil\<close> lists them: all at once, or refused; per process; and process by process.\<close>

record sockets =
  so_all :: "conn list option"
  so_of :: "int \<Rightarrow> conn list option"
  so_each :: "(int \<times> conn list option) list"

definition setdefault :: "'k \<Rightarrow> 'v \<Rightarrow> ('k \<times> 'v) list \<Rightarrow> ('k \<times> 'v) list" where
  "setdefault k v d = (if map_of d k = None then d @ [(k, v)] else d)"

definition add_to :: "'k \<Rightarrow> 'v \<Rightarrow> ('k \<times> 'v list) list \<Rightarrow> ('k \<times> 'v list) list" where
  "add_to k v d = (let old = (case map_of d k of Some vs \<Rightarrow> vs | None \<Rightarrow> []) in AList.update k (if v \<in> set old then old else old @ [v]) d)"

definition listen_on :: "int \<Rightarrow> conn \<Rightarrow> (int \<times> int list) list \<Rightarrow> (int \<times> int list) list" where
  "listen_on pid c ports = (case cn_laddr c of
      Some a \<Rightarrow> if cn_status c = ''LISTEN'' then add_to (ad_port a) pid ports else ports
    | None \<Rightarrow> ports)"

definition truthy_pid :: "conn \<Rightarrow> bool" where
  "truthy_pid c \<longleftrightarrow> cn_pid c \<noteq> None \<and> cn_pid c \<noteq> Some 0"

definition listeners :: "bool \<Rightarrow> sockets \<Rightarrow> bool \<times> (int \<times> int list) list" where
  "listeners per_process so = (case (per_process, so_all so) of
      (False, Some cs) \<Rightarrow> (False, foldl (\<lambda>ports c. listen_on (the (cn_pid c)) c ports) [] (filter truthy_pid cs))
    | _ \<Rightarrow> (True, foldl (\<lambda>ports (pid, cs). foldl (\<lambda>ports c. listen_on pid c ports) ports (case cs of Some cs \<Rightarrow> cs | None \<Rightarrow> [])) [] (so_each so)))"

definition ports_by_pid :: "(int \<times> int list) list \<Rightarrow> (int \<times> int list) list" where
  "ports_by_pid found = foldl (\<lambda>d (port, pids). foldl (\<lambda>d pid. add_to pid port d) d pids) [] found"

type_synonym scope_pair = "(int \<times> member) list \<times> (int \<times> string \<times> string) list"

definition add_family :: "process_table \<Rightarrow> (int \<times> int list) list \<Rightarrow> string \<Rightarrow> scope_pair \<Rightarrow> int \<Rightarrow> scope_pair" where
  "add_family table listening role sp pid = (case sp of (scope, excluded) \<Rightarrow> case family table pid of (found, left_out) \<Rightarrow>
     (foldl (\<lambda>s (p, name, exe). setdefault p \<lparr>mb_name = name, mb_exe = exe, mb_role = role,
         mb_listening = (case map_of listening p of Some ps \<Rightarrow> ps | None \<Rightarrow> [])\<rparr> s) scope found,
      foldl (\<lambda>x (p, name). setdefault p (name, role) x) excluded left_out))"

definition add_pids :: "process_table \<Rightarrow> (int \<times> int list) list \<Rightarrow> string \<Rightarrow> int list \<Rightarrow> scope_pair \<Rightarrow> scope_pair" where
  "add_pids table listening role pids sp = foldl (add_family table listening role) sp pids"

definition pids_on :: "(int \<times> int list) list \<Rightarrow> int \<Rightarrow> int list" where
  "pids_on found port = (case map_of found port of Some pids \<Rightarrow> pids | None \<Rightarrow> [])"

definition gather_scope :: "egress_config \<Rightarrow> process_table \<Rightarrow> (int \<times> int list) list \<Rightarrow> int set \<Rightarrow> scope_pair" where
  "gather_scope cf table found model_ports =
     (let listening = ports_by_pid found;
          backend = add_pids table listening ''backend'' [ec_own_pid cf] ([], []);
          served = foldl (\<lambda>sp port. add_pids table listening ''model server'' (pids_on found port) sp) backend (sorted_list_of_set model_ports)
      in add_pids table listening ''frontend'' (pids_on found (ec_frontend_port cf)) served)"

section \<open>Sampling\<close>

definition connections :: "bool \<Rightarrow> sockets \<Rightarrow> int list \<Rightarrow> bool \<times> (int \<times> conn) list" where
  "connections per_process so pids = (case (per_process, so_all so) of
      (False, Some cs) \<Rightarrow> (False, map (\<lambda>c. (the (cn_pid c), c)) (filter truthy_pid cs))
    | _ \<Rightarrow> (True, concat (map (\<lambda>pid. case so_of so pid of Some cs \<Rightarrow> map (Pair pid) cs | None \<Rightarrow> []) pids)))"

record observed =
  ob_pid :: int
  ob_member :: member
  ob_conn :: conn
  ob_kind :: string
  ob_inbound :: bool

definition flow_kind :: "pyfloat \<Rightarrow> (string \<times> int) set \<Rightarrow> (string \<times> int \<times> pyfloat) option \<Rightarrow> member \<Rightarrow> address \<Rightarrow> bool \<Rightarrow> string" where
  "flow_kind now expected canary m remote inbound =
     (let kind = classify_address (ad_ip remote) in
      if kind = ''lan''
      then (if inbound then ''lan_in'' else if (ad_ip remote, ad_port remote) \<in> expected then ''lan_expected'' else ''lan_out'')
      else if kind = ''external'' \<and> (case canary of
             None \<Rightarrow> False
           | Some (host, port, until) \<Rightarrow> mb_role m = ''backend'' \<and> (ad_ip remote, ad_port remote) = (host, port) \<and> pf_le now until)
      then ''canary'' else kind)"

definition observe_one :: "pyfloat \<Rightarrow> (int \<times> member) list \<Rightarrow> (string \<times> int) set \<Rightarrow> (string \<times> int \<times> pyfloat) option \<Rightarrow> int \<times> conn \<Rightarrow> observed option" where
  "observe_one now scope expected canary = (\<lambda>(pid, c). case (map_of scope pid, cn_raddr c) of
      (Some m, Some remote) \<Rightarrow>
        (let inbound = (case cn_laddr c of Some a \<Rightarrow> ad_port a \<in> set (mb_listening m) | None \<Rightarrow> False)
         in Some \<lparr>ob_pid = pid, ob_member = m, ob_conn = c, ob_kind = flow_kind now expected canary m remote inbound, ob_inbound = inbound\<rparr>)
    | _ \<Rightarrow> None)"

definition observe :: "pyfloat \<Rightarrow> (int \<times> member) list \<Rightarrow> (string \<times> int) set \<Rightarrow> (string \<times> int \<times> pyfloat) option \<Rightarrow> (int \<times> conn) list \<Rightarrow> observed list" where
  "observe now scope expected canary cs = List.map_filter (observe_one now scope expected canary) cs"

definition flow_key_of :: "observed \<Rightarrow> flow_key" where
  "flow_key_of ob = (ob_pid ob, endpoint (cn_laddr (ob_conn ob)), endpoint (cn_raddr (ob_conn ob)))"

definition event_key_of :: "observed \<Rightarrow> event_key" where
  "event_key_of ob = (case cn_raddr (ob_conn ob) of Some a \<Rightarrow> (ob_pid ob, ad_ip a, ad_port a) | None \<Rightarrow> (ob_pid ob, [], 0))"

definition direction :: "observed \<Rightarrow> string" where
  "direction ob = (if ob_inbound ob then ''in'' else ''out'')"

definition note_event :: "observed \<Rightarrow> pyfloat \<Rightarrow> bool \<Rightarrow> event_dict \<Rightarrow> event_dict" where
  "note_event ob now fresh evs =
     (let key = event_key_of ob;
          touch = (\<lambda>e. e\<lparr>ev_last := now, ev_state := cn_status (ob_conn ob), ev_flows := ev_flows e + (if fresh then 1 else 0)\<rparr>)
      in case map_of evs key of
           Some e \<Rightarrow> AList.update key (touch e) evs
         | None \<Rightarrow>
             if EVENT_LIMIT \<le> length evs then evs
             else AList.update key (touch \<lparr>ev_first = now, ev_last = now, ev_process = mb_name (ob_member ob), ev_pid = ob_pid ob,
               ev_role = mb_role (ob_member ob), ev_remote = endpoint (cn_raddr (ob_conn ob)), ev_direction = direction ob,
               ev_state = cn_status (ob_conn ob), ev_flows = 0\<rparr>) evs)"

definition live_row_of :: "observed \<Rightarrow> live_row" where
  "live_row_of ob = \<lparr>lv_process = mb_name (ob_member ob), lv_pid = ob_pid ob, lv_role = mb_role (ob_member ob),
     lv_local = endpoint (cn_laddr (ob_conn ob)), lv_remote = endpoint (cn_raddr (ob_conn ob)), lv_state = cn_status (ob_conn ob),
     lv_kind = ob_kind ob, lv_direction = direction ob\<rparr>"

definition flow_count :: "egress_watch \<Rightarrow> string \<Rightarrow> nat" where
  "flow_count w kind = (case dict_get (eg_flows w) kind of Some n \<Rightarrow> n | None \<Rightarrow> 0)"

definition commit_one :: "pyfloat \<Rightarrow> egress_watch \<Rightarrow> observed \<Rightarrow> egress_watch" where
  "commit_one now w ob =
     (let key = flow_key_of ob; fresh = (map_of (eg_seen w) key = None); kind = ob_kind ob
      in w\<lparr>eg_seen := AList.update key now (eg_seen w),
           eg_flows := (if fresh then dict_set kind (flow_count w kind + 1) (eg_flows w) else eg_flows w),
           eg_events := (case dict_get (eg_events w) kind of
               Some evs \<Rightarrow> dict_set kind (note_event ob now fresh evs) (eg_events w)
             | None \<Rightarrow> eg_events w)\<rparr>)"

definition commit_sample :: "pyfloat \<Rightarrow> observed list \<Rightarrow> egress_watch \<Rightarrow> egress_watch" where
  "commit_sample now obs w =
     (let w1 = foldl (commit_one now) (w\<lparr>eg_samples := eg_samples w + 1, eg_last_sample := now\<rparr>) obs
      in w1\<lparr>eg_live := map live_row_of (take LIVE_LIMIT obs), eg_error := [],
            eg_seen := (if 5000 < length (eg_seen w1) \<or> eg_samples w1 mod 240 = 0
              then filter (\<lambda>(k, t). pf_le (pf_sub now FLOW_MEMORY_SECONDS) t) (eg_seen w1) else eg_seen w1)\<rparr>)"


section \<open>The canary\<close>

text \<open>\<^verbatim>\<open>int(s)\<close> of a text.\<close>

definition read_int :: "string \<Rightarrow> py_error + int" where
  \<open>read_int s =
     (let t = py_strip s; unsigned = (if starts_with t ''-'' \<or> starts_with t ''+'' then tl t else t);
          ds = filter (\<lambda>c. c \<noteq> CHR ''_'') unsigned; n = int_of_digits ds
      in if re_match no_flags (rx ''~d+(?:_~d+)*~Z'') unsigned = None then Inl ValueError
         else Inr (if starts_with t ''-'' then - n else n))\<close>

definition canary_target :: "egress_config \<Rightarrow> py_error + string \<times> int" where
  "canary_target cf =
     (let parts = split_on (CHR '':'') (ec_canary_target cf); host = join_with '':'' (butlast parts)
      in map_sum id (Pair (strip_if (\<lambda>c. c \<in> set ''[]'') host)) (read_int (last parts)))"

text \<open>How the attempt to connect ends: a refusal by the far end or by the host, or another error with its code.\<close>

datatype attempt = Opened | TimedOut | Refused | OsError "int option" bool string

definition DENIED :: "int list" where
  "DENIED = [13, 1, 10013]"

definition NO_ROUTE :: "int list" where
  "NO_ROUTE = [101, 113, 10051, 10065]"

definition canary_outcome :: "attempt \<Rightarrow> string \<times> string" where
  \<open>canary_outcome ended = (case ended of
      Opened \<Rightarrow> (''reachable'', (''the connection opened. The workbench made no such call, but nothing on this host prevents one - '' @
     ''add an egress_watch rule to make that physical''))
    | TimedOut \<Rightarrow> (''blocked'', ''no answer within 3 s - dropped by a firewall, or no route out'')
    | Refused \<Rightarrow> (''blocked'', ''refused on the way out'')
    | OsError code permission text \<Rightarrow>
        (''blocked'',
         if (case code of Some c \<Rightarrow> c \<in> set DENIED | None \<Rightarrow> False) \<or> permission then ''denied by the host firewall''
         else if (case code of Some c \<Rightarrow> c \<in> set NO_ROUTE | None \<Rightarrow> False) then ''no route to the internet - the uplink is down or disconnected''
         else ''failed: '' @ text))\<close>

definition canary_armed :: "egress_config \<Rightarrow> pyfloat \<Rightarrow> egress_watch \<Rightarrow> py_error + egress_watch" where
  "canary_armed cf now w = map_sum id (\<lambda>(host, port). w\<lparr>eg_canary := Some (host, port, pf_add (pf_add now CANARY_TIMEOUT) (Fin 2))\<rparr>) (canary_target cf)"

definition canary_done :: "egress_config \<Rightarrow> pyfloat \<Rightarrow> attempt \<Rightarrow> pyfloat \<Rightarrow> egress_watch \<Rightarrow> py_error + egress_watch" where
  "canary_done cf now ended elapsed w = map_sum id (\<lambda>ms.
     let (result, detail) = canary_outcome ended;
         entry = \<lparr>cy_at = now, cy_target = ec_canary_target cf, cy_outcome = result, cy_detail = detail, cy_ms = ms\<rparr>
     in w\<lparr>eg_canaries := take 20 (entry # eg_canaries w)\<rparr>) (pf_round (pf_mul elapsed (Fin 1000)))"

section \<open>Reading\<close>

definition LIMITS :: "egress_config \<Rightarrow> string list" where
  \<open>LIMITS cf = [''Sampled every '' @ str_int (ec_interval_ms cf) @ ('' ms. A connection that opens and closes between two samples can be missed; a packet capture on '' @
     ''the uplink closes that gap.''),
     (''DNS lookups are made by the operating system's resolver on a process's behalf, so they do not '' @
     ''appear among the workbench's own connections.''),
     (''Scope is the backend, the model server and the frontend, with their child processes - except a '' @
     ''web browser one of them opened, which is the person's own browsing. The operating system and '' @
     ''other programs are outside it too.''),
     ''Sandbox containers run with --network none, so they have no interface to connect with.'']\<close>

text \<open>\<^verbatim>\<open>sorted(events, key=lambda e: -e["last"])\<close>: newest first, equals in their order.\<close>

fun insert_event :: "event \<Rightarrow> event list \<Rightarrow> event list" where
  "insert_event e [] = [e]"
| "insert_event e (x # xs) = (if pf_lt (ev_last e) (ev_last x) then x # insert_event e xs else e # x # xs)"

definition newest_first :: "event list \<Rightarrow> event list" where
  "newest_first es = foldr insert_event es []"

definition event_json :: "event \<Rightarrow> json" where
  "event_json e = JObj [(''first'', JFloat (ev_first e)), (''last'', JFloat (ev_last e)), (''process'', JStr (ev_process e)),
     (''pid'', JInt (ev_pid e)), (''role'', JStr (ev_role e)), (''remote'', JStr (ev_remote e)), (''direction'', JStr (ev_direction e)),
     (''state'', JStr (ev_state e)), (''flows'', JInt (int (ev_flows e)))]"

definition live_json :: "live_row \<Rightarrow> json" where
  "live_json r = JObj [(''process'', JStr (lv_process r)), (''pid'', JInt (lv_pid r)), (''role'', JStr (lv_role r)),
     (''local'', JStr (lv_local r)), (''remote'', JStr (lv_remote r)), (''state'', JStr (lv_state r)), (''kind'', JStr (lv_kind r)),
     (''direction'', JStr (lv_direction r))]"

definition canary_json :: "canary_record \<Rightarrow> json" where
  "canary_json r = JObj [(''at'', JFloat (cy_at r)), (''target'', JStr (cy_target r)), (''outcome'', JStr (cy_outcome r)),
     (''detail'', JStr (cy_detail r)), (''ms'', JInt (cy_ms r))]"

definition member_json :: "int \<times> member \<Rightarrow> json" where
  "member_json = (\<lambda>(pid, m). JObj [(''pid'', JInt pid), (''process'', JStr (mb_name m)), (''exe'', JStr (mb_exe m)), (''role'', JStr (mb_role m)),
     (''listening'', JList (map JInt (sort (mb_listening m))))])"

text \<open>\<^verbatim>\<open>sorted(scope.items(), key=lambda i: (i[1]["role"], i[0]))\<close> sorts by process id and then, keeping that order, by role.\<close>

definition by_role :: "(int \<times> member) list \<Rightarrow> (int \<times> member) list" where
  "by_role scope = sort_key (\<lambda>(pid, m). mb_role m) (sort_key fst scope)"

definition events_of :: "egress_watch \<Rightarrow> string \<Rightarrow> event list" where
  "events_of w kind = (case dict_get (eg_events w) kind of Some evs \<Rightarrow> map snd evs | None \<Rightarrow> [])"

definition snapshot :: "egress_config \<Rightarrow> pyfloat \<Rightarrow> egress_watch \<Rightarrow> json pydict" where
  "snapshot cf now w = [
     (''running'', JBool (eg_alive w)), (''generation'', JInt (int (eg_generation w))), (''since'', JFloat (eg_since w)), (''now'', JFloat now),
     (''samples'', JInt (int (eg_samples w))), (''interval_ms'', JInt (ec_interval_ms cf)), (''last_sample'', JFloat (eg_last_sample w)),
     (''error'', JStr (eg_error w)), (''mode'', JStr (if eg_per_process w then ''per-process'' else ''system table'')),
     (''flows'', JObj (map (\<lambda>(k, n). (k, JInt (int n))) (eg_flows w))),
     (''external'', JList (map event_json (newest_first (events_of w ''external'')))),
     (''lan_out'', JList (map event_json (newest_first (events_of w ''lan_out'')))),
     (''scope'', JList (map member_json (by_role (eg_scope w)))),
     (''excluded'', JList (map (\<lambda>(pid, name, role). JObj [(''pid'', JInt pid), (''process'', JStr name), (''role'', JStr role)])
        (sort_key fst (eg_excluded w)))),
     (''live'', JList (map live_json (eg_live w))), (''canaries'', JList (map canary_json (eg_canaries w))),
     (''canary_target'', JStr (ec_canary_target cf)),
     (''expected_lan'', JList (map JStr (sorted_list_of_set ((\<lambda>(h, p). h @ '':'' @ str_int p) ` eg_expected w)))),
     (''limits'', JList (map JStr (LIMITS cf)))]"

record watch_mark =
  mk_generation :: nat
  mk_samples :: nat
  mk_external :: nat
  mk_lan_out :: nat

definition mark :: "egress_watch \<Rightarrow> watch_mark" where
  "mark w = \<lparr>mk_generation = eg_generation w, mk_samples = eg_samples w, mk_external = flow_count w ''external'', mk_lan_out = flow_count w ''lan_out''\<rparr>"

datatype run_egress =
    Unobserved string
  | Observed (run_external: int) (run_lan_out: int) (run_samples: int) (run_processes: nat) (run_interval: int)

definition since_mark :: "egress_config \<Rightarrow> watch_mark option \<Rightarrow> egress_watch \<Rightarrow> run_egress" where
  "since_mark cf m w = (case m of
      None \<Rightarrow> Unobserved ''the egress watch is not running''
    | Some m \<Rightarrow>
        if \<not> eg_alive w then Unobserved ''the egress watch is not running''
        else let base = (if eg_generation w = mk_generation m then m
                         else \<lparr>mk_generation = eg_generation w, mk_samples = 0, mk_external = 0, mk_lan_out = 0\<rparr>);
                 taken = int (eg_samples w) - int (mk_samples base)
             in if taken \<le> 0 then Unobserved ''no samples were taken during the run''
                else Observed (int (flow_count w ''external'') - int (mk_external base)) (int (flow_count w ''lan_out'') - int (mk_lan_out base))
                  taken (length (eg_scope w)) (ec_interval_ms cf))"

section \<open>The two threads\<close>

text \<open>Where the sampler stands between two blocks under the lock, with the values it has read.\<close>

datatype phase =
    Waiting
  | Listing pyfloat "(int \<times> int list) list"
  | Scoping pyfloat "(int \<times> int list) list" "int set"
  | Ready pyfloat
  | Loaded pyfloat "(int \<times> member) list" "(string \<times> int) set" "(string \<times> int \<times> pyfloat) option"
  | Looked pyfloat "observed list"

datatype action =
    Start | Stop | Exit
  | Reset pyfloat
  | Endpoints "string list"
  | Arm pyfloat
  | Report pyfloat attempt pyfloat
  | Begin pyfloat sockets
  | Ports
  | Rescope process_table pyfloat
  | Load
  | Look sockets
  | Commit
  | Fail string

type_synonym watch_state = "egress_watch \<times> phase"

text \<open>One action; \<open>None\<close> when it cannot happen in that state. An endpoint list or canary target that raises changes nothing.\<close>

fun watch_act :: "egress_config \<Rightarrow> (string \<Rightarrow> string) \<Rightarrow> action \<Rightarrow> watch_state \<Rightarrow> watch_state option" where
  "watch_act cf nfkc Start (w, ph) = Some (egress_start w, if eg_alive w then ph else Waiting)"
| "watch_act cf nfkc Stop (w, ph) = Some (egress_stop w, ph)"
| "watch_act cf nfkc Exit (w, Waiting) = (if eg_alive w \<and> eg_stop w then Some (w\<lparr>eg_alive := False\<rparr>, Waiting) else None)"
| "watch_act cf nfkc (Reset now) (w, ph) = Some (egress_reset now w, ph)"
| "watch_act cf nfkc (Endpoints urls) (w, ph) = Some (case set_endpoints nfkc urls w of Inl e \<Rightarrow> w | Inr w1 \<Rightarrow> w1, ph)"
| "watch_act cf nfkc (Arm now) (w, ph) = Some (case canary_armed cf now w of Inl e \<Rightarrow> w | Inr w1 \<Rightarrow> w1, ph)"
| "watch_act cf nfkc (Report now ended elapsed) (w, ph) = Some (case canary_done cf now ended elapsed w of Inl e \<Rightarrow> w | Inr w1 \<Rightarrow> w1, ph)"
| "watch_act cf nfkc (Begin now so) (w, Waiting) =
     (if \<not> eg_alive w \<or> eg_stop w then None
      else if pf_le SCOPE_REFRESH_SECONDS (pf_sub now (eg_scope_at w))
      then (case listeners (eg_per_process w) so of (per, found) \<Rightarrow> Some (w\<lparr>eg_per_process := per\<rparr>, Listing now found))
      else Some (w, Ready now))"
| "watch_act cf nfkc Ports (w, Listing now found) = Some (w, Scoping now found (eg_model_ports w))"
| "watch_act cf nfkc (Rescope table later) (w, Scoping now found ports) =
     (case gather_scope cf table found ports of
        (scope, excluded) \<Rightarrow> Some (w\<lparr>eg_scope := scope, eg_excluded := excluded, eg_scope_at := later\<rparr>, Ready now))"
| "watch_act cf nfkc Load (w, Ready now) = Some (w, Loaded now (eg_scope w) (eg_expected w) (eg_canary w))"
| "watch_act cf nfkc (Look so) (w, Loaded now scope expected canary) =
     (case connections (eg_per_process w) so (map fst scope) of
        (per, cs) \<Rightarrow> Some (w\<lparr>eg_per_process := per\<rparr>, Looked now (observe now scope expected canary cs)))"
| "watch_act cf nfkc Commit (w, Looked now obs) = Some (commit_sample now obs w, Waiting)"
| "watch_act cf nfkc (Fail text) (w, ph) = (if eg_alive w then Some (w\<lparr>eg_error := text\<rparr>, Waiting) else None)"
| "watch_act cf nfkc _ _ = None"

inductive watched :: "egress_config \<Rightarrow> (string \<Rightarrow> string) \<Rightarrow> watch_state \<Rightarrow> action list \<Rightarrow> watch_state \<Rightarrow> bool" for cf nfkc where
  watched_nil: "watched cf nfkc s [] s"
| watched_step: "watched cf nfkc s as t \<Longrightarrow> watch_act cf nfkc a t = Some u \<Longrightarrow> watched cf nfkc s (as @ [a]) u"

text \<open>The endpoints of the configuration, of the keys the watch follows: a text, a list of texts, or anything else.\<close>

definition endpoint_urls :: "(string \<Rightarrow> json option) \<Rightarrow> (json \<Rightarrow> string) \<Rightarrow> string list" where
  "endpoint_urls get_config str = concat (map (\<lambda>key. case get_config key of
      Some (JStr url) \<Rightarrow> [url]
    | Some (JList vs) \<Rightarrow> map (\<lambda>v. case v of JStr t \<Rightarrow> t | _ \<Rightarrow> str v) vs
    | _ \<Rightarrow> []) [''openai.api_base_urls'', ''ollama.base_urls'', ''rag.openai.api_base_url'', ''rag.ollama.base_url''])"


section \<open>Flow keys\<close>

lemma str_int_no_colon: "CHR '':'' \<notin> set (str_int n)"
  using digits_of_digits [of "\<bar>n\<bar>"] not_digit(1) by (fastforce simp: str_int_def split: if_splits dest: bspec)

lemma split_at_last:
  assumes "a @ c # b = a' @ c # b'" "c \<notin> set b" "c \<notin> set b'"
  shows "a = a' \<and> b = b'"
  using assms by (auto simp: append_eq_append_conv2 append_eq_Cons_conv Cons_eq_append_conv)

lemma endpoint_inj: "endpoint a = endpoint b \<Longrightarrow> a = b"
proof (cases a; cases b)
  fix x y assume eq: "endpoint a = endpoint b" and ab: "a = Some x" "b = Some y"
  define host where "host = (\<lambda>z :: address. if CHR '':'' \<in> set (ad_ip z) then ''['' @ ad_ip z @ '']'' else ad_ip z)"
  have "host x @ CHR '':'' # str_int (ad_port x) = host y @ CHR '':'' # str_int (ad_port y)"
    using eq by (simp add: ab endpoint_def host_def split: if_splits)
  from split_at_last [OF this str_int_no_colon str_int_no_colon]
  have h: "host x = host y" and "ad_port x = ad_port y" using str_int_inj by auto
  moreover have "CHR '':'' \<in> set (host z) \<longleftrightarrow> CHR '':'' \<in> set (ad_ip z)" for z by (simp add: host_def)
  then have "CHR '':'' \<in> set (ad_ip x) \<longleftrightarrow> CHR '':'' \<in> set (ad_ip y)" using h by metis
  with h have "ad_ip x = ad_ip y" by (simp add: host_def split: if_splits)
  ultimately show "a = b" by (simp add: ab)
qed (auto simp: endpoint_def)


section \<open>Counting\<close>

lemma flow_count_commit_one:
  "flow_count (commit_one now w ob) k =
     flow_count w k + (if k = ob_kind ob \<and> flow_key_of ob \<notin> fst ` set (eg_seen w) then 1 else 0)"
  by (simp add: commit_one_def Let_def flow_count_def map_of_eq_None_iff split: option.splits)

lemma seen_commit_one: "fst ` set (eg_seen (commit_one now w ob)) = insert (flow_key_of ob) (fst ` set (eg_seen w))"
  by (simp add: commit_one_def Let_def dom_map_of_conv_image_fst [symmetric] update_conv')

text \<open>Observations of one look at the sockets: the same flow has the same kind.\<close>

definition consistent :: "observed list \<Rightarrow> bool" where
  "consistent obs \<longleftrightarrow> (\<forall>x\<in>set obs. \<forall>y\<in>set obs. flow_key_of x = flow_key_of y \<longrightarrow> ob_kind x = ob_kind y)"

lemma consistentD: "consistent obs \<Longrightarrow> x \<in> set obs \<Longrightarrow> y \<in> set obs \<Longrightarrow> flow_key_of x = flow_key_of y \<Longrightarrow> ob_kind x = ob_kind y"
  unfolding consistent_def by blast

definition new_flows :: "egress_watch \<Rightarrow> string \<Rightarrow> observed list \<Rightarrow> flow_key set" where
  "new_flows w k obs = flow_key_of ` {ob \<in> set obs. ob_kind ob = k} - fst ` set (eg_seen w)"

lemma new_flows_Cons:
  "new_flows w k (ob # obs) = (if ob_kind ob = k then {flow_key_of ob} - fst ` set (eg_seen w) else {}) \<union> new_flows w k obs"
proof -
  have "{x \<in> set (ob # obs). ob_kind x = k} = (if ob_kind ob = k then {ob} else {}) \<union> {x \<in> set obs. ob_kind x = k}" by auto
  then show ?thesis by (auto simp: new_flows_def image_Un)
qed

lemma new_flows_commit: "new_flows (commit_one now w ob) k obs = new_flows w k obs - {flow_key_of ob}"
  unfolding new_flows_def seen_commit_one by (rule Diff_insert)

lemma finite_new_flows [simp]: "finite (new_flows w k obs)"
  by (simp add: new_flows_def)

lemma flow_count_fold:
  "consistent obs \<Longrightarrow> flow_count (foldl (commit_one now) w obs) k = flow_count w k + card (new_flows w k obs)"
proof (induction obs arbitrary: w)
  case Nil
  then show ?case by (simp add: new_flows_def)
next
  case (Cons ob obs)
  let ?w = "commit_one now w ob" and ?key = "flow_key_of ob"
  have IH: "flow_count (foldl (commit_one now) ?w obs) k = flow_count ?w k + card (new_flows ?w k obs)"
    by (rule Cons.IH) (use Cons.prems in \<open>unfold consistent_def, meson list.set_intros(2)\<close>)
  have here: "?key \<in> new_flows w k (ob # obs) \<longleftrightarrow> k = ob_kind ob \<and> ?key \<notin> fst ` set (eg_seen w)"
  proof
    assume "?key \<in> new_flows w k (ob # obs)"
    then obtain x where "x \<in> set (ob # obs)" "ob_kind x = k" "flow_key_of x = ?key" "?key \<notin> fst ` set (eg_seen w)"
      unfolding new_flows_def by force
    then show "k = ob_kind ob \<and> ?key \<notin> fst ` set (eg_seen w)" using consistentD [OF Cons.prems, of x ob] by simp
  qed (simp add: new_flows_Cons)
  have rest: "new_flows w k obs - {?key} = new_flows w k (ob # obs) - {?key}"
    unfolding new_flows_Cons by (cases "ob_kind ob = k") (simp_all, blast)
  show ?case
  proof (cases "?key \<in> new_flows w k (ob # obs)")
    case True
    then have "card (new_flows w k (ob # obs)) = Suc (card (new_flows w k (ob # obs) - {?key}))" by (intro card.remove) simp_all
    then show ?thesis using IH True here by (simp add: new_flows_commit rest flow_count_commit_one)
  next
    case False
    then show ?thesis using IH here by (simp add: new_flows_commit rest flow_count_commit_one)
  qed
qed

lemma observe_one_facts:
  assumes "observe_one now scope expected canary (pid, c) = Some ob"
  shows "ob_pid ob = pid \<and> ob_conn ob = c \<and> map_of scope pid = Some (ob_member ob) \<and> (\<exists>remote. cn_raddr c = Some remote
    \<and> ob_inbound ob = (case cn_laddr c of Some a \<Rightarrow> ad_port a \<in> set (mb_listening (ob_member ob)) | None \<Rightarrow> False)
    \<and> ob_kind ob = flow_kind now expected canary (ob_member ob) remote (ob_inbound ob))"
  using assms by (auto simp: observe_one_def Let_def split: option.splits)

lemma observe_mem: "ob \<in> set (observe now scope expected canary cs) \<longleftrightarrow> (\<exists>x\<in>set cs. observe_one now scope expected canary x = Some ob)"
  by (force simp: observe_def List.map_filter_def)

lemma observe_consistent: "consistent (observe now scope expected canary cs)"
proof -
  have same: "ob_kind x = ob_kind y"
    if x: "observe_one now scope expected canary (p, c) = Some x" and y: "observe_one now scope expected canary (q, d) = Some y"
      and key: "flow_key_of x = flow_key_of y" for p c q d x y
  proof -
    have "p = q" "cn_laddr c = cn_laddr d" "cn_raddr c = cn_raddr d"
      using observe_one_facts [OF x] observe_one_facts [OF y] key by (auto simp: flow_key_of_def dest!: endpoint_inj)
    moreover from this have "ob_member x = ob_member y" using observe_one_facts [OF x] observe_one_facts [OF y] by simp
    ultimately have "ob_inbound x = ob_inbound y" "ob_member x = ob_member y" "cn_raddr c = cn_raddr d"
      using observe_one_facts [OF x] observe_one_facts [OF y] by (auto split: option.splits)
    then show ?thesis using observe_one_facts [OF x] observe_one_facts [OF y] by auto
  qed
  show ?thesis
    unfolding consistent_def
  proof (intro ballI impI)
    fix x y assume "x \<in> set (observe now scope expected canary cs)" "y \<in> set (observe now scope expected canary cs)"
      and key: "flow_key_of x = flow_key_of y"
    then obtain a b where "observe_one now scope expected canary a = Some x" "observe_one now scope expected canary b = Some y"
      unfolding observe_mem by blast
    then show "ob_kind x = ob_kind y" using same [of "fst a" "snd a" x "fst b" "snd b" y] key by simp
  qed
qed

lemma flow_count_commit:
  assumes "consistent obs"
  shows "flow_count (commit_sample now obs w) k = flow_count w k + card (new_flows w k obs)"
proof -
  have "flow_count (commit_sample now obs w) k
      = flow_count (foldl (commit_one now) (w\<lparr>eg_samples := eg_samples w + 1, eg_last_sample := now\<rparr>) obs) k"
    by (simp add: commit_sample_def Let_def flow_count_def)
  then show ?thesis using flow_count_fold [OF assms] by (simp add: new_flows_def flow_count_def)
qed

lemma flow_count_commit_mono: "flow_count w k \<le> flow_count (commit_sample now obs w) k"
proof -
  have "flow_count w k \<le> flow_count (foldl (commit_one now) w obs) k" for w
  proof (induction obs arbitrary: w)
    case (Cons ob obs)
    from Cons [of "commit_one now w ob"] show ?case by (simp add: flow_count_commit_one)
  qed simp
  from this [of "w\<lparr>eg_samples := eg_samples w + 1, eg_last_sample := now\<rparr>"] show ?thesis
    by (simp add: commit_sample_def Let_def flow_count_def)
qed


section \<open>Runs of the machine\<close>

text \<open>What no action but a reset takes back.\<close>

definition ahead :: "egress_watch \<Rightarrow> egress_watch \<Rightarrow> bool" where
  "ahead w u \<longleftrightarrow> eg_generation u = eg_generation w \<and> eg_samples w \<le> eg_samples u \<and> (\<forall>k. flow_count w k \<le> flow_count u k)"

lemma ahead_refl [simp]: "ahead w w"
  by (simp add: ahead_def)

lemma ahead_trans: "ahead a b \<Longrightarrow> ahead b c \<Longrightarrow> ahead a c"
  by (auto simp: ahead_def intro: order_trans)

definition is_reset :: "action \<Rightarrow> bool" where
  "is_reset a = (case a of Reset t \<Rightarrow> True | _ \<Rightarrow> False)"

lemma commit_one_frame [simp]:
  "eg_samples (commit_one now w ob) = eg_samples w" "eg_generation (commit_one now w ob) = eg_generation w"
  "eg_canaries (commit_one now w ob) = eg_canaries w" "eg_alive (commit_one now w ob) = eg_alive w" "eg_scope (commit_one now w ob) = eg_scope w"
  by (simp_all add: commit_one_def Let_def)

lemma fold_commit_frame [simp]:
  "eg_samples (foldl (commit_one now) w obs) = eg_samples w" "eg_generation (foldl (commit_one now) w obs) = eg_generation w"
  "eg_canaries (foldl (commit_one now) w obs) = eg_canaries w" "eg_alive (foldl (commit_one now) w obs) = eg_alive w" "eg_scope (foldl (commit_one now) w obs) = eg_scope w"
  by (induction obs arbitrary: w) simp_all

lemma commit_sample_frame [simp]:
  "eg_samples (commit_sample now obs w) = eg_samples w + 1" "eg_generation (commit_sample now obs w) = eg_generation w"
  "eg_canaries (commit_sample now obs w) = eg_canaries w" "eg_alive (commit_sample now obs w) = eg_alive w" "eg_scope (commit_sample now obs w) = eg_scope w"
  by (simp_all add: commit_sample_def Let_def)

lemma ahead_commit: "ahead w (commit_sample now obs w)"
  using flow_count_commit_mono by (simp add: ahead_def)

text \<open>The actions that do not touch the counters.\<close>

lemma ahead_same:
  assumes "eg_generation u = eg_generation w" "eg_samples u = eg_samples w" "eg_flows u = eg_flows w"
  shows "ahead w u"
  using assms by (simp add: ahead_def flow_count_def)

lemma ahead_endpoints: "set_endpoints nfkc urls w = Inr u \<Longrightarrow> ahead w u"
  by (cases "try_all (endpoint_of nfkc) urls") (auto simp: set_endpoints_def Let_def intro: ahead_same)

lemma ahead_armed: "canary_armed cf now w = Inr u \<Longrightarrow> ahead w u"
  by (cases "canary_target cf") (auto simp: canary_armed_def intro: ahead_same)

lemma ahead_done: "canary_done cf now at' e w = Inr u \<Longrightarrow> ahead w u"
  by (cases "pf_round (pf_mul e (Fin 1000))") (auto simp: canary_done_def Let_def intro: ahead_same split: prod.splits)

lemma ahead_act:
  assumes "watch_act cf nfkc a (w, ph) = Some (u, ph')" "\<not> is_reset a"
  shows "ahead w u"
  using assms
  by (cases "(cf, nfkc, a, (w, ph))" rule: watch_act.cases)
    (auto simp: is_reset_def egress_start_def egress_stop_def ahead_commit intro: ahead_same ahead_endpoints ahead_armed ahead_done
      split: if_splits prod.splits sum.splits)

lemma ahead_watched:
  "watched cf nfkc s as t \<Longrightarrow> list_all (\<lambda>a. \<not> is_reset a) as \<Longrightarrow> ahead (fst s) (fst t)"
proof (induction rule: watched.induct)
  case (watched_step s as t a u)
  have "ahead (fst t) (fst u)"
    by (rule ahead_act [of cf nfkc a _ "snd t" _ "snd u"]) (use watched_step in simp_all)
  then show ?case using watched_step by (auto intro: ahead_trans)
qed simp


section \<open>The invariant of the watch\<close>

definition EVENT_KINDS :: "string list" where
  "EVENT_KINDS = [''external'', ''lan_out'']"

definition logged :: "egress_watch \<Rightarrow> string \<Rightarrow> event_dict" where
  "logged w k = (case dict_get (eg_events w) k of Some evs \<Rightarrow> evs | None \<Rightarrow> [])"

definition logged_flows :: "event_dict \<Rightarrow> nat" where
  "logged_flows evs = sum_list (map (ev_flows \<circ> snd) evs)"

definition log_ok :: "egress_watch \<Rightarrow> string \<Rightarrow> bool" where
  "log_ok w k \<longleftrightarrow> distinct (map fst (logged w k)) \<and> length (logged w k) \<le> EVENT_LIMIT \<and> logged_flows (logged w k) \<le> flow_count w k"

definition watch_ok :: "egress_watch \<Rightarrow> bool" where
  "watch_ok w \<longleftrightarrow> map fst (eg_flows w) = map fst NO_FLOWS \<and> map fst (eg_events w) = EVENT_KINDS
     \<and> distinct (map fst (eg_seen w)) \<and> list_all (log_ok w) EVENT_KINDS
     \<and> length (eg_live w) \<le> LIVE_LIMIT \<and> length (eg_canaries w) \<le> 20"

definition phase_ok :: "phase \<Rightarrow> bool" where
  "phase_ok ph = (case ph of Looked now obs \<Rightarrow> list_all (\<lambda>ob. ob_kind ob \<in> fst ` set NO_FLOWS) obs | _ \<Rightarrow> True)"

lemma update_flows:
  "map_of evs key = Some e \<Longrightarrow> logged_flows (AList.update key e' evs) + ev_flows e = logged_flows evs + ev_flows e'"
  by (induction evs) (auto simp: logged_flows_def split: if_splits)

lemma update_absent: "map_of d k = None \<Longrightarrow> AList.update k v d = d @ [(k, v)]"
  by (induction d) (auto split: if_splits)

lemma length_update: "map_of d k \<noteq> None \<Longrightarrow> length (AList.update k v d) = length d"
  by (induction d) (auto split: if_splits)

lemma note_event_ok:
  assumes "distinct (map fst evs)" "length evs \<le> EVENT_LIMIT"
  shows "distinct (map fst (note_event ob now fresh evs)) \<and> length (note_event ob now fresh evs) \<le> EVENT_LIMIT
    \<and> logged_flows (note_event ob now fresh evs) \<le> logged_flows evs + (if fresh then 1 else 0)"
proof (cases "map_of evs (event_key_of ob)")
  case None
  then have absent: "event_key_of ob \<notin> fst ` set evs" by (simp add: map_of_eq_None_iff)
  show ?thesis
  proof (cases "EVENT_LIMIT \<le> length evs")
    case True
    then show ?thesis using assms by (simp add: note_event_def Let_def None)
  next
    case False
    then show ?thesis using assms absent by (simp add: note_event_def Let_def None update_absent logged_flows_def)
  qed
next
  case (Some e)
  define e1 where "e1 = e\<lparr>ev_last := now, ev_state := cn_status (ob_conn ob), ev_flows := ev_flows e + (if fresh then 1 else 0)\<rparr>"
  have n: "note_event ob now fresh evs = AList.update (event_key_of ob) e1 evs" by (simp add: note_event_def Let_def Some e1_def)
  have "ev_flows e1 = ev_flows e + (if fresh then 1 else 0)" by (simp add: e1_def)
  then have "logged_flows (AList.update (event_key_of ob) e1 evs) = logged_flows evs + (if fresh then 1 else 0)"
    using update_flows [OF Some, of e1] by simp
  moreover have "length (AList.update (event_key_of ob) e1 evs) = length evs" by (rule length_update) (simp add: Some)
  ultimately show ?thesis using assms distinct_update [OF assms(1)] by (simp add: n)
qed

lemma dict_set_keys: "k \<in> fst ` set d \<Longrightarrow> map fst (dict_set k v d) = map fst d"
  by (induction d) force+

lemma commit_one_ok:
  assumes ok: "watch_ok w" and kind: "ob_kind ob \<in> fst ` set NO_FLOWS"
  shows "watch_ok (commit_one now w ob)"
proof -
  let ?u = "commit_one now w ob" and ?fresh = "flow_key_of ob \<notin> fst ` set (eg_seen w)"
  have flows: "map fst (eg_flows ?u) = map fst (eg_flows w)"
  proof -
    have "fst ` set (eg_flows w) = fst ` set NO_FLOWS" using ok unfolding watch_ok_def by (metis list.set_map)
    then show ?thesis using kind by (simp add: commit_one_def Let_def dict_set_keys)
  qed
  have events: "map fst (eg_events ?u) = map fst (eg_events w)"
    by (auto simp: commit_one_def Let_def dict_get_def intro!: dict_set_keys split: option.splits)
      (metis map_of_eq_None_iff option.distinct(1))
  have seen: "distinct (map fst (eg_seen ?u))" using ok distinct_update by (auto simp: commit_one_def Let_def watch_ok_def)
  have log: "logged ?u k = (if k = ob_kind ob then note_event ob now ?fresh (logged w k) else logged w k)" if "k \<in> set EVENT_KINDS" for k
  proof -
    have "fst ` set (eg_events w) = set EVENT_KINDS" using ok unfolding watch_ok_def by (metis list.set_map)
    then have "dict_get (eg_events w) k \<noteq> None" using that by (simp add: dict_get_def map_of_eq_None_iff)
    then show ?thesis by (auto simp: logged_def commit_one_def Let_def map_of_eq_None_iff split: option.splits)
  qed
  have "log_ok ?u k" if "k \<in> set EVENT_KINDS" for k
  proof -
    have k: "log_ok w k" using ok that by (simp add: watch_ok_def list_all_iff)
    define fresh where "fresh \<longleftrightarrow> ?fresh"
    show ?thesis using k note_event_ok [of "logged w k" ob now fresh]
      unfolding log_ok_def log [OF that] flow_count_commit_one fresh_def [symmetric] by (cases "k = ob_kind ob"; cases fresh) auto
  qed
  then show ?thesis using ok flows events seen by (simp add: watch_ok_def list_all_iff commit_one_def Let_def)
qed


lemma watch_ok_cong:
  assumes "watch_ok w" "eg_flows u = eg_flows w" "eg_events u = eg_events w" "distinct (map fst (eg_seen u))"
    "length (eg_live u) \<le> LIVE_LIMIT" "length (eg_canaries u) \<le> 20"
  shows "watch_ok u"
  using assms by (simp add: watch_ok_def log_ok_def logged_def flow_count_def EVENT_KINDS_def)

lemma watch_okD: "watch_ok w \<Longrightarrow> distinct (map fst (eg_seen w)) \<and> length (eg_live w) \<le> LIVE_LIMIT \<and> length (eg_canaries w) \<le> 20"
  by (simp add: watch_ok_def)

lemma watch_ok_clear: "watch_ok (egress_clear now w)"
  by (simp add: watch_ok_def egress_clear_def log_ok_def logged_def logged_flows_def dict_get_def EVENT_KINDS_def)

lemma commit_sample_ok:
  assumes "watch_ok w" "list_all (\<lambda>ob. ob_kind ob \<in> fst ` set NO_FLOWS) obs"
  shows "watch_ok (commit_sample now obs w)"
proof -
  have fold: "watch_ok (foldl (commit_one now) v obs)" if "watch_ok v" for v
    using that assms(2) by (induction obs arbitrary: v) (simp_all add: commit_one_ok)
  have start: "watch_ok (w\<lparr>eg_samples := eg_samples w + 1, eg_last_sample := now\<rparr>)"
    using watch_okD [OF assms(1)] by (intro watch_ok_cong [OF assms(1)]) simp_all
  show ?thesis
    by (rule watch_ok_cong [OF fold [OF start]])
      (use watch_okD [OF fold [OF start]] in \<open>auto simp: commit_sample_def Let_def intro: distinct_map_filter\<close>)
qed

lemma flow_kind_known: "flow_kind now expected canary m remote inbound \<in> fst ` set NO_FLOWS"
  by (simp add: flow_kind_def classify_address_def NO_FLOWS_def Let_def split: option.splits)

lemma observe_known: "list_all (\<lambda>ob. ob_kind ob \<in> fst ` set NO_FLOWS) (observe now scope expected canary cs)"
proof -
  have "ob_kind ob \<in> fst ` set NO_FLOWS" if ob: "observe_one now scope expected canary x = Some ob" for ob x
    using observe_one_facts [of now scope expected canary "fst x" "snd x" ob] ob flow_kind_known by auto
  then show ?thesis by (auto simp: list_all_iff observe_mem)
qed

lemma act_ok:
  assumes "watch_act cf nfkc a (w, ph) = Some (u, ph')" "watch_ok w" "phase_ok ph"
  shows "watch_ok u \<and> phase_ok ph'"
proof -
  note ok = watch_okD [OF assms(2)]
  have same: "watch_ok v"
    if "eg_flows v = eg_flows w" "eg_events v = eg_events w" "eg_seen v = eg_seen w" "eg_live v = eg_live w" "length (eg_canaries v) \<le> 20" for v
    using ok that by (intro watch_ok_cong [OF assms(2)]) simp_all
  have e: "set_endpoints nfkc urls w = Inr v \<Longrightarrow> watch_ok v" for urls v
    using ok by (cases "try_all (endpoint_of nfkc) urls") (auto simp: set_endpoints_def Let_def intro: same)
  have c: "canary_armed cf now w = Inr v \<Longrightarrow> watch_ok v" for now v
    using ok by (cases "canary_target cf") (auto simp: canary_armed_def intro: same)
  have d: "canary_done cf now ended elapsed w = Inr v \<Longrightarrow> watch_ok v" for now ended elapsed v
    using ok by (cases "pf_round (pf_mul elapsed (Fin 1000))") (auto simp: canary_done_def Let_def intro: same split: prod.splits)
  show ?thesis
    using assms ok
    by (cases "(cf, nfkc, a, (w, ph))" rule: watch_act.cases)
      (auto simp: egress_start_def egress_stop_def egress_reset_def phase_ok_def watch_ok_clear commit_sample_ok observe_known
        intro: same e c d split: if_splits prod.splits sum.splits)
qed

lemma watched_ok: "watched cf nfkc s as t \<Longrightarrow> watch_ok (fst s) \<Longrightarrow> phase_ok (snd s) \<Longrightarrow> watch_ok (fst t) \<and> phase_ok (snd t)"
proof (induction rule: watched.induct)
  case (watched_step s as t a u)
  then show ?case using act_ok [of cf nfkc a "fst t" "snd t" "fst u" "snd u"] by simp
qed simp

section \<open>What the watch promises\<close>

text \<open>C27: However the sampler, the canary, resets and changes of the endpoints interleave, the watch stays within its
  bounds: at most 200 events of a kind under distinct keys, 60 live rows and 20 canaries; the flows its events speak of
  are never more than the counters say; and no counter is added or lost.\<close>

theorem watch_bounded:
  assumes "watched cf nfkc (new_watch t0, Waiting) as (w, ph)"
  shows "list_all (\<lambda>k. length (logged w k) \<le> 200 \<and> distinct (map fst (logged w k))
      \<and> sum_list (map (ev_flows \<circ> snd) (logged w k)) \<le> flow_count w k) [''external'', ''lan_out'']
    \<and> length (eg_live w) \<le> 60 \<and> length (eg_canaries w) \<le> 20
    \<and> map fst (eg_flows w) = [''local'', ''lan_in'', ''lan_expected'', ''lan_out'', ''external'', ''canary'']"
proof -
  have "watch_ok w" using watched_ok [OF assms] watch_ok_clear by (simp add: new_watch_def phase_ok_def)
  then show ?thesis
    by (simp add: watch_ok_def log_ok_def EVENT_KINDS_def EVENT_LIMIT_def LIVE_LIMIT_def NO_FLOWS_def logged_flows_def)
qed


theorem watch_bounded_witness:
  "flow_count (egress_reset (Fin 9) (egress_start (new_watch (Fin 1)))) ''external'' = 0
   \<and> length (eg_live (egress_reset (Fin 9) (egress_start (new_watch (Fin 1))))) \<le> 60"
proof -
  let ?cf = "\<lparr>ec_interval_ms = 250, ec_frontend_port = 5173, ec_canary_target = ''1.1.1.1:443'', ec_own_pid = 7\<rparr>"
  let ?s = "(new_watch (Fin 1), Waiting)"
  have "watched ?cf id ?s [Start] (egress_start (new_watch (Fin 1)), Waiting)"
    using watched_step [OF watched_nil, of ?cf id Start ?s] by (simp add: new_watch_def egress_clear_def)
  from watched_step [OF this, of "Reset (Fin 9)"]
  have "watched ?cf id ?s [Start, Reset (Fin 9)] (egress_reset (Fin 9) (egress_start (new_watch (Fin 1))), Waiting)" by simp
  from watch_bounded [OF this] show ?thesis
    by (simp add: flow_count_def egress_reset_def egress_clear_def NO_FLOWS_def dict_get_def)
qed

lemma external_counted:
  assumes c: "(pid, c) \<in> set cs" "map_of scope pid = Some m" "cn_raddr c = Some remote" "classify_address (ad_ip remote) = ''external''"
    and not_canary: "\<not> (mb_role m = ''backend'' \<and> (\<exists>until. canary = Some (ad_ip remote, ad_port remote, until)))"
    and unseen: "(pid, endpoint (cn_laddr c), endpoint (Some remote)) \<notin> fst ` set (eg_seen w)"
  shows "flow_count w ''external'' < flow_count (commit_sample now (observe now scope expected canary cs) w) ''external''"
proof -
  let ?obs = "observe now scope expected canary cs"
  obtain ob where ob: "observe_one now scope expected canary (pid, c) = Some ob" using c by (simp add: observe_one_def Let_def)
  have kind: "ob_kind ob = ''external''"
    using observe_one_facts [OF ob] c not_canary by (auto simp: flow_kind_def Let_def split: option.splits)
  have "flow_key_of ob \<in> new_flows w ''external'' ?obs"
    using observe_one_facts [OF ob] c(1,3) kind ob unseen by (auto simp: new_flows_def observe_mem flow_key_of_def)
  then have "0 < card (new_flows w ''external'' ?obs)" by (auto simp: card_gt_0_iff)
  then show ?thesis by (simp add: flow_count_commit observe_consistent)
qed



text \<open>C29: The canary excuses nothing but itself: a connection is filed as the canary's exactly when it goes from the
  backend to the very address and port of the canary no later than its deadline, and that address is external. A
  connection to any other external address is filed as external, whatever its direction and whoever is expected.\<close>

theorem canary_excuses_itself:
  "(flow_kind now expected canary m remote inbound = ''canary'' \<longleftrightarrow>
     classify_address (ad_ip remote) = ''external'' \<and> mb_role m = ''backend''
     \<and> (\<exists>until. canary = Some (ad_ip remote, ad_port remote, until) \<and> pf_le now until))
   \<and> (flow_kind now expected canary m remote inbound = ''external'' \<longleftrightarrow>
     classify_address (ad_ip remote) = ''external'' \<and> flow_kind now expected canary m remote inbound \<noteq> ''canary'')"
  by (auto simp: flow_kind_def classify_address_def Let_def split: option.splits if_splits)

text \<open>A sample adds to each counter exactly the flows of that kind which it saw and the watch had not seen:
  each once, however often the socket table lists it.\<close>

lemma commit_counts_new_flows:
  "flow_count (commit_sample now (observe now scope expected canary cs) w) k =
     flow_count w k + card (flow_key_of ` {ob \<in> set (observe now scope expected canary cs). ob_kind ob = k} - fst ` set (eg_seen w))"
  by (simp add: flow_count_commit observe_consistent new_flows_def)

text \<open>A reset in the middle of a run hides what was seen before it: whatever connections were committed between the mark
  and the reset, the run is then reported as observed with no external and no other LAN connection.\<close>

lemma reset_hides_external:
  "since_mark cf (Some (mark w)) (commit_sample later [] (egress_reset t (commit_sample now obs (w\<lparr>eg_alive := True\<rparr>))))
     = Observed 0 0 1 (length (eg_scope w)) (ec_interval_ms cf)"
proof -
  define u where "u = egress_reset t (commit_sample now obs (w\<lparr>eg_alive := True\<rparr>))"
  have u: "eg_generation u = eg_generation w + 1" "eg_alive u" "eg_scope u = eg_scope w" "eg_samples u = 0"
    "flow_count u ''external'' = 0" "flow_count u ''lan_out'' = 0"
    by (simp_all add: u_def egress_reset_def egress_clear_def flow_count_def NO_FLOWS_def dict_get_def)
  have "flow_count (commit_sample later [] u) k = flow_count u k" for k
    by (simp add: flow_count_commit consistent_def new_flows_def)
  then show ?thesis unfolding u_def [symmetric] by (simp add: since_mark_def mark_def Let_def u)
qed

text \<open>A configured endpoint with a malformed IPv6 host makes \<^verbatim>\<open>set_endpoints\<close> raise, so none of the endpoints beside it are
  taken either.\<close>

lemma malformed_endpoint_raises:
  "set_endpoints nfkc [''http://10.0.0.5:8000/v1'', ''http://[fe80::1:11434''] w = Inl ValueError"
proof -
  have "endpoint_of nfkc ''http://10.0.0.5:8000/v1'' = Inr ({}, {(''10.0.0.5'', 8000)})" by code_simp
  moreover have "endpoint_of nfkc ''http://[fe80::1:11434'' = Inl ValueError" by code_simp
  ultimately show ?thesis by (simp add: set_endpoints_def)
qed


section \<open>Classification of addresses\<close>

lemma octet_byte [simp]: "octet (uint (x :: 8 word))"
  using uint_lt2p [of x] by (simp add: octet_def)

lemma classify_quad:
  assumes o: "octet a" "octet b" "octet c" "octet d"
  shows "classify_address (dotted a b c d) =
     (if a = 127 \<or> quad a b c d = 0 then ''local''
      else if private_octets a b c d \<or> 224 \<le> a \<and> a < 240 then ''lan'' else ''external'')"
proof -
  have "partition_at ''%'' (dotted a b c d) = (dotted a b c d, False, [])" by (rule partition_absent) (rule dotted_chars [OF o]; simp)
  moreover have "octet 127" "octet 169" "octet 254" by (simp_all add: octet_def)
  then have "in_network (quad a b c d) (net4 [127, 0, 0, 0] 8) \<longleftrightarrow> a = 127"
    "in_network (quad a b c d) (net4 [169, 254, 0, 0] 16) \<longleftrightarrow> a = 169 \<and> b = 254"
    using in_net8 [OF o] in_net16 [OF o] by simp_all
  moreover have "a = 169 \<and> b = 254 \<Longrightarrow> private_octets a b c d" by (simp add: private_octets_def)
  ultimately show ?thesis
    by (auto simp: classify_address_def ip_address_def parse_dotted [OF o] ipv4_mapped_def is_loopback_def is_unspecified_def is_link_local_def
        is_multicast_def in_net_other [OF o] private_quad [OF o] Let_def simp del: is_private.simps)
qed

lemma classify_mapped_quad:
  assumes o: "octet a" "octet b" "octet c" "octet d"
  shows "classify_address (''::ffff:'' @ dotted a b c d) = classify_address (dotted a b c d)"
proof -
  let ?q = "quad a b c d"
  have q: "0 \<le> ?q" "?q < 2 ^ 32" using o by (auto simp: quad_eq octet_def)
  have "CHR ''%'' \<notin> set (dotted a b c d)" by (rule dotted_chars [OF o]) simp_all
  then have pct: "fst (partition_at ''%'' (dotted a b c d)) = dotted a b c d"
    "fst (partition_at ''%'' (''::ffff:'' @ dotted a b c d)) = ''::ffff:'' @ dotted a b c d"
    using partition_absent [of "CHR ''%''" "dotted a b c d"] partition_absent [of "CHR ''%''" "''::ffff:'' @ dotted a b c d"] by simp_all
  have four: "ip_address (dotted a b c d) = Some (V4 ?q)" by (simp add: ip_address_def parse_dotted [OF o])
  have "(0xFFFF * 2 ^ 32 + ?q) div 2 ^ 32 = 0xFFFF" "(0xFFFF * 2 ^ 32 + ?q) mod 2 ^ 32 = ?q"
    unfolding mod_mult_self3 using q by (simp_all add: div_mult_self3)
  then have "ipv4_mapped (V6 (0xFFFF * 2 ^ 32 + ?q)) = Some (V4 ?q)" by (simp only: ipv4_mapped_def ip.case if_True refl)
  then show ?thesis unfolding classify_address_def pct parse_mapped [OF o] four by (simp add: ipv4_mapped_def)
qed

text \<open>Every IPv4 address is filed by its octets: this machine for 127.* and 0.0.0.0, the local network for the private,
  link-local, documentation, multicast and reserved ranges, external for every other. Written as an IPv6 address the
  same host is filed the same.\<close>

lemma classify_exact:
  fixes a b c d :: "8 word"
  shows "classify_address (dotted (uint a) (uint b) (uint c) (uint d)) =
      (if a = 127 \<or> a = 0 \<and> b = 0 \<and> c = 0 \<and> d = 0 then ''local''
       else if private_octets (uint a) (uint b) (uint c) (uint d) \<or> 224 \<le> a \<and> a < 240 then ''lan'' else ''external'')
    \<and> classify_address (''::ffff:'' @ dotted (uint a) (uint b) (uint c) (uint d)) = classify_address (dotted (uint a) (uint b) (uint c) (uint d))"
proof -
  have n: "uint x = uint y \<longleftrightarrow> x = y" "uint x \<le> uint y \<longleftrightarrow> x \<le> y" "uint x < uint y \<longleftrightarrow> x < y" for x y :: "8 word"
    by (metis word_of_int_uint) (simp_all add: word_le_def word_less_def)
  have "uint (127 :: 8 word) = 127" "uint (224 :: 8 word) = 224" "uint (240 :: 8 word) = 240" by simp_all
  then have edges: "uint a = 127 \<longleftrightarrow> a = 127" "224 \<le> uint a \<longleftrightarrow> 224 \<le> a" "uint a < 240 \<longleftrightarrow> a < 240"
    using n(1) [of a 127] n(2) [of 224 a] n(3) [of a 240] by simp_all
  have zero: "quad (uint a) (uint b) (uint c) (uint d) = 0 \<longleftrightarrow> a = 0 \<and> b = 0 \<and> c = 0 \<and> d = 0"
  proof -
    have zero: "quad i j k l = 0 \<longleftrightarrow> i = 0 \<and> j = 0 \<and> k = 0 \<and> l = 0" if "0 \<le> i" "0 \<le> j" "0 \<le> k" "0 \<le> l" for i j k l
      unfolding quad_eq using that by (simp add: add_nonneg_eq_0_iff)
    have "quad (uint a) (uint b) (uint c) (uint d) = 0 \<longleftrightarrow> uint a = 0 \<and> uint b = 0 \<and> uint c = 0 \<and> uint d = 0" by (rule zero) simp_all
    then show ?thesis by (simp add: uint_0_iff)
  qed
  show ?thesis using classify_mapped_quad by (simp add: classify_quad zero edges)
qed

section \<open>The processes in scope\<close>

lemma no_browser:
  "list_all (\<lambda>q. \<exists>n. met_name q = Some n \<and> py_lower n \<notin> set BROWSERS) (fst (descendants p excluded))"
  "list_all (\<lambda>q. \<exists>n. met_name q = Some n \<and> py_lower n \<notin> set BROWSERS) (fst (descend_each ps excluded))"
  by (induction p excluded and ps excluded rule: descendants_descend_each.induct)
    (auto split: option.splits prod.splits)


lemma list_member_fold: "set (map fst (foldl list_member found ps)) = set (map fst found) \<union> proc_pid ` {p \<in> set ps. own_name p \<noteq> None}"
proof (induction ps arbitrary: found)
  case (Cons p ps)
  have "fst ` set (list_member found p) = fst ` set found \<union> (if own_name p = None then {} else {proc_pid p})"
    by (auto simp: list_member_def dom_map_of_conv_image_fst [symmetric] update_conv' split: option.splits)
  then show ?case using Cons by (auto split: if_splits)
qed simp

end
