(* ===== verification/Sovereignty.thy ===== *)
theory Sovereignty
  imports Egress
begin

text \<open>
  The sovereignty audit, \<^verbatim>\<open>4ce/tools/sovereignty.py\<close>: every configured surface is judged from the settings, and the report sets
  the result beside a snapshot of the egress watch. The switches of the environment, the installed parser model, the
  name resolution, the settings store and the wall clock are arguments. The report is shown to say PASS only for a clean
  configuration and a window without connections, and never after a sample that saw one.
\<close>

section \<open>Hosts\<close>

definition LOCAL_HOSTNAMES :: "string list" where
  "LOCAL_HOSTNAMES = [''localhost'', ''127.0.0.1'', ''::1'', ''0.0.0.0'', ''host.docker.internal'', ''gateway.docker.internal'',
     ''ollama'', ''tika'', ''docling'', ''chroma'', ''qdrant'', ''redis'', ''db'', ''postgres'']"

definition WEB_PAGE_ATTACH_OFFERED :: bool where
  "WEB_PAGE_ATTACH_OFFERED = False"

text \<open>What the audit asks of its surroundings: \<^verbatim>\<open>None\<close> for switches that could not be imported, whether the parser model is
  installed, the address of a host name, and Unicode normalisation.\<close>

record sovereign_env =
  sv_private_local :: bool
  sv_resolve_hostnames :: bool
  sv_switches :: "(bool \<times> bool \<times> bool) option"
  sv_parser_model :: bool
  sv_lookup :: "string \<Rightarrow> ip option"
  sv_nfkc :: "string \<Rightarrow> string"

definition host_local :: "sovereign_env \<Rightarrow> string \<Rightarrow> bool" where
  "host_local E host =
     (if host \<in> set LOCAL_HOSTNAMES \<or> ends_with host ''.local'' \<or> ends_with host ''.internal'' then True
      else case (case ip_address host of Some a \<Rightarrow> Some a | None \<Rightarrow> if sv_resolve_hostnames E then sv_lookup E host else None) of
        None \<Rightarrow> False
      | Some a \<Rightarrow> if is_loopback a then True else sv_private_local E \<and> is_private a)"

definition is_local :: "sovereign_env \<Rightarrow> string \<Rightarrow> py_error + bool" where
  "is_local E url = map_sum id (\<lambda>u. url_hostname u \<noteq> [] \<and> host_local E (py_lower (url_hostname u)))
     (urlparse (sv_nfkc E) (if contains url ''://'' then url else ''http://'' @ url))"

text \<open>The same of a setting of any type: \<^verbatim>\<open>"://" in url\<close> is membership in a list and a key of a dictionary.\<close>

definition value_local :: "sovereign_env \<Rightarrow> json \<Rightarrow> py_error + bool" where
  "value_local E v = (case v of
      JStr s \<Rightarrow> is_local E s
    | JList vs \<Rightarrow> if JStr ''://'' \<in> set vs then Inl AttributeError else is_local E (''http://'' @ py_str v)
    | JObj kvs \<Rightarrow> if ''://'' \<in> fst ` set kvs then Inl AttributeError else is_local E (''http://'' @ py_str v)
    | _ \<Rightarrow> Inl TypeError)"

section \<open>Settings\<close>

definition setting_list :: "json \<Rightarrow> string list" where
  "setting_list v = (case v of
      JStr s \<Rightarrow> if py_strip s \<noteq> [] then [s] else []
    | JList vs \<Rightarrow> filter (\<lambda>s. py_strip s \<noteq> []) (map py_str vs)
    | _ \<Rightarrow> [])"

text \<open>\<^verbatim>\<open>(value or "").strip()\<close>.\<close>

definition stripped :: "json \<Rightarrow> py_error + string" where
  "stripped v = (if \<not> jtruthy v then Inr [] else case v of JStr s \<Rightarrow> Inr (py_strip s) | _ \<Rightarrow> Inl AttributeError)"

text \<open>All settings at once, or, where that raises (\<^verbatim>\<open>None\<close>), one by one.\<close>

definition safe_config :: "json pydict option \<Rightarrow> (string \<Rightarrow> json option) \<Rightarrow> string list \<Rightarrow> json pydict" where
  "safe_config get_many get_one keys = (case get_many of
      Some found \<Rightarrow> found
    | None \<Rightarrow> map (\<lambda>k. (k, case get_one k of Some v \<Rightarrow> v | None \<Rightarrow> JNull)) keys)"

definition AUDITED_KEYS :: "string list" where
  "AUDITED_KEYS = [''openai.api_base_urls'', ''ollama.base_urls'', ''rag.embedding_engine'',
     ''rag.content_extraction_engine'', ''rag.openai.api_base_url'', ''rag.ollama.base_url'',
     ''web.search.enable'', ''ui.enable_community_sharing'',
     ''web.loader.engine'', ''web.loader.external_web_loader_url'',
     ''image_generation.enable'', ''image_generation.engine'',
     ''image_generation.openai.api_base_url'', ''image_generation.gemini.api_base_url'',
     ''images.edit.enable'', ''images.edit.engine'', ''images.edit.openai.api_base_url'',
     ''audio.stt.engine'', ''audio.stt.openai.api_base_url'',
     ''audio.tts.engine'', ''audio.tts.openai.api_base_url'',
     ''tool_server.connections'', ''terminal_server.connections'']"

definition audit_settings :: "json pydict option \<Rightarrow> (string \<Rightarrow> json option) \<Rightarrow> json pydict" where
  "audit_settings get_many get_one = safe_config get_many get_one AUDITED_KEYS"

definition in_quotes :: "string \<Rightarrow> string" where
  "in_quotes s = CHR 0x27 # s @ [CHR 0x27]"

section \<open>The surfaces\<close>

text \<open>A label, whether the surface passes, and what to say of it.\<close>

type_synonym surface = "string \<times> bool \<times> string"

definition switch_surfaces :: "sovereign_env \<Rightarrow> surface list" where
  \<open>switch_surfaces E = (case sv_switches E of
      None \<Rightarrow> []
    | Some (offline, update, otel) \<Rightarrow> [
        (''Offline mode'', offline, if offline then lit ''enabled ~u2014 model auto-download and update checks are disabled''
           else lit ''DISABLED ~u2014 set OFFLINE_MODE=true to harden the deployment''),
        (''Update check'', \<not> update, if \<not> update then ''disabled'' else lit ''ENABLED ~u2014 this contacts api.github.com on startup''),
        (''Telemetry export'', \<not> otel, if \<not> otel then ''disabled'' else lit ''ENABLED ~u2014 OpenTelemetry is exporting traces'')])\<close>

definition parser_surface :: "sovereign_env \<Rightarrow> surface" where
  \<open>parser_surface E = (''Document parsing model'', sv_parser_model E,
     if sv_parser_model E then lit ''spaCy en_core_web_sm installed ~u2014 uploads are parsed without a download''
     else lit (''NOT INSTALLED ~u2014 the first Excel, Word or PowerPoint upload would download it from '' @
     ''github.com; install it with the offline install''))\<close>

definition endpoint_surface :: "sovereign_env \<Rightarrow> json pydict \<Rightarrow> string \<Rightarrow> string \<Rightarrow> py_error + surface" where
  \<open>endpoint_surface E settings label key =
     (let urls = setting_list (jget settings key) in
      if urls = [] then Inr (label, True, ''none configured'')
      else map_sum id (\<lambda>verdicts.
        let outside = filter (\<lambda>(u, ok). \<not> ok) verdicts
        in (label, outside = [],
          if outside \<noteq> [] then join_with '', '' (map (\<lambda>(u, ok). u @ '' ('' @ (if ok then ''local'' else ''EXTERNAL'') @ '')'') verdicts)
          else join_with '', '' (map fst verdicts) @ lit '' ~u2014 all on-premise''))
        (try_all (\<lambda>u. map_sum id (Pair u) (is_local E u)) urls))\<close>

text \<open>\<^verbatim>\<open>all(self._is_local(u) for u in urls)\<close> stops at the first that is not.\<close>

fun all_local :: "sovereign_env \<Rightarrow> string list \<Rightarrow> py_error + bool" where
  "all_local E [] = Inr True"
| "all_local E (u # us) = (case is_local E u of Inl e \<Rightarrow> Inl e | Inr ok \<Rightarrow> if ok then all_local E us else Inr False)"

definition embedding_surface :: "sovereign_env \<Rightarrow> json pydict \<Rightarrow> py_error + surface" where
  \<open>embedding_surface E settings = (case stripped (jget settings ''rag.embedding_engine'') of
      Inl e \<Rightarrow> Inl e
    | Inr engine \<Rightarrow>
        (let urls = (if engine = ''openai'' then setting_list (jget settings ''rag.openai.api_base_url'')
                     else if engine = ''ollama'' then setting_list (jget settings ''rag.ollama.base_url'') else [])
         in map_sum id (\<lambda>ok. (''Embedding engine'', ok,
           if engine = [] then ''local sentence-transformers (in-process)''
           else if urls \<noteq> [] then in_quotes engine @ '' via '' @ join_with '', '' urls @ lit '' ~u2014 '' @ (if ok then ''on-premise'' else ''EXTERNAL ENDPOINT'')
           else in_quotes engine @ lit '' ~u2014 no endpoint configured to verify''))
           (if urls \<noteq> [] then all_local E urls else Inr (engine = []))))\<close>

definition CLOUD_EXTRACTORS :: "string list" where
  "CLOUD_EXTRACTORS = [''mistral_ocr'', ''datalab_marker'', ''external'']"

definition extraction_surface :: "json pydict \<Rightarrow> py_error + surface" where
  \<open>extraction_surface settings = map_sum id (\<lambda>extraction.
     (''Document extraction'', extraction \<notin> set CLOUD_EXTRACTORS,
      if extraction = [] then ''built-in local parsers''
      else in_quotes extraction @ (if extraction \<in> set CLOUD_EXTRACTORS then lit '' ~u2014 CLOUD SERVICE'' else '' (self-hosted)'')))
     (stripped (jget settings ''rag.content_extraction_engine''))\<close>

definition search_surface :: "json pydict \<Rightarrow> surface" where
  \<open>search_surface settings = (let web_search = jtruthy (jget settings ''web.search.enable'')
     in (''Web search'', \<not> web_search, if \<not> web_search then ''disabled'' else lit ''ENABLED ~u2014 queries would leave the premises''))\<close>

definition loader_surface :: "json pydict \<Rightarrow> py_error + surface" where
  \<open>loader_surface settings = (case stripped (jget settings ''web.loader.engine'') of
      Inl e \<Rightarrow> Inl e
    | Inr engine \<Rightarrow> map_sum id (\<lambda>outside.
        (''Web page fetching'', \<not> WEB_PAGE_ATTACH_OFFERED \<and> outside = [],
         if WEB_PAGE_ATTACH_OFFERED then lit ''OFFERED ~u2014 'Attach Webpage' would fetch a URL from this server''
         else if outside \<noteq> [] then ''external loader configured: '' @ outside
         else ''withdrawn from the interface'' @ (if engine \<noteq> [] then ''; loader engine '' @ in_quotes engine else [])))
        (stripped (jget settings ''web.loader.external_web_loader_url'')))\<close>

text \<open>\<^verbatim>\<open>", ".join(values)\<close> raises on a value that is not a string.\<close>

definition join_values :: "json list \<Rightarrow> py_error + string" where
  "join_values vs = map_sum id (join_with '', '') (try_all (\<lambda>v. case v of JStr s \<Rightarrow> Inr s | _ \<Rightarrow> Inl TypeError) vs)"

fun remote_values :: "sovereign_env \<Rightarrow> json list \<Rightarrow> py_error + json list" where
  "remote_values E [] = Inr []"
| "remote_values E (v # vs) =
     (if \<not> jtruthy v then remote_values E vs
      else case value_local E v of Inl e \<Rightarrow> Inl e
        | Inr ok \<Rightarrow> map_sum id (\<lambda>rest. if ok then rest else v # rest) (remote_values E vs))"

definition image_surface :: "sovereign_env \<Rightarrow> json pydict \<Rightarrow> string \<Rightarrow> string \<Rightarrow> string \<Rightarrow> string list \<Rightarrow> py_error + surface" where
  \<open>image_surface E settings label enable_key engine_key url_keys =
     (let enabled = jtruthy (jget settings enable_key) in
      case remote_values E (map (jget settings) url_keys) of
        Inl e \<Rightarrow> Inl e
      | Inr remote \<Rightarrow>
          if \<not> enabled \<and> remote = [] then Inr (label, True, ''disabled, no endpoint configured'')
          else if enabled then Inr (label, False, ''ENABLED via '' @ in_quotes (py_str (jget settings engine_key)))
          else map_sum id (\<lambda>urls. (label, False, ''disabled, but an external endpoint is configured: '' @ urls)) (join_values remote))\<close>

definition speech_surface :: "sovereign_env \<Rightarrow> json pydict \<Rightarrow> string \<Rightarrow> string \<Rightarrow> string \<Rightarrow> string \<Rightarrow> py_error + surface" where
  \<open>speech_surface E settings label engine_key url_key meaning = (case stripped (jget settings engine_key) of
      Inl e \<Rightarrow> Inl e
    | Inr engine \<Rightarrow> (case stripped (jget settings url_key) of
        Inl e \<Rightarrow> Inl e
      | Inr url \<Rightarrow> map_sum id (\<lambda>remote.
          let own = (engine \<in> {[], ''browser-kokoro'', ''transformers''}) in
          (label, own \<and> \<not> remote,
           if own \<and> \<not> remote then meaning
           else if \<not> own then ''engine '' @ in_quotes engine @ lit '' ~u2014 LEAVES THE PREMISES''
           else ''local engine, but an external endpoint is stored: '' @ url))
          (if url \<noteq> [] then map_sum id Not (is_local E url) else Inr False)))\<close>

definition server_surface :: "json pydict \<Rightarrow> string \<Rightarrow> string \<Rightarrow> surface" where
  \<open>server_surface settings label key =
     (let count = (case jget settings key of JList vs \<Rightarrow> length vs | _ \<Rightarrow> 0)
      in (label, count = 0, if count = 0 then ''none configured'' else str_nat count @ lit '' CONFIGURED ~u2014 each is an outbound path''))\<close>

definition sharing_surface :: "json pydict \<Rightarrow> surface" where
  \<open>sharing_surface settings = (let sharing = jtruthy (jget settings ''ui.enable_community_sharing'')
     in (''Community sharing'', \<not> sharing, if \<not> sharing then ''disabled'' else lit ''enabled ~u2014 exposes a share-to-openwebui.com action''))\<close>

text \<open>The surfaces in the order they are judged; the first that raises ends the audit.\<close>

definition audited_surfaces :: "sovereign_env \<Rightarrow> json pydict \<Rightarrow> (py_error + surface) list" where
  "audited_surfaces E settings =
     map Inr (switch_surfaces E) @ [Inr (parser_surface E)]
     @ map (\<lambda>(label, key). endpoint_surface E settings label key)
         [(''Chat model endpoints (OpenAI-compatible)'', ''openai.api_base_urls''), (''Chat model endpoints (Ollama)'', ''ollama.base_urls''),
          (''Embedding endpoint (OpenAI-compatible)'', ''rag.openai.api_base_url''), (''Embedding endpoint (Ollama)'', ''rag.ollama.base_url'')]
     @ [embedding_surface E settings, extraction_surface settings, Inr (search_surface settings), loader_surface settings,
        image_surface E settings ''Image generation'' ''image_generation.enable'' ''image_generation.engine''
          [''image_generation.openai.api_base_url'', ''image_generation.gemini.api_base_url''],
        image_surface E settings ''Image editing'' ''images.edit.enable'' ''images.edit.engine'' [''images.edit.openai.api_base_url''],
        speech_surface E settings ''Speech to text'' ''audio.stt.engine'' ''audio.stt.openai.api_base_url'' ''local whisper, in-process'',
        speech_surface E settings ''Text to speech'' ''audio.tts.engine'' ''audio.tts.openai.api_base_url'' ''browser voices, nothing sent'',
        Inr (server_surface settings ''External tool servers'' ''tool_server.connections''),
        Inr (server_surface settings ''Terminal servers'' ''terminal_server.connections''), Inr (sharing_surface settings)]"

definition audit_findings :: "sovereign_env \<Rightarrow> json pydict \<Rightarrow> py_error + surface list" where
  "audit_findings E settings = try_all id (audited_surfaces E settings)"

section \<open>What was observed\<close>

text \<open>Entries of a snapshot of the watch, which has them all.\<close>

definition seen_flow :: "json pydict \<Rightarrow> string \<Rightarrow> int" where
  "seen_flow seen kind = (case jget seen ''flows'' of JObj flows \<Rightarrow> (case jget flows kind of JInt n \<Rightarrow> n | _ \<Rightarrow> 0) | _ \<Rightarrow> 0)"

definition seen_list :: "json pydict \<Rightarrow> string \<Rightarrow> json list" where
  "seen_list seen key = (case jget seen key of JList vs \<Rightarrow> vs | _ \<Rightarrow> [])"

definition seen_int :: "json pydict \<Rightarrow> string \<Rightarrow> int" where
  "seen_int seen key = (case jget seen key of JInt n \<Rightarrow> n | _ \<Rightarrow> 0)"

definition seen_time :: "json pydict \<Rightarrow> string \<Rightarrow> pyfloat" where
  "seen_time seen key = (case jget seen key of JFloat t \<Rightarrow> t | _ \<Rightarrow> Fin 0)"

definition seen_text :: "json \<Rightarrow> string \<Rightarrow> string" where
  "seen_text v key = (case v of JObj kvs \<Rightarrow> (case jget kvs key of JStr s \<Rightarrow> s | _ \<Rightarrow> []) | _ \<Rightarrow> [])"

definition seen_at :: "json \<Rightarrow> string \<Rightarrow> pyfloat" where
  "seen_at v key = (case v of JObj kvs \<Rightarrow> seen_time kvs key | _ \<Rightarrow> Fin 0)"

definition watching :: "json pydict option \<Rightarrow> bool" where
  "watching seen = (case seen of Some d \<Rightarrow> jtruthy (jget d ''running'') | None \<Rightarrow> False)"

definition plural_of :: "int \<Rightarrow> string \<Rightarrow> string \<Rightarrow> string" where
  "plural_of count one many = str_int count @ '' '' @ (if count = 1 then one else many)"

definition duration_text :: "int \<Rightarrow> string" where
  "duration_text given =
     (let seconds = max 0 given; minutes = seconds div 60 in
      if seconds < 90 then str_int seconds @ '' s''
      else if minutes < 90 then str_int minutes @ '' min''
      else str_int (minutes div 60) @ '' h '' @ str_int (minutes mod 60) @ '' min'')"

definition event_line :: "(pyfloat \<Rightarrow> string) \<Rightarrow> json \<Rightarrow> string" where
  \<open>event_line clock event = ''- `'' @ seen_text event ''process'' @ ''` ('' @ seen_text event ''role'' @ lit '') ~u2192 `'' @ seen_text event ''remote'' @ ''`, ''
     @ map (\<lambda>c. if c = CHR ''_'' then CHR '' '' else c) (py_lower (seen_text event ''state'')) @ '', first seen '' @ clock (seen_at event ''first'')\<close>

definition canary_lines :: "(pyfloat \<Rightarrow> string) \<Rightarrow> json list \<Rightarrow> string list" where
  \<open>canary_lines clock canaries = (case canaries of
      c # _ \<Rightarrow> [''Last canary, to `'' @ seen_text c ''target'' @ ''` at '' @ clock (seen_at c ''at'') @ '': **'' @ seen_text c ''outcome'' @ lit ''** ~u2014 ''
        @ seen_text c ''detail'' @ ''.'']
    | [] \<Rightarrow> [''The canary has not been run in this window. Run it from the Sovereignty page to '' @ ''show whether the host itself refuses a connection out.''])\<close>

definition window_lines :: "(pyfloat \<Rightarrow> string) \<Rightarrow> json pydict \<Rightarrow> int \<Rightarrow> string list" where
  \<open>window_lines clock seen seconds =
     (let outside = seen_flow seen ''external''; count = (\<lambda>k. commas (seen_flow seen k));
          reached = seen_list seen ''external'' @ seen_list seen ''lan_out''
      in [''**'' @ plural_of outside ''external connection'' ''external connections'' @ ''** from the ''
            @ plural_of (int (length (seen_list seen ''scope''))) ''workbench process'' ''workbench processes'' @ '' over the last ''
            @ duration_text seconds @ '' ('' @ commas (seen_int seen ''samples'') @ '' samples, every '' @ str_int (seen_int seen ''interval_ms'') @ '' ms).'',
          [], ''| Where the connections went | Count |'', ''|---|---|'',
          ''| This machine (loopback) | '' @ count ''local'' @ '' |'',
          ''| LAN: clients reaching the workbench | '' @ count ''lan_in'' @ '' |'',
          ''| LAN: the configured model endpoints | '' @ count ''lan_expected'' @ '' |'',
          ''| LAN: anything else, outbound | '' @ count ''lan_out'' @ '' |'',
          ''| **The internet** | **'' @ commas outside @ ''** |'']
        @ (if reached \<noteq> [] then [[], ''Seen leaving the machine:'', []] @ map (event_line clock) (take 6 reached) else [])
        @ [[]] @ canary_lines clock (seen_list seen ''canaries'')
        @ [[], ''Live view: [Sovereignty](/sovereignty).'', [],
           ''*Observed by sampling the operating system's socket table, not by capturing packets. ''
             @ join_with '' '' (map py_str (seen_list seen ''limits'')) @ ''*''])\<close>

text \<open>The length of the window is cut to whole seconds, which raises for an infinite one.\<close>

definition observed_lines :: "(pyfloat \<Rightarrow> string) \<Rightarrow> json pydict option \<Rightarrow> py_error + string list" where
  \<open>observed_lines clock given =
     (if \<not> watching given
      then Inr [''The egress watch is not running, so nothing here was observed and this report '' @ ''rests on configuration alone. It starts with the 4CE backend.'']
      else case given of
        None \<Rightarrow> Inr []
      | Some seen \<Rightarrow> map_sum id (window_lines clock seen) (py_int (JFloat (pf_sub (seen_time seen ''now'') (seen_time seen ''since'')))))\<close>

section \<open>The report\<close>

definition passes :: "surface list \<Rightarrow> surface list" where
  "passes findings = filter (\<lambda>(label, ok, detail). ok) findings"

definition leaked :: "json pydict option \<Rightarrow> bool" where
  "leaked seen = (case seen of Some d \<Rightarrow> watching seen \<and> (seen_flow d ''external'' \<noteq> 0 \<or> seen_flow d ''lan_out'' \<noteq> 0) | None \<Rightarrow> False)"

definition sovereignty_verdict :: "surface list \<Rightarrow> json pydict option \<Rightarrow> string" where
  "sovereignty_verdict findings seen =
     (if length (passes findings) \<noteq> length findings \<or> leaked seen then ''ATTENTION REQUIRED''
      else if watching seen then ''PASS''
      else ''PASS on configuration, not observed'')"

definition observed_status :: "json pydict option \<Rightarrow> string" where
  "observed_status seen = (case seen of
      Some d \<Rightarrow> if watching seen then plural_of (seen_flow d ''external'') ''external connection'' ''external connections'' @ '' observed''
        else ''egress not observed''
    | None \<Rightarrow> ''egress not observed'')"

definition surface_line :: "surface \<Rightarrow> string" where
  "surface_line = (\<lambda>(label, ok, detail). ''| '' @ label @ '' | '' @ (if ok then ''PASS'' else ''FAIL'') @ '' | '' @ detail @ '' |'')"

definition sovereignty_emit :: "string \<Rightarrow> bool \<Rightarrow> json" where
  "sovereignty_emit description finished = JObj [(''type'', JStr ''status''), (''data'', JObj [(''action'', JStr ''sovereignty''),
     (''description'', JStr description), (''done'', JBool finished)])]"

definition verdict_heading :: "string \<Rightarrow> string" where
  \<open>verdict_heading v = lit ''## Sovereignty audit ~u2014 '' @ v\<close>

definition report_body :: "surface list \<Rightarrow> json pydict option \<Rightarrow> string list \<Rightarrow> string list" where
  \<open>report_body findings seen observed =
     (let passed = length (passes findings); total = length findings; status = observed_status seen
      in [[], ''**'' @ str_nat passed @ '' of '' @ str_nat total @ '' configured surfaces pass.** ''
            @ (if watching seen then ''**'' @ py_upper (take 1 status) @ drop 1 status @ ''.**'' else ''Egress was not observed.''),
          [], ''### What the configuration permits'', [], ''| Surface | Status | Detail |'', ''|---|---|---|'']
         @ map surface_line findings
         @ (if passed \<noteq> total then [nl @ ''> Every FAIL above is a configured path that *could* carry data off the ''
              @ ''premises. Resolve them before asserting air-gapped operation.''] else [])
         @ [[], ''### What the workbench actually did'', []] @ observed)\<close>

definition sovereignty_report :: "(pyfloat \<Rightarrow> string) \<Rightarrow> surface list \<Rightarrow> json pydict option \<Rightarrow> json list \<times> (py_error + string)" where
  \<open>sovereignty_report clock findings seen =
     ([sovereignty_emit (''Sovereignty audit: '' @ str_nat (length (passes findings)) @ ''/'' @ str_nat (length findings) @ lit '' surfaces pass ~u00b7 ''
         @ observed_status seen) True],
      map_sum id (\<lambda>observed. join_with nl (verdict_heading (sovereignty_verdict findings seen) # report_body findings seen observed))
        (observed_lines clock seen))\<close>

text \<open>The tool: the status events and the report, or what the audit raised.\<close>

definition verify_sovereignty :: "sovereign_env \<Rightarrow> (pyfloat \<Rightarrow> string) \<Rightarrow> json pydict \<Rightarrow> json pydict option \<Rightarrow> json list \<times> (py_error + string)" where
  "verify_sovereignty E clock settings seen =
     (let opening = sovereignty_emit ''Auditing configured egress paths'' False in
      case audit_findings E settings of
        Inl e \<Rightarrow> ([opening], Inl e)
      | Inr findings \<Rightarrow> (case sovereignty_report clock findings seen of (events, text) \<Rightarrow> (opening # events, text)))"

text \<open>The pages of \<^verbatim>\<open>routers/fource.py\<close> that show the audit and reset the window.\<close>

definition audit_page :: "surface list \<Rightarrow> json" where
  "audit_page findings = JObj [
     (''checks'', JList (map (\<lambda>(label, ok, detail). JObj [(''label'', JStr label), (''ok'', JBool ok), (''detail'', JStr detail)]) findings)),
     (''passed'', JInt (int (length (passes findings)))), (''total'', JInt (int (length findings)))]"

definition reset_page :: "egress_config \<Rightarrow> pyfloat \<Rightarrow> pyfloat \<Rightarrow> egress_watch \<Rightarrow> json pydict \<times> egress_watch" where
  "reset_page cf started now w = (let cleared = egress_reset started w in (snapshot cf now cleared, cleared))"

section \<open>PASS means clean\<close>

lemma length_passes: "length (passes findings) = length findings \<longleftrightarrow> list_all (\<lambda>(label, ok, detail). ok) findings"
proof -
  have "length (filter P xs) = length xs \<longleftrightarrow> list_all P xs" for P and xs :: "surface list"
  proof (induction xs)
    case (Cons x xs)
    have "length (filter P xs) \<noteq> Suc (length xs)" using length_filter_le [of P xs] by linarith
    then show ?case using Cons by auto
  qed simp
  then show ?thesis by (simp add: passes_def)
qed

lemma seen_flow_snapshot: "seen_flow (snapshot cf t w) kind = int (flow_count w kind)"
proof -
  have "dict_get (map (\<lambda>(k, n). (k, JInt (int n))) flows) kind = map_option (\<lambda>n. JInt (int n)) (dict_get flows kind)" for flows
    by (induction flows) (auto simp: dict_get_def)
  then show ?thesis
    by (simp add: seen_flow_def snapshot_def jget_def flow_count_def dict_get_def split: option.splits)
qed

lemma watching_snapshot: "watching (Some (snapshot cf t w)) = eg_alive w"
  by (simp add: watching_def snapshot_def jget_def dict_get_def)

lemma report_heading:
  assumes "verify_sovereignty E clock settings seen = (events, Inr text)"
  shows "\<exists>findings. audit_findings E settings = Inr findings \<and> starts_with text (verdict_heading (sovereignty_verdict findings seen))"
proof -
  obtain findings where f: "audit_findings E settings = Inr findings" "snd (sovereignty_report clock findings seen) = Inr text"
    using assms by (auto simp: verify_sovereignty_def Let_def split: sum.splits prod.splits)
  then obtain rest where "text = join_with nl (verdict_heading (sovereignty_verdict findings seen) # rest)"
    by (cases "observed_lines clock seen") (auto simp only: sovereignty_report_def snd_conv map_sum.simps sum.inject sum.distinct)
  moreover have "starts_with (join_with nl (h # rest)) h" for h by (cases rest) (simp_all add: starts_with_iff)
  ultimately show ?thesis using f(1) by blast
qed


text \<open>C25: PASS is said exactly for a clean configuration and a clean window: the audit judged every surface and all of them
  pass, the watch is running, and it counted no connection to the outside and no unexpected one on the local network.\<close>

theorem pass_means_clean:
  "case snd (verify_sovereignty E clock settings (Some (snapshot cf t w))) of
     Inl e \<Rightarrow> True
   | Inr text \<Rightarrow> \<exists>findings. audit_findings E settings = Inr findings
       \<and> starts_with text (verdict_heading (sovereignty_verdict findings (Some (snapshot cf t w))))
       \<and> (sovereignty_verdict findings (Some (snapshot cf t w)) = ''PASS'' \<longleftrightarrow>
           list_all (\<lambda>(label, ok, detail). ok) findings \<and> eg_alive w \<and> flow_count w ''external'' = 0 \<and> flow_count w ''lan_out'' = 0)"
proof (cases "snd (verify_sovereignty E clock settings (Some (snapshot cf t w)))")
  case (Inr out)
  then obtain findings where "audit_findings E settings = Inr findings"
    "starts_with out (verdict_heading (sovereignty_verdict findings (Some (snapshot cf t w))))"
    using report_heading [of E clock settings _ _ out] by (metis prod.collapse)
  then show ?thesis using Inr
    by (auto simp: sovereignty_verdict_def leaked_def watching_snapshot seen_flow_snapshot length_passes)
qed simp


section \<open>What counts as on the premises\<close>

lemma dotted_not_named:
  assumes o: "octet a" "octet b" "octet c" "octet d"
  shows "\<not> ends_with (dotted a b c d) ''.local''" "\<not> ends_with (dotted a b c d) ''.internal''"
    "dotted a b c d \<in> set LOCAL_HOSTNAMES \<Longrightarrow> dotted a b c d = ''127.0.0.1'' \<or> dotted a b c d = ''0.0.0.0''"
proof -
  have free: "x \<notin> set (dotted a b c d)" if "\<not> is_digit x" "x \<noteq> CHR ''.''" for x by (rule dotted_chars [OF o that])
  have l: "CHR ''l'' \<notin> set (dotted a b c d)" by (rule free) code_simp+
  have o: "CHR ''o'' \<notin> set (dotted a b c d)" by (rule free) code_simp+
  have i: "CHR ''i'' \<notin> set (dotted a b c d)" by (rule free) code_simp+
  have d: "CHR ''d'' \<notin> set (dotted a b c d)" by (rule free) code_simp+
  have colon: "CHR '':'' \<notin> set (dotted a b c d)" by (rule free) code_simp+
  have ends: "ends_with s t \<Longrightarrow> set t \<subseteq> set s" for s t :: string
    by (auto simp: ends_with_def starts_with_iff) (metis Un_iff set_append set_rev)
  show "\<not> ends_with (dotted a b c d) ''.local''" "\<not> ends_with (dotted a b c d) ''.internal''" using ends l by fastforce+
  assume "dotted a b c d \<in> set LOCAL_HOSTNAMES"
  moreover have "list_all (\<lambda>s. CHR ''o'' \<in> set s \<or> CHR ''i'' \<in> set s \<or> CHR ''d'' \<in> set s \<or> CHR '':'' \<in> set s
      \<or> s = ''127.0.0.1'' \<or> s = ''0.0.0.0'') LOCAL_HOSTNAMES"
    by code_simp
  ultimately show "dotted a b c d = ''127.0.0.1'' \<or> dotted a b c d = ''0.0.0.0''" using o i d colon unfolding list_all_iff by blast
qed

lemma host_local_quad:
  assumes o: "octet a" "octet b" "octet c" "octet d"
  shows "host_local E (dotted a b c d) \<longleftrightarrow> a = 127 \<or> quad a b c d = 0 \<or> sv_private_local E \<and> private_octets a b c d"
proof -
  have o127: "octet 127" "octet 0" "octet 1" by (simp_all add: octet_def)
  have ip: "ip_address (dotted a b c d) = Some (V4 (quad a b c d))" by (simp add: ip_address_def parse_dotted [OF o])
  have loop: "is_loopback (V4 (quad a b c d)) \<longleftrightarrow> a = 127"
    using in_net8 [OF o, of 127] o127 by (simp add: is_loopback_def)
  have "dotted 127 0 0 1 = ''127.0.0.1''" "dotted 0 0 0 0 = ''0.0.0.0''" by code_simp+
  then have same: "dotted a b c d = ''127.0.0.1'' \<Longrightarrow> quad a b c d = quad 127 0 0 1"
    and zero: "dotted a b c d = ''0.0.0.0'' \<Longrightarrow> quad a b c d = 0"
    using parse_dotted [OF o] parse_dotted [OF o127(1,2,2,3)] parse_dotted [OF o127(2,2,2,2)] by (auto simp: quad_eq)
  have one: "a = 127" if "quad a b c d = quad 127 0 0 1"
    using that quad_div(1) [OF o] quad_div(1) [OF o127(1,2,2,3)] by simp
  have "dotted a b c d \<in> set LOCAL_HOSTNAMES" if "quad a b c d = 0"
  proof -
    have "a = 0 \<and> b = 0 \<and> c = 0 \<and> d = 0" using that o by (auto simp: quad_eq octet_def)
    then show ?thesis using \<open>dotted 0 0 0 0 = ''0.0.0.0''\<close> by (simp add: LOCAL_HOSTNAMES_def)
  qed
  then show ?thesis
    using dotted_not_named [OF o] same one zero by (auto simp: host_local_def ip loop private_quad [OF o] simp del: is_private.simps)
qed

text \<open>An IPv4 host in a configured URL counts as on the premises exactly when it is a loopback address, 0.0.0.0 or, with the
  valve for private ranges set, in one of the special-purpose networks; those are more than the three private ranges the
  valve names, so a link-local address such as 169.254.169.254 passes the audit too.\<close>

lemma ipv4_hosts_exact:
  fixes a b c d :: "8 word"
  shows "(host_local E (dotted (uint a) (uint b) (uint c) (uint d)) \<longleftrightarrow>
      a = 127 \<or> a = 0 \<and> b = 0 \<and> c = 0 \<and> d = 0 \<or> sv_private_local E \<and> private_octets (uint a) (uint b) (uint c) (uint d))
    \<and> host_local (E\<lparr>sv_private_local := True\<rparr>) ''169.254.169.254''"
proof -
  have zero: "quad (uint a) (uint b) (uint c) (uint d) = 0 \<longleftrightarrow> a = 0 \<and> b = 0 \<and> c = 0 \<and> d = 0"
  proof -
    have "quad i j k l = 0 \<longleftrightarrow> i = 0 \<and> j = 0 \<and> k = 0 \<and> l = 0" if "0 \<le> i" "0 \<le> j" "0 \<le> k" "0 \<le> l" for i j k l
      unfolding quad_eq using that by (simp add: add_nonneg_eq_0_iff)
    from this [of "uint a" "uint b" "uint c" "uint d"] show ?thesis by (simp add: uint_0_iff)
  qed
  have "uint a = uint (127 :: 8 word) \<longleftrightarrow> a = 127" by (metis word_of_int_uint)
  then have "uint a = 127 \<longleftrightarrow> a = 127" by simp
  then have "host_local E (dotted (uint a) (uint b) (uint c) (uint d)) \<longleftrightarrow>
      a = 127 \<or> a = 0 \<and> b = 0 \<and> c = 0 \<and> d = 0 \<or> sv_private_local E \<and> private_octets (uint a) (uint b) (uint c) (uint d)"
    by (simp add: host_local_quad zero)
  moreover have "dotted 169 254 169 254 = ''169.254.169.254''" by code_simp
  then have "host_local (E\<lparr>sv_private_local := True\<rparr>) ''169.254.169.254''"
    using host_local_quad [of 169 254 169 254] by (simp add: octet_def private_octets_def)
  ultimately show ?thesis by blast
qed

text \<open>The Azure service that reads documents in the cloud passes as self-hosted: it is not among the names of cloud services.\<close>

lemma azure_extraction_passes:
  "extraction_surface [(''rag.content_extraction_engine'', JStr ''document_intelligence'')]
     = Inr (''Document extraction'', True, CHR 0x27 # ''document_intelligence'' @ CHR 0x27 # '' (self-hosted)'')"
  by code_simp

text \<open>One endpoint with a malformed host makes the audit raise: no surface is reported.\<close>

lemma malformed_endpoint_ends_audit:
  "audit_findings \<lparr>sv_private_local = True, sv_resolve_hostnames = False, sv_switches = None, sv_parser_model = True,
     sv_lookup = (\<lambda>_. None), sv_nfkc = id\<rparr> [(''openai.api_base_urls'', JList [JStr ''http://[fe80::1:11434''])] = Inl ValueError"
proof -
  let ?E = "\<lparr>sv_private_local = True, sv_resolve_hostnames = False, sv_switches = None, sv_parser_model = True, sv_lookup = (\<lambda>_. None), sv_nfkc = id\<rparr>"
  have "is_local ?E ''http://[fe80::1:11434'' = Inl ValueError" by code_simp
  moreover have "setting_list (jget [(''openai.api_base_urls'', JList [JStr ''http://[fe80::1:11434''])] ''openai.api_base_urls'') = [''http://[fe80::1:11434'']"
    by code_simp
  ultimately have "endpoint_surface ?E [(''openai.api_base_urls'', JList [JStr ''http://[fe80::1:11434''])] label ''openai.api_base_urls'' = Inl ValueError" for label
    by (simp add: endpoint_surface_def Let_def)
  then show ?thesis by (simp add: audit_findings_def audited_surfaces_def switch_surfaces_def)
qed

end
