(* ===== verification/Outcome.thy ===== *)
theory Outcome
  imports Survey
begin

text \<open>
  How the latest run in a chat ended, for the chat list: \<^verbatim>\<open>backend/open_webui/utils/fource.py\<close>. A stored chat is a JSON value of any
  shape, so every access may raise. The walk to the latest answer visits no message twice and therefore ends, also where
  the links of the messages form a cycle; ids are compared as JSON values.
\<close>

section \<open>The latest answer\<close>

definition attr_get :: "json \<Rightarrow> string \<Rightarrow> py_error + json" where
  "attr_get v key = (case v of JObj d \<Rightarrow> Inr (jget d key) | _ \<Rightarrow> Inl AttributeError)"

definition can_hash :: "json \<Rightarrow> bool" where
  "can_hash v = (case v of JList _ \<Rightarrow> False | JObj _ \<Rightarrow> False | _ \<Rightarrow> True)"

text \<open>\<^verbatim>\<open>messages.get(key)\<close> with a key of any type; the keys of a stored dictionary are strings.\<close>

definition message_at :: "json pydict \<Rightarrow> json \<Rightarrow> py_error + json" where
  "message_at messages key = (case key of
      JStr s \<Rightarrow> Inr (jget messages s)
    | _ \<Rightarrow> if can_hash key then Inr JNull else Inl TypeError)"

definition ids_of :: "json \<Rightarrow> json set" where
  "ids_of v = (case v of JObj d \<Rightarrow> {jget d ''id''} | _ \<Rightarrow> {})"

lemma message_at_ids: "message_at messages key = Inr m \<Longrightarrow> ids_of m \<subseteq> \<Union> (ids_of ` snd ` set messages)"
proof -
  assume "message_at messages key = Inr m"
  then have "m = JNull \<or> (\<exists>k. (k, m) \<in> set messages)"
    by (auto simp: message_at_def jget_def dict_get_def split: json.splits if_splits option.splits dest: map_of_SomeD)
  then show ?thesis by (force simp: ids_of_def)
qed

lemma finite_ids [simp]: "finite (ids_of v)"
  by (simp add: ids_of_def split: json.splits)

function walk_back :: "json pydict \<Rightarrow> json list \<Rightarrow> json \<Rightarrow> py_error + json" where
  "walk_back messages seen message =
     (if \<not> jtruthy message then Inr message
      else case message of
        JObj d \<Rightarrow>
          if jget d ''role'' = JStr ''assistant'' then Inr message
          else if \<not> can_hash (jget d ''id'') then Inl TypeError
          else if jget d ''id'' \<in> set seen then Inr message
          else (case message_at messages (jor (jget d ''parentId'') (JStr [])) of
              Inl e \<Rightarrow> Inl e
            | Inr earlier \<Rightarrow> walk_back messages (jget d ''id'' # seen) earlier)
      | _ \<Rightarrow> Inl AttributeError)"
  by pat_completeness auto

termination
proof (relation "measure (\<lambda>(messages, seen, m). card ((\<Union> (ids_of ` snd ` set messages) \<union> ids_of m) - set seen))")
  fix messages seen message d earlier
  assume m: "message = JObj d" and new: "jget d ''id'' \<notin> set seen"
    and step: "message_at messages (jor (jget d ''parentId'') (JStr [])) = Inr earlier"
  let ?ids = "\<Union> (ids_of ` snd ` set messages)"
  have "(?ids \<union> ids_of earlier) - set (jget d ''id'' # seen) \<subset> (?ids \<union> ids_of message) - set seen"
    using message_at_ids [OF step] new m by (auto simp: ids_of_def)
  then have "card ((?ids \<union> ids_of earlier) - set (jget d ''id'' # seen)) < card ((?ids \<union> ids_of message) - set seen)"
    by (rule psubset_card_mono [rotated]) simp
  then show "((messages, jget d ''id'' # seen, earlier), messages, seen, message)
      \<in> measure (\<lambda>(messages, seen, m). card ((\<Union> (ids_of ` snd ` set messages) \<union> ids_of m) - set seen))" by simp
qed simp

declare walk_back.simps [simp del]

definition latest_answer :: "json \<Rightarrow> py_error + json" where
  "latest_answer chat =
     (case attr_get (jor chat (JObj [])) ''history'' of Inl e \<Rightarrow> Inl e
      | Inr h \<Rightarrow> let history = jor h (JObj []) in
     case attr_get history ''messages'' of Inl e \<Rightarrow> Inl e
      | Inr ms \<Rightarrow>
     case attr_get history ''currentId'' of Inl e \<Rightarrow> Inl e
      | Inr current \<Rightarrow>
     case jor ms (JObj []) of
        JObj messages \<Rightarrow>
          (case message_at messages (jor current (JStr [])) of Inl e \<Rightarrow> Inl e | Inr message \<Rightarrow> walk_back messages [] message)
      | _ \<Rightarrow> Inl AttributeError)"

section \<open>The outcome\<close>

definition RECEIPT :: re where
  \<open>RECEIPT = rx ''```4ce-receipt~s*~n(.*?)~n```''\<close>

definition text_or_empty :: "json \<Rightarrow> string" where
  "text_or_empty v = py_str (jor v (JStr []))"

text \<open>The approval in the receipt of an answer, \<open>None\<close> without a receipt; one that cannot be read is empty.\<close>

definition receipt_approval :: "string \<Rightarrow> string option" where
  "receipt_approval content = map_option (\<lambda>body. case loads_text body of
      Some (JObj d) \<Rightarrow> py_lower (text_or_empty (jget d ''approval'')) | _ \<Rightarrow> []) (search_group flag_s RECEIPT 1 content)"

definition status_items :: "json \<Rightarrow> py_error + json pydict list" where
  "status_items v = map_sum id (List.map_filter (\<lambda>s. case s of JObj d \<Rightarrow> Some d | _ \<Rightarrow> None)) (iter_items v)"

definition outcome_of_text :: "string \<Rightarrow> string" where
  "outcome_of_text content =
     (let approval = (case receipt_approval content of Some a \<Rightarrow> a | None \<Rightarrow> []) in
      if approval = ''approved'' then ''released''
      else if starts_with approval ''rejected'' \<or> contains approval ''not obtained'' then ''withheld''
      else if contains content ''### Deliverable withheld'' then ''withheld'' else ''done'')"

definition outcome_of_answer :: "json pydict \<Rightarrow> py_error + string" where
  "outcome_of_answer message =
     (if \<not> starts_with (text_or_empty (jget message ''model'')) ''ace_orchestrator'' then Inr []
      else if \<not> jtruthy (jget message ''done'') then Inr []
      else case status_items (jget message ''statusHistory'') of Inl e \<Rightarrow> Inl e
        | Inr statuses \<Rightarrow>
            (let content = text_or_empty (jget message ''content''); actions = map (\<lambda>s. jget s ''action'') statuses in
             if \<not> list_all can_hash actions then Inl TypeError
             else if starts_with (py_lstrip content) ''**4CE error:**'' \<or> JStr ''error'' \<in> set actions \<or> JStr ''stopped'' \<in> set actions
               then Inr ''stopped''
             else if statuses \<noteq> [] \<and> jget (last statuses) ''done'' = JBool False then Inr ''stopped''
             else if JStr ''chat'' \<in> set actions then Inr ''direct''
             else Inr (outcome_of_text content)))"

definition fource_outcome :: "json \<Rightarrow> py_error + string" where
  "fource_outcome chat = (case latest_answer chat of
      Inl e \<Rightarrow> Inl e
    | Inr message \<Rightarrow> if \<not> jtruthy message then Inr [] else case message of JObj d \<Rightarrow> outcome_of_answer d | _ \<Rightarrow> Inl AttributeError)"

section \<open>What the label means\<close>

text \<open>C37: The chat list says released only for an answer of the orchestrator, the latest on the branch in view, that is done,
  whose receipt says approved, and whose statuses hold no error and no stop and do not end open.\<close>

theorem released_means_approved:
  assumes "fource_outcome chat = Inr ''released''"
  shows "\<exists>d statuses. latest_answer chat = Inr (JObj d) \<and> starts_with (text_or_empty (jget d ''model'')) ''ace_orchestrator''
    \<and> jtruthy (jget d ''done'') \<and> receipt_approval (text_or_empty (jget d ''content'')) = Some ''approved''
    \<and> status_items (jget d ''statusHistory'') = Inr statuses
    \<and> list_all (\<lambda>s. jget s ''action'' \<notin> {JStr ''error'', JStr ''stopped'', JStr ''chat''}) statuses
    \<and> (statuses = [] \<or> jget (last statuses) ''done'' \<noteq> JBool False)"
proof -
  obtain d where d: "latest_answer chat = Inr (JObj d)" "outcome_of_answer d = Inr ''released''"
    using assms by (auto simp: fource_outcome_def split: sum.splits json.splits if_splits)
  have body: "receipt_approval content = Some ''approved''" if "outcome_of_text content = ''released''" for content
    using that by (auto simp: outcome_of_text_def Let_def split: if_splits option.splits)
  have listed: "JStr a \<in> (\<lambda>s. jget s k) ` X \<longleftrightarrow> (\<exists>s\<in>X. jget s k = JStr a)" for a k X by force
  show ?thesis using d(2)
    by (intro exI [of _ d]) (auto simp: outcome_of_answer_def d(1) body listed list_all_iff Let_def split: sum.splits if_splits)
qed

definition sample_chat :: "string \<Rightarrow> json" where
  "sample_chat content = JObj [(''history'', JObj [(''currentId'', JStr ''b''), (''messages'', JObj [
     (''a'', JObj [(''id'', JStr ''a''), (''role'', JStr ''assistant''), (''model'', JStr ''ace_orchestrator''), (''done'', JBool True), (''content'', JStr content)]),
     (''b'', JObj [(''id'', JStr ''b''), (''role'', JStr ''user''), (''parentId'', JStr ''a'')])])])]"

definition receipt_block :: "string \<Rightarrow> string" where
  \<open>receipt_block approval = ''```4ce-receipt'' @ nl @ ''{"approval":"'' @ approval @ ''"}'' @ nl @ ''```''\<close>

lemma sample_receipt: "receipt_approval (receipt_block ''approved'') = Some ''approved''"
  by code_simp

lemma released_means_approved_witness: "fource_outcome (sample_chat (receipt_block ''approved'')) = Inr ''released''
   \<and> (\<exists>d. latest_answer (sample_chat (receipt_block ''approved'')) = Inr (JObj d) \<and> jtruthy (jget d ''done''))"
proof -
  have "latest_answer (sample_chat x) = Inr (JObj [(''id'', JStr ''a''), (''role'', JStr ''assistant''), (''model'', JStr ''ace_orchestrator''),
      (''done'', JBool True), (''content'', JStr x)])" for x
    by (simp add: sample_chat_def latest_answer_def attr_get_def jget_def dict_get_def jor_def message_at_def walk_back.simps can_hash_def)
  moreover have "text_or_empty (JStr (receipt_block ''approved'')) = receipt_block ''approved''"
    "\<not> starts_with (py_lstrip (receipt_block ''approved'')) ''**4CE error:**''"
    "starts_with (text_or_empty (JStr ''ace_orchestrator'')) ''ace_orchestrator''" by code_simp+
  moreover have "outcome_of_text (receipt_block ''approved'') = ''released''" by (simp add: outcome_of_text_def sample_receipt)
  ultimately have "fource_outcome (sample_chat (receipt_block ''approved'')) = Inr ''released''"
    by (simp add: fource_outcome_def outcome_of_answer_def jget_def dict_get_def status_items_def iter_items_def List.map_filter_def Let_def)
  then show ?thesis using released_means_approved by blast
qed

lemma first_receipt_wins: "receipt_approval (receipt_block ''approved'' @ nl @ nl @ receipt_block ''rejected'') = Some ''approved''"
  by code_simp

end
