(* ===== verification/File_System.thy ===== *)
theory File_System
  imports Audit_Append "HOL-Library.Sublist"
begin

text \<open>
  The file system the tools write to: a path is the list of its components, a node a file with its bytes or a directory, and
  nodes are kept under the paths they resolve to. What a write leaves when the disk fails is an argument. The lemmas say what
  making directories and writing a file leave alone.
\<close>

section \<open>A file system\<close>

type_synonym path = "string list"

datatype node = FileNode bytes | DirNode

type_synonym filesystem = "(path \<times> node) list"

definition node_at :: "filesystem \<Rightarrow> path \<Rightarrow> node option" where
  "node_at fs p = (if p = [] then Some DirNode else map_of fs p)"

definition put_node :: "path \<Rightarrow> node \<Rightarrow> filesystem \<Rightarrow> filesystem" where
  "put_node p n fs = (p, n) # filter (\<lambda>(q, m). q \<noteq> p) fs"

definition is_file :: "filesystem \<Rightarrow> path \<Rightarrow> bool" where
  "is_file fs p = (case node_at fs p of Some (FileNode _) \<Rightarrow> True | _ \<Rightarrow> False)"

definition is_dir :: "filesystem \<Rightarrow> path \<Rightarrow> bool" where
  "is_dir fs p \<longleftrightarrow> node_at fs p = Some DirNode"

text \<open>\<^verbatim>\<open>path.mkdir(parents=True, exist_ok=True)\<close>: from the top down; a file in the way raises.\<close>

fun make_dirs :: "path \<Rightarrow> path \<Rightarrow> filesystem \<Rightarrow> py_error option \<times> filesystem" where
  "make_dirs up [] fs = (None, fs)"
| "make_dirs up (c # cs) fs = (case node_at fs (up @ [c]) of
      None \<Rightarrow> make_dirs (up @ [c]) cs (put_node (up @ [c]) DirNode fs)
    | Some DirNode \<Rightarrow> make_dirs (up @ [c]) cs fs
    | Some (FileNode _) \<Rightarrow> (Some OSError, fs))"

definition mkdir :: "path \<Rightarrow> filesystem \<Rightarrow> py_error option \<times> filesystem" where
  "mkdir p fs = make_dirs [] p fs"

text \<open>Reading and writing a file: a directory, a missing parent and, for a write, a fault of the disk raise.\<close>

definition read_bytes :: "filesystem \<Rightarrow> path \<Rightarrow> py_error + bytes" where
  "read_bytes fs p = (case node_at fs p of Some (FileNode b) \<Rightarrow> Inr b | _ \<Rightarrow> Inl OSError)"

definition write_bytes :: "(path \<Rightarrow> bytes \<Rightarrow> bytes option) \<Rightarrow> path \<Rightarrow> bytes \<Rightarrow> filesystem \<Rightarrow> py_error option \<times> filesystem" where
  "write_bytes fault p b fs =
     (if is_dir fs p \<or> \<not> is_dir fs (butlast p) then (Some OSError, fs)
      else case fault p b of None \<Rightarrow> (None, put_node p (FileNode b) fs) | Some left \<Rightarrow> (Some OSError, put_node p (FileNode left) fs))"

section \<open>Names\<close>

text \<open>\<^verbatim>\<open>name.rpartition(".")\<close>: the stem and the suffix of a name; a leading or a final dot starts no suffix.\<close>

definition name_suffix :: "string \<Rightarrow> string" where
  "name_suffix name =
     (let tail = takeWhile (\<lambda>c. c \<noteq> CHR ''.'') (rev name); i = length name - length tail - 1
      in if CHR ''.'' \<in> set name \<and> 0 < i \<and> tail \<noteq> [] then CHR ''.'' # rev tail else [])"

definition name_stem :: "string \<Rightarrow> string" where
  "name_stem name = take (length name - length (name_suffix name)) name"

text \<open>The components of a relative path: empty ones and single dots are dropped, double dots are left to the resolution.\<close>

definition path_parts :: "string \<Rightarrow> path" where
  "path_parts s = filter (\<lambda>c. c \<noteq> [] \<and> c \<noteq> ''.'') (split_on (CHR ''/'') s)"

definition is_under :: "path \<Rightarrow> path \<Rightarrow> bool" where
  "is_under base p \<longleftrightarrow> take (length base) p = base"

definition relative_to :: "path \<Rightarrow> path \<Rightarrow> path" where
  "relative_to base p = drop (length base) p"

definition as_posix :: "path \<Rightarrow> string" where
  "as_posix p = (if p = [] then ''.'' else join_with ''/'' p)"

section \<open>What a change of the file system keeps\<close>

lemma is_under_prefix: "is_under a b \<longleftrightarrow> prefix a b"
  by (auto simp: is_under_def prefix_def) (metis append_take_drop_id)

lemma map_of_others: "q \<noteq> p \<Longrightarrow> map_of (filter (\<lambda>(r, m). r \<noteq> p) fs) q = map_of fs q"
  by (induction fs) auto

lemma node_at_put: "p \<noteq> [] \<Longrightarrow> node_at (put_node p n fs) q = (if q = p then Some n else node_at fs q)"
  by (simp add: node_at_def put_node_def map_of_others)

lemma keys_put: "fst ` set (put_node p n fs) = insert p (fst ` set fs)"
  by (force simp: put_node_def image_iff)

lemma distinct_put: "distinct (map fst fs) \<Longrightarrow> distinct (map fst (put_node p n fs))"
  by (auto simp: put_node_def distinct_map inj_on_def)

text \<open>A directory may be made on the way, and a file may be made or changed where it is written: nothing else changes.\<close>

definition dirs_added :: "path \<Rightarrow> filesystem \<Rightarrow> filesystem \<Rightarrow> bool" where
  "dirs_added p fs fs' \<longleftrightarrow> (\<forall>q. node_at fs' q = node_at fs q \<or> (node_at fs q = None \<and> node_at fs' q = Some DirNode \<and> is_under q p))
     \<and> fst ` set fs \<subseteq> fst ` set fs' \<and> (distinct (map fst fs) \<longrightarrow> distinct (map fst fs'))"

lemma dirs_added_refl: "dirs_added p fs fs"
  by (simp add: dirs_added_def)

lemma dirs_added_trans:
  assumes 1: "dirs_added p fs fs1" and 2: "dirs_added p fs1 fs2"
  shows "dirs_added p fs fs2"
proof -
  have "node_at fs2 q = node_at fs q \<or> (node_at fs q = None \<and> node_at fs2 q = Some DirNode \<and> is_under q p)" for q
    using 1 [unfolded dirs_added_def, THEN conjunct1, rule_format, of q] 2 [unfolded dirs_added_def, THEN conjunct1, rule_format, of q]
    by auto
  moreover have "fst ` set fs \<subseteq> fst ` set fs2" "distinct (map fst fs) \<longrightarrow> distinct (map fst fs2)"
    using 1 2 unfolding dirs_added_def by blast+
  ultimately show ?thesis unfolding dirs_added_def by blast
qed

lemma make_dirs_added: "make_dirs up cs fs = (e, fs') \<Longrightarrow> dirs_added (up @ cs) fs fs'"
proof (induction up cs fs rule: make_dirs.induct)
  case (1 up fs)
  then show ?case by (simp add: dirs_added_refl)
next
  case (2 up c cs fs)
  have "dirs_added (up @ c # cs) fs (put_node (up @ [c]) DirNode fs)" if "node_at fs (up @ [c]) = None"
    using that by (auto simp: dirs_added_def node_at_put keys_put distinct_put is_under_prefix)
  then show ?case
    using 2 by (auto split: option.splits node.splits intro: dirs_added_trans dirs_added_refl)
qed

lemma mkdir_added: "mkdir p fs = (e, fs') \<Longrightarrow> dirs_added p fs fs'"
  unfolding mkdir_def using make_dirs_added [of "[]"] by simp

lemma write_bytes_cases:
  assumes "write_bytes fault p b fs = (e, fs')"
  obtains (same) "e \<noteq> None" "fs' = fs"
  | (put) c where "p \<noteq> []" "\<not> is_dir fs p" "fs' = put_node p (FileNode c) fs" "e = None \<Longrightarrow> c = b"
  using assms by (fastforce simp: write_bytes_def is_dir_def node_at_def split: if_splits option.splits)

definition confined :: "path \<Rightarrow> filesystem \<Rightarrow> filesystem \<Rightarrow> bool" where
  "confined base fs fs' \<longleftrightarrow> (\<forall>p. is_under base p \<or> node_at fs' p = node_at fs p
     \<or> (node_at fs p = None \<and> node_at fs' p = Some DirNode \<and> is_under p base))"

lemma confined_refl: "confined base fs fs"
  by (simp add: confined_def)

lemma confined_trans: "confined base fs fs1 \<Longrightarrow> confined base fs1 fs2 \<Longrightarrow> confined base fs fs2"
  unfolding confined_def by (metis option.distinct(1))

lemma confined_mkdir: "mkdir p fs = (e, fs') \<Longrightarrow> is_under base p \<Longrightarrow> confined base fs fs'"
  using mkdir_added [of p fs e fs'] unfolding confined_def dirs_added_def is_under_prefix by (metis prefix_same_cases)

lemma confined_write: "write_bytes fault p b fs = (e, fs') \<Longrightarrow> is_under base p \<Longrightarrow> confined base fs fs'"
  by (erule write_bytes_cases) (auto simp: confined_def node_at_put)

lemma is_file_iff: "is_file fs p \<longleftrightarrow> (\<exists>b. node_at fs p = Some (FileNode b))"
  by (auto simp: is_file_def split: option.splits node.splits)

lemma dirs_added_files: "dirs_added p fs fs' \<Longrightarrow> node_at fs' q = Some (FileNode b) \<longleftrightarrow> node_at fs q = Some (FileNode b)"
  unfolding dirs_added_def by (metis node.distinct(1) option.distinct(1) option.inject)

end
