(* ===== verification/Workspace_Files.thy ===== *)
theory Workspace_Files
  imports File_System Replies
begin

text \<open>
  The workspace files tool, \<^verbatim>\<open>4ce/tools/files.py\<close>, over the file system. What the operating system decides is an argument: how a
  path resolves (links), what a folder text expands to, whether a write fails and what it leaves, and the recording of an entry.
  The tool never writes outside the workspace, and what it overwrites stays in the history.
\<close>

text \<open>\<^verbatim>\<open>fnmatch\<close>, as \<^verbatim>\<open>glob\<close> uses it within one directory: a star, a question mark, a set in brackets with ranges and negation.\<close>

definition drop_char :: "string \<Rightarrow> string" where
  "drop_char s = dropWhile (\<lambda>c. 128 \<le> code_of c \<and> code_of c < 192) (tl s)"

definition first_code :: "string \<Rightarrow> int" where
  "first_code s = hd (codes_of s)"

fun in_ranges :: "int list \<Rightarrow> int \<Rightarrow> bool" where
  "in_ranges (a # m # b # cs) x = (if m = 45 then a \<le> x \<and> x \<le> b \<or> in_ranges cs x else x = a \<or> in_ranges (m # b # cs) x)"
| "in_ranges (a # cs) x = (x = a \<or> in_ranges cs x)"
| "in_ranges [] x = False"

text \<open>What follows an opening bracket: the set and the rest, \<open>None\<close> if it is not closed. A bracket right after the opening is a member.\<close>

definition bracket_set :: "string \<Rightarrow> (bool \<times> string \<times> string) option" where
  "bracket_set p =
     (let negated = starts_with p ''!''; q = (if negated then tl p else p);
          opening = (if starts_with q '']'' then '']'' else []); body = takeWhile (\<lambda>c. c \<noteq> CHR '']'') (drop (length opening) q);
          rest = drop (length opening + length body) q
      in if rest = [] then None else Some (negated, opening @ body, tl rest))"

lemma bracket_set_shorter: "bracket_set p = Some (n, s, r) \<Longrightarrow> length r < length p"
  by (auto simp: bracket_set_def Let_def starts_with_iff split: if_splits)

lemma drop_char_shorter: "s \<noteq> [] \<Longrightarrow> length (drop_char s) < length s" "length (drop_char s) \<le> length s"
  using length_dropWhile_le [of "\<lambda>c. 128 \<le> code_of c \<and> code_of c < 192" "tl s"] by (cases s; simp add: drop_char_def)+

function fnmatch :: "string \<Rightarrow> string \<Rightarrow> bool" where
  "fnmatch [] s = (s = [])"
| "fnmatch (c # p) s =
     (if c = CHR ''*'' then fnmatch p s \<or> (if s = [] then False else fnmatch (c # p) (drop_char s))
      else if c = CHR ''?'' then s \<noteq> [] \<and> fnmatch p (drop_char s)
      else case (if c = CHR ''['' then bracket_set p else None) of
        Some (negated, members, rest) \<Rightarrow> s \<noteq> [] \<and> (in_ranges (codes_of members) (first_code s) \<noteq> negated) \<and> fnmatch rest (drop_char s)
      | None \<Rightarrow> s \<noteq> [] \<and> hd s = c \<and> fnmatch p (tl s))"
  by pat_completeness auto
termination
  by (relation "measure (\<lambda>(p, s). length p + length s)")
    (auto dest!: bracket_set_shorter simp: less_Suc_eq_le Suc_le_eq drop_char_shorter split: if_splits intro: add_le_mono less_imp_le)

section \<open>The tool\<close>

definition WRITABLE :: "string list" where
  "WRITABLE = [''.txt'', ''.md'', ''.csv'', ''.tsv'', ''.json'', ''.yaml'', ''.yml'', ''.xml'', ''.html'', ''.log'',
     ''.ini'', ''.toml'', ''.py'', ''.sql'']"

definition VERSIONS :: string where
  "VERSIONS = ''.versions''"

record files_env =
  fe_workspace :: string
  fe_read_only :: string
  fe_max_read_kb :: int
  fe_max_write_kb :: int
  fe_default :: path
  fe_expand :: "string \<Rightarrow> path"
  fe_real :: "path \<Rightarrow> path"
  fe_fault :: "path \<Rightarrow> bytes \<Rightarrow> bytes option"
  fe_record :: "string \<Rightarrow> json pydict \<Rightarrow> audit_trail \<Rightarrow> json pydict option \<times> audit_trail"

record workspace =
  ws_fs :: filesystem
  ws_trail :: audit_trail

type_synonym answer = "py_error + string"

definition inside :: "files_env \<Rightarrow> path \<Rightarrow> string \<Rightarrow> path option" where
  \<open>inside E folder_root requested =
     (let raw = py_strip (map (\<lambda>c. if c = CHR 0x5C then CHR ''/'' else c) (py_strip requested)) in
      if raw = [] \<or> CHR 0x00 \<in> set raw \<or> starts_with raw ''/'' \<or> re_match no_flags (rx ''^[A-Za-z]:'') raw \<noteq> None \<or> starts_with raw ''~''
      then None
      else let base = fe_real E folder_root; target = fe_real E (base @ path_parts raw) in
        if is_under base target \<and> target \<noteq> base then Some target else None)\<close>

definition kb :: "int \<Rightarrow> string" where
  "kb n = str_int (max 1 (round_even (of_int n / 1024))) @ '' KB''"

definition workspace_root :: "files_env \<Rightarrow> path" where
  "workspace_root E = (if py_strip (fe_workspace E) \<noteq> [] then fe_expand E (fe_workspace E) else fe_default E)"

definition open_workspace :: "files_env \<Rightarrow> filesystem \<Rightarrow> py_error option \<times> filesystem" where
  "open_workspace E fs = mkdir (fe_real E (workspace_root E)) fs"

definition read_roots :: "files_env \<Rightarrow> filesystem \<Rightarrow> (string \<times> path) list" where
  "read_roots E fs = (''workspace'', workspace_root E)
     # List.map_filter (\<lambda>(n, folder). let p = fe_expand E folder in
         if is_dir fs (fe_real E p) then Some (''read-only folder '' @ str_nat (n + 1), p) else None)
       (enumerate 0 (filter (\<lambda>p. p \<noteq> []) (map py_strip (split_on (CHR '';'') (fe_read_only E)))))"

definition noted :: "files_env \<Rightarrow> string \<Rightarrow> json pydict \<Rightarrow> workspace \<Rightarrow> json pydict option \<times> workspace" where
  "noted E action info w = (case fe_record E action info (ws_trail w) of (entry, tr) \<Rightarrow> (entry, w\<lparr>ws_trail := tr\<rparr>))"

definition entry_phrase :: "string \<Rightarrow> json pydict option \<Rightarrow> string" where
  "entry_phrase before entry = (case entry of Some e \<Rightarrow> before @ ''audit trail entry '' @ py_str (jget e ''seq'') | None \<Rightarrow> [])"

subsection \<open>Listing and reading\<close>

definition files_below :: "filesystem \<Rightarrow> path \<Rightarrow> path \<Rightarrow> path list" where
  "files_below fs base start =
     take 200 (sort (filter (\<lambda>p. is_under base p \<and> p \<noteq> base \<and> is_file fs p \<and> VERSIONS \<notin> set (relative_to start p)) (map fst fs)))"

definition file_size :: "filesystem \<Rightarrow> path \<Rightarrow> int" where
  "file_size fs p = (case node_at fs p of Some (FileNode b) \<Rightarrow> int (length b) | _ \<Rightarrow> 0)"

definition root_lines :: "files_env \<Rightarrow> filesystem \<Rightarrow> string \<Rightarrow> string \<times> path \<Rightarrow> string list" where
  "root_lines E fs folder = (\<lambda>(label, folder_root).
     case (if py_strip folder \<noteq> [] then inside E folder_root folder else Some (fe_real E folder_root)) of
       None \<Rightarrow> []
     | Some base \<Rightarrow>
         if \<not> is_dir fs base then []
         else let found = files_below fs base (fe_real E folder_root)
           in (''**'' @ label @ ''** - '' @ str_nat (length found) @ '' file'' @ (if length found \<noteq> 1 then ''s'' else []))
              # map (\<lambda>p. ''- `'' @ as_posix (relative_to (fe_real E folder_root) p) @ ''` ('' @ kb (file_size fs p) @ '')'') found)"

definition list_files :: "files_env \<Rightarrow> string \<Rightarrow> workspace \<Rightarrow> answer \<times> workspace" where
  "list_files E folder w0 = (case open_workspace E (ws_fs w0) of
      (Some e, fs) \<Rightarrow> (Inl e, w0\<lparr>ws_fs := fs\<rparr>)
    | (None, fs) \<Rightarrow>
        (let ls = concat (map (root_lines E fs folder) (read_roots E fs));
             (entry, w) = noted E ''file.list'' [(''tool'', JStr ''list_files''), (''folder'', if folder \<noteq> [] then JStr folder else JNull)] (w0\<lparr>ws_fs := fs\<rparr>)
         in (Inr (if ls \<noteq> [] then join_with nl ls else ''`'' @ folder @ ''` is not a folder 4CE can read.''), w)))"

definition fenced_text :: "string \<Rightarrow> string" where
  "fenced_text t = (let fence = (if contains t ''```'' then ''````'' else ''```'') in fence @ nl @ t @ nl @ fence)"

fun read_from :: "files_env \<Rightarrow> string \<Rightarrow> (string \<times> path) list \<Rightarrow> workspace \<Rightarrow> answer \<times> workspace" where
  "read_from E path [] w = (Inr (''`'' @ path @ ''` is not in the workspace.''), w)"
| "read_from E path ((label, folder_root) # roots) w = (case inside E folder_root path of
      None \<Rightarrow> (Inr (''`'' @ path @ ''` is outside the folders 4CE may read, so it was not read.''), w)
    | Some target \<Rightarrow> (case node_at (ws_fs w) target of
        Some (FileNode data) \<Rightarrow>
          (let sz = int (length data) in
           if fe_max_read_kb E * 1024 < sz
           then (Inr (''`'' @ path @ ''` is '' @ kb sz @ '', over the '' @ str_int (fe_max_read_kb E) @ '' KB 4CE reads into a conversation.''), w)
           else if CHR 0x00 \<in> set (take 4096 data)
           then (Inr (''`'' @ path @ ''` is not a text file. A spreadsheet is read with read_sheet.''), w)
           else (case noted E ''file.read'' [(''tool'', JStr ''read_file''), (''file'', JStr path), (''root'', JStr label),
               (''sha256'', JStr (sha256_hex data)), (''bytes'', JInt sz)] w of
             (entry, w') \<Rightarrow> (Inr (''`'' @ path @ ''` - '' @ kb sz @ '', from the '' @ label @ entry_phrase '', '' entry @ '':'' @ nl @ nl
               @ fenced_text (decode_replace data)), w')))
      | _ \<Rightarrow> read_from E path roots w))"

definition read_file :: "files_env \<Rightarrow> string \<Rightarrow> workspace \<Rightarrow> answer \<times> workspace" where
  "read_file E path w = (case open_workspace E (ws_fs w) of
      (Some e, fs) \<Rightarrow> (Inl e, w\<lparr>ws_fs := fs\<rparr>)
    | (None, fs) \<Rightarrow> read_from E path (read_roots E fs) (w\<lparr>ws_fs := fs\<rparr>))"

subsection \<open>Writing\<close>

definition history_of :: "path \<Rightarrow> path \<Rightarrow> path" where
  "history_of base relative = base @ [VERSIONS] @ relative"

definition version_name :: "string \<Rightarrow> int \<Rightarrow> string" where
  "version_name name n = name_stem name @ ''.v'' @ str_int n @ name_suffix name"

text \<open>\<^verbatim>\<open>len(list(history.glob(...)))\<close>: the children of the history whose names match.\<close>

definition children :: "filesystem \<Rightarrow> path \<Rightarrow> string list" where
  "children fs p = map last (filter (\<lambda>q. q \<noteq> [] \<and> butlast q = p) (map fst fs))"

definition count_versions :: "filesystem \<Rightarrow> path \<Rightarrow> string \<Rightarrow> nat" where
  "count_versions fs history name = length (filter (fnmatch (name_stem name @ ''.v*'' @ name_suffix name)) (children fs history))"

text \<open>The earlier version of a file is kept before it is overwritten: the error if there is one, and where it is kept.\<close>

definition keep_version :: "files_env \<Rightarrow> path \<Rightarrow> path \<Rightarrow> bytes \<Rightarrow> filesystem \<Rightarrow> py_error option \<times> path \<times> filesystem" where
  "keep_version E base target previous fs =
     (let history = history_of base (relative_to base target); name = last target in
      case mkdir history fs of
        (Some e, fs1) \<Rightarrow> (Some e, [], fs1)
      | (None, fs1) \<Rightarrow>
          (let kept = history @ [version_name name (int (count_versions fs1 history name) + 1)] in
           case write_bytes (fe_fault E) kept previous fs1 of (e, fs2) \<Rightarrow> (e, kept, fs2)))"

definition written_entry :: "path \<Rightarrow> path \<Rightarrow> bytes \<Rightarrow> (bytes \<times> path) option \<Rightarrow> json pydict" where
  "written_entry base relative payload kept =
     [(''tool'', JStr ''write_file''), (''file'', JStr (as_posix relative)), (''sha256'', JStr (sha256_hex payload)), (''bytes'', JInt (int (length payload))),
      (''replaced'', case kept of Some (previous, _) \<Rightarrow> JStr (sha256_hex previous) | None \<Rightarrow> JNull),
      (''kept'', case kept of Some (_, p) \<Rightarrow> JStr (as_posix (relative_to base p)) | None \<Rightarrow> JNull)]"

text \<open>The writing itself: the parent directory, the bytes, the entry and the answer.\<close>

definition write_out :: "files_env \<Rightarrow> path \<Rightarrow> path \<Rightarrow> bytes \<Rightarrow> (bytes \<times> path) option \<Rightarrow> workspace \<Rightarrow> answer \<times> workspace" where
  \<open>write_out E base target payload kept w =
     (case mkdir (butlast target) (ws_fs w) of
        (Some e, fs1) \<Rightarrow> (Inl e, w\<lparr>ws_fs := fs1\<rparr>)
      | (None, fs1) \<Rightarrow> (case write_bytes (fe_fault E) target payload fs1 of
          (Some e, fs2) \<Rightarrow> (Inl e, w\<lparr>ws_fs := fs2\<rparr>)
        | (None, fs2) \<Rightarrow>
            (let relative = relative_to base target in
             case noted E ''file.write'' (written_entry base relative payload kept) (w\<lparr>ws_fs := fs2\<rparr>) of
               (entry, w') \<Rightarrow> (Inr (''**Written** `'' @ as_posix relative @ lit ''` in the workspace ~u00b7 '' @ kb (int (length payload))
                 @ (case kept of Some (_, p) \<Rightarrow> lit '' ~u00b7 the earlier version kept as `'' @ as_posix (relative_to base p) @ ''`'' | None \<Rightarrow> [])
                 @ entry_phrase (lit '' ~u00b7 '') entry), w'))))\<close>

text \<open>Why a target is refused before anything is written: \<open>None\<close> where it is not.\<close>

definition refused :: "files_env \<Rightarrow> path \<Rightarrow> path \<Rightarrow> bytes \<Rightarrow> string option" where
  "refused E base target payload =
     (if VERSIONS \<in> set (relative_to base target) then Some ''The earlier versions of files are kept, not rewritten; nothing was written.''
      else if py_lower (name_suffix (last target)) \<notin> set WRITABLE
      then Some (''`'' @ last target @ ''` is not a type 4CE writes into the workspace. '' @ ''It writes: '' @ join_with '', '' (sort WRITABLE) @ ''.'')
      else if py_strip payload = [] then Some ''The content is empty; nothing was written.''
      else if fe_max_write_kb E * 1024 < int (length payload)
      then Some (''That is '' @ kb (int (length payload)) @ '', over the '' @ str_int (fe_max_write_kb E) @ '' KB limit; nothing was written.'')
      else None)"

definition write_target :: "files_env \<Rightarrow> path \<Rightarrow> path \<Rightarrow> bytes \<Rightarrow> workspace \<Rightarrow> answer \<times> workspace" where
  "write_target E base target payload w =
     (if node_at (ws_fs w) target = None then write_out E base target payload None w
      else case read_bytes (ws_fs w) target of
        Inl e \<Rightarrow> (Inl e, w)
      | Inr previous \<Rightarrow>
          if previous = payload
          then (Inr (''`'' @ as_posix (relative_to base target) @ ''` already holds exactly this; nothing was written.''), w)
          else (case keep_version E base target previous (ws_fs w) of
            (Some e, kept, fs) \<Rightarrow> (Inl e, w\<lparr>ws_fs := fs\<rparr>)
          | (None, kept, fs) \<Rightarrow> write_out E base target payload (Some (previous, kept)) (w\<lparr>ws_fs := fs\<rparr>)))"

definition write_file :: "files_env \<Rightarrow> string \<Rightarrow> string \<Rightarrow> workspace \<Rightarrow> answer \<times> workspace" where
  "write_file E path content w0 = (case open_workspace E (ws_fs w0) of
      (Some e, fs) \<Rightarrow> (Inl e, w0\<lparr>ws_fs := fs\<rparr>)
    | (None, fs) \<Rightarrow>
        (let w = w0\<lparr>ws_fs := fs\<rparr>; base = fe_real E (workspace_root E) in
         case inside E (workspace_root E) path of
           None \<Rightarrow> (Inr (''`'' @ path @ ''` is outside the workspace, so nothing was written.''), w)
         | Some target \<Rightarrow> (case refused E base target content of
             Some why \<Rightarrow> (Inr why, w)
           | None \<Rightarrow> write_target E base target content w)))"

section \<open>Nothing is written outside\<close>

lemma inside_under: "inside E folder path = Some target \<Longrightarrow> is_under (fe_real E folder) target \<and> target \<noteq> fe_real E folder"
  by (auto simp: inside_def Let_def split: if_splits)

lemma under_parent: "is_under base target \<Longrightarrow> target \<noteq> base \<Longrightarrow> is_under base (butlast target)"
  by (auto simp: is_under_prefix prefix_def butlast_append)

lemma under_history: "is_under base (history_of base relative)" "is_under base (history_of base relative @ [v])"
  by (auto simp: is_under_prefix history_of_def)

lemma noted_fs [simp]: "noted E action info w = (entry, w') \<Longrightarrow> ws_fs w' = ws_fs w"
  by (auto simp: noted_def split: prod.splits)

lemma write_out_steps:
  assumes "write_out E base target payload kept w = (a, w')"
  obtains e fs1 where "mkdir (butlast target) (ws_fs w) = (Some e, fs1)" "ws_fs w' = fs1"
  | fs1 e fs2 where "mkdir (butlast target) (ws_fs w) = (None, fs1)" "write_bytes (fe_fault E) target payload fs1 = (e, fs2)" "ws_fs w' = fs2"
  using assms by (fastforce simp: write_out_def Let_def split: prod.splits option.splits dest: noted_fs)

lemma write_out_confined:
  "write_out E base target payload kept w = (a, w') \<Longrightarrow> is_under base target \<Longrightarrow> target \<noteq> base \<Longrightarrow> confined base (ws_fs w) (ws_fs w')"
  by (erule write_out_steps) (auto intro: confined_mkdir confined_write confined_trans under_parent)

lemma keep_version_steps:
  assumes "keep_version E base target previous fs = (e, kept, fs')"
  obtains "e \<noteq> None" "mkdir (history_of base (relative_to base target)) fs = (e, fs')"
  | fs1 where "mkdir (history_of base (relative_to base target)) fs = (None, fs1)"
      "kept = history_of base (relative_to base target)
         @ [version_name (last target) (int (count_versions fs1 (history_of base (relative_to base target)) (last target)) + 1)]"
      "write_bytes (fe_fault E) kept previous fs1 = (e, fs')"
  using assms by (fastforce simp: keep_version_def Let_def split: prod.splits option.splits)

lemma keep_version_confined: "keep_version E base target previous fs = (e, kept, fs') \<Longrightarrow> confined base fs fs'"
  by (erule keep_version_steps) (auto intro: confined_mkdir confined_write confined_trans under_history)

lemma write_target_steps:
  obtains (same) a where "write_target E base target payload w = (a, w)"
  | (new) "node_at (ws_fs w) target = None" "write_target E base target payload w = write_out E base target payload None w"
  | (halt) previous e kept fs where "read_bytes (ws_fs w) target = Inr previous" "keep_version E base target previous (ws_fs w) = (Some e, kept, fs)"
      "write_target E base target payload w = (Inl e, w\<lparr>ws_fs := fs\<rparr>)"
  | (over) previous kept fs where "read_bytes (ws_fs w) target = Inr previous" "keep_version E base target previous (ws_fs w) = (None, kept, fs)"
      "write_target E base target payload w = write_out E base target payload (Some (previous, kept)) (w\<lparr>ws_fs := fs\<rparr>)"
proof (cases "node_at (ws_fs w) target = None")
  case True
  then show ?thesis using new by (simp add: write_target_def)
next
  case some: False
  show ?thesis
  proof (cases "read_bytes (ws_fs w) target")
    case (Inl e)
    with some have "write_target E base target payload w = (Inl e, w)" by (auto simp: write_target_def)
    then show ?thesis by (rule same)
  next
    case (Inr previous)
    obtain e kept fs where "keep_version E base target previous (ws_fs w) = (e, kept, fs)" by (metis prod_cases3)
    then show ?thesis
      using some Inr same halt over by (cases "previous = payload"; cases e) (auto simp: write_target_def)
  qed
qed

lemma write_target_confined:
  assumes "is_under base target" "target \<noteq> base" "write_target E base target payload w = (a, w')"
  shows "confined base (ws_fs w) (ws_fs w')"
proof (cases rule: write_target_steps [of E base target payload w])
  case (same a)
  then show ?thesis using assms by (simp add: confined_refl)
next
  case new
  then have "write_out E base target payload None w = (a, w')" using assms(3) by simp
  then show ?thesis by (rule write_out_confined [OF _ assms(1,2)])
next
  case (halt previous e kept fs)
  then show ?thesis using assms keep_version_confined by fastforce
next
  case (over previous kept fs)
  then show ?thesis using assms keep_version_confined [OF over(2)] write_out_confined [of E base target payload _ "w\<lparr>ws_fs := fs\<rparr>" a w']
    by (auto intro: confined_trans)
qed

lemma write_file_steps:
  assumes "write_file E path content w = (a, w')"
  obtains (no_write) e where "mkdir (fe_real E (workspace_root E)) (ws_fs w) = (e, ws_fs w')"
  | (written) fs target where "mkdir (fe_real E (workspace_root E)) (ws_fs w) = (None, fs)" "inside E (workspace_root E) path = Some target"
      "refused E (fe_real E (workspace_root E)) target content = None"
      "write_target E (fe_real E (workspace_root E)) target content (w\<lparr>ws_fs := fs\<rparr>) = (a, w')"
  using assms by (fastforce simp: write_file_def open_workspace_def Let_def split: prod.splits option.splits)


section \<open>Nothing is lost\<close>

text \<open>The numbering of the history: no version bears a higher number than the count of the versions there.\<close>

definition history_numbered :: "path \<Rightarrow> filesystem \<Rightarrow> bool" where
  "history_numbered base fs \<longleftrightarrow> distinct (map fst fs) \<and> (\<forall>relative i. relative \<noteq> [] \<longrightarrow>
     is_file fs (history_of base relative @ [version_name (last relative) i])
       \<longrightarrow> i \<le> int (count_versions fs (history_of base relative) (last relative)))"

definition plain_name :: "string \<Rightarrow> bool" where
  "plain_name name \<longleftrightarrow> list_all (\<lambda>c. c \<noteq> CHR ''*'' \<and> c \<noteq> CHR ''?'' \<and> c \<noteq> CHR ''['') name"

lemma fnmatch_plain: "plain_name u \<Longrightarrow> fnmatch (u @ p) (u @ s) = fnmatch p s"
  by (induction u) (auto simp: plain_name_def)

lemma fnmatch_same: "plain_name u \<Longrightarrow> fnmatch u u"
  using fnmatch_plain [of u "[]" "[]"] by simp

lemma fnmatch_star:
  assumes "fnmatch p s" "s = [] \<or> code_of (hd s) < 128" "list_all (\<lambda>c. code_of c < 128) u"
  shows "fnmatch (CHR ''*'' # p) (u @ s)"
  using assms(3)
proof (induction u)
  case Nil
  then show ?case using assms(1) by simp
next
  case (Cons c u)
  have "drop_char (c # u @ s) = u @ s"
    using Cons.prems assms(2) by (cases u; cases s) (auto simp: drop_char_def)
  then show ?case using Cons by simp
qed

lemma name_suffix_parts: "name_suffix name = [] \<or> hd (name_suffix name) = CHR ''.''" "set (name_suffix name) \<subseteq> set name"
  by (auto simp: name_suffix_def Let_def dest: set_takeWhileD)

lemma version_matches: "plain_name name \<Longrightarrow> fnmatch (name_stem name @ ''.v*'' @ name_suffix name) (version_name name i)"
proof -
  assume plain: "plain_name name"
  then have parts: "plain_name (name_stem name @ ''.v'')" "plain_name (name_suffix name)"
    using name_suffix_parts(2) [of name] set_take_subset by (fastforce simp: plain_name_def name_stem_def list_all_iff)+
  have "code_of c < 128" if "c \<in> set (str_int i)" for c
    using that digits_of_digits [of "\<bar>i\<bar>"] by (fastforce simp: str_int_def is_digit_def code_of_def split: if_splits)
  then have "list_all (\<lambda>c. code_of c < 128) (str_int i)" by (simp add: list_all_iff)
  moreover have "name_suffix name = [] \<or> code_of (hd (name_suffix name)) < 128"
    using name_suffix_parts(1) [of name] by (elim disjE) (simp_all add: code_of_def)
  ultimately have "fnmatch (''*'' @ name_suffix name) (str_int i @ name_suffix name)"
    using fnmatch_star [OF fnmatch_same [OF parts(2)]] by simp
  then show ?thesis
    using fnmatch_plain [OF parts(1), of "''*'' @ name_suffix name" "str_int i @ name_suffix name"] by (simp add: version_name_def)
qed

lemma version_name_inj: "version_name name i = version_name name j \<Longrightarrow> i = j"
  by (simp add: version_name_def str_int_inj)

lemma count_versions_card:
  "distinct (map fst fs) \<Longrightarrow> count_versions fs h name
    = card {q \<in> fst ` set fs. q \<noteq> [] \<and> butlast q = h \<and> fnmatch (name_stem name @ ''.v*'' @ name_suffix name) (last q)}"
  (is "_ \<Longrightarrow> _ = card {q \<in> _. ?P q}")
proof -
  assume "distinct (map fst fs)"
  then have "card {q \<in> fst ` set fs. ?P q} = length (filter ?P (map fst fs))"
    using distinct_card [of "filter ?P (map fst fs)"] by simp
  then show ?thesis by (simp add: count_versions_def children_def filter_map comp_def conj_ac)
qed

lemma count_versions_mono:
  assumes "distinct (map fst fs)" "distinct (map fst fs')" "fst ` set fs \<subseteq> fst ` set fs'"
  shows "count_versions fs h name \<le> count_versions fs' h name"
  unfolding assms(1,2) [THEN count_versions_card] using assms(3) by (auto intro!: card_mono)

lemma count_versions_fresh:
  "h @ [v] \<notin> fst ` set fs \<Longrightarrow> fnmatch (name_stem name @ ''.v*'' @ name_suffix name) v
   \<Longrightarrow> count_versions (put_node (h @ [v]) n fs) h name = Suc (count_versions fs h name)"
proof -
  assume "h @ [v] \<notin> fst ` set fs" "fnmatch (name_stem name @ ''.v*'' @ name_suffix name) v"
  moreover from this have "put_node (h @ [v]) n fs = (h @ [v], n) # fs" by (force simp: put_node_def filter_id_conv)
  ultimately show ?thesis by (simp add: count_versions_def children_def)
qed

text \<open>Directories made on the way keep every file and the numbering.\<close>

lemma numbered_weaken:
  assumes n: "history_numbered base fs" and d: "distinct (map fst fs')" and k: "fst ` set fs \<subseteq> fst ` set fs'"
    and f: "\<And>relative i. relative \<noteq> [] \<Longrightarrow> is_file fs' (history_of base relative @ [version_name (last relative) i])
      \<Longrightarrow> is_file fs (history_of base relative @ [version_name (last relative) i])"
  shows "history_numbered base fs'"
  unfolding history_numbered_def
proof (intro conjI allI impI d)
  fix relative :: path and i
  assume "relative \<noteq> []" "is_file fs' (history_of base relative @ [version_name (last relative) i])"
  then have "i \<le> int (count_versions fs (history_of base relative) (last relative))"
    using n f unfolding history_numbered_def by blast
  also have "\<dots> \<le> int (count_versions fs' (history_of base relative) (last relative))"
    using count_versions_mono [OF _ d k] n unfolding history_numbered_def by simp
  finally show "i \<le> int (count_versions fs' (history_of base relative) (last relative))" .
qed

lemma dirs_added_numbered: "dirs_added p fs fs' \<Longrightarrow> history_numbered base fs \<Longrightarrow> history_numbered base fs'"
  by (rule numbered_weaken) (simp_all add: dirs_added_files is_file_iff, simp_all add: dirs_added_def history_numbered_def)

text \<open>A file written outside the history leaves the numbering alone.\<close>

lemma put_numbered_outside:
  assumes "history_numbered base fs" "p \<noteq> []" "VERSIONS \<notin> set (relative_to base p)" "is_under base p"
  shows "history_numbered base (put_node p (FileNode b) fs)"
proof (rule numbered_weaken [OF assms(1)])
  show "distinct (map fst (put_node p (FileNode b) fs))" using assms(1) by (simp add: distinct_put history_numbered_def)
  show "fst ` set fs \<subseteq> fst ` set (put_node p (FileNode b) fs)" by (auto simp: keys_put)
  fix relative :: path and i
  have "history_of base relative @ [version_name (last relative) i] \<noteq> p"
    using assms(3) by (auto simp: history_of_def relative_to_def)
  then show "is_file fs (history_of base relative @ [version_name (last relative) i])"
    if "is_file (put_node p (FileNode b) fs) (history_of base relative @ [version_name (last relative) i])"
    using that assms(2) by (simp add: is_file_iff node_at_put)
qed

text \<open>A version under the next number is new, and keeps the numbering.\<close>

lemma put_numbered_version:
  fixes base relative :: path
  defines "h \<equiv> history_of base relative" and "name \<equiv> last relative"
  assumes n: "history_numbered base fs" and r: "relative \<noteq> []" "plain_name name"
    and new: "\<not> is_dir fs (h @ [version_name name (int (count_versions fs h name) + 1)])"
  shows "node_at fs (h @ [version_name name (int (count_versions fs h name) + 1)]) = None"
    and "history_numbered base (put_node (h @ [version_name name (int (count_versions fs h name) + 1)]) (FileNode b) fs)"
proof -
  let ?i = "int (count_versions fs h name) + 1"
  let ?p = "h @ [version_name name ?i]"
  let ?fs = "put_node ?p (FileNode b) fs"
  have d: "distinct (map fst fs)" "distinct (map fst ?fs)" using n by (simp_all add: history_numbered_def distinct_put)
  have "\<not> is_file fs ?p" using n r(1) unfolding history_numbered_def h_def name_def by (meson add_le_same_cancel1 not_one_le_zero)
  with new show none: "node_at fs ?p = None"
    by (auto simp: is_file_def is_dir_def split: option.splits node.splits)
  then have fresh: "?p \<notin> fst ` set fs" by (simp add: node_at_def map_of_eq_None_iff split: if_splits)
  have more: "count_versions ?fs h name = Suc (count_versions fs h name)"
    using count_versions_fresh [OF fresh] version_matches [OF r(2)] by simp
  show "history_numbered base ?fs"
    unfolding history_numbered_def
  proof (intro conjI allI impI d(2))
    fix relative' :: path and i
    assume r': "relative' \<noteq> []" "is_file ?fs (history_of base relative' @ [version_name (last relative') i])"
    show "i \<le> int (count_versions ?fs (history_of base relative') (last relative'))"
    proof (cases "history_of base relative' @ [version_name (last relative') i] = ?p")
      case True
      then have "relative' = relative" by (simp add: h_def history_of_def)
      then show ?thesis using True more version_name_inj [of name i ?i] by (simp add: h_def name_def)
    next
      case False
      then have "is_file fs (history_of base relative' @ [version_name (last relative') i])"
        using r'(2) by (auto simp: is_file_iff node_at_put split: if_splits)
      then have "i \<le> int (count_versions fs (history_of base relative') (last relative'))"
        using n r'(1) unfolding history_numbered_def by blast
      also have "\<dots> \<le> int (count_versions ?fs (history_of base relative') (last relative'))"
        using count_versions_mono [OF d] by (simp add: keys_put subset_insertI)
      finally show ?thesis .
    qed
  qed
qed

text \<open>What a write keeps: the files it keeps byte for byte, and the numbering.\<close>

lemma mkdir_keeps:
  assumes "mkdir p fs = (e, fs')"
  shows "node_at fs' q = Some (FileNode b) \<longleftrightarrow> node_at fs q = Some (FileNode b)" "history_numbered base fs \<Longrightarrow> history_numbered base fs'"
  using mkdir_added [OF assms] by (blast intro: dirs_added_numbered dest: dirs_added_files)+

lemma write_out_keeps:
  assumes out: "write_out E base target payload kept w = (a, w')"
    and t: "is_under base target" "target \<noteq> base" "VERSIONS \<notin> set (relative_to base target)" and n: "history_numbered base (ws_fs w)"
  shows "history_numbered base (ws_fs w')" and "q \<noteq> target \<Longrightarrow> node_at (ws_fs w) q = Some (FileNode b) \<Longrightarrow> node_at (ws_fs w') q = Some (FileNode b)"
proof -
  have "history_numbered base (ws_fs w') \<and> (q \<noteq> target \<longrightarrow> node_at (ws_fs w) q = Some (FileNode b) \<longrightarrow> node_at (ws_fs w') q = Some (FileNode b))"
    using out
  proof (cases rule: write_out_steps)
    case (1 e fs1)
    then show ?thesis using mkdir_keeps [OF 1(1)] n by simp
  next
    case (2 fs1 e fs2)
    from 2(2) show ?thesis
    proof (cases rule: write_bytes_cases)
      case same
      then show ?thesis using mkdir_keeps [OF 2(1)] n 2(3) by simp
    next
      case (put c)
      then show ?thesis using mkdir_keeps [OF 2(1)] n 2(3) put_numbered_outside [OF _ put(1) t(3,1)] by (simp add: node_at_put)
    qed
  qed
  then show "history_numbered base (ws_fs w')" and "q \<noteq> target \<Longrightarrow> node_at (ws_fs w) q = Some (FileNode b) \<Longrightarrow> node_at (ws_fs w') q = Some (FileNode b)"
    by blast+
qed

lemma keep_version_keeps:
  assumes keep: "keep_version E base target previous fs = (e, kept, fs')"
    and t: "is_under base target" "target \<noteq> base" "plain_name (last target)" and n: "history_numbered base fs"
  shows "history_numbered base fs' \<and> (node_at fs q = Some (FileNode b) \<longrightarrow> node_at fs' q = Some (FileNode b))
     \<and> (e = None \<longrightarrow> node_at fs' kept = Some (FileNode previous) \<and> (\<exists>i. kept = history_of base (relative_to base target) @ [version_name (last target) i]))"
proof -
  let ?r = "relative_to base target"
  obtain zs where "target = base @ zs" "zs \<noteq> []" using t(1,2) by (auto simp: is_under_prefix prefix_def)
  then have r: "?r \<noteq> []" "last ?r = last target" by (simp_all add: relative_to_def)
  show ?thesis
    using keep
  proof (cases rule: keep_version_steps)
    case 1
    then show ?thesis using mkdir_keeps [OF 1(2)] n by auto
  next
    case (2 fs1)
    have n1: "history_numbered base fs1" using mkdir_keeps(2) [OF 2(1)] n by blast
    note m = put_numbered_version [OF n1 r(1), unfolded r(2), OF t(3), folded 2(2)]
    from 2(3) show ?thesis
    proof (cases rule: write_bytes_cases)
      case same
      then show ?thesis using mkdir_keeps [OF 2(1)] n1 by auto
    next
      case (put c)
      have none: "node_at fs1 kept = None" by (rule m(1) [OF put(2)])
      then have "node_at fs kept \<noteq> Some (FileNode b)" using mkdir_keeps(1) [OF 2(1), of kept b] by simp
      then have "node_at fs q = Some (FileNode b) \<longrightarrow> node_at fs' q = Some (FileNode b)"
        using mkdir_keeps(1) [OF 2(1), of q b] put(1,3) by (cases "q = kept") (simp_all add: node_at_put)
      moreover have "history_numbered base fs'" unfolding put(3) by (rule m(2) [OF put(2)])
      moreover have "e = None \<longrightarrow> node_at fs' kept = Some (FileNode previous)" using put(1,3,4) by (simp add: node_at_put)
      ultimately show ?thesis using 2(2) by blast
    qed
  qed
qed

definition still_held :: "path \<Rightarrow> path \<Rightarrow> bytes \<Rightarrow> filesystem \<Rightarrow> bool" where
  "still_held base q b fs \<longleftrightarrow> node_at fs q = Some (FileNode b)
     \<or> (\<exists>i. node_at fs (history_of base (relative_to base q) @ [version_name (last q) i]) = Some (FileNode b))"

lemma write_target_keeps:
  assumes t: "is_under base target" "target \<noteq> base" "VERSIONS \<notin> set (relative_to base target)" "plain_name (last target)"
    and n: "history_numbered base (ws_fs w)" and q: "node_at (ws_fs w) q = Some (FileNode b)"
    and run: "write_target E base target payload w = (a, w')"
  shows "history_numbered base (ws_fs w') \<and> still_held base q b (ws_fs w')"
proof (cases rule: write_target_steps [of E base target payload w])
  case (same a)
  then show ?thesis using run n q by (simp add: still_held_def)
next
  case new
  then have "write_out E base target payload None w = (a, w')" using run by simp
  from write_out_keeps [OF this t(1-3) n] show ?thesis using q new(1) by (cases "q = target") (auto simp: still_held_def)
next
  case (halt previous e kept fs)
  then show ?thesis using run keep_version_keeps [OF halt(2) t(1,2,4) n] q by (auto simp: still_held_def)
next
  case (over previous kept fs)
  then have out: "write_out E base target payload (Some (previous, kept)) (w\<lparr>ws_fs := fs\<rparr>) = (a, w')" using run by simp
  note k = keep_version_keeps [OF over(2) t(1,2,4) n]
  note o = write_out_keeps [OF out t(1-3)]
  obtain i where i: "kept = history_of base (relative_to base target) @ [version_name (last target) i]" and held: "node_at fs kept = Some (FileNode previous)"
    using k by blast
  have "VERSIONS \<in> set (relative_to base kept)" by (simp add: i history_of_def relative_to_def)
  then have "kept \<noteq> target" using t(3) by blast
  then have kept: "node_at (ws_fs w') kept = Some (FileNode previous)" using o(2) k held by simp
  have "previous = b" if "q = target" using over(1) q that by (simp add: read_bytes_def)
  then have "node_at (ws_fs w') (history_of base (relative_to base q) @ [version_name (last q) i]) = Some (FileNode b)" if "q = target"
    using kept i that by simp
  moreover have "node_at (ws_fs w') q = Some (FileNode b)" if "q \<noteq> target" using o(2) [OF _ that] k q by simp
  ultimately have "still_held base q b (ws_fs w')" unfolding still_held_def by blast
  then show ?thesis using o(1) k by simp
qed

text \<open>C33: Nothing is lost: on a workspace whose history is numbered (no version bears a higher number than there are versions),
  every file that was there is, after \<^verbatim>\<open>write_file\<close>, still what it was or a version in its own history, and the history is still
  numbered, wherever a write fails. The name written must have no wildcard; \<open>bracketed_name_loses_version\<close> shows why.\<close>

theorem nothing_lost:
  assumes n: "history_numbered (fe_real E (workspace_root E)) (ws_fs w)"
    and plain: "case inside E (workspace_root E) path of Some target \<Rightarrow> plain_name (last target) | None \<Rightarrow> True"
    and q: "node_at (ws_fs w) q = Some (FileNode b)"
  shows "history_numbered (fe_real E (workspace_root E)) (ws_fs (snd (write_file E path content w)))
    \<and> still_held (fe_real E (workspace_root E)) q b (ws_fs (snd (write_file E path content w)))"
proof -
  obtain a w' where run: "write_file E path content w = (a, w')" by fastforce
  then have "history_numbered (fe_real E (workspace_root E)) (ws_fs w') \<and> still_held (fe_real E (workspace_root E)) q b (ws_fs w')"
  proof (cases rule: write_file_steps)
    case (no_write e)
    then show ?thesis using mkdir_keeps [OF no_write] n q by (simp add: still_held_def)
  next
    case (written fs target)
    have "VERSIONS \<notin> set (relative_to (fe_real E (workspace_root E)) target)" using written(3) by (auto simp: refused_def)
    then show ?thesis
      using write_target_keeps [OF _ _ _ _ _ _ written(4)] inside_under [OF written(2)] mkdir_keeps [OF written(1)] n q plain written(2) by simp
  qed
  then show ?thesis by (simp add: run)
qed

text \<open>The workspace of the examples: a folder \<^verbatim>\<open>w\<close>, without links, on a disk that writes, whose trail is not kept.\<close>

definition sample_files :: files_env where
  "sample_files = \<lparr>fe_workspace = [], fe_read_only = [], fe_max_read_kb = 512, fe_max_write_kb = 2048, fe_default = [''w''],
     fe_expand = path_parts, fe_real = (\<lambda>p. p), fe_fault = (\<lambda>_ _. None), fe_record = (\<lambda>_ _ tr. (None, tr))\<rparr>"

definition sample_files_world :: "filesystem \<Rightarrow> workspace" where
  "sample_files_world fs = \<lparr>ws_fs = ([''w''], DirNode) # fs, ws_trail = new_trail None\<rparr>"

lemma sample_targets:
  "inside sample_files (workspace_root sample_files) ''a.md'' = Some [''w'', ''a.md'']"
  "inside sample_files (workspace_root sample_files) ''n[1].md'' = Some [''w'', ''n[1].md'']"
  "fe_real sample_files (workspace_root sample_files) = [''w'']"
  by code_simp+

theorem nothing_lost_witness:
  "history_numbered [''w''] (ws_fs (snd (write_file sample_files ''a.md'' ''new'' (sample_files_world [([''w'', ''a.md''], FileNode ''old'')]))))
   \<and> still_held [''w''] [''w'', ''a.md''] ''old'' (ws_fs (snd (write_file sample_files ''a.md'' ''new'' (sample_files_world [([''w'', ''a.md''], FileNode ''old'')]))))"
proof -
  let ?w = "sample_files_world [([''w'', ''a.md''], FileNode ''old'')]"
  have "history_numbered [''w''] (ws_fs ?w)"
    by (simp add: history_numbered_def sample_files_world_def is_file_def node_at_def history_of_def VERSIONS_def)
  moreover have "node_at (ws_fs ?w) [''w'', ''a.md''] = Some (FileNode ''old'')" by (simp add: sample_files_world_def node_at_def)
  ultimately show ?thesis
    using nothing_lost [of sample_files ?w "''a.md''" "[''w'', ''a.md'']" "''old''" "''new''"] by (simp add: sample_targets plain_name_def)
qed

text \<open>A name with a bracket is not plain: its versions do not match the pattern, so the second one is written over the first.\<close>

lemma bracketed_name_loses_version:
  "list_all (\<lambda>(p, n). n \<noteq> FileNode ''a'')
    (snd (snd (keep_version sample_files [''w''] [''w'', ''n[1].md''] ''b''
      (snd (snd (keep_version sample_files [''w''] [''w'', ''n[1].md''] ''a'' [([''w''], DirNode), ([''w'', ''n[1].md''], FileNode ''b'')]))))))"
  by code_simp

end
