(* ===== verification/Sandbox.thy ===== *)
theory Sandbox
  imports File_System Replies
begin

text \<open>
  The sandbox tool, \<^verbatim>\<open>4ce/tools/sandbox.py\<close>: the command that starts the container and its environment, what a run returns, which
  of the files it left are read back, and how they are handed over. Docker itself, the storage of the platform, identifiers and
  media types are arguments; the status events the page shows while a run goes on are left out.
\<close>

section \<open>Settings and surroundings\<close>

text \<open>What a run leaves in the output directory: a file, or a link to a path of this machine.\<close>

datatype left = LeftFile bytes | LeftLink path

datatype docker_run = NotStarted string | Overran | Ended int bytes bytes "(path \<times> left) list"

datatype docker_info = InfoFailed | InfoEnded int bytes bytes

record sandbox_env =
  sb_image :: string
  sb_timeout_seconds :: int
  sb_memory :: string
  sb_cpus :: string
  sb_pids_limit :: int
  sb_output_limit :: int
  sb_output_dir :: string
  sb_max_output_files :: int
  sb_max_output_file_mb :: int
  sb_environ :: "string pydict"
  sb_workdir :: string
  sb_which :: bool
  sb_info :: docker_info
  sb_run :: "string \<Rightarrow> string list \<Rightarrow> string pydict \<Rightarrow> docker_run"
  sb_resolve :: "string \<Rightarrow> string + path"
  sb_fault :: "path \<Rightarrow> bytes \<Rightarrow> bytes option"
  sb_error_text :: "py_error \<Rightarrow> string"
  sb_uuid :: "nat \<Rightarrow> string"
  sb_guess_type :: "string \<Rightarrow> string option"
  sb_store :: "string \<Rightarrow> string \<Rightarrow> string \<Rightarrow> string \<Rightarrow> bytes \<Rightarrow> string + bool"
  sb_record :: "string \<Rightarrow> json pydict \<Rightarrow> audit_trail \<Rightarrow> json pydict option \<times> audit_trail"

record sandbox_world =
  sw_fs :: filesystem
  sw_trail :: audit_trail
  sw_drawn :: nat

section \<open>The container\<close>

definition passthrough :: "string list" where
  "passthrough = [''PATH'', ''HOME'', ''USERPROFILE'', ''DOCKER_HOST'', ''DOCKER_CONTEXT'', ''DOCKER_CONFIG'']"

definition docker_env :: "sandbox_env \<Rightarrow> string pydict" where
  "docker_env E =
     (let env = List.map_filter (\<lambda>name. case map_of (sb_environ E) name of
            Some v \<Rightarrow> if v \<noteq> [] then Some (name, v) else None | None \<Rightarrow> None) passthrough
      in if map_of env ''PATH'' = None then env @ [(''PATH'', [])] else env)"

definition sandbox_command :: "sandbox_env \<Rightarrow> string list" where
  "sandbox_command E =
     [''docker'', ''run'', ''--rm'', ''--network'', ''none'', ''--read-only'', ''--cap-drop'', ''ALL'',
      ''--security-opt'', ''no-new-privileges'', ''--pids-limit'', str_int (sb_pids_limit E), ''--memory'', sb_memory E,
      ''--cpus'', sb_cpus E, ''--tmpfs'', ''/tmp:rw,noexec,nosuid,size=16m'',
      ''-v'', sb_workdir E @ '':/workspace:ro'', ''-v'', sb_workdir E @ ''/output:/output:rw'', ''-w'', ''/workspace'',
      ''--env'', ''PYTHONUNBUFFERED=1'', sb_image E, ''python'', ''main.py'']"

definition docker_available :: "sandbox_env \<Rightarrow> bool \<times> string" where
  "docker_available E =
     (if \<not> sb_which E then (False, ''the `docker` executable is not on PATH'')
      else case sb_info E of
        InfoFailed \<Rightarrow> (False, ''the Docker daemon did not respond'')
      | InfoEnded code out err \<Rightarrow>
          if code \<noteq> 0
          then (False, let why = py_strip (decode_replace err) in if why \<noteq> [] then why else ''the Docker daemon is not running'')
          else (True, py_strip (decode_replace out)))"

section \<open>What a run left\<close>

record produced_file =
  pf_name :: string
  pf_bytes :: bytes
  pf_size :: int
  pf_skipped :: "string list"

text \<open>\<^verbatim>\<open>is_file\<close>, \<^verbatim>\<open>stat\<close> and \<^verbatim>\<open>read_bytes\<close> follow links, on the machine that reads the directory.\<close>

definition read_left :: "filesystem \<Rightarrow> left \<Rightarrow> bytes option" where
  "read_left fs l = (case l of LeftFile b \<Rightarrow> Some b
     | LeftLink p \<Rightarrow> (case node_at fs p of Some (FileNode b) \<Rightarrow> Some b | _ \<Rightarrow> None))"

definition output_files :: "filesystem \<Rightarrow> (path \<times> left) list \<Rightarrow> (path \<times> bytes) list" where
  "output_files fs outputs = sort_key fst (List.map_filter (\<lambda>(p, l). map_option (Pair p) (read_left fs l)) outputs)"

definition over_limit_text :: "string \<Rightarrow> int \<Rightarrow> string" where
  "over_limit_text name n = name @ '' ('' @ str_int (n div (1024 * 1024)) @ '' MB, over the limit)''"

fun collect_files :: "int \<Rightarrow> int \<Rightarrow> (path \<times> bytes) list \<Rightarrow> produced_file list \<Rightarrow> string list \<Rightarrow> produced_file list \<times> string list" where
  "collect_files most cap [] produced skipped = (produced, skipped)"
| "collect_files most cap ((p, data) # files) produced skipped =
     (if most \<le> int (length produced) then collect_files most cap files produced (skipped @ [last p])
      else let sz = int (length data) in
        if cap < sz then collect_files most cap files produced (skipped @ [over_limit_text (last p) sz])
        else collect_files most cap files (produced @ [\<lparr>pf_name = as_posix p, pf_bytes = data, pf_size = sz, pf_skipped = []\<rparr>]) skipped)"

definition collect_outputs :: "sandbox_env \<Rightarrow> filesystem \<Rightarrow> (path \<times> left) list \<Rightarrow> produced_file list" where
  "collect_outputs E fs outputs =
     (case collect_files (sb_max_output_files E) (sb_max_output_file_mb E * 1024 * 1024) (output_files fs outputs) [] [] of
        (produced, skipped) \<Rightarrow> if skipped = [] then produced
          else produced @ [\<lparr>pf_name = [], pf_bytes = [], pf_size = 0, pf_skipped = skipped\<rparr>])"

record sandbox_result =
  sr_exit_code :: "int option"
  sr_stdout :: string
  sr_stderr :: string
  sr_timed_out :: bool
  sr_error :: "string option"
  sr_produced :: "produced_file list"

text \<open>\<^verbatim>\<open>text[:limit]\<close>: a negative limit leaves that many characters off the end.\<close>

definition up_to :: "int \<Rightarrow> string \<Rightarrow> string" where
  "up_to limit s = py_take (if 0 \<le> limit then nat limit else py_len s - nat (- limit)) s"

definition execute_code :: "sandbox_env \<Rightarrow> filesystem \<Rightarrow> string \<Rightarrow> sandbox_result" where
  "execute_code E fs code = (case sb_run E code (sandbox_command E) (docker_env E) of
      NotStarted why \<Rightarrow> \<lparr>sr_exit_code = None, sr_stdout = [], sr_stderr = [], sr_timed_out = False, sr_error = Some why, sr_produced = []\<rparr>
    | Overran \<Rightarrow> \<lparr>sr_exit_code = None, sr_stdout = [], sr_stderr = [], sr_timed_out = True,
        sr_error = Some ''Execution exceeded the time limit'', sr_produced = []\<rparr>
    | Ended rc out err outputs \<Rightarrow> \<lparr>sr_exit_code = Some rc, sr_stdout = up_to (sb_output_limit E) (decode_replace out),
        sr_stderr = up_to (sb_output_limit E) (decode_replace err), sr_timed_out = False, sr_error = None,
        sr_produced = collect_outputs E fs outputs\<rparr>)"

section \<open>Handing the files over\<close>

definition file_name :: "string \<Rightarrow> string" where
  "file_name name = (let parts = path_parts name in if parts = [] then [] else last parts)"

definition show_path :: "path \<Rightarrow> string" where
  "show_path p = ''/'' @ join_with ''/'' p"

text \<open>Where the operator asked for a copy: the directory, or the line that says why it cannot be used.\<close>

definition open_destination :: "sandbox_env \<Rightarrow> filesystem \<Rightarrow> path option \<times> string list \<times> filesystem" where
  "open_destination E fs =
     (let keep = py_strip (sb_output_dir E);
          refused = (\<lambda>why. [''- Could not use the configured output directory `'' @ keep @ ''`: '' @ why])
      in if keep = [] then (None, [], fs)
      else case sb_resolve E keep of
        Inl why \<Rightarrow> (None, refused why, fs)
      | Inr destination \<Rightarrow> (case mkdir destination fs of
          (Some e, fs1) \<Rightarrow> (None, refused (sb_error_text E e), fs1)
        | (None, fs1) \<Rightarrow> (Some destination, [], fs1)))"

definition save_copy :: "sandbox_env \<Rightarrow> path option \<Rightarrow> produced_file \<Rightarrow> filesystem \<Rightarrow> string \<times> filesystem" where
  "save_copy E destination f fs = (case destination of
      None \<Rightarrow> ([], fs)
    | Some dir \<Rightarrow> (let target = dir @ [file_name (pf_name f)] in
        case write_bytes (sb_fault E) target (pf_bytes f) fs of
          (None, fs1) \<Rightarrow> ('' - saved to `'' @ show_path target @ ''`'', fs1)
        | (Some e, fs1) \<Rightarrow> ('' - could not be saved to the output directory: '' @ sb_error_text E e, fs1)))"

definition register_file :: "sandbox_env \<Rightarrow> string option \<Rightarrow> produced_file \<Rightarrow> sandbox_world \<Rightarrow> string \<times> sandbox_world" where
  "register_file E user f w = (case user of
      None \<Rightarrow> ([], w)
    | Some uid \<Rightarrow> if uid = [] then ([], w) else
        (let file_id = sb_uuid E (sw_drawn w); w1 = w\<lparr>sw_drawn := Suc (sw_drawn w)\<rparr>; name = file_name (pf_name f);
             media = (case sb_guess_type E (pf_name f) of Some m \<Rightarrow> m | None \<Rightarrow> ''application/octet-stream'')
         in case sb_store E uid file_id name media (pf_bytes f) of
           Inl why \<Rightarrow> ('' - could not be registered for download: '' @ why, w1)
         | Inr False \<Rightarrow> ([], w1)
         | Inr True \<Rightarrow> ('' - [download](/api/v1/files/'' @ file_id @ ''/content)'',
             w1\<lparr>sw_trail := snd (sb_record E ''file.write'' [(''tool'', JStr ''run_python''), (''file'', JStr name), (''id'', JStr file_id),
               (''sha256'', JStr (sha256_hex (pf_bytes f))), (''bytes'', JInt (int (length (pf_bytes f))))] (sw_trail w1))\<rparr>)))"

definition deliver_file :: "sandbox_env \<Rightarrow> string option \<Rightarrow> path option \<Rightarrow> produced_file \<Rightarrow> sandbox_world \<Rightarrow> string \<times> sandbox_world" where
  "deliver_file E user destination f w =
     (if pf_skipped f \<noteq> [] then (''- Not returned: '' @ join_with '', '' (pf_skipped f), w)
      else case save_copy E destination f (sw_fs w) of (saved, fs) \<Rightarrow>
        (case register_file E user f (w\<lparr>sw_fs := fs\<rparr>) of (link, w1) \<Rightarrow>
          (''- `'' @ pf_name f @ ''` ('' @ str_int (if pf_size f div 1024 \<noteq> 0 then pf_size f div 1024 else 1) @ '' KB)'' @ link @ saved, w1)))"

fun deliver_files :: "sandbox_env \<Rightarrow> string option \<Rightarrow> path option \<Rightarrow> produced_file list \<Rightarrow> sandbox_world \<Rightarrow> string list \<times> sandbox_world" where
  "deliver_files E user destination [] w = ([], w)"
| "deliver_files E user destination (f # files) w = (case deliver_file E user destination f w of (line, w1) \<Rightarrow>
     (case deliver_files E user destination files w1 of (ls, w2) \<Rightarrow> (line # ls, w2)))"

definition deliver :: "sandbox_env \<Rightarrow> string option \<Rightarrow> produced_file list \<Rightarrow> sandbox_world \<Rightarrow> string list \<times> sandbox_world" where
  "deliver E user files w = (case open_destination E (sw_fs w) of (destination, problem, fs) \<Rightarrow>
     (case deliver_files E user destination files (w\<lparr>sw_fs := fs\<rparr>) of (ls, w1) \<Rightarrow>
       (problem @ ls @ (if destination = None \<and> py_strip (sb_output_dir E) = []
          then [[], ''_Set the sandbox tool's `output_dir` valve to also keep these files on this machine._''] else []), w1)))"

section \<open>The tool\<close>

definition unavailable_text :: "string \<Rightarrow> string" where
  "unavailable_text detail =
     ''The sovereign sandbox is unavailable, so this code was NOT executed.'' @ nl2 @ ''Reason: '' @ detail @ nl2 @
     ''The 4CE backend needs the `docker` CLI on its PATH and a reachable daemon. ''
     @ ''Run the backend natively on the host (recommended), or mount the Docker socket '' @ ''into its container.''"

definition section_text :: "string \<Rightarrow> string \<Rightarrow> string list" where
  "section_text label t = (if t \<noteq> [] then [[], ''**'' @ label @ ''**'', ''```'', t, ''```''] else [])"

definition run_report :: "sandbox_env \<Rightarrow> sandbox_result \<Rightarrow> string list" where
  "run_report E r =
     [''### Sandbox execution: '' @ (if sr_exit_code r = Some 0 then ''completed'' else ''failed''), [],
      ''- Image: `'' @ sb_image E @ ''`'',
      ''- Isolation: `--network none`, `--read-only`, `--cap-drop ALL`, `--security-opt no-new-privileges`'',
      ''- Limits: '' @ sb_memory E @ '' memory, '' @ sb_cpus E @ '' CPU, '' @ str_int (sb_pids_limit E) @ '' PIDs, ''
        @ str_int (sb_timeout_seconds E) @ ''s wall clock'',
      ''- Exit code: '' @ (case sr_exit_code r of Some n \<Rightarrow> str_int n | None \<Rightarrow> ''None'')]
     @ (if sr_timed_out r then [''- **Timed out** before completing.''] else [])
     @ (case sr_error r of Some e \<Rightarrow> if e \<noteq> [] then [''- Error: '' @ e] else [] | None \<Rightarrow> [])
     @ section_text ''stdout'' (sr_stdout r) @ section_text ''stderr'' (sr_stderr r)
     @ (if sr_stdout r = [] \<and> sr_stderr r = [] \<and> sr_produced r = [] then [[], ''The program produced no output.''] else [])"

definition run_python :: "sandbox_env \<Rightarrow> string option \<Rightarrow> string \<Rightarrow> sandbox_world \<Rightarrow> string \<times> sandbox_world" where
  "run_python E user code w =
     (if py_strip code = [] then (''No code was supplied to execute.'', w)
      else case docker_available E of
        (False, detail) \<Rightarrow> (unavailable_text detail, w)
      | (True, _) \<Rightarrow>
          (let r = execute_code E (sw_fs w) code; report = run_report E r in
           if sr_produced r = [] then (join_with nl report, w)
           else case deliver E user (sr_produced r) w of (ls, w1) \<Rightarrow>
             (join_with nl (report @ [[], ''**Files produced**'', []] @ ls), w1)))"

section \<open>What is read back\<close>

definition read_back_from :: "int \<Rightarrow> (path \<times> bytes) list \<Rightarrow> produced_file \<Rightarrow> bool" where
  "read_back_from cap files f \<longleftrightarrow> pf_skipped f = [] \<and> pf_size f \<le> cap
     \<and> list_ex (\<lambda>(p, data). pf_name f = as_posix p \<and> pf_bytes f = data \<and> pf_size f = int (length data)) files"

lemma read_back_from_more: "read_back_from cap files f \<Longrightarrow> read_back_from cap (x # files) f"
  by (simp add: read_back_from_def)

lemma collect_files_sound:
  "collect_files most cap files produced skipped = (P, S) \<Longrightarrow>
     length P + length S = length files + length produced + length skipped
     \<and> (int (length produced) \<le> max 0 most \<longrightarrow> int (length P) \<le> max 0 most)
     \<and> (\<forall>f \<in> set P. f \<in> set produced \<or> read_back_from cap files f)"
proof (induction most cap files produced skipped rule: collect_files.induct)
  case (1 most cap produced skipped)
  then show ?case by simp
next
  case (2 most cap p data files produced skipped)
  let ?f = "\<lparr>pf_name = as_posix p, pf_bytes = data, pf_size = int (length data), pf_skipped = []\<rparr>"
  have f: "read_back_from cap ((p, data) # files) ?f" if "int (length data) \<le> cap"
    using that by (simp add: read_back_from_def)
  consider (full) "most \<le> int (length produced)" | (large) "\<not> most \<le> int (length produced)" "cap < int (length data)"
    | (fits) "\<not> most \<le> int (length produced)" "\<not> cap < int (length data)" by blast
  then show ?case
  proof cases
    case full
    then show ?thesis using 2(1) 2(4) read_back_from_more by fastforce
  next
    case large
    then show ?thesis using 2(2) 2(4) read_back_from_more by fastforce
  next
    case fits
    then show ?thesis using 2(3) 2(4) read_back_from_more f by fastforce
  qed
qed


text \<open>A link is read where it points, on this machine: what the run could not read comes back as its output.\<close>

lemma link_reads_host_file:
  "node_at fs t = Some (FileNode b) \<Longrightarrow> 0 < sb_max_output_files E \<Longrightarrow> int (length b) \<le> sb_max_output_file_mb E * 1024 * 1024
   \<Longrightarrow> collect_outputs E fs [(p, LeftLink t)] = [\<lparr>pf_name = as_posix p, pf_bytes = b, pf_size = int (length b), pf_skipped = []\<rparr>]"
  by (simp add: collect_outputs_def output_files_def read_left_def List.map_filter_def)

section \<open>Where copies go\<close>

text \<open>Directories on the way to the destination, and files directly in it.\<close>

definition filled :: "path \<Rightarrow> filesystem \<Rightarrow> filesystem \<Rightarrow> bool" where
  "filled dir fs fs' \<longleftrightarrow> (\<forall>p. node_at fs' p = node_at fs p \<or> (p \<noteq> [] \<and> butlast p = dir \<and> node_at fs p \<noteq> Some DirNode)
     \<or> (node_at fs p = None \<and> node_at fs' p = Some DirNode \<and> is_under p dir))"

lemma filled_write: "write_bytes fault (dir @ [name]) b fs = (e, fs') \<Longrightarrow> filled dir fs fs'"
  by (erule write_bytes_cases) (auto simp: filled_def node_at_put is_dir_def)

lemma filled_mkdir: "mkdir dir fs = (e, fs') \<Longrightarrow> filled dir fs fs'"
  by (drule mkdir_added) (unfold filled_def dirs_added_def, blast)

lemma filled_trans:
  assumes "filled dir fs fs1" "filled dir fs1 fs2"
  shows "filled dir fs fs2"
  unfolding filled_def
proof
  fix p
  show "node_at fs2 p = node_at fs p \<or> (p \<noteq> [] \<and> butlast p = dir \<and> node_at fs p \<noteq> Some DirNode)
     \<or> (node_at fs p = None \<and> node_at fs2 p = Some DirNode \<and> is_under p dir)"
    using assms [unfolded filled_def, rule_format, of p] by auto
qed

lemma save_copy_fs:
  "save_copy E destination f fs = (t, fs') \<Longrightarrow> (case destination of None \<Rightarrow> fs' = fs | Some dir \<Rightarrow> filled dir fs fs')"
  by (auto simp: save_copy_def Let_def split: prod.splits option.splits dest: filled_write)

lemma register_file_fs: "register_file E user f w = (t, w') \<Longrightarrow> sw_fs w' = sw_fs w"
  by (auto simp: register_file_def Let_def split: if_splits option.splits sum.splits bool.splits)

lemma filled_refl: "filled dir fs fs"
  by (simp add: filled_def)

lemma deliver_file_fs:
  assumes "deliver_file E user destination f w = (line, w')"
  shows "case destination of None \<Rightarrow> sw_fs w' = sw_fs w | Some dir \<Rightarrow> filled dir (sw_fs w) (sw_fs w')"
proof (cases "pf_skipped f = []")
  case True
  obtain t fs where 1: "save_copy E destination f (sw_fs w) = (t, fs)" by fastforce
  obtain l w1 where 2: "register_file E user f (w\<lparr>sw_fs := fs\<rparr>) = (l, w1)" by fastforce
  have "w' = w1" using assms True 1 2 by (simp add: deliver_file_def)
  then show ?thesis using save_copy_fs [OF 1] register_file_fs [OF 2] by (cases destination) auto
next
  case False
  then show ?thesis using assms by (auto simp: deliver_file_def filled_refl split: option.splits)
qed

lemma deliver_files_fs:
  "deliver_files E user destination files w = (ls, w')
   \<Longrightarrow> (case destination of None \<Rightarrow> sw_fs w' = sw_fs w | Some dir \<Rightarrow> filled dir (sw_fs w) (sw_fs w'))"
proof (induction files arbitrary: w ls w')
  case Nil
  then show ?case by (auto simp: filled_refl split: option.splits)
next
  case (Cons f files)
  obtain line w1 where 1: "deliver_file E user destination f w = (line, w1)" by fastforce
  obtain ls2 w2 where 2: "deliver_files E user destination files w1 = (ls2, w2)" by fastforce
  show ?case
    using Cons.prems deliver_file_fs [OF 1] Cons.IH [OF 2] 1 2 by (auto split: option.splits intro: filled_trans)
qed

lemma deliver_fs:
  "deliver E user files w = (ls, w') \<Longrightarrow> sw_fs w' = sw_fs w
     \<or> (case sb_resolve E (py_strip (sb_output_dir E)) of Inl _ \<Rightarrow> False | Inr dir \<Rightarrow> filled dir (sw_fs w) (sw_fs w'))"
proof -
  assume run: "deliver E user files w = (ls, w')"
  obtain destination problem fs where 1: "open_destination E (sw_fs w) = (destination, problem, fs)" by (metis prod_cases3)
  obtain ls1 w1 where 2: "deliver_files E user destination files (w\<lparr>sw_fs := fs\<rparr>) = (ls1, w1)" by fastforce
  have w: "w' = w1" using run by (simp add: deliver_def 1 2)
  have opened: "destination = None \<and> fs = sw_fs w \<or> (\<exists>dir. sb_resolve E (py_strip (sb_output_dir E)) = Inr dir \<and> filled dir (sw_fs w) fs
      \<and> (destination = None \<or> destination = Some dir))"
    using 1 by (auto simp: open_destination_def Let_def split: if_splits sum.splits prod.splits option.splits dest!: filled_mkdir)
  show ?thesis
    using deliver_files_fs [OF 2] opened by (auto simp: w split: sum.splits option.splits intro: filled_trans)
qed


section \<open>A sample run\<close>

text \<open>Copies go to \<^verbatim>\<open>/out\<close>; nobody is signed in, so nothing is registered.\<close>

definition sample_sandbox :: sandbox_env where
  "sample_sandbox = \<lparr>sb_image = ''python:3.12-alpine'', sb_timeout_seconds = 30, sb_memory = ''256m'', sb_cpus = ''1.0'', sb_pids_limit = 64,
     sb_output_limit = 20000, sb_output_dir = ''/out'', sb_max_output_files = 20, sb_max_output_file_mb = 10, sb_environ = [], sb_workdir = ''/tmp/run'',
     sb_which = True, sb_info = InfoEnded 0 ''27'' [], sb_run = (\<lambda>_ _ _. Overran), sb_resolve = (\<lambda>s. Inr (path_parts s)), sb_fault = (\<lambda>_ _. None),
     sb_error_text = (\<lambda>_. ''error''), sb_uuid = str_nat, sb_guess_type = (\<lambda>_. None), sb_store = (\<lambda>_ _ _ _ _. Inr True),
     sb_record = (\<lambda>_ _ tr. (None, tr))\<rparr>"

text \<open>
  Two files of one name in different directories: both lines say where the file was saved, and it is the same place, so only the
  second is kept.
\<close>

lemma same_name_overwritten:
  "case deliver sample_sandbox None (collect_outputs sample_sandbox [] [([''a'', ''x.csv''], LeftFile ''1''), ([''b'', ''x.csv''], LeftFile ''2'')])
      \<lparr>sw_fs = [], sw_trail = new_trail None, sw_drawn = 0\<rparr> of
    (ls, w) \<Rightarrow> ls = [''- `a/x.csv` (1 KB) - saved to `/out/x.csv`'', ''- `b/x.csv` (1 KB) - saved to `/out/x.csv`'']
      \<and> sw_fs w = [([''out'', ''x.csv''], FileNode ''2''), ([''out''], DirNode)]"
  by code_simp

end
