(* ===== verification/Spec2Isabelle.thy ===== *)
theory Spec2Isabelle
  imports Chain_Release Remaining_Life Rule_Pack Calibration Sovereignty Outcome Workspace_Files Sandbox
begin

text \<open>
  A verification development of 4CE, the multi-agent workbench of this repository: a request goes through a chain of agents
  (FRIDAY analyses, JARVIS drafts, ULTRON challenges), deterministic tools do the arithmetic and the comparison with the plant's
  rules, a reviewer approves or rejects the result, an audit trail records every step in a chain of hashes, and a watch counts
  the connections the workbench opens. The code is \<^verbatim>\<open>4ce/functions/orchestrator.py\<close>, \<^verbatim>\<open>4ce/tools\<close> and the \<^verbatim>\<open>fource_*\<close>
  modules of \<^verbatim>\<open>backend/open_webui/utils\<close>.

  \<^bold>\<open>Python.\<close> What the program uses of the language and its standard library is modelled first, executable and down to the byte.
  Prelude and Py_Text: strings as UTF-8, dictionaries as association lists in insertion order, formatting. Py_Float,
  Py_Float_Text and Py_Float_Ops: doubles as rationals with rounding to nearest even, the signed zero, infinities and
  not-a-number, \<^verbatim>\<open>repr\<close> and \<^verbatim>\<open>float\<close>. Json and Json_Roundtrip: \<^verbatim>\<open>json.dumps\<close> and \<^verbatim>\<open>json.loads\<close>. Sha256. Regex: a
  parser of patterns and a backtracking matcher. Difflib: \<^verbatim>\<open>SequenceMatcher\<close>. Ip_Address: \<^verbatim>\<open>ipaddress\<close> and
  \<^verbatim>\<open>urlparse\<close>. Py_Date: \<^verbatim>\<open>datetime.date\<close> and its ordinals, with the order of dates shown to be that of the ordinals.

  \<^bold>\<open>The audit trail\<close> (\<^verbatim>\<open>fource_audit.py\<close>). Audit_Trail holds the object's fields and the bytes of its file, and a definition per
  method; the lock makes a method atomic. Audit_Chain states what \<^verbatim>\<open>verify\<close> accepts as an index-wise specification, \<open>linked\<close>,
  and derives tamper evidence in the locale \<open>hash_chain\<close>, interpreted on the entries; that two different entries do not
  collide under SHA-256 is a hypothesis there. Audit_Append shows that appends, failed writes and restarts keep the file
  verifiable, that nothing already written changes, and that the backwards reader finds the last line.

  \<^bold>\<open>The parts of the orchestrator that only compute.\<close> Intent: what a request is. Router: the registry and the model of a task and of
  an agent. Replies: what a model's answer and its errors become. Citations: numbered sources. Verdicts: ULTRON's verdict and the
  checks the program makes itself. Survey: thickness surveys and the columns added to them. Artifacts: files of an answer. Vision: the
  reading pass over an image. Provenance: receipt, revision, what the reviewer sees, the record of a stopped run.

  \<^bold>\<open>A run of the chain.\<close> Chain_World gives the run state (world, audit trail, timeline, steps, log of what was done to the outside)
  and the calls every stage makes; the outside is a record of functions over an arbitrary world, and each awaited call returns,
  raises or is cancelled. Chain_Tools, Chain_Draft and Chain_Release follow \<^verbatim>\<open>_run_chain\<close> and \<^verbatim>\<open>pipe\<close> in the order of the code.
  A property of whole runs is a preorder on run states that every call respects. The locales say which calls those are:
  \<open>run_preorder\<close> (closed under the control flow), \<open>run_quiet\<close> (status, audit and tool calls), \<open>run_frame\<close> (model calls),
  \<open>run_writing\<close> (writes of files and releases), \<open>run_whole\<close> (all of them). They are interpreted as \<open>unreleased\<close>, \<open>uncalled\<close>,
  \<open>replayed\<close>, \<open>extended\<close>, \<open>guarded\<close>, \<open>sealing\<close> and \<open>story\<close>; the properties about approval, about the trail a run leaves, about
  the number of model calls and about stopped runs rest on these.

  \<^bold>\<open>The tools.\<close> Remaining_Life (\<^verbatim>\<open>tools/calculations.py\<close>): the request or survey table is read to rows, each row to a rate, a
  life and the next measurement in double arithmetic. Rule_Pack (\<^verbatim>\<open>tools/sop_check.py\<close>): the built-in pack is written out with
  its patterns; its five rules are shown never to raise (a pattern whose first group takes part in every match is recognised by
  \<open>captures\<close> of Regex), and the disposition to be the worst of the findings. Calibration (\<^verbatim>\<open>tools/calibration.py\<close>): a register is read
  from tables or a sentence, each instrument is placed in time and its error compared with its tolerance; \<open>earned\<close> says from the
  instrument alone when it counts as current, \<open>defended\<close> what a due date must satisfy, and the headings are matched by a greedy
  choice that is shown to be one to one and stable under the ranking.

  \<^bold>\<open>The egress watch\<close> (\<^verbatim>\<open>fource_egress.py\<close>), in Egress. The two threads meet at a lock, so a block under the lock is one action and
  the sampler's values between two blocks are its phase; \<open>watch_act\<close> is one action, \<open>watched\<close> a sequence of them in any
  order. The invariant \<open>watch_ok\<close> holds after every sequence, and \<open>ahead\<close> is what no action but a reset takes back; what a run
  reports of the connections it made rests on these two. Socket and process tables are arguments.

  \<^bold>\<open>The sovereignty audit and the chat list.\<close> Sovereignty (\<^verbatim>\<open>tools/sovereignty.py\<close>) judges every configured surface and sets the result
  beside a snapshot of the egress watch; its verdict rests on \<open>external_counted\<close> and \<open>ahead\<close> of Egress, so that a sampled connection
  keeps it from PASS. Outcome (\<^verbatim>\<open>utils/fource.py\<close>) labels a stored chat of any shape; its walk over the messages ends by the number
  of ids not yet seen.

  \<^bold>\<open>Files and containers.\<close> File_System is a file system of files and directories with writes that may fail; Workspace_Files
  (\<^verbatim>\<open>tools/files.py\<close>) reads, lists and writes inside one folder, and keeps what it overwrites under the next number: \<open>history_numbered\<close>
  is the invariant, \<open>still_held\<close> what it gives. The pattern the versions are counted with is matched by \<open>fnmatch\<close>. Sandbox
  (\<^verbatim>\<open>tools/sandbox.py\<close>) builds the command of the container, reads back what a run left, links included, and delivers it.

  \<^bold>\<open>Fuel and termination.\<close> The JSON reader has fuel twice the number of bytes plus two, enough for what the writer writes
  (\<open>parse_dumps\<close>), and more never changes an answer (\<open>parse_fuel\<close>). The drafting loop has fuel two, all it ever takes
  (\<open>rounds_fuel\<close>). A repetition in a pattern has a round more than the text ahead and the required rounds; each further round consumes
  something. The list of matches has fuel twice the text's length plus two. Every other loop ends by its measure.

  \<^bold>\<open>Limits.\<close> Case mapping and white space are those of ASCII (letters also of Latin, Greek and Cyrillic where the text says so). Memory,
  recursion depth and the order of iteration of a set are not modelled; a set that is iterated is a list. A malformed answer of the model
  server is modelled in the shapes the code distinguishes. In the sop check a pattern of a custom rule pack is taken to
  capture a number in its first group, or to have no group; decoding the pack from the JSON of the valve is a parameter. A process
  answers \<^verbatim>\<open>name()\<close> at most twice while the scope is gathered, and both answers are modelled. Pillow, \<^verbatim>\<open>ast.parse\<close>, Unicode
  normalisation, Docker, how paths resolve through links, and everything the orchestrator awaits are parameters.

  \<^bold>\<open>Not modelled.\<close> The Open WebUI platform 4CE runs in (web framework, database, retrieval). The tools that write Office
  documents and workbooks through third-party packages (\<^verbatim>\<open>deliverables\<close>, \<^verbatim>\<open>sheets\<close>). Of the
  sovereignty page only the audit and reset routes; the import guard of \<^verbatim>\<open>fource_offline.py\<close>. Installation and evaluation scripts.
\<close>

end
